(* ===== verification/Prelude.thy ===== *)
theory Prelude
  imports Main "HOL-Library.Char_ord" "HOL-Library.List_Lexorder" "HOL-Library.Product_Lexorder"
    "HOL-Library.Sublist" "HOL-Library.Multiset"
begin

text \<open>
  Shared vocabulary of the development: the part of the JavaScript standard library that the
  modelled sources call on strings and arrays, as executable HOL functions, with the generic
  lemmas the component theories use.

  Strings. A JavaScript string is represented by its UTF-8 bytes, a \<^typ>\<open>char list\<close>.
  Operations that search for, split at or compare text agree with the source on every string;
  operations that count or index code units (\<open>length\<close>, \<open>slice\<close>, \<open>charAt\<close>) agree with it on
  ASCII text. White space (\<open>trim\<close>, \<open>\s\<close>) is the ASCII white space; the Unicode spaces
  beyond ASCII are ordinary characters here.

  Numbers that the sources only use as counts or codes are \<^typ>\<open>nat\<close> or \<^typ>\<open>int\<close>.
\<close>

named_theorems js_string \<open>definitions of the string operations, unfolded on concrete input\<close>

named_theorems js_ascii \<open>character classes on concrete characters\<close>

type_synonym jsstring = string

section \<open>Character classes\<close>

text \<open>ASCII white space: tab, line feed, vertical tab, form feed, carriage return, space.\<close>

definition is_ws :: "char \<Rightarrow> bool" where
  [js_ascii]: "is_ws c \<longleftrightarrow> c = CHR '' '' \<or> c = CHR 0x09 \<or> c = CHR 0x0A \<or> c = CHR 0x0B \<or>
     c = CHR 0x0C \<or> c = CHR 0x0D"

text \<open>The class \<open>\d\<close>.\<close>

definition is_digit :: "char \<Rightarrow> bool" where
  "is_digit c \<longleftrightarrow> 48 \<le> (of_char c :: nat) \<and> (of_char c :: nat) \<le> 57"

definition digit_value :: "char \<Rightarrow> nat" where
  "digit_value c = of_char c - 48"

definition digit_char :: "nat \<Rightarrow> char" where
  "digit_char n = char_of (48 + n)"

lemma of_digit_char: "n < 10 \<Longrightarrow> (of_char (digit_char n) :: nat) = 48 + n"
  by (simp add: digit_char_def)

lemma is_digit_digit_char [simp]: "n < 10 \<Longrightarrow> is_digit (digit_char n)"
  by (simp add: is_digit_def of_digit_char)

lemma digit_value_digit_char [simp]: "n < 10 \<Longrightarrow> digit_value (digit_char n) = n"
  by (simp add: digit_value_def of_digit_char)

lemma is_digit_not_ws [simp]: "is_digit c \<Longrightarrow> \<not> is_ws c"
  by (auto simp: is_digit_def is_ws_def)

lemma is_digit_neq [simp]:
  "is_digit c \<Longrightarrow> c \<noteq> CHR '',''" "is_digit c \<Longrightarrow> c \<noteq> CHR ''-''"
  "is_digit c \<Longrightarrow> c \<noteq> CHR 0xEF"
  by (auto simp: is_digit_def)

section \<open>Trimming\<close>

text \<open>\<open>String.prototype.trim\<close>.\<close>

definition js_trim :: "jsstring \<Rightarrow> jsstring" where
  [js_string]: "js_trim s = rev (dropWhile is_ws (rev (dropWhile is_ws s)))"

text \<open>A string that neither starts nor ends with white space is its own trimmed form.\<close>

definition trimmed :: "jsstring \<Rightarrow> bool" where
  "trimmed s \<longleftrightarrow> s = [] \<or> (\<not> is_ws (hd s) \<and> \<not> is_ws (last s))"

lemma js_trim_Nil [simp]: "js_trim [] = []"
  by (simp add: js_trim_def)

lemma dropWhile_ws_id: "s = [] \<or> \<not> is_ws (hd s) \<Longrightarrow> dropWhile is_ws s = s"
  by (cases s) auto

lemma js_trim_trimmed: "trimmed s \<Longrightarrow> js_trim s = s"
  by (cases "s = []") (auto simp: js_trim_def trimmed_def dropWhile_ws_id hd_rev)

lemma dropWhile_not_hd: "dropWhile P s = [] \<or> \<not> P (hd (dropWhile P s))"
  using hd_dropWhile by blast

lemma trimmed_js_trim [simp]: "trimmed (js_trim s)"
proof -
  define t where "t = dropWhile is_ws s"
  define u where "u = dropWhile is_ws (rev t)"
  obtain v where v: "rev t = v @ u"
    unfolding u_def by (metis takeWhile_dropWhile_id)
  have hu: "u = [] \<or> \<not> is_ws (hd u)"
    unfolding u_def by (rule dropWhile_not_hd)
  have ht: "t = [] \<or> \<not> is_ws (hd t)"
    unfolding t_def by (rule dropWhile_not_hd)
  have "js_trim s = rev u" by (simp add: js_trim_def t_def u_def)
  moreover have "u \<noteq> [] \<Longrightarrow> \<not> is_ws (last u)"
  proof -
    assume "u \<noteq> []"
    with v have "t \<noteq> []" and "last u = hd t"
      by (auto simp: last_rev [symmetric])
    with ht show ?thesis by simp
  qed
  ultimately show ?thesis using hu by (auto simp: trimmed_def hd_rev last_rev)
qed

lemma js_trim_idem [simp]: "js_trim (js_trim s) = js_trim s"
  by (rule js_trim_trimmed) simp

lemma js_trim_eq_Nil: "js_trim s = [] \<longleftrightarrow> list_all is_ws s"
proof
  assume a: "js_trim s = []"
  show "list_all is_ws s"
  proof (cases "dropWhile is_ws s = []")
    case False
    with a have "is_ws (hd (dropWhile is_ws s))" by (auto simp: js_trim_def)
    with False show ?thesis using dropWhile_not_hd [of is_ws s] by blast
  qed (auto simp: list_all_iff)
next
  assume "list_all is_ws s"
  then have "dropWhile is_ws s = []" by (simp add: list_all_iff dropWhile_eq_Nil_conv)
  then show "js_trim s = []" by (simp only: js_trim_def rev.simps dropWhile.simps)
qed

lemma set_js_trim: "set (js_trim s) \<subseteq> set s"
  by (auto simp: js_trim_def dest!: set_dropWhileD)

lemma trimmed_no_ws: "list_all (\<lambda>c. \<not> is_ws c) s \<Longrightarrow> trimmed s"
  by (auto simp: trimmed_def list_all_iff)

lemma js_trim_no_ws: "list_all (\<lambda>c. \<not> is_ws c) s \<Longrightarrow> js_trim s = s"
  by (simp add: js_trim_trimmed trimmed_no_ws)

section \<open>Splitting and joining\<close>

text \<open>\<open>s.split(c)\<close> for a separator of one character: always at least one part.\<close>

fun split_on :: "char \<Rightarrow> jsstring \<Rightarrow> jsstring list" where
  "split_on c [] = [[]]"
| "split_on c (x # xs) =
     (if x = c then [] # split_on c xs
      else (case split_on c xs of [] \<Rightarrow> [[x]] | y # ys \<Rightarrow> (x # y) # ys))"

text \<open>\<open>parts.join(sep)\<close>.\<close>

fun js_join :: "jsstring \<Rightarrow> jsstring list \<Rightarrow> jsstring" where
  "js_join sep [] = []"
| "js_join sep [x] = x"
| "js_join sep (x # y # ys) = x @ sep @ js_join sep (y # ys)"

lemma split_on_nonempty [simp]: "split_on c s \<noteq> []"
  by (induction s) (auto split: list.splits)

lemma split_on_no_sep: "c \<notin> set s \<Longrightarrow> split_on c s = [s]"
  by (induction s) auto

lemma split_on_append_sep: "c \<notin> set s \<Longrightarrow> split_on c (s @ c # t) = s # split_on c t"
  by (induction s) auto

lemma split_on_join:
  "xs \<noteq> [] \<Longrightarrow> \<forall>x \<in> set xs. c \<notin> set x \<Longrightarrow> split_on c (js_join [c] xs) = xs"
proof (induction "[c]" xs rule: js_join.induct)
  case (2 x)
  then show ?case by (simp add: split_on_no_sep)
next
  case (3 x y ys)
  then show ?case by (simp add: split_on_append_sep)
qed simp

lemma join_split_on: "js_join [c] (split_on c s) = s"
proof (induction s)
  case (Cons x xs)
  obtain y ys where yy: "split_on c xs = y # ys"
    using split_on_nonempty by (metis list.exhaust)
  with Cons.IH show ?case by (cases ys) auto
qed simp

lemma split_on_parts_no_sep: "p \<in> set (split_on c s) \<Longrightarrow> c \<notin> set p"
  by (induction s arbitrary: p) (auto split: if_splits list.splits)

lemma js_join_Nil_iff: "sep \<noteq> [] \<Longrightarrow> \<forall>x \<in> set xs. x \<noteq> [] \<Longrightarrow> js_join sep xs = [] \<longleftrightarrow> xs = []"
  by (induction sep xs rule: js_join.induct) auto

lemma set_js_join: "set (js_join sep xs) \<subseteq> set sep \<union> \<Union> (set ` set xs)"
  by (induction sep xs rule: js_join.induct) auto

lemma hd_js_join: "xs \<noteq> [] \<Longrightarrow> hd xs \<noteq> [] \<Longrightarrow> hd (js_join sep xs) = hd (hd xs)"
  by (cases "(sep, xs)" rule: js_join.cases) auto

lemma last_js_join:
  "xs \<noteq> [] \<Longrightarrow> \<forall>x \<in> set xs. x \<noteq> [] \<Longrightarrow> last (js_join sep xs) = last (last xs)"
proof (induction sep xs rule: js_join.induct)
  case (3 sep x y ys)
  then have "js_join sep (y # ys) \<noteq> []" by (cases ys) auto
  with 3 show ?case by auto
qed auto

lemma trimmed_js_join:
  assumes "\<forall>x \<in> set xs. x \<noteq> [] \<and> trimmed x"
  shows "trimmed (js_join sep xs)"
proof (cases "xs = []")
  case False
  then have "hd xs \<in> set xs" "last xs \<in> set xs" by simp_all
  with assms False show ?thesis
    by (auto simp: trimmed_def hd_js_join last_js_join)
qed (simp add: trimmed_def)

text \<open>Replacing every occurrence of a literal, \<open>s.replace(/lit/g, rep)\<close>.\<close>

function replace_all :: "jsstring \<Rightarrow> jsstring \<Rightarrow> jsstring \<Rightarrow> jsstring" where
  "replace_all pat rep s =
     (case s of [] \<Rightarrow> []
      | c # cs \<Rightarrow>
          if pat \<noteq> [] \<and> take (length pat) s = pat
          then rep @ replace_all pat rep (drop (length pat) s)
          else c # replace_all pat rep cs)"
  by pat_completeness auto
termination
  by (relation "measure (\<lambda>(pat, rep, s). length s)") auto

declare replace_all.simps [simp del]

lemma replace_all_absent: "pat \<noteq> [] \<Longrightarrow> hd pat \<notin> set s \<Longrightarrow> replace_all pat rep s = s"
proof (induction s)
  case (Cons c cs)
  then have "take (length pat) (c # cs) \<noteq> pat" by (cases pat) auto
  with Cons show ?case by (subst replace_all.simps) auto
qed (simp add: replace_all.simps)

text \<open>\<open>s.includes(l)\<close>\<close>

definition js_includes :: "jsstring \<Rightarrow> jsstring \<Rightarrow> bool" where
  "js_includes s l \<longleftrightarrow> list_ex (\<lambda>t. take (length l) t = l) (suffixes s)"

text \<open>\<open>toLowerCase\<close> on ASCII letters.\<close>

definition to_lower :: "char \<Rightarrow> char" where
  "to_lower c = (if CHR ''A'' \<le> c \<and> c \<le> CHR ''Z'' then char_of ((of_char c :: nat) + 32) else c)"

text \<open>\<open>toUpperCase\<close> on ASCII letters.\<close>

definition to_upper :: "char \<Rightarrow> char" where
  "to_upper c = (if CHR ''a'' \<le> c \<and> c \<le> CHR ''z'' then char_of ((of_char c :: nat) - 32) else c)"

text \<open>The middle dot between two texts of a summary, as UTF-8 bytes.\<close>

definition middle_dot :: jsstring where
  "middle_dot = [CHR '' '', CHR 0xC2, CHR 0xB7, CHR '' '']"

section \<open>Sets of strings: \<open>Array.from(new Set(xs))\<close>\<close>

text \<open>A \<open>Set\<close> enumerates its members in the order of first insertion.\<close>

definition uniq :: "'a list \<Rightarrow> 'a list" where
  "uniq xs = rev (remdups (rev xs))"

lemma set_uniq [simp]: "set (uniq xs) = set xs"
  by (simp add: uniq_def)

lemma distinct_uniq [simp]: "distinct (uniq xs)"
  by (simp add: uniq_def)

lemma uniq_Nil [simp]: "uniq [] = []"
  by (simp add: uniq_def)

lemma uniq_eq_Nil [simp]: "uniq xs = [] \<longleftrightarrow> xs = []"
  by (simp add: uniq_def)

lemma uniq_distinct: "distinct xs \<Longrightarrow> uniq xs = xs"
  by (simp add: uniq_def distinct_remdups_id)

lemma uniq_idem [simp]: "uniq (uniq xs) = uniq xs"
  by (simp add: uniq_distinct)

lemma uniq_snoc: "uniq (xs @ [x]) = (if x \<in> set xs then uniq xs else uniq xs @ [x])"
  by (simp add: uniq_def)

lemma length_uniq_le: "length (uniq xs) \<le> length xs"
  by (simp add: uniq_def) (metis length_remdups_leq length_rev)

lemma in_map_filter: "y \<in> set (List.map_filter f xs) \<longleftrightarrow> (\<exists>x \<in> set xs. f x = Some y)"
  by (induction xs) (auto split: option.splits)

section \<open>Decimal integers\<close>

text \<open>\<open>Number.parseInt(s, 10)\<close> on a string of digits, and the decimal text of a number.\<close>

definition parse_digits :: "jsstring \<Rightarrow> nat" where
  "parse_digits s = foldl (\<lambda>n c. 10 * n + digit_value c) 0 s"

fun show_nat :: "nat \<Rightarrow> jsstring" where
  "show_nat n = (if n < 10 then [digit_char n] else show_nat (n div 10) @ [digit_char (n mod 10)])"

declare show_nat.simps [simp del]

lemma parse_digits_snoc: "parse_digits (s @ [c]) = 10 * parse_digits s + digit_value c"
  by (simp add: parse_digits_def)

lemma show_nat_props: "show_nat n \<noteq> [] \<and> list_all is_digit (show_nat n) \<and> parse_digits (show_nat n) = n"
proof (induction n rule: show_nat.induct)
  case (1 n)
  show ?case
  proof (cases "n < 10")
    case True
    then show ?thesis by (subst (1 2 3) show_nat.simps) (simp add: parse_digits_def)
  next
    case False
    with 1 show ?thesis by (subst (1 2 3) show_nat.simps) (simp add: parse_digits_snoc)
  qed
qed

lemma show_nat_nonempty [simp]: "show_nat n \<noteq> []"
  and show_nat_digits [simp]: "list_all is_digit (show_nat n)"
  and parse_show_nat [simp]: "parse_digits (show_nat n) = n"
  using show_nat_props by auto

lemma show_nat_inj [simp]: "show_nat m = show_nat n \<longleftrightarrow> m = n"
  by (metis parse_show_nat)

lemma digits_no_ws: "list_all is_digit s \<Longrightarrow> list_all (\<lambda>c. \<not> is_ws c) s"
  by (auto simp: list_all_iff)

lemma digits_notin [simp]:
  "list_all is_digit s \<Longrightarrow> CHR '','' \<notin> set s" "list_all is_digit s \<Longrightarrow> CHR ''-'' \<notin> set s"
  "list_all is_digit s \<Longrightarrow> CHR 0xEF \<notin> set s"
  using is_digit_neq by (fastforce simp: list_all_iff)+

section \<open>Normal forms\<close>

text \<open>
  The contract of a normalising function: on the inputs that satisfy \<open>inv\<close> it returns a
  canonical value with the same abstract meaning, and a meaning has at most one canonical value.
  Then normalising is idempotent and decides equality of meanings.
\<close>

locale normal_form =
  fixes inv :: "'a \<Rightarrow> bool"
    and norm :: "'a \<Rightarrow> 'a"
    and canon :: "'a \<Rightarrow> bool"
    and meaning :: "'a \<Rightarrow> 'b"
  assumes canon_norm: "inv x \<Longrightarrow> canon (norm x)"
    and meaning_norm: "inv x \<Longrightarrow> meaning (norm x) = meaning x"
    and canon_unique: "canon x \<Longrightarrow> canon y \<Longrightarrow> meaning x = meaning y \<Longrightarrow> x = y"
    and canon_inv: "canon x \<Longrightarrow> inv x"
begin

lemma norm_canon: "canon x \<Longrightarrow> norm x = x"
  by (rule canon_unique) (simp_all add: canon_norm meaning_norm canon_inv)

lemma norm_idem: "inv x \<Longrightarrow> norm (norm x) = norm x"
  by (simp add: norm_canon canon_norm)

lemma norm_eq_iff: "inv x \<Longrightarrow> inv y \<Longrightarrow> norm x = norm y \<longleftrightarrow> meaning x = meaning y"
  by (metis canon_norm canon_unique meaning_norm)

end

section \<open>Codecs\<close>

text \<open>
  The contract of a pair of printing and parsing functions: what was printed from a well-formed
  value parses back to it. Two well-formed values are then printed alike only if they are equal.
\<close>

locale codec =
  fixes encode :: "'a \<Rightarrow> jsstring"
    and decode :: "jsstring \<Rightarrow> 'a option"
    and wf :: "'a \<Rightarrow> bool"
  assumes decode_encode: "wf x \<Longrightarrow> decode (encode x) = Some x"
begin

lemma encode_inj: "wf x \<Longrightarrow> wf y \<Longrightarrow> encode x = encode y \<longleftrightarrow> x = y"
  by (metis decode_encode option.inject)

lemma encode_inj_on: "inj_on encode (Collect wf)"
  by (auto intro: inj_onI simp: encode_inj)

end

section \<open>Sorting with a comparator\<close>

text \<open>\<open>Array.prototype.sort\<close> is a stable sort; \<open>le a b\<close> is \<open>compare(a, b) <= 0\<close>.\<close>

fun insert_by :: "('a \<Rightarrow> 'a \<Rightarrow> bool) \<Rightarrow> 'a \<Rightarrow> 'a list \<Rightarrow> 'a list" where
  "insert_by le x [] = [x]"
| "insert_by le x (y # ys) = (if le x y then x # y # ys else y # insert_by le x ys)"

definition js_sort :: "('a \<Rightarrow> 'a \<Rightarrow> bool) \<Rightarrow> 'a list \<Rightarrow> 'a list" where
  "js_sort le xs = foldr (insert_by le) xs []"

lemma mset_insert_by: "mset (insert_by le x ys) = add_mset x (mset ys)"
  by (induction ys) auto

lemma mset_js_sort: "mset (js_sort le xs) = mset xs"
  by (induction xs) (auto simp: js_sort_def mset_insert_by)

lemma set_insert_by: "set (insert_by le x ys) = insert x (set ys)"
  by (induction ys) auto

lemma set_js_sort [simp]: "set (js_sort le xs) = set xs"
  using mset_js_sort [of le xs] by (rule mset_eq_setD)

lemma sorted_insert_by:
  assumes "\<And>a b. le a b \<or> le b a" "\<And>a b c. le a b \<Longrightarrow> le b c \<Longrightarrow> le a c" "sorted_wrt le ys"
  shows "sorted_wrt le (insert_by le x ys)"
  using assms(3)
proof (induction ys)
  case (Cons y ys)
  then show ?case using assms(1) [of x y] assms(2) by (auto simp: set_insert_by)
qed simp

lemma sorted_js_sort:
  assumes "\<And>a b. le a b \<or> le b a" "\<And>a b c. le a b \<Longrightarrow> le b c \<Longrightarrow> le a c"
  shows "sorted_wrt le (js_sort le xs)"
  by (induction xs) (simp_all add: js_sort_def sorted_insert_by [OF assms])

section \<open>Grouping through a map\<close>

text \<open>
  The idiom \<open>if (!m.has(k)) { m.set(k, row); rows.push(row) } mutate(m.get(k))\<close> on rows that
  carry their key: create the row of key \<open>k\<close> at the end if there is none, then update it in place.
\<close>

definition upsert :: "('r \<Rightarrow> 'k) \<Rightarrow> 'k \<Rightarrow> 'r \<Rightarrow> ('r \<Rightarrow> 'r) \<Rightarrow> 'r list \<Rightarrow> 'r list" where
  "upsert rkey k fresh f rows =
     (if k \<in> rkey ` set rows then map (\<lambda>r. if rkey r = k then f r else r) rows
      else rows @ [f fresh])"

text \<open>
  The contract of a grouping loop: a fresh row carries the key of its element and absorbing an
  element keeps the key. Then the loop produces one row per key, in order of first occurrence,
  and each row is the fold of its own elements.
\<close>

locale grouping =
  fixes key :: "'c \<Rightarrow> 'k" and rkey :: "'r \<Rightarrow> 'k" and fresh :: "'c \<Rightarrow> 'r" and absorb :: "'r \<Rightarrow> 'c \<Rightarrow> 'r"
  assumes rkey_fresh: "rkey (fresh c) = key c"
    and rkey_absorb: "rkey (absorb r c) = rkey r"
begin

definition group_row :: "'c list \<Rightarrow> 'k \<Rightarrow> 'r" where
  "group_row cs k = foldl absorb (fresh (hd (filter (\<lambda>c. key c = k) cs))) (filter (\<lambda>c. key c = k) cs)"

definition group_all :: "'c list \<Rightarrow> 'r list" where
  "group_all cs = foldl (\<lambda>rows c. upsert rkey (key c) (fresh c) (\<lambda>r. absorb r c) rows) [] cs"

lemma rkey_foldl: "rkey (foldl absorb r cs) = rkey r"
  by (induction cs arbitrary: r) (simp_all add: rkey_absorb)

lemma rkey_group_row: "k \<in> key ` set cs \<Longrightarrow> rkey (group_row cs k) = k"
proof -
  assume "k \<in> key ` set cs"
  then have "filter (\<lambda>c. key c = k) cs \<noteq> []" by (auto simp: filter_empty_conv)
  from hd_in_set [OF this] show ?thesis by (simp add: group_row_def rkey_foldl rkey_fresh)
qed

lemma group_row_snoc:
  "group_row (cs @ [c]) k =
     (if key c \<noteq> k then group_row cs k
      else if k \<in> key ` set cs then absorb (group_row cs k) c else absorb (fresh c) c)"
proof (cases "filter (\<lambda>x. key x = k) cs")
  case Nil
  then have "k \<notin> key ` set cs" by (auto simp: filter_empty_conv)
  with Nil show ?thesis by (simp add: group_row_def)
next
  case (Cons d ds)
  then have "d \<in> set cs" "key d = k" using Cons_eq_filterD [OF Cons [symmetric]] by auto
  then have "k \<in> key ` set cs" by blast
  with Cons show ?thesis by (simp add: group_row_def)
qed

theorem group_all_rows: "group_all cs = map (group_row cs) (uniq (map key cs))"
proof (induction cs rule: rev_induct)
  case (snoc c cs)
  have keys: "rkey ` set (map (group_row cs) (uniq (map key cs))) = key ` set cs"
    using rkey_group_row by force
  have step: "group_all (cs @ [c]) = upsert rkey (key c) (fresh c) (\<lambda>r. absorb r c) (group_all cs)"
    by (simp add: group_all_def)
  show ?case
  proof (cases "key c \<in> key ` set cs")
    case True
    then have "map (\<lambda>r. if rkey r = key c then absorb r c else r) (map (group_row cs) (uniq (map key cs))) =
        map (group_row (cs @ [c])) (uniq (map key cs))"
      by (auto simp: group_row_snoc rkey_group_row)
    moreover have "uniq (map key (cs @ [c])) = uniq (map key cs)"
      using True by (simp add: uniq_snoc)
    ultimately show ?thesis
      by (simp only: step snoc.IH upsert_def keys True if_True)
  next
    case False
    then have "map (group_row cs) (uniq (map key cs)) = map (group_row (cs @ [c])) (uniq (map key cs))"
      by (auto simp: group_row_snoc)
    moreover have "uniq (map key (cs @ [c])) = uniq (map key cs) @ [key c]"
      using False by (auto simp: uniq_snoc)
    moreover have "group_row (cs @ [c]) (key c) = absorb (fresh c) c"
      using False by (simp add: group_row_snoc)
    moreover have "group_all (cs @ [c]) = map (group_row cs) (uniq (map key cs)) @ [absorb (fresh c) c]"
      by (simp only: step snoc.IH upsert_def keys False if_False)
    ultimately show ?thesis by simp
  qed
qed (simp add: group_all_def)

end

end
