(* ===== verification/StatusCodeRules.thy ===== *)
theory StatusCodeRules
  imports Prelude
begin

text \<open>
  The parser of HTTP status code rules (\<open>web/default/src/lib/http-status-code-rules.ts\<close>): a
  comma separated list of codes and code ranges, e.g. \<open>401, 429, 500-503\<close>, as an administrator
  types it into the retry and auto-disable settings. The parser validates every token, merges
  the ranges into a canonical list and prints it back.

  The abstract view of a list of ranges is the set of codes it covers (\<open>codes_of\<close>); merging
  keeps that set, the canonical list is strictly separated, and the canonical text parses back
  to the same result.
\<close>

section \<open>Data\<close>

record status_code_range =
  rng_start :: nat
  rng_end :: nat

record parsed_http_status_code_rules =
  rules_ok :: bool
  rules_ranges :: "status_code_range list"
  rules_tokens :: "jsstring list"
  rules_normalized :: jsstring
  rules_invalidTokens :: "jsstring list"

section \<open>Operations\<close>

definition isNumber :: "jsstring \<Rightarrow> bool" where
  "isNumber s \<longleftrightarrow> s \<noteq> [] \<and> list_all is_digit s"

definition isValidCode :: "nat \<Rightarrow> bool" where
  "isValidCode code \<longleftrightarrow> 100 \<le> code \<and> code \<le> 599"

text \<open>
  \<open>const [a, b] = cleaned.split('-')\<close> reads the first two parts; a string that holds a dash
  has at least two, and the parts after the second are ignored.
\<close>

definition parseToken :: "jsstring \<Rightarrow> status_code_range option" where
  "parseToken token =
     (let cleaned = filter (\<lambda>c. \<not> is_ws c) (js_trim token) in
      if cleaned = [] then None
      else if CHR ''-'' \<in> set cleaned then
        (case split_on (CHR ''-'') cleaned of
           a # b # _ \<Rightarrow>
             if \<not> isNumber a \<or> \<not> isNumber b then None
             else (let start = parse_digits a; end' = parse_digits b in
                   if \<not> isValidCode start \<or> \<not> isValidCode end' \<or> start > end' then None
                   else Some \<lparr>rng_start = start, rng_end = end'\<rparr>)
         | _ \<Rightarrow> None)
      else if \<not> isNumber cleaned then None
      else (let code = parse_digits cleaned in
            if \<not> isValidCode code then None
            else Some \<lparr>rng_start = code, rng_end = code\<rparr>))"

text \<open>The body of the \<open>reduce\<close> in \<open>mergeRanges\<close>: the accumulator keeps the merged ranges in
  order and its last element is the one that may grow.\<close>

definition merge_step :: "status_code_range list \<Rightarrow> status_code_range \<Rightarrow> status_code_range list" where
  "merge_step merged current =
     (if merged = [] \<or> rng_start current > rng_end (last merged) + 1 then merged @ [current]
      else butlast merged @
        [(last merged)\<lparr>rng_end := max (rng_end (last merged)) (rng_end current)\<rparr>])"

definition mergeRanges :: "status_code_range list \<Rightarrow> status_code_range list" where
  "mergeRanges ranges =
     (if ranges = [] then []
      else foldl merge_step [] (sort_key (\<lambda>r. (rng_start r, rng_end r)) ranges))"

definition rangeToken :: "status_code_range \<Rightarrow> jsstring" where
  "rangeToken r =
     (if rng_start r = rng_end r then show_nat (rng_start r)
      else show_nat (rng_start r) @ ''-'' @ show_nat (rng_end r))"

text \<open>The full-width comma U+FF0C, three bytes in UTF-8.\<close>

definition fullwidth_comma :: jsstring where
  "fullwidth_comma = [CHR 0xEF, CHR 0xBC, CHR 0x8C]"

definition segments_of :: "jsstring \<Rightarrow> jsstring list" where
  "segments_of raw =
     filter (\<lambda>s. s \<noteq> []) (map js_trim (split_on (CHR '','') (replace_all fullwidth_comma '','' raw)))"

definition parseHttpStatusCodeRules :: "jsstring option \<Rightarrow> parsed_http_status_code_rules" where
  "parseHttpStatusCodeRules input =
     (let raw = js_trim (case input of None \<Rightarrow> '''' | Some s \<Rightarrow> s) in
      if raw = [] then
        \<lparr>rules_ok = True, rules_ranges = [], rules_tokens = [], rules_normalized = '''',
         rules_invalidTokens = []\<rparr>
      else
        (let segments = segments_of raw;
             invalidTokens = filter (\<lambda>s. parseToken s = None) segments;
             ranges = List.map_filter parseToken segments in
         if invalidTokens \<noteq> [] then
           \<lparr>rules_ok = False, rules_ranges = [], rules_tokens = [], rules_normalized = raw,
            rules_invalidTokens = invalidTokens\<rparr>
         else
           (let merged = mergeRanges ranges; tokens = map rangeToken merged in
            \<lparr>rules_ok = True, rules_ranges = merged, rules_tokens = tokens,
             rules_normalized = js_join '','' tokens, rules_invalidTokens = []\<rparr>)))"

section \<open>Specification\<close>

definition codes_of :: "status_code_range list \<Rightarrow> nat set" where
  "codes_of rs = (\<Union>r \<in> set rs. {rng_start r .. rng_end r})"

definition valid_range :: "status_code_range \<Rightarrow> bool" where
  "valid_range r \<longleftrightarrow> rng_start r \<le> rng_end r"

text \<open>Two neighbours of a canonical list neither overlap nor touch.\<close>

definition canonical :: "status_code_range list \<Rightarrow> bool" where
  "canonical rs \<longleftrightarrow> list_all valid_range rs \<and>
     sorted_wrt (\<lambda>a b. rng_end a + 1 < rng_start b) rs"

lemma codes_of_simps [simp]:
  "codes_of [] = {}" "codes_of (r # rs) = {rng_start r .. rng_end r} \<union> codes_of rs"
  "codes_of (rs @ rs') = codes_of rs \<union> codes_of rs'"
  by (auto simp: codes_of_def)

lemma canonical_Cons:
  "canonical (r # rs) \<longleftrightarrow>
     valid_range r \<and> (\<forall>x \<in> set rs. rng_end r + 1 < rng_start x) \<and> canonical rs"
  by (auto simp: canonical_def)

lemma canonical_snoc:
  "canonical (rs @ [r]) \<longleftrightarrow>
     canonical rs \<and> valid_range r \<and> (\<forall>x \<in> set rs. rng_end x + 1 < rng_start r)"
  by (auto simp: canonical_def sorted_wrt_append)

lemma codes_of_lower: "\<forall>x \<in> set rs. m < rng_start x \<Longrightarrow> c \<in> codes_of rs \<Longrightarrow> m < c"
  by (auto simp: codes_of_def)

text \<open>A set of codes has exactly one canonical list.\<close>

lemma canonical_unique:
  assumes "canonical rs" "canonical rs'" "codes_of rs = codes_of rs'"
  shows "rs = rs'"
  using assms
proof (induction rs arbitrary: rs')
  case Nil
  then show ?case by (cases rs') (auto simp: canonical_Cons valid_range_def)
next
  case (Cons r rs)
  then obtain q qs where rs': "rs' = q # qs"
    by (cases rs') (auto simp: canonical_Cons valid_range_def)
  have r: "rng_start r \<le> rng_end r" "\<forall>x \<in> set rs. rng_end r + 1 < rng_start x"
    and q: "rng_start q \<le> rng_end q" "\<forall>x \<in> set qs. rng_end q + 1 < rng_start x"
    using Cons.prems by (auto simp: rs' canonical_Cons valid_range_def)
  have eq: "{rng_start r .. rng_end r} \<union> codes_of rs = {rng_start q .. rng_end q} \<union> codes_of qs"
    using Cons.prems(3) by (simp add: rs')
  note low = codes_of_lower [OF r(2)] codes_of_lower [OF q(2)]
  have "rng_start r \<in> {rng_start q .. rng_end q} \<union> codes_of qs"
    "rng_start q \<in> {rng_start r .. rng_end r} \<union> codes_of rs"
    using eq r(1) q(1) by auto
  then have start: "rng_start r = rng_start q"
    using low r(1) q(1) by (fastforce intro: le_antisym)
  have "rng_end r + 1 \<notin> {rng_start q .. rng_end q} \<union> codes_of qs"
    "rng_end q + 1 \<notin> {rng_start r .. rng_end r} \<union> codes_of rs"
    by (subst eq [symmetric], use low in force) (subst eq, use low in force)
  then have "\<not> (rng_end r + 1 \<le> rng_end q)" "\<not> (rng_end q + 1 \<le> rng_end r)"
    using start r(1) q(1) by auto
  then have "rng_end r = rng_end q" by simp
  with start have "r = q" by simp
  moreover have "codes_of rs \<inter> {rng_start q .. rng_end q} = {}"
    "codes_of qs \<inter> {rng_start q .. rng_end q} = {}"
    using \<open>r = q\<close> low by force+
  then have "codes_of rs = codes_of qs"
    using eq \<open>r = q\<close> by blast
  ultimately show ?case using Cons by (auto simp: rs' canonical_Cons)
qed

section \<open>Merging\<close>

text \<open>One step of the merge, on a canonical accumulator and a range that starts no earlier
  than any merged one.\<close>

lemma merge_step_correct:
  assumes "canonical merged" "valid_range r" "\<forall>x \<in> set merged. rng_start x \<le> rng_start r"
  shows "canonical (merge_step merged r)"
    and "codes_of (merge_step merged r) = codes_of merged \<union> {rng_start r .. rng_end r}"
    and "\<forall>x \<in> set (merge_step merged r). rng_start x \<le> rng_start r"
proof -
  have "canonical (merge_step merged r) \<and>
    codes_of (merge_step merged r) = codes_of merged \<union> {rng_start r .. rng_end r} \<and>
    (\<forall>x \<in> set (merge_step merged r). rng_start x \<le> rng_start r)"
  proof (cases merged rule: rev_cases)
    case Nil
    then show ?thesis using assms by (simp add: merge_step_def canonical_def)
  next
    case m: (snoc ms m)
    have ms: "canonical ms" "rng_start m \<le> rng_end m" "\<forall>x \<in> set ms. rng_end x + 1 < rng_start m"
      using assms(1) by (auto simp: m canonical_snoc valid_range_def)
    have starts: "rng_start m \<le> rng_start r" "rng_start r \<le> rng_end r"
      using assms by (auto simp: m valid_range_def)
    have "\<forall>x \<in> set ms. rng_end x + 1 < rng_start r"
      using ms(3) starts(1) by fastforce
    then have "canonical (merge_step merged r)"
      using ms starts by (auto simp: merge_step_def m canonical_snoc valid_range_def
        canonical_snoc [of "ms @ [m]", simplified])
    moreover have "codes_of (merge_step merged r) = codes_of merged \<union> {rng_start r .. rng_end r}"
      using ms starts by (auto simp: merge_step_def m)
    ultimately show ?thesis
      using assms(3) starts by (auto simp: merge_step_def m)
  qed
  then show "canonical (merge_step merged r)"
    and "codes_of (merge_step merged r) = codes_of merged \<union> {rng_start r .. rng_end r}"
    and "\<forall>x \<in> set (merge_step merged r). rng_start x \<le> rng_start r"
    by blast+
qed

lemma merge_fold_correct:
  assumes "canonical merged" "list_all valid_range rs"
    "\<forall>x \<in> set merged. \<forall>r \<in> set rs. rng_start x \<le> rng_start r"
    "sorted (map rng_start rs)"
  shows "canonical (foldl merge_step merged rs) \<and>
    codes_of (foldl merge_step merged rs) = codes_of merged \<union> codes_of rs"
  using assms
proof (induction rs arbitrary: merged)
  case (Cons r rs)
  note step = merge_step_correct [of merged r]
  have "\<forall>x \<in> set (merge_step merged r). \<forall>r' \<in> set rs. rng_start x \<le> rng_start r'"
    using Cons.prems step(3) by (fastforce intro: le_trans)
  with Cons show ?case using step by (auto simp: Un_assoc)
qed simp

lemma sorted_starts: "sorted (map rng_start (sort_key (\<lambda>r. (rng_start r, rng_end r)) rs))"
proof -
  have "sorted (map (\<lambda>r. (rng_start r, rng_end r)) (sort_key (\<lambda>r. (rng_start r, rng_end r)) rs))"
    by simp
  then show ?thesis by (auto simp: sorted_wrt_map elim!: sorted_wrt_mono_rel [rotated])
qed

lemma mergeRanges_correct:
  assumes "list_all valid_range rs"
  shows "canonical (mergeRanges rs)" and "codes_of (mergeRanges rs) = codes_of rs"
proof -
  have "list_all valid_range (sort_key (\<lambda>r. (rng_start r, rng_end r)) rs)"
    using assms by (simp add: list_all_iff)
  from merge_fold_correct [OF _ this, of "[]"]
  have "canonical (foldl merge_step [] (sort_key (\<lambda>r. (rng_start r, rng_end r)) rs)) \<and>
    codes_of (foldl merge_step [] (sort_key (\<lambda>r. (rng_start r, rng_end r)) rs)) = codes_of rs"
    by (simp add: canonical_def sorted_starts) (simp add: codes_of_def)
  then show "canonical (mergeRanges rs)" "codes_of (mergeRanges rs) = codes_of rs"
    by (auto simp: mergeRanges_def canonical_def)
qed

interpretation ranges: normal_form "list_all valid_range" mergeRanges canonical codes_of
  by unfold_locales (auto simp: mergeRanges_correct canonical_unique, simp add: canonical_def)

section \<open>Tokens\<close>

definition code_range :: "status_code_range \<Rightarrow> bool" where
  "code_range r \<longleftrightarrow> 100 \<le> rng_start r \<and> rng_start r \<le> rng_end r \<and> rng_end r \<le> 599"

lemma parseToken_code_range: "parseToken s = Some r \<Longrightarrow> code_range r"
  by (auto simp: parseToken_def code_range_def isValidCode_def Let_def
      split: if_splits list.splits)

lemma code_range_valid: "code_range r \<Longrightarrow> valid_range r"
  by (simp add: code_range_def valid_range_def)

lemma rangeToken_shape:
  "rangeToken r \<noteq> []" "list_all (\<lambda>c. \<not> is_ws c) (rangeToken r)"
  "CHR '','' \<notin> set (rangeToken r)" "CHR 0xEF \<notin> set (rangeToken r)"
  using digits_no_ws [OF show_nat_digits, of "rng_start r"]
    digits_no_ws [OF show_nat_digits, of "rng_end r"]
  by (auto simp: rangeToken_def is_ws_def)

lemma isNumber_show_nat [simp]: "isNumber (show_nat n)"
  by (simp add: isNumber_def)

lemma parseToken_rangeToken:
  assumes "code_range r"
  shows "parseToken (rangeToken r) = Some r"
proof -
  have clean: "filter (\<lambda>c. \<not> is_ws c) (js_trim (rangeToken r)) = rangeToken r"
    using rangeToken_shape(2) [of r] by (simp add: js_trim_no_ws list_all_iff)
  have "split_on (CHR ''-'') (show_nat a @ ''-'' @ show_nat b) = [show_nat a, show_nat b]" for a b
    by (simp add: split_on_append_sep split_on_no_sep)
  with assms show ?thesis
    unfolding parseToken_def clean
    by (cases r) (auto simp: rangeToken_def code_range_def isValidCode_def)
qed

text \<open>Printing a list of ranges and cutting the text into segments are inverse.\<close>

lemma segments_of_tokens:
  "segments_of (js_join '','' (map rangeToken rs)) = map rangeToken rs"
proof (cases "rs = []")
  case False
  have "replace_all fullwidth_comma '','' (js_join '','' (map rangeToken rs)) =
      js_join '','' (map rangeToken rs)"
    using set_js_join [of "'',''" "map rangeToken rs"] rangeToken_shape(4)
    by (intro replace_all_absent) (auto simp: fullwidth_comma_def)
  moreover have "split_on (CHR '','') (js_join '','' (map rangeToken rs)) = map rangeToken rs"
    using False rangeToken_shape(3) by (intro split_on_join) auto
  moreover have "map js_trim (map rangeToken rs) = map rangeToken rs"
    by (simp add: js_trim_no_ws rangeToken_shape(2))
  ultimately show ?thesis
    by (simp add: segments_of_def rangeToken_shape(1) del: map_map)
qed (simp add: segments_of_def replace_all.simps)

lemma trimmed_tokens: "trimmed (js_join '','' (map rangeToken rs))"
  by (intro trimmed_js_join) (auto simp: rangeToken_shape trimmed_no_ws)

lemma map_filter_parse_tokens:
  "list_all code_range rs \<Longrightarrow> List.map_filter parseToken (map rangeToken rs) = rs"
  by (induction rs) (auto simp: parseToken_rangeToken)

text \<open>The ranges of an accepted input, before merging, are bounded by 100 and 599.\<close>

lemma map_filter_parse_code_range: "list_all code_range (List.map_filter parseToken ss)"
  by (induction ss) (auto simp: parseToken_code_range split: option.splits)

lemma map_filter_parse_valid: "list_all valid_range (List.map_filter parseToken ss)"
  using map_filter_parse_code_range [of ss] by (auto simp: list_all_iff code_range_valid)

lemma canonical_code_range:
  assumes "canonical rs" "codes_of rs \<subseteq> {100..599}"
  shows "list_all code_range rs"
  unfolding list_all_iff
proof
  fix r assume r: "r \<in> set rs"
  with assms(1) have v: "rng_start r \<le> rng_end r"
    by (auto simp: canonical_def list_all_iff valid_range_def)
  with r have "rng_start r \<in> codes_of rs" "rng_end r \<in> codes_of rs" by (auto simp: codes_of_def)
  with assms(2) v show "code_range r" by (auto simp: code_range_def)
qed

lemma mergeRanges_code_range:
  assumes "list_all code_range rs"
  shows "list_all code_range (mergeRanges rs)"
proof (rule canonical_code_range)
  have v: "list_all valid_range rs" using assms by (auto simp: list_all_iff code_range_valid)
  show "canonical (mergeRanges rs)" by (rule mergeRanges_correct(1) [OF v])
  show "codes_of (mergeRanges rs) \<subseteq> {100..599}"
  proof
    fix c assume "c \<in> codes_of (mergeRanges rs)"
    then have "c \<in> codes_of rs" by (simp add: mergeRanges_correct(2) [OF v])
    then obtain r where "r \<in> set rs" "rng_start r \<le> c" "c \<le> rng_end r"
      by (auto simp: codes_of_def)
    with assms show "c \<in> {100..599}" by (fastforce simp: list_all_iff code_range_def)
  qed
qed

lemmas merged_tokens = map_filter_parse_code_range map_filter_parse_valid mergeRanges_code_range
  mergeRanges_correct

text \<open>The result of an accepted input, in terms of its tokens.\<close>

definition tokens_in :: "jsstring \<Rightarrow> status_code_range list" where
  "tokens_in s = List.map_filter parseToken (segments_of (js_trim s))"

lemma segments_of_Nil [simp]: "segments_of [] = []"
  by (simp add: segments_of_def replace_all.simps)

lemma parse_ok:
  "rules_ok (parseHttpStatusCodeRules (Some s)) \<longleftrightarrow>
     (\<forall>seg \<in> set (segments_of (js_trim s)). parseToken seg \<noteq> None)"
  by (auto simp: parseHttpStatusCodeRules_def Let_def filter_empty_conv)

lemma parse_ok_fields:
  assumes "rules_ok (parseHttpStatusCodeRules (Some s))"
  shows "parseHttpStatusCodeRules (Some s) =
    \<lparr>rules_ok = True, rules_ranges = mergeRanges (tokens_in s),
     rules_tokens = map rangeToken (mergeRanges (tokens_in s)),
     rules_normalized = js_join '','' (map rangeToken (mergeRanges (tokens_in s))),
     rules_invalidTokens = []\<rparr>"
  using assms by (auto simp: parseHttpStatusCodeRules_def tokens_in_def Let_def mergeRanges_def
      split: if_splits)

lemma parse_fail_fields:
  assumes "\<not> rules_ok (parseHttpStatusCodeRules (Some s))"
  shows "rules_ranges (parseHttpStatusCodeRules (Some s)) = [] \<and> rules_tokens (parseHttpStatusCodeRules (Some s)) = [] \<and>
    rules_invalidTokens (parseHttpStatusCodeRules (Some s)) \<noteq> []"
  using assms by (auto simp: parseHttpStatusCodeRules_def Let_def split: if_splits)

section \<open>Properties\<close>

text \<open>
  C14: An accepted rule text covers exactly the status codes that one of its comma separated
  tokens covers, and its ranges are the unique canonical list for that set: sorted, disjoint and
  with a gap between neighbours.
\<close>

theorem parse_rules_meaning:
  assumes "rules_ok (parseHttpStatusCodeRules (Some s))"
  shows "codes_of (rules_ranges (parseHttpStatusCodeRules (Some s))) =
      {c. \<exists>seg r. seg \<in> set (segments_of (js_trim s)) \<and> parseToken seg = Some r \<and>
        rng_start r \<le> c \<and> c \<le> rng_end r} \<and>
    canonical (rules_ranges (parseHttpStatusCodeRules (Some s)))"
proof -
  have "codes_of (tokens_in s) = {c. \<exists>seg r. seg \<in> set (segments_of (js_trim s)) \<and>
      parseToken seg = Some r \<and> rng_start r \<le> c \<and> c \<le> rng_end r}"
    by (auto simp: codes_of_def tokens_in_def map_filter_def)
  then show ?thesis
    using parse_ok_fields [OF assms] by (simp add: tokens_in_def merged_tokens)
qed

theorem parse_rules_meaning_witness:
  "rules_ok (parseHttpStatusCodeRules (Some ''429, 500-503'')) \<and>
   canonical (rules_ranges (parseHttpStatusCodeRules (Some ''429, 500-503'')))"
proof -
  have ok: "rules_ok (parseHttpStatusCodeRules (Some ''429, 500-503''))" by code_simp
  with parse_rules_meaning [OF ok] show ?thesis by simp
qed

text \<open>
  The normalised text of an accepted input is a fixed point: parsing it again gives the very
  same result (ranges, tokens and text).
\<close>

theorem parse_rules_roundtrip:
  assumes "rules_ok (parseHttpStatusCodeRules (Some s))"
  shows "parseHttpStatusCodeRules (Some (rules_normalized (parseHttpStatusCodeRules (Some s)))) =
    parseHttpStatusCodeRules (Some s)"
proof -
  define rs where "rs = mergeRanges (tokens_in s)"
  have rs: "list_all code_range rs" "mergeRanges rs = rs"
    by (simp_all add: rs_def tokens_in_def merged_tokens ranges.norm_idem)
  let ?t = "js_join '','' (map rangeToken rs)"
  have trim: "js_trim ?t = ?t" by (simp add: js_trim_trimmed trimmed_tokens)
  have tok: "tokens_in ?t = rs"
    using rs(1) by (simp add: tokens_in_def trim segments_of_tokens map_filter_parse_tokens)
  have "rules_ok (parseHttpStatusCodeRules (Some ?t))"
    using rs(1) by (auto simp: parse_ok trim segments_of_tokens parseToken_rangeToken list_all_iff)
  from parse_ok_fields [OF this] parse_ok_fields [OF assms] show ?thesis
    by (simp add: tok rs(2) flip: rs_def)
qed

theorem parse_rules_roundtrip_witness:
  "rules_normalized (parseHttpStatusCodeRules (Some ''503-504, 500-502,429'')) = ''429,500-504'' \<and>
   parseHttpStatusCodeRules (Some ''429,500-504'') =
   parseHttpStatusCodeRules (Some ''503-504, 500-502,429'')"
proof -
  have ok: "rules_ok (parseHttpStatusCodeRules (Some ''503-504, 500-502,429''))" by code_simp
  have "rules_normalized (parseHttpStatusCodeRules (Some ''503-504, 500-502,429'')) = ''429,500-504''"
    by code_simp
  with parse_rules_roundtrip [OF ok] show ?thesis by simp
qed

text \<open>
  Two accepted inputs are normalised to the same text exactly when they cover the same set
  of status codes, so comparing normalised texts decides whether two rule sets agree.
\<close>

theorem parse_rules_same_text_iff:
  assumes "rules_ok (parseHttpStatusCodeRules (Some s))"
    and "rules_ok (parseHttpStatusCodeRules (Some t))"
  shows "rules_normalized (parseHttpStatusCodeRules (Some s)) =
      rules_normalized (parseHttpStatusCodeRules (Some t)) \<longleftrightarrow>
    codes_of (rules_ranges (parseHttpStatusCodeRules (Some s))) =
      codes_of (rules_ranges (parseHttpStatusCodeRules (Some t)))"
proof -
  have v: "list_all valid_range (tokens_in u)" for u by (simp add: tokens_in_def merged_tokens)
  have "js_join '','' (map rangeToken (mergeRanges (tokens_in s))) =
      js_join '','' (map rangeToken (mergeRanges (tokens_in t))) \<longleftrightarrow>
      mergeRanges (tokens_in s) = mergeRanges (tokens_in t)"
    by (metis map_filter_parse_tokens segments_of_tokens mergeRanges_code_range
        map_filter_parse_code_range tokens_in_def)
  then show ?thesis
    using parse_ok_fields [OF assms(1)] parse_ok_fields [OF assms(2)]
    by (simp add: ranges.norm_eq_iff [OF v v] mergeRanges_correct(2) [OF v])
qed

theorem parse_rules_same_text_iff_witness:
  "rules_normalized (parseHttpStatusCodeRules (Some ''500,501'')) =
     rules_normalized (parseHttpStatusCodeRules (Some ''500-501'')) \<and>
   codes_of (rules_ranges (parseHttpStatusCodeRules (Some ''500,501''))) =
     codes_of (rules_ranges (parseHttpStatusCodeRules (Some ''500-501'')))"
proof -
  have ok: "rules_ok (parseHttpStatusCodeRules (Some ''500,501''))"
    "rules_ok (parseHttpStatusCodeRules (Some ''500-501''))" by code_simp+
  have "rules_normalized (parseHttpStatusCodeRules (Some ''500,501'')) =
     rules_normalized (parseHttpStatusCodeRules (Some ''500-501''))" by code_simp
  with parse_rules_same_text_iff [OF ok] show ?thesis by simp
qed

text \<open>
  Whatever the administrator types, every range in the result starts at 100 or above, ends at 599 or below and
  is not empty. A rejected input has no range and no token in its result and names a token that is not valid;
  an accepted one has as many tokens as ranges and names no invalid token.
\<close>

theorem parse_rules_bounds:
  fixes s :: jsstring
  defines "r \<equiv> parseHttpStatusCodeRules (Some s)"
  shows "list_all (\<lambda>g. 100 \<le> rng_start g \<and> rng_start g \<le> rng_end g \<and> rng_end g \<le> 599) (rules_ranges r) \<and>
    (if rules_ok r then length (rules_tokens r) = length (rules_ranges r) \<and> rules_invalidTokens r = []
     else rules_ranges r = [] \<and> rules_tokens r = [] \<and> rules_invalidTokens r \<noteq> [])"
proof (cases "rules_ok r")
  case True
  then have "list_all (\<lambda>g. 100 \<le> rng_start g \<and> rng_start g \<le> rng_end g \<and> rng_end g \<le> 599) (rules_ranges r)"
    using mergeRanges_code_range [OF map_filter_parse_code_range, of "segments_of (js_trim s)"]
    by (simp add: r_def parse_ok_fields tokens_in_def code_range_def [abs_def])
  moreover have "length (rules_tokens r) = length (rules_ranges r) \<and> rules_invalidTokens r = []"
    using True by (simp add: r_def parseHttpStatusCodeRules_def Let_def split: if_splits)
  ultimately show ?thesis using True by simp
qed (simp add: r_def parse_fail_fields)

end
