(* ===== verification/JsNumber.thy ===== *)
theory JsNumber
  imports Prelude
begin

text \<open>
  JavaScript numbers as far as the sources use them: literals that are read, compared, printed
  and added or multiplied. A finite number is an exact decimal \<open>m * 10 ^ e\<close> in canonical form
  (\<open>m\<close> has no factor ten); the 53-bit rounding of IEEE doubles is not modelled, so a statement
  about printed values is about numbers of at most fifteen significant digits. There is one zero.

  \<open>num_to_string\<close> is the algorithm \<open>Number::toString\<close> of ECMAScript (radix ten) and
  \<open>scan_number\<close> reads the decimal literals of JSON and of \<open>Number(text)\<close>. Reading what was
  printed gives the number back (\<open>scan_json_number_print\<close>).
\<close>

datatype jsnum = JNaN | JInf bool | JDec int int

section \<open>Canonical decimals\<close>

function dec :: "int \<Rightarrow> int \<Rightarrow> jsnum" where
  "dec m e = (if m = 0 then JDec 0 0 else if m mod 10 = 0 then dec (m div 10) (e + 1) else JDec m e)"
  by pat_completeness auto
termination
  by (relation "measure (\<lambda>(m, e). nat \<bar>m\<bar>)") (auto simp: nat_less_iff abs_if)

declare dec.simps [simp del]

fun canonical_num :: "jsnum \<Rightarrow> bool" where
  "canonical_num (JDec m e) = (if m = 0 then e = 0 else m mod 10 \<noteq> 0)"
| "canonical_num _ = True"

fun is_finite :: "jsnum \<Rightarrow> bool" where
  "is_finite (JDec m e) = True"
| "is_finite _ = False"

lemma dec_canonical: "canonical_num (dec m e)"
proof (induction m e rule: dec.induct)
  case (1 m e)
  then show ?case by (subst dec.simps) simp
qed

lemma dec_finite: "is_finite (dec m e)"
proof (induction m e rule: dec.induct)
  case (1 m e)
  then show ?case by (subst dec.simps) simp
qed

lemma dec_of_canonical: "canonical_num (JDec m e) \<Longrightarrow> dec m e = JDec m e"
  by (subst dec.simps) (auto split: if_splits)

lemma dec_shift: "dec (m * 10 ^ k) e = dec m (e + int k)"
proof (induction k arbitrary: e)
  case (Suc k)
  show ?case
  proof (cases "m = 0")
    case True
    then show ?thesis by (simp add: dec.simps)
  next
    case False
    have "m * 10 ^ Suc k mod 10 = 0" "m * 10 ^ Suc k div 10 = m * 10 ^ k" by simp_all
    with False have "dec (m * 10 ^ Suc k) e = dec (m * 10 ^ k) (e + 1)" by (subst dec.simps) simp
    then show ?thesis by (simp add: Suc.IH algebra_simps)
  qed
qed simp

text \<open>Integers, and \<open>Number.isInteger\<close> with the integer value.\<close>

definition num_of_int :: "int \<Rightarrow> jsnum" where
  "num_of_int n = dec n 0"

fun int_value :: "jsnum \<Rightarrow> int option" where
  "int_value (JDec m e) = (if 0 \<le> e then Some (m * 10 ^ nat e) else None)"
| "int_value _ = None"

lemma int_value_dec: "0 \<le> e \<Longrightarrow> int_value (dec m e) = Some (m * 10 ^ nat e)"
proof (induction m e rule: dec.induct)
  case (1 m e)
  show ?case
  proof (cases "m \<noteq> 0 \<and> m mod 10 = 0")
    case True
    then obtain k where k: "m = 10 * k" by (auto elim: dvdE simp: mod_eq_0_iff_dvd)
    have "nat (e + 1) = Suc (nat e)" using "1.prems" by simp
    with True 1 show ?thesis by (subst dec.simps) (simp add: k)
  next
    case False
    with "1.prems" show ?thesis by (subst dec.simps) auto
  qed
qed

lemma int_value_num_of_int [simp]: "int_value (num_of_int n) = Some n"
  by (simp add: num_of_int_def int_value_dec)

section \<open>Printing\<close>

definition show_int :: "int \<Rightarrow> jsstring" where
  "show_int i = (if i < 0 then ''-'' @ show_nat (nat (- i)) else show_nat (nat i))"

text \<open>The digits \<open>ds\<close> of the mantissa, with the decimal point after the \<open>n\<close>-th digit.\<close>

definition print_digits :: "jsstring \<Rightarrow> int \<Rightarrow> jsstring" where
  "print_digits ds n =
     (let k = int (length ds) in
      if k \<le> n \<and> n \<le> 21 then ds @ replicate (nat (n - k)) (CHR ''0'')
      else if 0 < n \<and> n \<le> 21 then take (nat n) ds @ ''.'' @ drop (nat n) ds
      else if - 6 < n \<and> n \<le> 0 then ''0.'' @ replicate (nat (- n)) (CHR ''0'') @ ds
      else (let ex = (if n - 1 < 0 then ''e'' @ show_int (n - 1) else ''e+'' @ show_int (n - 1)) in
            if k = 1 then ds @ ex
            else take 1 ds @ ''.'' @ drop 1 ds @ ex))"

fun num_to_string :: "jsnum \<Rightarrow> jsstring" where
  "num_to_string JNaN = ''NaN''"
| "num_to_string (JInf neg) = (if neg then ''-Infinity'' else ''Infinity'')"
| "num_to_string (JDec m e) =
     (let ds = show_nat (nat \<bar>m\<bar>) in
      if m = 0 then ''0''
      else (if m < 0 then ''-'' else []) @ print_digits ds (e + int (length ds)))"

section \<open>Reading\<close>

text \<open>The longest prefix of digits, and what follows.\<close>

definition span_digits :: "jsstring \<Rightarrow> jsstring \<times> jsstring" where
  "span_digits s = (takeWhile is_digit s, dropWhile is_digit s)"

text \<open>An optional exponent part: \<open>None\<close> when an \<open>e\<close> is not followed by digits.\<close>

definition scan_exponent :: "jsstring \<Rightarrow> (int \<times> jsstring) option" where
  "scan_exponent s =
     (case s of
        c # s1 \<Rightarrow>
          if c = CHR ''e'' \<or> c = CHR ''E'' then
            (let (neg, s2) = (case s1 of
                 d # s2 \<Rightarrow> if d = CHR ''-'' then (True, s2) else if d = CHR ''+'' then (False, s2)
                           else (False, s1)
               | [] \<Rightarrow> (False, s1));
               (ds, rest) = span_digits s2 in
             if ds = [] then None
             else Some (if neg then - int (parse_digits ds) else int (parse_digits ds), rest))
          else Some (0, s)
      | [] \<Rightarrow> Some (0, s))"

text \<open>An optional fraction: \<open>None\<close> when a point is not followed by digits.\<close>

definition scan_fraction :: "jsstring \<Rightarrow> (jsstring \<times> jsstring) option" where
  "scan_fraction s =
     (case s of
        c # s1 \<Rightarrow>
          if c = CHR ''.'' then
            (let (ds, rest) = span_digits s1 in if ds = [] then None else Some (ds, rest))
          else Some ([], s)
      | [] \<Rightarrow> Some ([], s))"

text \<open>The number grammar of JSON after an optional minus sign:
  no leading zeros, digits on both sides of the point.\<close>

definition scan_unsigned :: "jsstring \<Rightarrow> ((nat \<times> int) \<times> jsstring) option" where
  "scan_unsigned s =
     (let (ds, s1) = span_digits s in
      if ds = [] \<or> (hd ds = CHR ''0'' \<and> length ds > 1) then None
      else (case scan_fraction s1 of
              None \<Rightarrow> None
            | Some (fs, s2) \<Rightarrow>
                (case scan_exponent s2 of
                   None \<Rightarrow> None
                 | Some (x, s3) \<Rightarrow> Some ((parse_digits (ds @ fs), x - int (length fs)), s3))))"

definition scan_json_number :: "jsstring \<Rightarrow> (jsnum \<times> jsstring) option" where
  "scan_json_number s =
     (case s of
        c # s1 \<Rightarrow>
          if c = CHR ''-'' then map_option (\<lambda>((m, e), r). (dec (- int m) e, r)) (scan_unsigned s1)
          else map_option (\<lambda>((m, e), r). (dec (int m) e, r)) (scan_unsigned s)
      | [] \<Rightarrow> None)"

section \<open>Reading what was printed\<close>

text \<open>What may follow a number literal without being read as a part of it.\<close>

definition number_stops :: "jsstring \<Rightarrow> bool" where
  "number_stops r \<longleftrightarrow>
     r = [] \<or> (\<not> is_digit (hd r) \<and> hd r \<noteq> CHR ''.'' \<and> hd r \<noteq> CHR ''e'' \<and> hd r \<noteq> CHR ''E'')"

lemma span_digits_append:
  "list_all is_digit ds \<Longrightarrow> r = [] \<or> \<not> is_digit (hd r) \<Longrightarrow> span_digits (ds @ r) = (ds, r)"
  by (cases r) (auto simp: span_digits_def list_all_iff)

lemma parse_digits_foldl:
  "foldl (\<lambda>n c. 10 * n + digit_value c) a s = a * 10 ^ length s + parse_digits s"
proof (induction s rule: rev_induct)
  case (snoc c s)
  then show ?case by (simp add: parse_digits_snoc)
qed (simp add: parse_digits_def)

lemma parse_digits_append: "parse_digits (a @ b) = parse_digits a * 10 ^ length b + parse_digits b"
proof -
  have "parse_digits (a @ b) = foldl (\<lambda>n c. 10 * n + digit_value c) (parse_digits a) b"
    by (simp add: parse_digits_def)
  then show ?thesis by (simp only: parse_digits_foldl)
qed

lemma zero_digit [simp]: "is_digit (CHR ''0'')" "digit_value (CHR ''0'') = 0"
  by (simp_all add: is_digit_def digit_value_def)

lemma parse_digits_zeros [simp]: "parse_digits (replicate k (CHR ''0'')) = 0"
  by (induction k rule: nat_induct)
    (simp_all add: parse_digits_def flip: replicate_append_same)

lemma zeros_digits [simp]: "list_all is_digit (replicate k (CHR ''0''))"
  by (simp add: list_all_iff)

lemma not_digit_marks [simp]:
  "\<not> is_digit (CHR ''.'')" "\<not> is_digit (CHR ''e'')" "\<not> is_digit (CHR ''-'')" "\<not> is_digit (CHR ''+'')"
  by (simp_all add: is_digit_def)

lemma scan_exponent_stops: "number_stops r \<Longrightarrow> scan_exponent r = Some (0, r)"
  by (cases r) (auto simp: scan_exponent_def number_stops_def)

lemma scan_fraction_stops: "r = [] \<or> hd r \<noteq> CHR ''.'' \<Longrightarrow> scan_fraction r = Some ([], r)"
  by (cases r) (auto simp: scan_fraction_def)

lemma scan_fraction_digits:
  "list_all is_digit fs \<Longrightarrow> fs \<noteq> [] \<Longrightarrow> r = [] \<or> \<not> is_digit (hd r) \<Longrightarrow>
   scan_fraction (CHR ''.'' # fs @ r) = Some (fs, r)"
  by (simp add: scan_fraction_def span_digits_append)

definition exponent_text :: "int \<Rightarrow> jsstring" where
  "exponent_text x = (if x < 0 then ''e'' @ show_int x else ''e+'' @ show_int x)"

lemma digit_head: "list_all is_digit ds \<Longrightarrow> ds \<noteq> [] \<Longrightarrow> is_digit (hd ds)"
  by (cases ds) auto

lemma scan_exponent_text:
  assumes "number_stops r"
  shows "scan_exponent (exponent_text x @ r) = Some (x, r)"
proof -
  have r: "r = [] \<or> \<not> is_digit (hd r)" using assms by (auto simp: number_stops_def)
  have "span_digits (show_nat n @ r) = (show_nat n, r)" for n
    using r by (intro span_digits_append) simp_all
  then show ?thesis by (simp add: exponent_text_def scan_exponent_def show_int_def)
qed

lemma exponent_text_head: "hd (exponent_text x @ r) = CHR ''e''"
  by (simp add: exponent_text_def)

text \<open>The four layouts of \<open>Number::toString\<close>.\<close>

lemma scan_unsigned_parts:
  assumes "list_all is_digit ds" "ds \<noteq> []" "hd ds \<noteq> CHR ''0'' \<or> length ds = 1"
    and "list_all is_digit fs" "scan_exponent r = Some (x, r')"
    and "r = [] \<or> (\<not> is_digit (hd r) \<and> hd r \<noteq> CHR ''.'')"
  shows "scan_unsigned (ds @ (if fs = [] then [] else CHR ''.'' # fs) @ r) =
    Some ((parse_digits (ds @ fs), x - int (length fs)), r')"
proof -
  have "span_digits (ds @ (if fs = [] then [] else CHR ''.'' # fs) @ r) =
      (ds, (if fs = [] then [] else CHR ''.'' # fs) @ r)"
    using assms by (intro span_digits_append) auto
  moreover have "scan_fraction ((if fs = [] then [] else CHR ''.'' # fs) @ r) = Some (fs, r)"
    using assms scan_fraction_digits [of fs r] by (auto simp: scan_fraction_stops)
  ultimately show ?thesis using assms by (auto simp: scan_unsigned_def)
qed

lemma scan_unsigned_print:
  assumes ds: "list_all is_digit ds" "ds \<noteq> []" "hd ds \<noteq> CHR ''0''" and r: "number_stops r"
  shows "\<exists>k x. scan_unsigned (print_digits ds n @ r) = Some ((parse_digits ds * 10 ^ k, x), r) \<and>
    x + int k = n - int (length ds)"
proof -
  let ?k = "int (length ds)"
  have r': "r = [] \<or> (\<not> is_digit (hd r) \<and> hd r \<noteq> CHR ''.'')" using r by (auto simp: number_stops_def)
  have digs: "list_all is_digit (take i ds)" "list_all is_digit (drop i ds)" for i
    using ds(1) by (auto simp: list_all_iff dest: in_set_takeD in_set_dropD)
  have head: "0 < i \<Longrightarrow> take i ds \<noteq> [] \<and> hd (take i ds) \<noteq> CHR ''0''" for i
    using ds(2,3) by (cases ds; cases i) auto
  consider (whole) "?k \<le> n" "n \<le> 21" | (point) "n < ?k" "0 < n" "n \<le> 21"
    | (small) "n < ?k" "- 6 < n" "n \<le> 0" | (expo) "n > 21 \<or> n \<le> - 6" by linarith
  then show ?thesis
  proof cases
    case whole
    have "list_all is_digit (ds @ replicate (nat (n - ?k)) (CHR ''0''))" using ds(1) by simp
    from scan_unsigned_parts [OF this, of "[]" r 0 r] ds r' scan_exponent_stops [OF r]
    have "scan_unsigned (print_digits ds n @ r) =
        Some ((parse_digits ds * 10 ^ nat (n - ?k), 0), r)"
      using whole by (simp add: print_digits_def parse_digits_append)
    then show ?thesis using whole by (intro exI [of _ "nat (n - ?k)"] exI [of _ 0]) simp
  next
    case point
    then have "\<not> length ds \<le> nat n" by linarith
    with scan_unsigned_parts [OF digs(1) [of "nat n"] _ _ digs(2) [of "nat n"], of r 0 r]
    have "scan_unsigned (print_digits ds n @ r) = Some ((parse_digits ds * 10 ^ 0, n - ?k), r)"
      using point head [of "nat n"] r' scan_exponent_stops [OF r] by (simp add: print_digits_def)
    then show ?thesis by (intro exI [of _ 0] exI [of _ "n - ?k"]) simp
  next
    case small
    have "list_all is_digit (replicate (nat (- n)) (CHR ''0'') @ ds)" using ds(1) by simp
    moreover have "parse_digits (''0'' @ replicate (nat (- n)) (CHR ''0'') @ ds) = parse_digits ds"
      using parse_digits_append [of "replicate (Suc (nat (- n))) (CHR ''0'')" ds]
      by (simp only: parse_digits_zeros) simp
    moreover note scan_unsigned_parts [of "''0''" "replicate (nat (- n)) (CHR ''0'') @ ds" r 0 r]
    ultimately have "scan_unsigned (print_digits ds n @ r) = Some ((parse_digits ds * 10 ^ 0, n - ?k), r)"
      using small ds(2) r' scan_exponent_stops [OF r] by (simp add: print_digits_def)
    then show ?thesis by (intro exI [of _ 0] exI [of _ "n - ?k"]) simp
  next
    case expo
    have "print_digits ds n = take 1 ds @ (if drop 1 ds = [] then [] else CHR ''.'' # drop 1 ds) @
        exponent_text (n - 1)"
      using expo ds(2) by (cases ds) (auto simp: print_digits_def exponent_text_def Let_def)
    moreover have "exponent_text (n - 1) @ r = [] \<or> (\<not> is_digit (hd (exponent_text (n - 1) @ r)) \<and>
        hd (exponent_text (n - 1) @ r) \<noteq> CHR ''.'')"
      by (simp add: exponent_text_head)
    moreover note scan_unsigned_parts [OF digs(1) [of 1] _ _ digs(2) [of 1] scan_exponent_text [OF r]]
    ultimately have "scan_unsigned (print_digits ds n @ r) =
        Some ((parse_digits ds * 10 ^ 0, n - 1 - int (length (drop 1 ds))), r)"
      using head [of 1] by simp
    then show ?thesis using ds(2)
      by (intro exI [of _ 0] exI [of _ "n - 1 - int (length (drop 1 ds))"]) (cases ds; simp)
  qed
qed

lemma print_digits_head:
  assumes "list_all is_digit ds" "ds \<noteq> []"
  obtains d s where "print_digits ds n = d # s" "is_digit d"
proof -
  have "print_digits ds n \<noteq> [] \<and> is_digit (hd (print_digits ds n))"
    using assms by (cases ds; cases "nat n") (auto simp: print_digits_def Let_def)
  with that show ?thesis by (cases "print_digits ds n") auto
qed

lemma show_nat_head: "0 < n \<Longrightarrow> hd (show_nat n) \<noteq> CHR ''0''"
proof (induction n rule: show_nat.induct)
  case (1 n)
  have "n < 10 \<Longrightarrow> digit_char n \<noteq> CHR ''0''"
    using 1(2) of_digit_char [of n] by (metis add_cancel_right_right of_char_of less_numeral_extra(3) digit_value_digit_char zero_digit(2))
  with 1 show ?case by (subst show_nat.simps) auto
qed

text \<open>The decimal text of a finite number reads back as that number, whatever follows it.\<close>

theorem scan_json_number_print:
  assumes "is_finite n" "canonical_num n" "number_stops r"
  shows "scan_json_number (num_to_string n @ r) = Some (n, r)"
proof -
  obtain m e where n: "n = JDec m e" using assms(1) by (cases n) auto
  show ?thesis
  proof (cases "m = 0")
    case True
    have "scan_unsigned (''0'' @ (if ([]::string) = [] then [] else CHR ''.'' # []) @ r) =
        Some ((parse_digits (''0'' @ []), 0 - int (length ([]::string))), r)"
      by (rule scan_unsigned_parts) (use assms(3) in \<open>auto simp: scan_exponent_stops number_stops_def\<close>)
    with True assms(2) show ?thesis
      by (simp add: n scan_json_number_def parse_digits_def dec.simps)
  next
    case False
    let ?ds = "show_nat (nat \<bar>m\<bar>)"
    obtain k x where s: "scan_unsigned (print_digits ?ds (e + int (length ?ds)) @ r) =
        Some ((parse_digits ?ds * 10 ^ k, x), r)" and x: "x + int k = e"
      using scan_unsigned_print [of ?ds r "e + int (length ?ds)"] show_nat_head [of "nat \<bar>m\<bar>"]
        assms(3) False by auto
    have "dec (m * 10 ^ k) x = JDec m e"
      using assms(2) x by (simp add: n dec_shift dec_of_canonical)
    moreover have "m < 0 \<Longrightarrow> - int (nat \<bar>m\<bar> * 10 ^ k) = m * 10 ^ k"
      "\<not> m < 0 \<Longrightarrow> int (nat \<bar>m\<bar> * 10 ^ k) = m * 10 ^ k" by simp_all
    moreover obtain d s' where "print_digits ?ds (e + int (length ?ds)) = d # s'" "is_digit d"
      by (rule print_digits_head [of ?ds]) simp_all
    ultimately show ?thesis using s False by (auto simp: n scan_json_number_def)
  qed
qed

section \<open>\<open>Number(text)\<close>\<close>

text \<open>An unsigned decimal literal: digits on at least one side of the point, optional exponent.\<close>

definition scan_decimal :: "jsstring \<Rightarrow> ((nat \<times> int) \<times> jsstring) option" where
  "scan_decimal s =
     (let (ds, s1) = span_digits s;
          (fs, s2) = (case s1 of c # r \<Rightarrow> if c = CHR ''.'' then span_digits r else ([], s1) | [] \<Rightarrow> ([], s1)) in
      if ds = [] \<and> fs = [] then None
      else (case scan_exponent s2 of
              None \<Rightarrow> None
            | Some (x, s3) \<Rightarrow> Some ((parse_digits (ds @ fs), x - int (length fs)), s3)))"

text \<open>The value of a digit in radix 16, 8 or 2.\<close>

definition radix_digit :: "nat \<Rightarrow> char \<Rightarrow> nat option" where
  "radix_digit r c =
     (let n = (of_char c :: nat);
          v = (if 48 \<le> n \<and> n \<le> 57 then n - 48 else if 97 \<le> n \<and> n \<le> 102 then n - 87
               else if 65 \<le> n \<and> n \<le> 70 then n - 55 else 16) in
      if v < r then Some v else None)"

fun radix_value :: "nat \<Rightarrow> nat \<Rightarrow> jsstring \<Rightarrow> nat option" where
  "radix_value r acc [] = Some acc"
| "radix_value r acc (c # s) =
     (case radix_digit r c of None \<Rightarrow> None | Some d \<Rightarrow> radix_value r (acc * r + d) s)"

definition radix_prefix :: "char \<Rightarrow> nat option" where
  "radix_prefix c =
     (if c = CHR ''x'' \<or> c = CHR ''X'' then Some 16
      else if c = CHR ''o'' \<or> c = CHR ''O'' then Some 8
      else if c = CHR ''b'' \<or> c = CHR ''B'' then Some 2 else None)"

definition signed_decimal :: "bool \<Rightarrow> jsstring \<Rightarrow> jsnum" where
  "signed_decimal neg s =
     (if s = ''Infinity'' then JInf neg
      else (case scan_decimal s of
              Some ((m, e), []) \<Rightarrow> dec (if neg then - int m else int m) e
            | _ \<Rightarrow> JNaN))"

definition to_number :: "jsstring \<Rightarrow> jsnum" where
  "to_number text =
     (let s = js_trim text in
      case s of
        [] \<Rightarrow> JDec 0 0
      | c # r \<Rightarrow>
          if c = CHR ''-'' then signed_decimal True r
          else if c = CHR ''+'' then signed_decimal False r
          else (case r of
                  d # q \<Rightarrow>
                    (case (if c = CHR ''0'' then radix_prefix d else None) of
                       Some b \<Rightarrow> if q = [] then JNaN
                                 else (case radix_value b 0 q of Some n \<Rightarrow> num_of_int (int n) | None \<Rightarrow> JNaN)
                     | None \<Rightarrow> signed_decimal False s)
                | [] \<Rightarrow> signed_decimal False s))"

text \<open>\<open>Number(x) || 0\<close> of a number.\<close>

definition num_or_zero :: "jsnum \<Rightarrow> jsnum" where
  "num_or_zero n = (if n = JNaN then JDec 0 0 else n)"

fun num_positive :: "jsnum \<Rightarrow> bool" where
  "num_positive (JDec m e) \<longleftrightarrow> 0 < m"
| "num_positive (JInf neg) \<longleftrightarrow> \<not> neg"
| "num_positive JNaN \<longleftrightarrow> False"

lemma scan_fraction_decimal:
  "scan_fraction s = Some (fs, r) \<Longrightarrow>
   (case s of c # q \<Rightarrow> if c = CHR ''.'' then span_digits q else ([], s) | [] \<Rightarrow> ([], s)) = (fs, r)"
  by (auto simp: scan_fraction_def Let_def split: list.splits if_splits prod.splits)

lemma scan_decimal_unsigned: "scan_unsigned s = Some x \<Longrightarrow> scan_decimal s = Some x"
proof -
  assume a: "scan_unsigned s = Some x"
  obtain ds s1 where sp: "span_digits s = (ds, s1)" by (cases "span_digits s")
  with a obtain fs s2 where f: "ds \<noteq> []" "scan_fraction s1 = Some (fs, s2)"
    by (auto simp: scan_unsigned_def Let_def split: if_splits option.splits)
  note d = scan_fraction_decimal [OF f(2)]
  from a sp f show ?thesis
    by (simp add: scan_unsigned_def scan_decimal_def d split: if_splits)
qed

text \<open>The characters of a printed number.\<close>

definition number_char :: "char \<Rightarrow> bool" where
  "number_char c \<longleftrightarrow> is_digit c \<or> c = CHR ''.'' \<or> c = CHR ''e'' \<or> c = CHR ''+'' \<or> c = CHR ''-''"

lemma digits_number_chars: "list_all is_digit s \<Longrightarrow> list_all number_char s"
  by (simp add: list_all_iff number_char_def)

lemma print_digits_chars: "list_all is_digit ds \<Longrightarrow> list_all number_char (print_digits ds n)"
proof -
  assume "list_all is_digit ds"
  then have "list_all is_digit (take i ds)" "list_all is_digit (drop i ds)" "list_all is_digit ds" for i
    by (auto simp: list_all_iff dest: in_set_takeD in_set_dropD)
  note ds = this [THEN digits_number_chars]
  have "list_all number_char (show_nat k)" for k by (rule digits_number_chars) simp
  then have ex: "list_all number_char (show_int k)" for k
    by (simp add: show_int_def) (simp add: number_char_def)
  have z: "list_all number_char (replicate k (CHR ''0''))" for k by (rule digits_number_chars) simp
  have m: "number_char (CHR ''.'')" "number_char (CHR ''e'')" "number_char (CHR ''+'')" "number_char (CHR ''0'')"
    by (simp_all add: number_char_def)
  show ?thesis unfolding print_digits_def Let_def using ds ex z m by auto
qed

lemma num_to_string_chars:
  "is_finite n \<Longrightarrow> list_all number_char (num_to_string n) \<and> num_to_string n \<noteq> []"
proof (cases n)
  case (JDec m e)
  let ?ds = "show_nat (nat \<bar>m\<bar>)"
  have "list_all number_char (print_digits ?ds (e + int (length ?ds)))" by (rule print_digits_chars) simp
  moreover obtain d s where "print_digits ?ds (e + int (length ?ds)) = d # s"
    by (rule print_digits_head [of ?ds]) simp_all
  moreover have "number_char (CHR ''-'')" "number_char (CHR ''0'')" by (simp_all add: number_char_def)
  ultimately show ?thesis by (auto simp: JDec Let_def)
qed simp_all

lemma to_number_print:
  assumes "is_finite n" "canonical_num n"
  shows "to_number (num_to_string n) = n"
proof -
  let ?s = "num_to_string n"
  note ch = num_to_string_chars [OF assms(1)]
  have "trimmed ?s"
    using ch by (intro trimmed_no_ws) (auto simp: list_all_iff number_char_def is_ws_def is_digit_def)
  then have tr: "js_trim ?s = ?s" by (rule js_trim_trimmed)
  from scan_json_number_print [OF assms, of "[]"] have sc: "scan_json_number ?s = Some (n, [])"
    by (simp add: number_stops_def)
  obtain c r where s: "?s = c # r" using ch by (cases ?s) auto
  have inf: "t \<noteq> ''Infinity''" if "list_all number_char t" for t
    using that by (auto simp: number_char_def is_digit_def)
  have "radix_prefix d = None" if "number_char d" for d
    using that by (auto simp: radix_prefix_def number_char_def is_digit_def)
  moreover have "list_all number_char r" using ch s by simp
  moreover have "c \<noteq> CHR ''+''" using sc s by (auto simp: scan_json_number_def scan_unsigned_def span_digits_def)
  moreover have "signed_decimal True r = n" if "c = CHR ''-''"
    using sc s that scan_decimal_unsigned inf [of r] \<open>list_all number_char r\<close>
    by (auto simp: scan_json_number_def signed_decimal_def)
  moreover have "signed_decimal False ?s = n" if "c \<noteq> CHR ''-''"
    using sc s that scan_decimal_unsigned inf [of ?s] ch
    by (auto simp: scan_json_number_def signed_decimal_def)
  ultimately show ?thesis
    using s tr by (cases r) (auto simp: to_number_def Let_def)
qed

end
