(* ===== verification/Json.thy ===== *)
theory Json
  imports JsNumber
begin

text \<open>
  \<open>JSON.parse\<close> and \<open>JSON.stringify\<close> and the property order of plain objects, which the
  settings, channel and playground code relies on. A JSON object is the list of its entries in
  the order \<open>Object.keys\<close> enumerates them: keys that are array indices first, ascending, then
  the other keys in order of insertion; a repeated key keeps its first position and takes the
  last value.

  The parser is a recursive descent over the text with a fuel that twice the length of the text
  always covers (\<open>json_fuel_irrelevant\<close>). The main facts are that a parsed value is well formed
  and that parsing what was printed gives the value back (\<open>json_parse_stringify\<close>).
\<close>

datatype json = JNull | JBool bool | JNum jsnum | JStr jsstring
  | JArr "json list" | JObj "(jsstring \<times> json) list"

abbreviation dquote :: char where "dquote \<equiv> CHR 0x22"
abbreviation backslash :: char where "backslash \<equiv> CHR 0x5C"

section \<open>Property order\<close>

definition is_array_index :: "jsstring \<Rightarrow> bool" where
  "is_array_index k \<longleftrightarrow> k \<noteq> [] \<and> list_all is_digit k \<and> show_nat (parse_digits k) = k \<and>
     int (parse_digits k) < 4294967295"

definition obj_order :: "(jsstring \<times> 'a) list \<Rightarrow> (jsstring \<times> 'a) list" where
  "obj_order kvs =
     sort_key (\<lambda>kv. parse_digits (fst kv)) (filter (\<lambda>kv. is_array_index (fst kv)) kvs) @
     filter (\<lambda>kv. \<not> is_array_index (fst kv)) kvs"

text \<open>Assigning a property.\<close>

fun obj_set :: "(jsstring \<times> 'a) list \<Rightarrow> jsstring \<Rightarrow> 'a \<Rightarrow> (jsstring \<times> 'a) list" where
  "obj_set [] k v = [(k, v)]"
| "obj_set ((k', v') # kvs) k v = (if k' = k then (k, v) # kvs else (k', v') # obj_set kvs k v)"

definition mk_obj :: "(jsstring \<times> 'a) list \<Rightarrow> (jsstring \<times> 'a) list" where
  "mk_obj members = obj_order (foldl (\<lambda>o' (k, v). obj_set o' k v) [] members)"

definition obj_wf :: "(jsstring \<times> 'a) list \<Rightarrow> bool" where
  "obj_wf kvs \<longleftrightarrow> distinct (map fst kvs) \<and> obj_order kvs = kvs"

lemma fst_obj_set: "fst ` set (obj_set kvs k v) = insert k (fst ` set kvs)"
proof (induction kvs)
  case (Cons kv kvs)
  then show ?case by (cases kv) (simp add: insert_commute)
qed simp

lemma distinct_obj_set: "distinct (map fst kvs) \<Longrightarrow> distinct (map fst (obj_set kvs k v))"
proof (induction kvs)
  case (Cons kv kvs)
  then show ?case
    by (cases kv) (auto simp: fst_obj_set simp del: image_iff)
qed simp

lemma obj_set_fresh: "k \<notin> fst ` set kvs \<Longrightarrow> obj_set kvs k v = kvs @ [(k, v)]"
  by (induction kvs) auto

lemma snd_obj_set: "snd ` set (obj_set kvs k v) \<subseteq> insert v (snd ` set kvs)"
proof (induction kvs)
  case (Cons kv kvs)
  then show ?case by (cases kv) auto
qed simp

lemma map_of_obj_set: "map_of (obj_set kvs k v) = (map_of kvs)(k \<mapsto> v)"
  by (induction kvs) auto

lemma set_obj_order [simp]: "set (obj_order kvs) = set kvs"
  by (auto simp: obj_order_def)

lemma filter_sort_key_self:
  "filter P (sort_key f (filter P xs)) = sort_key f (filter P xs)"
  "filter (\<lambda>x. \<not> P x) (sort_key f (filter P xs)) = []"
  by (auto simp: filter_empty_conv intro: filter_True)

lemma obj_order_idem: "obj_order (obj_order kvs) = obj_order kvs"
proof -
  let ?P = "\<lambda>kv. is_array_index (fst kv)"
  let ?f = "\<lambda>kv. parse_digits (fst kv)"
  have "sort_key ?f (sort_key ?f (filter ?P kvs)) = sort_key ?f (filter ?P kvs)"
    by (rule sort_key_id_if_sorted) simp
  then show ?thesis by (simp add: obj_order_def filter_sort_key_self)
qed

lemma distinct_obj_order: "distinct (map fst kvs) \<Longrightarrow> distinct (map fst (obj_order kvs))"
proof -
  assume d: "distinct (map fst kvs)"
  have "mset (obj_order kvs) = mset kvs" by (simp add: obj_order_def)
  then have "mset (map fst (obj_order kvs)) = mset (map fst kvs)" by (metis mset_map)
  with d show ?thesis by (metis mset_eq_imp_distinct_iff)
qed

lemma distinct_members:
  "distinct (map fst acc) \<Longrightarrow> distinct (map fst (foldl (\<lambda>o' (k, v). obj_set o' k v) acc ms))"
  by (induction ms arbitrary: acc) (auto simp: distinct_obj_set)

lemma snd_members:
  "snd ` set (foldl (\<lambda>o' (k, v). obj_set o' k v) acc ms) \<subseteq> snd ` set acc \<union> snd ` set ms"
proof (induction ms arbitrary: acc)
  case (Cons m ms)
  obtain k v where m: "m = (k, v)" by (cases m)
  from Cons.IH [of "obj_set acc k v"] snd_obj_set [of acc k v] show ?case
    by (auto simp: m)
qed simp

lemma obj_wf_mk_obj: "obj_wf (mk_obj ms)"
  by (simp add: obj_wf_def mk_obj_def obj_order_idem distinct_obj_order distinct_members)

lemma snd_mk_obj: "snd ` set (mk_obj ms) \<subseteq> snd ` set ms"
  using snd_members [of "[]" ms] by (simp add: mk_obj_def)

lemma members_distinct:
  "distinct (map fst (acc @ ms)) \<Longrightarrow> foldl (\<lambda>o' (k, v). obj_set o' k v) acc ms = acc @ ms"
proof (induction ms arbitrary: acc)
  case (Cons m ms)
  obtain k v where m: "m = (k, v)" by (cases m)
  from Cons.prems have "k \<notin> fst ` set acc" by (auto simp: m)
  with Cons.IH [of "acc @ [(k, v)]"] Cons.prems show ?case by (simp add: m obj_set_fresh)
qed simp

lemma mk_obj_wf: "obj_wf kvs \<Longrightarrow> mk_obj kvs = kvs"
  by (simp add: obj_wf_def mk_obj_def members_distinct)

section \<open>Strings\<close>

definition hex_digit :: "nat \<Rightarrow> char" where
  "hex_digit n = (if n < 10 then char_of (48 + n) else char_of (87 + n))"

definition hex_value :: "char \<Rightarrow> nat option" where
  "hex_value c =
     (let n = (of_char c :: nat) in
      if 48 \<le> n \<and> n \<le> 57 then Some (n - 48)
      else if 97 \<le> n \<and> n \<le> 102 then Some (n - 87)
      else if 65 \<le> n \<and> n \<le> 70 then Some (n - 55)
      else None)"

text \<open>The UTF-8 bytes of a code unit given by a \<open>\u\<close> escape; the two halves of a surrogate
  pair are encoded one by one.\<close>

definition utf8 :: "nat \<Rightarrow> jsstring" where
  "utf8 n =
     (if n < 128 then [char_of n]
      else if n < 2048 then [char_of (192 + n div 64), char_of (128 + n mod 64)]
      else [char_of (224 + n div 4096), char_of (128 + n div 64 mod 64), char_of (128 + n mod 64)])"

definition escape_char :: "char \<Rightarrow> jsstring" where
  "escape_char c =
     (if c = dquote \<or> c = backslash then [backslash, c]
      else if c = CHR 0x08 then [backslash, CHR ''b'']
      else if c = CHR 0x0C then [backslash, CHR ''f'']
      else if c = CHR 0x0A then [backslash, CHR ''n'']
      else if c = CHR 0x0D then [backslash, CHR ''r'']
      else if c = CHR 0x09 then [backslash, CHR ''t'']
      else if (of_char c :: nat) < 32 then
        backslash # ''u00'' @ [hex_digit (of_char c div 16), hex_digit (of_char c mod 16)]
      else [c])"

definition json_quote :: "jsstring \<Rightarrow> jsstring" where
  "json_quote s = dquote # concat (map escape_char s) @ [dquote]"

definition unescape :: "char \<Rightarrow> char option" where
  "unescape c =
     (if c = dquote \<or> c = backslash \<or> c = CHR ''/'' then Some c
      else if c = CHR ''b'' then Some (CHR 0x08)
      else if c = CHR ''f'' then Some (CHR 0x0C)
      else if c = CHR ''n'' then Some (CHR 0x0A)
      else if c = CHR ''r'' then Some (CHR 0x0D)
      else if c = CHR ''t'' then Some (CHR 0x09)
      else None)"

definition hex4 :: "char \<Rightarrow> char \<Rightarrow> char \<Rightarrow> char \<Rightarrow> nat option" where
  "hex4 a b c d =
     (case (hex_value a, hex_value b, hex_value c, hex_value d) of
        (Some w, Some x, Some y, Some z) \<Rightarrow> Some (4096 * w + 256 * x + 16 * y + z)
      | _ \<Rightarrow> None)"

text \<open>The rest of a string literal after its opening quote: the value and what follows.\<close>

fun scan_string :: "jsstring \<Rightarrow> (jsstring \<times> jsstring) option" where
  "scan_string [] = None"
| "scan_string (ch # s) =
     (if ch = dquote then Some ([], s)
      else if ch = backslash then
        (case s of
           [] \<Rightarrow> None
         | e # s1 \<Rightarrow>
             if e = CHR ''u'' then
               (case s1 of
                  a # b # c # d # s2 \<Rightarrow>
                    (case hex4 a b c d of
                       None \<Rightarrow> None
                     | Some n \<Rightarrow> map_option (\<lambda>(x, r). (utf8 n @ x, r)) (scan_string s2))
                | _ \<Rightarrow> None)
             else (case unescape e of
                     None \<Rightarrow> None
                   | Some x \<Rightarrow> map_option (\<lambda>(y, r). (x # y, r)) (scan_string s1)))
      else if (of_char ch :: nat) < 32 then None
      else map_option (\<lambda>(y, r). (ch # y, r)) (scan_string s))"

section \<open>Printing\<close>

fun json_stringify :: "json \<Rightarrow> jsstring" where
  "json_stringify JNull = ''null''"
| "json_stringify (JBool b) = (if b then ''true'' else ''false'')"
| "json_stringify (JNum n) = (if is_finite n then num_to_string n else ''null'')"
| "json_stringify (JStr s) = json_quote s"
| "json_stringify (JArr xs) = ''['' @ js_join '','' (map json_stringify xs) @ '']''"
| "json_stringify (JObj kvs) =
     ''{'' @ js_join '','' (map (\<lambda>(k, v). json_quote k @ '':'' @ json_stringify v) kvs) @ ''}''"

section \<open>Parsing\<close>

definition is_json_ws :: "char \<Rightarrow> bool" where
  "is_json_ws c \<longleftrightarrow> c = CHR '' '' \<or> c = CHR 0x09 \<or> c = CHR 0x0A \<or> c = CHR 0x0D"

definition skip_ws :: "jsstring \<Rightarrow> jsstring" where
  "skip_ws s = dropWhile is_json_ws s"

fun parse_value :: "nat \<Rightarrow> jsstring \<Rightarrow> (json \<times> jsstring) option"
  and parse_elements :: "nat \<Rightarrow> jsstring \<Rightarrow> (json list \<times> jsstring) option"
  and parse_members :: "nat \<Rightarrow> jsstring \<Rightarrow> ((jsstring \<times> json) list \<times> jsstring) option" where
  "parse_value 0 s = None"
| "parse_value (Suc n) s =
     (case skip_ws s of
        [] \<Rightarrow> None
      | c # r \<Rightarrow>
          if c = dquote then map_option (\<lambda>(x, q). (JStr x, q)) (scan_string r)
          else if c = CHR ''['' then
            (case skip_ws r of
               [] \<Rightarrow> None
             | d # r' \<Rightarrow> if d = CHR '']'' then Some (JArr [], r')
                        else map_option (\<lambda>(vs, q). (JArr vs, q)) (parse_elements n (d # r')))
          else if c = CHR ''{'' then
            (case skip_ws r of
               [] \<Rightarrow> None
             | d # r' \<Rightarrow> if d = CHR ''}'' then Some (JObj [], r')
                        else map_option (\<lambda>(ms, q). (JObj (mk_obj ms), q)) (parse_members n (d # r')))
          else if take 4 (c # r) = ''null'' then Some (JNull, drop 4 (c # r))
          else if take 4 (c # r) = ''true'' then Some (JBool True, drop 4 (c # r))
          else if take 5 (c # r) = ''false'' then Some (JBool False, drop 5 (c # r))
          else map_option (\<lambda>(x, q). (JNum x, q)) (scan_json_number (c # r)))"
| "parse_elements 0 s = None"
| "parse_elements (Suc n) s =
     (case parse_value n s of
        None \<Rightarrow> None
      | Some (v, r) \<Rightarrow>
          (case skip_ws r of
             [] \<Rightarrow> None
           | c # r' \<Rightarrow>
               if c = CHR '','' then map_option (\<lambda>(vs, q). (v # vs, q)) (parse_elements n r')
               else if c = CHR '']'' then Some ([v], r')
               else None))"
| "parse_members 0 s = None"
| "parse_members (Suc n) s =
     (case skip_ws s of
        [] \<Rightarrow> None
      | c # r \<Rightarrow>
          if c \<noteq> dquote then None
          else (case scan_string r of
                  None \<Rightarrow> None
                | Some (k, r1) \<Rightarrow>
                    (case skip_ws r1 of
                       [] \<Rightarrow> None
                     | d # r2 \<Rightarrow>
                         if d \<noteq> CHR '':'' then None
                         else (case parse_value n r2 of
                                 None \<Rightarrow> None
                               | Some (v, r3) \<Rightarrow>
                                   (case skip_ws r3 of
                                      [] \<Rightarrow> None
                                    | e # r4 \<Rightarrow>
                                        if e = CHR '','' then
                                          map_option (\<lambda>(ms, q). ((k, v) # ms, q)) (parse_members n r4)
                                        else if e = CHR ''}'' then Some ([(k, v)], r4)
                                        else None)))))"

text \<open>\<open>JSON.parse\<close>: \<open>None\<close> is the \<open>SyntaxError\<close>.\<close>

definition json_parse :: "jsstring \<Rightarrow> json option" where
  "json_parse s =
     (case parse_value (2 * length s + 2) s of
        Some (v, r) \<Rightarrow> if skip_ws r = [] then Some v else None
      | None \<Rightarrow> None)"

section \<open>Well-formed values\<close>

fun json_wf :: "json \<Rightarrow> bool" where
  "json_wf (JNum n) = (is_finite n \<and> canonical_num n)"
| "json_wf (JArr xs) = list_all json_wf xs"
| "json_wf (JObj kvs) = (obj_wf kvs \<and> list_all (\<lambda>(k, v). json_wf v) kvs)"
| "json_wf _ = True"

section \<open>Parsing what was printed\<close>

subsection \<open>String literals\<close>

lemma hex_value_digit: "n < 16 \<Longrightarrow> hex_value (hex_digit n) = Some n"
  by (auto simp: hex_value_def hex_digit_def Let_def)

lemma char_of_utf8: "(of_char c :: nat) < 128 \<Longrightarrow> utf8 (of_char c) = [c]"
  by (simp add: utf8_def)

lemma scan_string_escape:
  "scan_string (escape_char c @ t) = map_option (\<lambda>(y, r). (c # y, r)) (scan_string t)"
proof (cases "(of_char c :: nat) < 32")
  case True
  define n where "n = (of_char c :: nat)"
  have "hex4 (CHR ''0'') (CHR ''0'') (hex_digit (n div 16)) (hex_digit (n mod 16)) = Some n"
    using hex_value_digit [of "n div 16"] hex_value_digit [of "n mod 16"] True
    by (simp add: hex4_def hex_value_def n_def [symmetric])
  moreover have "utf8 n = [c]" using True by (simp add: n_def char_of_utf8)
  ultimately show ?thesis
    by (simp add: escape_char_def unescape_def flip: n_def)
next
  case False
  then show ?thesis by (auto simp: escape_char_def unescape_def)
qed

lemma scan_string_quote: "scan_string (concat (map escape_char s) @ dquote # r) = Some (s, r)"
  by (induction s) (simp_all add: scan_string_escape del: scan_string.simps(2), simp)

lemma json_quote_append: "json_quote s @ r = dquote # concat (map escape_char s) @ dquote # r"
  by (simp add: json_quote_def)

subsection \<open>Heads\<close>

lemma num_to_string_head:
  "is_finite n \<Longrightarrow> \<exists>d s. num_to_string n = d # s \<and> (is_digit d \<or> d = CHR ''-'')"
proof (cases n)
  case (JDec m e)
  obtain d s where "print_digits (show_nat (nat \<bar>m\<bar>)) (e + int (length (show_nat (nat \<bar>m\<bar>)))) = d # s"
    "is_digit d" by (rule print_digits_head [of "show_nat (nat \<bar>m\<bar>)"]) simp_all
  then show ?thesis by (simp add: JDec Let_def)
qed auto

definition value_head :: "char \<Rightarrow> bool" where
  "value_head d \<longleftrightarrow> \<not> is_json_ws d \<and> d \<noteq> CHR '']'' \<and> d \<noteq> CHR ''}''"

lemma value_head_digit: "is_digit d \<or> d = CHR ''-'' \<Longrightarrow> value_head d"
  by (auto simp: value_head_def is_json_ws_def is_digit_def)

lemma json_stringify_head: "\<exists>d s. json_stringify j = d # s \<and> value_head d"
proof (cases j)
  case (JNum n)
  then show ?thesis using num_to_string_head [of n] value_head_digit
    by (fastforce simp: value_head_def is_json_ws_def)
qed (auto simp: value_head_def is_json_ws_def json_quote_def)

lemma skip_ws_head: "\<not> is_json_ws d \<Longrightarrow> skip_ws (d # s) = d # s"
  by (simp add: skip_ws_def)

lemma skip_ws_stringify: "skip_ws (json_stringify j @ r) = json_stringify j @ r"
  using json_stringify_head [of j] by (auto simp: skip_ws_head value_head_def)

subsection \<open>Values\<close>

definition value_stops :: "jsstring \<Rightarrow> bool" where
  "value_stops r \<longleftrightarrow> r = [] \<or> hd r = CHR '','' \<or> hd r = CHR '']'' \<or> hd r = CHR ''}''"

lemma value_stops_number: "value_stops r \<Longrightarrow> number_stops r"
  by (cases r) (auto simp: value_stops_def number_stops_def is_digit_def)

definition parses_back :: "json \<Rightarrow> bool" where
  "parses_back j \<longleftrightarrow> (\<forall>n r. value_stops r \<longrightarrow> 2 * length (json_stringify j) \<le> n \<longrightarrow>
     parse_value n (json_stringify j @ r) = Some (j, r))"

lemma json_stringify_length: "0 < length (json_stringify j)"
  using json_stringify_head [of j] by auto

lemma parse_elements_back:
  assumes "vs \<noteq> []" "\<forall>v \<in> set vs. parses_back v"
    and "2 * length (js_join '','' (map json_stringify vs)) + 1 \<le> n"
  shows "parse_elements n (js_join '','' (map json_stringify vs) @ CHR '']'' # r) = Some (vs, r)"
  using assms
proof (induction vs arbitrary: n)
  case (Cons v vs)
  then obtain n' where n: "n = Suc n'" by (cases n) auto
  have v: "value_stops s \<Longrightarrow> parse_value n' (json_stringify v @ s) = Some (v, s)" for s
    using Cons.prems(2,3) by (cases vs) (auto simp: parses_back_def n)
  show ?case
  proof (cases vs)
    case Nil
    then show ?thesis using v [of "CHR '']'' # r"]
      by (simp add: n value_stops_def skip_ws_head is_json_ws_def)
  next
    case (Cons w ws)
    let ?t = "js_join '','' (map json_stringify vs) @ CHR '']'' # r"
    have "parse_elements n' ?t = Some (vs, r)"
      using Cons.IH Cons.prems Cons by (intro Cons.IH) (auto simp: n)
    moreover have "parse_value n' (json_stringify v @ CHR '','' # ?t) = Some (v, CHR '','' # ?t)"
      by (rule v) (simp add: value_stops_def)
    ultimately show ?thesis
      using Cons by (simp add: n skip_ws_head is_json_ws_def)
  qed
qed simp

abbreviation member_text :: "jsstring \<times> json \<Rightarrow> jsstring" where
  "member_text \<equiv> \<lambda>(k, v). json_quote k @ '':'' @ json_stringify v"

lemma parse_members_back:
  assumes "ms \<noteq> []" "\<forall>v \<in> snd ` set ms. parses_back v"
    and "2 * length (js_join '','' (map member_text ms)) + 1 \<le> n"
  shows "parse_members n (js_join '','' (map member_text ms) @ CHR ''}'' # r) = Some (ms, r)"
  using assms
proof (induction ms arbitrary: n)
  case (Cons m ms)
  obtain k v where m: "m = (k, v)" by (cases m)
  obtain n' where n: "n = Suc n'" using Cons.prems(3) by (cases n) auto
  have v: "value_stops s \<Longrightarrow> parse_value n' (json_stringify v @ s) = Some (v, s)" for s
    using Cons.prems(2,3) by (cases ms) (auto simp: parses_back_def n m)
  show ?case
  proof (cases ms)
    case Nil
    then show ?thesis using v [of "CHR ''}'' # r"]
      by (simp add: n m json_quote_append scan_string_quote value_stops_def skip_ws_head is_json_ws_def)
  next
    case (Cons w ws)
    let ?t = "js_join '','' (map member_text ms) @ CHR ''}'' # r"
    have "parse_members n' ?t = Some (ms, r)"
      using Cons.IH Cons.prems Cons by (intro Cons.IH) (auto simp: n m)
    moreover have "parse_value n' (json_stringify v @ CHR '','' # ?t) = Some (v, CHR '','' # ?t)"
      by (rule v) (simp add: value_stops_def)
    ultimately show ?thesis
      using Cons by (simp add: n m json_quote_append scan_string_quote skip_ws_head is_json_ws_def)
  qed
qed simp

lemma parses_backI:
  assumes "\<And>n r. value_stops r \<Longrightarrow> 2 * length (json_stringify j) \<le> Suc n \<Longrightarrow>
    parse_value (Suc n) (json_stringify j @ r) = Some (j, r)"
  shows "parses_back j"
  unfolding parses_back_def
proof (intro allI impI)
  fix n r assume "value_stops r" "2 * length (json_stringify j) \<le> n"
  moreover obtain n' where "n = Suc n'"
    using calculation(2) json_stringify_length [of j] by (cases n) auto
  ultimately show "parse_value n (json_stringify j @ r) = Some (j, r)" using assms by simp
qed

lemma parses_back_num:
  assumes "json_wf (JNum x)"
  shows "parses_back (JNum x)"
proof (rule parses_backI)
  fix n r assume r: "value_stops r"
  obtain d s where d: "num_to_string x = d # s" "is_digit d \<or> d = CHR ''-''"
    using assms num_to_string_head [of x] by auto
  have "d \<noteq> dquote" "d \<noteq> CHR ''[''" "d \<noteq> CHR ''{''" "d \<noteq> CHR ''n''" "d \<noteq> CHR ''t''" "d \<noteq> CHR ''f''"
    "\<not> is_json_ws d" using d(2) by (auto simp: is_digit_def is_json_ws_def)
  moreover have "scan_json_number (num_to_string x @ r) = Some (x, r)"
    using assms r by (simp add: scan_json_number_print value_stops_number)
  ultimately show "parse_value (Suc n) (json_stringify (JNum x) @ r) = Some (JNum x, r)"
    using assms d by (simp add: skip_ws_head)
qed

lemma parses_back_arr:
  assumes "\<forall>v \<in> set vs. parses_back v"
  shows "parses_back (JArr vs)"
proof (rule parses_backI)
  fix n r assume n: "2 * length (json_stringify (JArr vs)) \<le> Suc n"
  show "parse_value (Suc n) (json_stringify (JArr vs) @ r) = Some (JArr vs, r)"
  proof (cases vs)
    case Nil
    then show ?thesis by (simp add: skip_ws_head is_json_ws_def)
  next
    case (Cons w ws)
    let ?t = "js_join '','' (map json_stringify vs) @ CHR '']'' # r"
    have "parse_elements n ?t = Some (vs, r)"
      using n assms Cons by (intro parse_elements_back) auto
    moreover obtain d s where "?t = d # s" "value_head d"
      using json_stringify_head [of w] Cons by (cases ws) auto
    ultimately show ?thesis
      by (simp add: skip_ws_head value_head_def is_json_ws_def [of "CHR ''[''"])
  qed
qed

lemma parses_back_obj:
  assumes "\<forall>v \<in> snd ` set ms. parses_back v" "obj_wf ms"
  shows "parses_back (JObj ms)"
proof (rule parses_backI)
  fix n r assume n: "2 * length (json_stringify (JObj ms)) \<le> Suc n"
  show "parse_value (Suc n) (json_stringify (JObj ms) @ r) = Some (JObj ms, r)"
  proof (cases ms)
    case Nil
    then show ?thesis by (simp add: skip_ws_head is_json_ws_def)
  next
    case (Cons w ws)
    let ?t = "js_join '','' (map member_text ms) @ CHR ''}'' # r"
    have "parse_members n ?t = Some (ms, r)"
      using n Cons assms(1) by (intro parse_members_back) auto
    moreover obtain s where "?t = dquote # s"
      using Cons by (cases ws; cases w) (auto simp: json_quote_def)
    ultimately show ?thesis using assms(2)
      by (simp add: skip_ws_head is_json_ws_def mk_obj_wf)
  qed
qed

lemma parses_back_wf: "json_wf j \<Longrightarrow> parses_back j"
proof (induction j)
  case (JArr vs)
  then show ?case by (intro parses_back_arr) (auto simp: list_all_iff)
next
  case (JObj ms)
  then show ?case by (intro parses_back_obj) (fastforce simp: list_all_iff)+
qed (auto intro: parses_back_num parses_backI
    simp: skip_ws_head is_json_ws_def json_quote_append scan_string_quote)

text \<open>\<open>JSON.parse(JSON.stringify(j))\<close> gives a well-formed value back.\<close>

theorem json_parse_stringify: "json_wf j \<Longrightarrow> json_parse (json_stringify j) = Some j"
  using parses_back_wf [of j] unfolding parses_back_def json_parse_def
  by (auto simp: value_stops_def skip_ws_def dest!: spec [of _ "2 * length (json_stringify j) + 2"]
      spec [of _ "[]"])

interpretation json: codec json_stringify json_parse json_wf
  by unfold_locales (rule json_parse_stringify)

section \<open>Every parsed value is well formed, and the fuel is enough\<close>

lemma scan_string_length: "scan_string s = Some (x, r) \<Longrightarrow> length r < length s"
  by (induction s arbitrary: x r rule: scan_string.induct)
    (fastforce split: if_splits list.splits option.splits)+

lemma length_span: "length (dropWhile P s) \<le> length s"
  by (rule length_dropWhile_le)

lemma scan_unsigned_length: "scan_unsigned s = Some (x, r) \<Longrightarrow> length r < length s"
proof -
  assume a: "scan_unsigned s = Some (x, r)"
  have frac: "scan_fraction u = Some (fs, v) \<Longrightarrow> length v \<le> length u" for u fs v
    by (auto simp: scan_fraction_def span_digits_def length_span le_SucI split: list.splits if_splits)
  have expo: "scan_exponent u = Some (y, v) \<Longrightarrow> length v \<le> length u" for u y v
    by (auto simp: scan_exponent_def span_digits_def Let_def length_span le_SucI
        split: list.splits if_splits intro: le_trans [OF length_span])
  have "takeWhile is_digit s \<noteq> [] \<Longrightarrow> length (dropWhile is_digit s) < length s"
    by (cases s) (auto simp: length_span less_Suc_eq_le split: if_splits)
  with a frac expo show ?thesis
    by (fastforce simp: scan_unsigned_def span_digits_def split: if_splits option.splits)
qed

lemma scan_json_number_props:
  "scan_json_number s = Some (x, r) \<Longrightarrow> length r < length s \<and> is_finite x \<and> canonical_num x"
  by (auto simp: scan_json_number_def dec_finite dec_canonical less_SucI
      split: list.splits if_splits dest: scan_unsigned_length)

lemma skip_ws_length: "skip_ws s = c # r \<Longrightarrow> length r < length s"
  using length_span [of is_json_ws s] by (auto simp: skip_ws_def)

lemma parse_length_all:
  "(\<forall>s j r. parse_value n s = Some (j, r) \<longrightarrow> length r < length s) \<and>
   (\<forall>s vs r. parse_elements n s = Some (vs, r) \<longrightarrow> length r < length s) \<and>
   (\<forall>s ms r. parse_members n s = Some (ms, r) \<longrightarrow> length r < length s)"
proof (induction n)
  case (Suc n)
  then have IH: "\<And>s j r. parse_value n s = Some (j, r) \<Longrightarrow> length r < length s"
    "\<And>s vs r. parse_elements n s = Some (vs, r) \<Longrightarrow> length r < length s"
    "\<And>s ms r. parse_members n s = Some (ms, r) \<Longrightarrow> length r < length s" by blast+
  have "length r < length s" if "parse_value (Suc n) s = Some (j, r)" for s j r
  proof -
    from that obtain c q where c: "skip_ws s = c # q" by (auto split: list.splits)
    note q = skip_ws_length [OF c]
    show ?thesis using that q scan_json_number_props [of "c # q"]
      by (fastforce simp: c split: if_splits list.splits
          dest: scan_string_length skip_ws_length IH(2,3))
  qed
  moreover have "length r < length s" if "parse_elements (Suc n) s = Some (vs, r)" for s vs r
    using that by (fastforce split: if_splits list.splits option.splits
        dest: skip_ws_length IH(1,2))
  moreover have "length r < length s" if "parse_members (Suc n) s = Some (ms, r)" for s ms r
    using that by (fastforce split: if_splits list.splits option.splits
        dest: skip_ws_length scan_string_length IH(1,3))
  ultimately show ?case by blast
qed simp

lemmas parse_length = parse_length_all [THEN conjunct1, rule_format]
  parse_length_all [THEN conjunct2, THEN conjunct1, rule_format]
  parse_length_all [THEN conjunct2, THEN conjunct2, rule_format]

lemma parse_wf_all:
  "(\<forall>s j r. parse_value n s = Some (j, r) \<longrightarrow> json_wf j) \<and>
   (\<forall>s vs r. parse_elements n s = Some (vs, r) \<longrightarrow> list_all json_wf vs) \<and>
   (\<forall>s ms r. parse_members n s = Some (ms, r) \<longrightarrow> list_all (\<lambda>(k, v). json_wf v) ms)"
proof (induction n)
  case (Suc n)
  have mk: "list_all (\<lambda>(k, v). json_wf v) ms \<Longrightarrow> list_all (\<lambda>(k, v). json_wf v) (mk_obj ms)" for ms
    using snd_mk_obj [of ms] by (fastforce simp: list_all_iff)
  from Suc have IH: "\<And>s j r. parse_value n s = Some (j, r) \<Longrightarrow> json_wf j"
    "\<And>s vs r. parse_elements n s = Some (vs, r) \<Longrightarrow> list_all json_wf vs"
    "\<And>s ms r. parse_members n s = Some (ms, r) \<Longrightarrow> list_all (\<lambda>(k, v). json_wf v) ms" by blast+
  have "json_wf j" if "parse_value (Suc n) s = Some (j, r)" for s j r
    using that by (auto split: if_splits list.splits simp: mk obj_wf_mk_obj obj_wf_def [of "[]"]
        obj_order_def dest!: scan_json_number_props dest: IH)
  moreover have "list_all json_wf vs" if "parse_elements (Suc n) s = Some (vs, r)" for s vs r
    using that by (auto split: if_splits list.splits option.splits) (blast dest: IH)+
  moreover have "list_all (\<lambda>(k, v). json_wf v) ms" if "parse_members (Suc n) s = Some (ms, r)" for s ms r
    using that by (auto split: if_splits list.splits option.splits) (blast dest: IH)+
  ultimately show ?case by blast
qed simp

theorem json_parse_wf:
  assumes "json_parse s = Some j"
  shows "json_wf j"
proof -
  obtain r where "parse_value (2 * length s + 2) s = Some (j, r)"
    using assms unfolding json_parse_def by (auto split: option.splits if_splits)
  with parse_wf_all [of "2 * length s + 2"] show ?thesis by blast
qed

text \<open>The result does not depend on the fuel once it covers twice the length of the text, so
  \<open>None\<close> from \<open>json_parse\<close> always means a syntax error.\<close>

lemma parse_fuel_all:
  "(\<forall>m s. 2 * length s + 1 \<le> n \<longrightarrow> 2 * length s + 1 \<le> m \<longrightarrow> parse_value n s = parse_value m s) \<and>
   (\<forall>m s. 2 * length s + 2 \<le> n \<longrightarrow> 2 * length s + 2 \<le> m \<longrightarrow> parse_elements n s = parse_elements m s) \<and>
   (\<forall>m s. 2 * length s + 2 \<le> n \<longrightarrow> 2 * length s + 2 \<le> m \<longrightarrow> parse_members n s = parse_members m s)"
proof (induction n)
  case (Suc n)
  then have IH: "\<And>m s. 2 * length s + 1 \<le> n \<Longrightarrow> 2 * length s + 1 \<le> m \<Longrightarrow> parse_value n s = parse_value m s"
    "\<And>m s. 2 * length s + 2 \<le> n \<Longrightarrow> 2 * length s + 2 \<le> m \<Longrightarrow> parse_elements n s = parse_elements m s"
    "\<And>m s. 2 * length s + 2 \<le> n \<Longrightarrow> 2 * length s + 2 \<le> m \<Longrightarrow> parse_members n s = parse_members m s"
    by blast+
  have "parse_value (Suc n) s = parse_value m s"
    if b: "2 * length s + 1 \<le> Suc n" "2 * length s + 1 \<le> m" for m s
  proof -
    from b obtain m' where m: "m = Suc m'" by (cases m) auto
    have "parse_elements n (d # r) = parse_elements m' (d # r)"
      "parse_members n (d # r) = parse_members m' (d # r)"
      if "skip_ws s = c # q" "skip_ws q = d # r" for c q d r
      using skip_ws_length [OF that(1)] skip_ws_length [OF that(2)] b
      by (intro IH; simp add: m)+
    then show ?thesis by (auto simp: m split: list.splits)
  qed
  moreover have "parse_elements (Suc n) s = parse_elements m s"
    if b: "2 * length s + 2 \<le> Suc n" "2 * length s + 2 \<le> m" for m s
  proof -
    from b obtain m' where m: "m = Suc m'" by (cases m) auto
    have "parse_elements n q = parse_elements m' q"
      if "parse_value n s = Some (v, r)" "skip_ws r = c # q" for v r c q
      using parse_length(1) [OF that(1)] skip_ws_length [OF that(2)] b by (intro IH; simp add: m)
    moreover have "parse_value n s = parse_value m' s" using b by (intro IH; simp add: m)
    ultimately show ?thesis by (auto simp: m split: list.splits option.splits)
  qed
  moreover have "parse_members (Suc n) s = parse_members m s"
    if b: "2 * length s + 2 \<le> Suc n" "2 * length s + 2 \<le> m" for m s
  proof -
    from b obtain m' where m: "m = Suc m'" by (cases m) auto
    have v: "parse_value n q = parse_value m' q"
      if "skip_ws s = c # r" "scan_string r = Some (k, r1)" "skip_ws r1 = d # q" for c r k r1 d q
      using skip_ws_length [OF that(1)] scan_string_length [OF that(2)] skip_ws_length [OF that(3)] b
      by (intro IH; simp add: m)
    have "parse_members n q' = parse_members m' q'"
      if "skip_ws s = c # r" "scan_string r = Some (k, r1)" "skip_ws r1 = d # q"
        "parse_value n q = Some (x, r3)" "skip_ws r3 = e # q'" for c r k r1 d q x r3 e q'
      using skip_ws_length [OF that(1)] scan_string_length [OF that(2)] skip_ws_length [OF that(3)]
        parse_length(1) [OF that(4)] skip_ws_length [OF that(5)] b
      by (intro IH; simp add: m)
    with v show ?thesis by (auto simp: m split: list.splits option.splits)
  qed
  ultimately show ?case by blast
qed simp

lemma json_fuel_irrelevant:
  "2 * length s + 1 \<le> n \<Longrightarrow> 2 * length s + 1 \<le> m \<Longrightarrow> parse_value n s = parse_value m s"
  using parse_fuel_all by blast

text \<open>Blank text is no JSON.\<close>

lemma json_parse_blank:
  assumes "js_trim s = []"
  shows "json_parse s = None"
proof -
  have ws: "\<forall>c \<in> set s. is_ws c" using assms by (simp add: js_trim_eq_Nil list_all_iff)
  have "parse_value (Suc n) s = None" for n
  proof (cases "skip_ws s")
    case (Cons c r)
    then have "c \<in> set s" by (metis list.set_intros(1) set_dropWhileD skip_ws_def)
    with ws have "is_ws c" by blast
    then have "\<not> is_digit c" "c \<noteq> dquote" "c \<noteq> CHR ''[''" "c \<noteq> CHR ''{''" "c \<noteq> CHR ''n''"
      "c \<noteq> CHR ''t''" "c \<noteq> CHR ''f''" "c \<noteq> CHR ''-''" by (auto simp: is_ws_def is_digit_def)
    then show ?thesis by (simp add: Cons scan_json_number_def scan_unsigned_def span_digits_def)
  qed simp
  then have "parse_value (2 * length s + 2) s = None" by (metis add_2_eq_Suc')
  then show ?thesis by (simp add: json_parse_def del: parse_value.simps)
qed

section \<open>Reading a value\<close>

text \<open>\<open>String(value)\<close> and template literals: arrays are joined by commas, with nothing for a
  \<open>null\<close> element.\<close>

fun js_to_string :: "json \<Rightarrow> jsstring" where
  "js_to_string JNull = ''null''"
| "js_to_string (JBool b) = (if b then ''true'' else ''false'')"
| "js_to_string (JNum n) = num_to_string n"
| "js_to_string (JStr s) = s"
| "js_to_string (JArr xs) =
     js_join '','' (map (\<lambda>x. case x of JNull \<Rightarrow> [] | _ \<Rightarrow> js_to_string x) xs)"
| "js_to_string (JObj _) = ''[object Object]''"

text \<open>The guard shared by the mapping editors: parse the text and keep the entries of an object;
  a syntax error, a primitive, \<open>null\<close> and an array are refused
  (\<open>!parsed || typeof parsed !== 'object' || Array.isArray(parsed)\<close>).\<close>

definition json_object :: "jsstring \<Rightarrow> (jsstring \<times> json) list option" where
  "json_object s = (case json_parse s of Some (JObj kvs) \<Rightarrow> Some kvs | _ \<Rightarrow> None)"

lemma json_object_stringify: "json_wf (JObj kvs) \<Longrightarrow> json_object (json_stringify (JObj kvs)) = Some kvs"
  by (simp only: json_object_def json_parse_stringify) simp

lemma json_object_blank: "js_trim s = [] \<Longrightarrow> json_object s = None"
  by (simp add: json_object_def json_parse_blank)

text \<open>The entries of the object a text denotes, none if it denotes no object.\<close>

definition json_entries :: "jsstring \<Rightarrow> (jsstring \<times> json) list" where
  "json_entries s = (case json_object s of None \<Rightarrow> [] | Some kvs \<Rightarrow> kvs)"

lemma json_entries_blank: "js_trim s = [] \<Longrightarrow> json_entries s = []"
  by (simp add: json_entries_def json_object_blank)

lemma json_object_wf: "json_object s = Some kvs \<Longrightarrow> json_wf (JObj kvs)"
  by (auto simp: json_object_def dest: json_parse_wf split: option.splits json.splits)

lemma json_object_distinct: "json_object s = Some kvs \<Longrightarrow> distinct (map fst kvs)"
  using json_object_wf by (auto simp: obj_wf_def)

end
