(* ===== verification/StatusCodeRiskGuard.thy ===== *)
theory StatusCodeRiskGuard
  imports Json
begin

text \<open>
  The guard on a channel's status code mapping
  (\<open>web/default/src/features/channels/lib/status-code-risk-guard.ts\<close>). The mapping is a JSON
  object text, e.g. \<open>{"400": "500"}\<close>. The guard lists the entries that are no valid mapping and
  the mappings that redirect one of the codes 504 and 524; the editor asks for confirmation
  when an edit introduces a redirect of such a code that the saved text did not have.
\<close>

section \<open>Operations\<close>

definition NON_REDIRECTABLE_STATUS_CODES :: "nat list" where
  "NON_REDIRECTABLE_STATUS_CODES = [504, 524]"

text \<open>The regular expression \<open>/^[1-5]\d{2}$/\<close>.\<close>

definition is_status_text :: "jsstring \<Rightarrow> bool" where
  "is_status_text s \<longleftrightarrow>
     (case s of [a, b, c] \<Rightarrow> CHR ''1'' \<le> a \<and> a \<le> CHR ''5'' \<and> is_digit b \<and> is_digit c | _ \<Rightarrow> False)"

definition parseStatusCodeKey :: "jsstring \<Rightarrow> nat option" where
  "parseStatusCodeKey rawKey =
     (let normalized = js_trim rawKey in
      if \<not> is_status_text normalized then None else Some (parse_digits normalized))"

definition parseStatusCodeMappingTarget :: "json \<Rightarrow> nat option" where
  "parseStatusCodeMappingTarget rawValue =
     (case rawValue of
        JNum n \<Rightarrow>
          (case int_value n of
             Some i \<Rightarrow> if 100 \<le> i \<and> i \<le> 599 then Some (nat i) else None
           | None \<Rightarrow> None)
      | JStr s \<Rightarrow>
          (let normalized = js_trim s in
           if \<not> is_status_text normalized then None
           else (let code = parse_digits normalized in
                 if 100 \<le> code \<and> code \<le> 599 then Some code else None))
      | _ \<Rightarrow> None)"

text \<open>The text \<open>${rawKey} \<rightarrow> ${rawValue}\<close>; the arrow is U+2192.\<close>

definition invalid_entry_text :: "jsstring \<Rightarrow> json \<Rightarrow> jsstring" where
  "invalid_entry_text k v = k @ [CHR '' '', CHR 0xE2, CHR 0x86, CHR 0x92, CHR '' ''] @ js_to_string v"

definition collectInvalidStatusCodeEntries :: "jsstring \<Rightarrow> jsstring list" where
  "collectInvalidStatusCodeEntries statusCodeMappingStr =
     (if js_trim statusCodeMappingStr = [] then []
      else (case json_object statusCodeMappingStr of
              None \<Rightarrow> []
            | Some entries \<Rightarrow>
                map (\<lambda>(k, v). invalid_entry_text k v)
                  (filter (\<lambda>(k, v). parseStatusCodeKey k = None \<or> parseStatusCodeMappingTarget v = None)
                    entries)))"

definition redirect_text :: "nat \<Rightarrow> nat \<Rightarrow> jsstring" where
  "redirect_text fromCode toCode = show_nat fromCode @ '' -> '' @ show_nat toCode"

definition risky_mapping :: "jsstring \<times> json \<Rightarrow> jsstring option" where
  "risky_mapping = (\<lambda>(rawFrom, rawTo).
     (case (parseStatusCodeKey rawFrom, parseStatusCodeMappingTarget rawTo) of
        (Some fromCode, Some toCode) \<Rightarrow>
          if fromCode \<notin> set NON_REDIRECTABLE_STATUS_CODES then None
          else if fromCode = toCode then None
          else Some (redirect_text fromCode toCode)
      | _ \<Rightarrow> None))"

definition collectDisallowedStatusCodeRedirects :: "jsstring \<Rightarrow> jsstring list" where
  "collectDisallowedStatusCodeRedirects statusCodeMappingStr =
     (if js_trim statusCodeMappingStr = [] then []
      else (case json_object statusCodeMappingStr of
              None \<Rightarrow> []
            | Some entries \<Rightarrow> sort (uniq (List.map_filter risky_mapping entries))))"

definition collectNewDisallowedStatusCodeRedirects :: "jsstring \<Rightarrow> jsstring \<Rightarrow> jsstring list" where
  "collectNewDisallowedStatusCodeRedirects originalStr currentStr =
     (let currentRisky = collectDisallowedStatusCodeRedirects currentStr in
      if currentRisky = [] then []
      else filter (\<lambda>mapping. mapping \<notin> set (collectDisallowedStatusCodeRedirects originalStr))
             currentRisky)"

section \<open>Specification\<close>

text \<open>The mapping text redirects status \<open>f\<close> to status \<open>t\<close>.\<close>

definition maps_status :: "jsstring \<Rightarrow> nat \<Rightarrow> nat \<Rightarrow> bool" where
  "maps_status s f t \<longleftrightarrow>
     (\<exists>entries k v. json_object s = Some entries \<and> (k, v) \<in> set entries \<and>
        parseStatusCodeKey k = Some f \<and> parseStatusCodeMappingTarget v = Some t)"

lemma is_status_text_bounds:
  "is_status_text s \<Longrightarrow> 100 \<le> parse_digits s \<and> parse_digits s \<le> 599"
proof -
  assume "is_status_text s"
  then obtain a b c where s: "s = [a, b, c]" "CHR ''1'' \<le> a" "a \<le> CHR ''5''" "is_digit b" "is_digit c"
    by (auto simp: is_status_text_def split: list.splits)
  then have "1 \<le> digit_value a" "digit_value a \<le> 5" "digit_value b \<le> 9" "digit_value c \<le> 9"
    by (auto simp: digit_value_def is_digit_def less_eq_char_def)
  then show ?thesis by (simp add: s(1) parse_digits_def)
qed

lemma parseStatusCodeKey_bounds: "parseStatusCodeKey k = Some f \<Longrightarrow> 100 \<le> f \<and> f \<le> 599"
  by (auto simp: parseStatusCodeKey_def Let_def is_status_text_bounds split: if_splits)

lemma parseStatusCodeMappingTarget_bounds:
  "parseStatusCodeMappingTarget v = Some t \<Longrightarrow> 100 \<le> t \<and> t \<le> 599"
  by (auto simp: parseStatusCodeMappingTarget_def Let_def split: json.splits option.splits if_splits)

lemma redirect_text_inj [simp]: "redirect_text a b = redirect_text c d \<longleftrightarrow> a = c \<and> b = d"
proof
  assume eq: "redirect_text a b = redirect_text c d"
  have sp: "takeWhile is_digit (redirect_text x y) = show_nat x" for x y
    using show_nat_digits [of x]
    by (simp add: redirect_text_def list_all_iff is_digit_def [of "CHR '' ''"] takeWhile_append2)
  from eq have "show_nat a = show_nat c" by (metis sp)
  with eq show "a = c \<and> b = d" by (simp add: redirect_text_def)
qed simp

lemma collect_unfold:
  "collectDisallowedStatusCodeRedirects s =
     (case json_object s of None \<Rightarrow> []
      | Some entries \<Rightarrow> sort (uniq (List.map_filter risky_mapping entries)))"
  by (simp add: collectDisallowedStatusCodeRedirects_def json_object_blank)

lemma risky_mapping_Some:
  "risky_mapping (k, v) = Some m \<longleftrightarrow>
     (\<exists>f t. parseStatusCodeKey k = Some f \<and> parseStatusCodeMappingTarget v = Some t \<and>
        f \<in> {504, 524} \<and> f \<noteq> t \<and> m = redirect_text f t)"
  by (auto simp: risky_mapping_def NON_REDIRECTABLE_STATUS_CODES_def split: option.splits)

text \<open>The collected texts are exactly the risky redirects of the mapping.\<close>

lemma in_collectDisallowed:
  "m \<in> set (collectDisallowedStatusCodeRedirects s) \<longleftrightarrow>
     (\<exists>f t. f \<in> {504, 524} \<and> f \<noteq> t \<and> maps_status s f t \<and> m = redirect_text f t)"
proof (cases "json_object s")
  case None
  then show ?thesis by (simp add: collect_unfold maps_status_def)
next
  case (Some entries)
  have "m \<in> set (collectDisallowedStatusCodeRedirects s) \<longleftrightarrow>
      (\<exists>k v. (k, v) \<in> set entries \<and> risky_mapping (k, v) = Some m)"
    by (force simp: collect_unfold Some map_filter_def)
  then show ?thesis by (auto simp: risky_mapping_Some maps_status_def Some)
qed

lemma sorted_collectDisallowed: "sorted (collectDisallowedStatusCodeRedirects s)"
  and distinct_collectDisallowed: "distinct (collectDisallowedStatusCodeRedirects s)"
  by (simp_all add: collect_unfold split: option.splits)

section \<open>Properties\<close>

text \<open>
  The editor's guard is exact: after an edit it reports the redirect of \<open>f\<close> to \<open>t\<close> precisely
  when the new mapping sends the protected code \<open>f\<close> (504 or 524) to a different code \<open>t\<close> and the
  saved mapping did not; the report is sorted and has no duplicates.
\<close>

theorem new_redirects_exact:
  "(redirect_text f t \<in> set (collectNewDisallowedStatusCodeRedirects original current) \<longleftrightarrow>
      f \<in> {504, 524} \<and> f \<noteq> t \<and> maps_status current f t \<and> \<not> maps_status original f t) \<and>
   sorted (collectNewDisallowedStatusCodeRedirects original current) \<and>
   distinct (collectNewDisallowedStatusCodeRedirects original current)"
proof -
  have "collectNewDisallowedStatusCodeRedirects original current =
      filter (\<lambda>m. m \<notin> set (collectDisallowedStatusCodeRedirects original))
        (collectDisallowedStatusCodeRedirects current)"
    by (simp add: collectNewDisallowedStatusCodeRedirects_def Let_def)
  then show ?thesis
    by (auto simp: in_collectDisallowed sorted_collectDisallowed distinct_collectDisallowed
        sorted_wrt_filter)
qed

text \<open>
  A mapping text with no invalid entry defines a mapping on status codes: every entry of the
  object reads as a pair of codes between 100 and 599.
\<close>

theorem no_invalid_entries_valid:
  assumes "collectInvalidStatusCodeEntries s = []" and "json_object s = Some entries"
    and "(k, v) \<in> set entries"
  shows "\<exists>f t. parseStatusCodeKey k = Some f \<and> parseStatusCodeMappingTarget v = Some t \<and>
    100 \<le> f \<and> f \<le> 599 \<and> 100 \<le> t \<and> t \<le> 599"
proof -
  have "js_trim s \<noteq> []" using assms(2) json_object_blank by fastforce
  with assms have "parseStatusCodeKey k \<noteq> None" "parseStatusCodeMappingTarget v \<noteq> None"
    by (auto simp: collectInvalidStatusCodeEntries_def filter_empty_conv)
  then show ?thesis
    using parseStatusCodeKey_bounds parseStatusCodeMappingTarget_bounds by fastforce
qed

theorem no_invalid_entries_valid_witness:
  "\<exists>f t. parseStatusCodeKey ''400'' = Some f \<and> parseStatusCodeMappingTarget (JStr ''500'') = Some t \<and>
    100 \<le> f \<and> f \<le> 599 \<and> 100 \<le> t \<and> t \<le> 599"
proof -
  let ?s = "''{\"400\": \"500\"}''"
  have "collectInvalidStatusCodeEntries ?s = []" by code_simp
  moreover have "json_object ?s = Some [(''400'', JStr ''500'')]" by code_simp
  ultimately show ?thesis by (rule no_invalid_entries_valid) simp
qed

end
