(* ===== verification/ModelMapping.thy ===== *)
theory ModelMapping
  imports Json
begin

text \<open>
  Model lists and model mappings of a channel
  (\<open>web/default/src/features/channels/lib/model-mapping-validation.ts\<close>). A channel exposes a
  comma separated list of models and may redirect a requested model to another one by a JSON
  object text. The editor keeps the two consistent: every redirected model must be listed, and a
  target that clients should not see is reported as exposed.
\<close>

section \<open>Operations\<close>

definition parseModelsString :: "jsstring \<Rightarrow> jsstring list" where
  "parseModelsString modelsStr =
     (if modelsStr \<noteq> [] then filter (\<lambda>m. m \<noteq> []) (map js_trim (split_on (CHR '','') modelsStr))
      else [])"

definition formatModelsArray :: "jsstring list \<Rightarrow> jsstring" where
  "formatModelsArray models = js_join '','' (uniq models)"

definition normalizeModelName :: "jsstring \<Rightarrow> jsstring" where
  "normalizeModelName model = js_trim model"

definition extractMappingSourceModels :: "jsstring \<Rightarrow> jsstring list" where
  "extractMappingSourceModels modelMapping =
     (let trimmed = js_trim modelMapping in
      if trimmed = [] then []
      else (case json_object trimmed of
              None \<Rightarrow> []
            | Some parsed \<Rightarrow> uniq (filter (\<lambda>k. k \<noteq> []) (map (\<lambda>kv. js_trim (fst kv)) parsed))))"

definition string_value :: "json \<Rightarrow> jsstring option" where
  "string_value value = (case value of JStr s \<Rightarrow> Some (js_trim s) | _ \<Rightarrow> None)"

definition extractRedirectModels :: "jsstring \<Rightarrow> jsstring list" where
  "extractRedirectModels modelMapping =
     (let trimmed = js_trim modelMapping in
      if trimmed = [] then []
      else (case json_object trimmed of
              None \<Rightarrow> []
            | Some parsed \<Rightarrow>
                uniq (filter (\<lambda>v. v \<noteq> []) (List.map_filter (\<lambda>kv. string_value (snd kv)) parsed))))"

text \<open>The comparison loop over the two arrays of equal length is list equality.\<close>

fun models_differ :: "jsstring list \<Rightarrow> jsstring list \<Rightarrow> bool" where
  "models_differ (x # xs) (y # ys) = (if x \<noteq> y then True else models_differ xs ys)"
| "models_differ _ _ = False"

definition hasModelConfigChanged ::
  "jsstring list \<Rightarrow> jsstring \<Rightarrow> jsstring list \<Rightarrow> jsstring \<Rightarrow> bool" where
  "hasModelConfigChanged currentModels currentModelMapping initialModels initialModelMapping =
     (if initialModels = [] \<and> initialModelMapping = [] then True
      else if length currentModels \<noteq> length initialModels then True
      else if models_differ currentModels initialModels then True
      else js_trim currentModelMapping \<noteq> js_trim initialModelMapping)"

definition findMissingModelsInMapping :: "jsstring \<Rightarrow> jsstring list \<Rightarrow> jsstring list" where
  "findMissingModelsInMapping modelMapping currentModels =
     (if js_trim modelMapping = [] then []
      else (case json_object modelMapping of
              None \<Rightarrow> []
            | Some parsedMapping \<Rightarrow>
                (let modelSet = set (map normalizeModelName currentModels) in
                 uniq (filter (\<lambda>key. key \<noteq> [] \<and> key \<notin> modelSet)
                   (map (\<lambda>kv. normalizeModelName (fst kv)) parsedMapping)))))"

datatype mapping_error = NotAnObject | ValuesNotStrings | NotJson

text \<open>The validation result: \<open>Inr ()\<close> is \<open>{ valid: true }\<close>, \<open>Inl\<close> names the error message.\<close>

definition validateModelMappingJson :: "jsstring \<Rightarrow> mapping_error + unit" where
  "validateModelMappingJson modelMapping =
     (if js_trim modelMapping = [] then Inr ()
      else (case json_parse modelMapping of
              None \<Rightarrow> Inl NotJson
            | Some (JObj parsed) \<Rightarrow>
                if list_ex (\<lambda>kv. case snd kv of JStr _ \<Rightarrow> False | _ \<Rightarrow> True) parsed
                then Inl ValuesNotStrings else Inr ()
            | Some _ \<Rightarrow> Inl NotAnObject))"

definition mapping_error_text :: "mapping_error \<Rightarrow> jsstring" where
  "mapping_error_text e =
     (case e of
        NotAnObject \<Rightarrow> ''Model mapping must be a valid JSON object''
      | ValuesNotStrings \<Rightarrow> ''Model mapping values must be strings''
      | NotJson \<Rightarrow> ''Model mapping must be valid JSON format'')"

definition findExposedTargetModels :: "jsstring \<Rightarrow> jsstring list \<Rightarrow> jsstring list" where
  "findExposedTargetModels modelMapping currentModels =
     (let redirectModels = extractRedirectModels modelMapping in
      if redirectModels = [] then []
      else (let modelSet = set (map normalizeModelName currentModels) in
            filter (\<lambda>model. normalizeModelName model \<in> modelSet) redirectModels))"

record model_categories =
  normalizedCurrentModels :: "jsstring list"
  normalizedRedirectModels :: "jsstring list"
  classificationSet :: "jsstring list"
  redirectOnlySet :: "jsstring list"

text \<open>The four sets, each as the list of its members in order of insertion.\<close>

definition categorizeModelsWithRedirect :: "jsstring list \<Rightarrow> jsstring list \<Rightarrow> model_categories" where
  "categorizeModelsWithRedirect currentModels redirectModels =
     (let current = uniq (filter (\<lambda>m. m \<noteq> []) (map normalizeModelName currentModels));
          redirect = uniq (filter (\<lambda>m. m \<noteq> []) (map normalizeModelName redirectModels)) in
      \<lparr>normalizedCurrentModels = current, normalizedRedirectModels = redirect,
       classificationSet = uniq (current @ redirect),
       redirectOnlySet = uniq (filter (\<lambda>m. m \<notin> set current) redirect)\<rparr>)"

section \<open>Model lists\<close>

text \<open>A model name as the list stores it: trimmed, not empty, without a comma.\<close>

definition model_name :: "jsstring \<Rightarrow> bool" where
  "model_name m \<longleftrightarrow> m \<noteq> [] \<and> trimmed m \<and> CHR '','' \<notin> set m"

lemma model_name_trim: "model_name m \<Longrightarrow> js_trim m = m"
  by (simp add: model_name_def js_trim_trimmed)

lemma parseModelsString_names: "list_all model_name (parseModelsString s)"
  using set_js_trim split_on_parts_no_sep
  by (fastforce simp: parseModelsString_def list_all_iff model_name_def)

lemma parseModelsString_join:
  assumes "list_all model_name ms"
  shows "parseModelsString (js_join '','' ms) = ms"
proof (cases "ms = []")
  case False
  then have "split_on (CHR '','') (js_join '','' ms) = ms"
    using assms by (intro split_on_join) (auto simp: list_all_iff model_name_def)
  moreover have "map js_trim ms = ms" "filter (\<lambda>m. m \<noteq> []) ms = ms"
    using assms by (auto simp: list_all_iff model_name_trim model_name_def intro: map_idI)
  ultimately show ?thesis using False
    by (simp add: parseModelsString_def js_join_Nil_iff assms)
      (use assms in \<open>auto simp: js_join_Nil_iff list_all_iff model_name_def\<close>)
qed (simp add: parseModelsString_def)

lemma list_all_uniq [simp]: "list_all P (uniq xs) \<longleftrightarrow> list_all P xs"
  by (simp add: list_all_iff)

section \<open>Mappings\<close>

lemma findMissing_entries:
  "findMissingModelsInMapping mapping models =
     uniq (filter (\<lambda>key. key \<noteq> [] \<and> key \<notin> js_trim ` set models)
       (map (\<lambda>kv. js_trim (fst kv)) (json_entries mapping)))"
  by (simp add: findMissingModelsInMapping_def json_entries_def json_object_blank
      normalizeModelName_def [abs_def] split: option.splits)

lemma extractRedirect_entries:
  "extractRedirectModels mapping =
     uniq (filter (\<lambda>v. v \<noteq> [])
       (List.map_filter (\<lambda>kv. string_value (snd kv)) (json_entries (js_trim mapping))))"
  by (simp add: extractRedirectModels_def json_entries_def json_object_blank Let_def
      split: option.splits)

lemma string_value_Some: "string_value v = Some x \<longleftrightarrow> (\<exists>s. v = JStr s \<and> x = js_trim s)"
  by (auto simp: string_value_def split: json.splits)

lemma set_extractRedirect:
  "set (extractRedirectModels mapping) =
     {m. m \<noteq> [] \<and> (\<exists>k s. (k, JStr s) \<in> set (json_entries (js_trim mapping)) \<and> m = js_trim s)}"
  by (force simp: extractRedirect_entries in_map_filter string_value_Some)

lemma findExposed_entries:
  "findExposedTargetModels mapping models =
     filter (\<lambda>m. m \<in> js_trim ` set models) (extractRedirectModels mapping)"
proof -
  have "js_trim m = m" if "m \<in> set (extractRedirectModels mapping)" for m
    using that by (auto simp: set_extractRedirect)
  then show ?thesis
    by (auto simp: findExposedTargetModels_def normalizeModelName_def Let_def intro: filter_cong)
qed

lemma not_string_iff: "(case v of JStr _ \<Rightarrow> False | _ \<Rightarrow> True) \<longleftrightarrow> (\<nexists>s. v = JStr s)"
  by (cases v) auto

lemma models_differ_iff: "length xs = length ys \<Longrightarrow> models_differ xs ys \<longleftrightarrow> xs \<noteq> ys"
  by (induction xs ys rule: list_induct2) auto

section \<open>Properties\<close>

text \<open>
  Formatting a list of model names and parsing the text gives the names back, each once and
  in order of first occurrence; so the stored text of a channel's models is stable under
  load and save.
\<close>

theorem format_parse_models:
  assumes "list_all model_name ms"
  shows "parseModelsString (formatModelsArray ms) = uniq ms \<and>
    formatModelsArray (parseModelsString (formatModelsArray ms)) = formatModelsArray ms"
  using assms by (simp add: formatModelsArray_def parseModelsString_join)

theorem format_parse_models_witness:
  "parseModelsString (formatModelsArray [''gpt-4o'', ''o3'', ''gpt-4o'']) = [''gpt-4o'', ''o3'']"
proof -
  have "list_all model_name [''gpt-4o'', ''o3'', ''gpt-4o'']" by code_simp
  from format_parse_models [OF this] show ?thesis by (simp add: uniq_def)
qed

text \<open>
  The missing-model check closes the gap it reports: a model is reported exactly when it is
  a non-blank source of the mapping that the list lacks (names compared after trimming), and once
  the reported models are added to the list nothing is missing.
\<close>

theorem missing_models_closed:
  "set (findMissingModelsInMapping mapping models) =
     (js_trim ` fst ` set (json_entries mapping) - {[]}) - js_trim ` set models \<and>
   findMissingModelsInMapping mapping (models @ findMissingModelsInMapping mapping models) = []"
proof
  show spec: "set (findMissingModelsInMapping mapping models) =
     (js_trim ` fst ` set (json_entries mapping) - {[]}) - js_trim ` set models"
    by (auto simp: findMissing_entries image_image)
  have "js_trim m = m" if "m \<in> set (findMissingModelsInMapping mapping models)" for m
    using that by (auto simp: findMissing_entries)
  then have "js_trim ` set (findMissingModelsInMapping mapping models) =
      set (findMissingModelsInMapping mapping models)" by force
  then show "findMissingModelsInMapping mapping (models @ findMissingModelsInMapping mapping models) = []"
    by (subst findMissing_entries) (auto simp: filter_empty_conv image_Un spec)
qed

text \<open>
  The exposed-target check reports exactly the non-blank string targets of the mapping that the
  model list also offers, and dropping the reported models from the list clears the report.
\<close>

theorem exposed_targets_cleared:
  "set (findExposedTargetModels mapping models) =
     {m. m \<noteq> [] \<and> (\<exists>k s. (k, JStr s) \<in> set (json_entries (js_trim mapping)) \<and> m = js_trim s) \<and>
        m \<in> js_trim ` set models} \<and>
   findExposedTargetModels mapping
     (filter (\<lambda>m. js_trim m \<notin> set (findExposedTargetModels mapping models)) models) = []"
proof
  show "set (findExposedTargetModels mapping models) =
     {m. m \<noteq> [] \<and> (\<exists>k s. (k, JStr s) \<in> set (json_entries (js_trim mapping)) \<and> m = js_trim s) \<and>
        m \<in> js_trim ` set models}"
    by (auto simp: findExposed_entries set_extractRedirect)
  show "findExposedTargetModels mapping
     (filter (\<lambda>m. js_trim m \<notin> set (findExposedTargetModels mapping models)) models) = []"
    by (auto simp: findExposed_entries filter_empty_conv)
qed

text \<open>
  Validation accepts exactly the blank text and the texts of JSON objects whose values are all
  strings.
\<close>

theorem validate_mapping_iff:
  "validateModelMappingJson s = Inr () \<longleftrightarrow>
     js_trim s = [] \<or>
     (\<exists>kvs. json_parse s = Some (JObj kvs) \<and> list_all (\<lambda>kv. \<exists>v. snd kv = JStr v) kvs)"
proof (cases "js_trim s = [] \<or> json_parse s = None")
  case True
  then show ?thesis by (auto simp: validateModelMappingJson_def)
next
  case False
  then obtain j where "json_parse s = Some j" "js_trim s \<noteq> []" by auto
  then show ?thesis
    by (cases j) (auto simp: validateModelMappingJson_def list_ex_iff list_all_iff not_string_iff)
qed

text \<open>
  The sets shown in the editor are a classification: current and redirect-only models are
  disjoint, together they are all the classified models, and no set repeats a name.
\<close>

theorem categories_partition:
  "let c = categorizeModelsWithRedirect current redirect in
   set (normalizedCurrentModels c) \<inter> set (redirectOnlySet c) = {} \<and>
   set (normalizedCurrentModels c) \<union> set (redirectOnlySet c) = set (classificationSet c) \<and>
   set (classificationSet c) = (js_trim ` set (current @ redirect)) - {[]} \<and>
   distinct (normalizedCurrentModels c) \<and> distinct (normalizedRedirectModels c) \<and>
   distinct (classificationSet c) \<and> distinct (redirectOnlySet c)"
  by (auto simp: categorizeModelsWithRedirect_def normalizeModelName_def Let_def)

end
