(* ===== verification/ChannelData.thy ===== *)
theory ChannelData
  imports Complex_Main Json
begin

text \<open>
  The data model of a channel (an upstream provider account) and the constant tables of the
  channel feature (\<open>web/default/src/features/channels/types.ts\<close> and \<open>constants.ts\<close>).
  A field that is \<open>nullish\<close> in the schema is an option: \<open>null\<close> and \<open>undefined\<close> are one value
  here. Amounts and times are exact rationals.
\<close>

section \<open>Channels\<close>

datatype multi_key_mode = Random | Polling

record channel_info =
  ci_is_multi_key :: bool
  ci_multi_key_size :: int
  ci_multi_key_status_list :: "(jsstring \<times> int) list option"
  ci_multi_key_disabled_reason :: "(jsstring \<times> jsstring) list option"
  ci_multi_key_disabled_time :: "(jsstring \<times> int) list option"
  ci_multi_key_polling_index :: int
  ci_multi_key_mode :: multi_key_mode

text \<open>The identifier of a row: a number, or the tag itself on an aggregate row.\<close>

datatype row_id = NumId int | TagId jsstring

record channel =
  ch_id :: row_id
  ch_type :: int
  ch_key :: jsstring
  ch_openai_organization :: "jsstring option"
  ch_test_model :: "jsstring option"
  ch_status :: "int option"
  ch_name :: jsstring
  ch_weight :: "int option"
  ch_created_time :: int
  ch_test_time :: int
  ch_response_time :: rat
  ch_base_url :: "jsstring option"
  ch_other :: jsstring
  ch_balance :: rat
  ch_balance_updated_time :: int
  ch_models :: jsstring
  ch_group :: jsstring
  ch_used_quota :: rat
  ch_model_mapping :: "jsstring option"
  ch_status_code_mapping :: "jsstring option"
  ch_priority :: "int option"
  ch_auto_ban :: "int option"
  ch_other_info :: jsstring
  ch_tag :: "jsstring option"
  ch_setting :: "jsstring option"
  ch_param_override :: "jsstring option"
  ch_header_override :: "jsstring option"
  ch_remark :: jsstring
  ch_max_input_tokens :: int
  ch_channel_info :: "channel_info option"
  ch_settings :: jsstring

text \<open>An aggregate row of the tag view: the fields of a channel and the channels it groups.\<close>

record tag_row = channel +
  tr_children :: "channel list"

section \<open>Tables\<close>

definition CHANNEL_TYPES :: "(int \<times> jsstring) list" where
  "CHANNEL_TYPES =
    [(0, ''Unknown''), (1, ''OpenAI''), (2, ''Midjourney''), (3, ''Azure''), (4, ''Ollama''),
    (5, ''MidjourneyPlus''), (6, ''OpenAIMax''), (7, ''OhMyGPT''), (8, ''Custom''), (9, ''AILS''),
    (10, ''AI Proxy''), (11, ''PaLM''), (12, ''API2GPT''), (13, ''AIGC2D''), (14, ''Anthropic''),
    (15, ''Baidu''), (16, ''Zhipu''), (17, ''Ali''), (18, ''Xunfei''), (19, ''360''),
    (20, ''OpenRouter''), (21, ''AI Proxy Library''), (22, ''FastGPT''), (23, ''Tencent''),
    (24, ''Gemini''), (25, ''Moonshot''), (26, ''Zhipu V4''), (27, ''Perplexity''),
    (31, ''LingYiWanWu''), (33, ''AWS''), (34, ''Cohere''), (35, ''MiniMax''), (36, ''SunoAPI''),
    (37, ''Dify''), (38, ''Jina''), (39, ''Cloudflare''), (40, ''SiliconFlow''),
    (41, ''Vertex AI''), (42, ''Mistral''), (43, ''DeepSeek''), (44, ''MokaAI''),
    (45, ''VolcEngine''), (46, ''Baidu V2''), (47, ''Xinference''), (48, ''xAI''), (49, ''Coze''),
    (50, ''Kling''), (51, ''Jimeng''), (52, ''Vidu''), (53, ''Submodel''), (54, ''DoubaoVideo''),
    (55, ''Sora''), (56, ''Replicate''), (57, ''ChatGPT Subscription (Codex)'')]"

definition CHANNEL_TYPE_DISPLAY_ORDER :: "int list" where
  "CHANNEL_TYPE_DISPLAY_ORDER =
    [1, 14, 33, 24, 43, 3, 41, 48, 42, 34, 20, 4, 40, 27, 25, 17, 26, 15, 46, 23, 18, 45, 31, 35,
     49, 19, 47, 37, 38, 39, 11, 8, 57, 22, 21, 44, 2, 5, 36, 50, 51, 52, 53, 54, 55, 56]"

text \<open>The first loop: the types of the display order, in that order.\<close>

definition ordered_options :: "(int \<times> jsstring) list" where
  "ordered_options =
     List.map_filter (\<lambda>id. case map_of CHANNEL_TYPES id of
         Some label \<Rightarrow> if label \<noteq> [] then Some (id, label) else None
       | None \<Rightarrow> None) CHANNEL_TYPE_DISPLAY_ORDER"

text \<open>The second loop appends the remaining types; \<open>Object.entries\<close> lists them by number.\<close>

definition CHANNEL_TYPE_OPTIONS :: "(int \<times> jsstring) list" where
  "CHANNEL_TYPE_OPTIONS = ordered_options @
     filter (\<lambda>(id, label). id \<noteq> 0 \<and> id \<notin> set (map fst ordered_options)) CHANNEL_TYPES"

definition CHANNEL_STATUS_UNKNOWN :: int where "CHANNEL_STATUS_UNKNOWN = 0"
definition CHANNEL_STATUS_ENABLED :: int where "CHANNEL_STATUS_ENABLED = 1"
definition CHANNEL_STATUS_MANUAL_DISABLED :: int where "CHANNEL_STATUS_MANUAL_DISABLED = 2"
definition CHANNEL_STATUS_AUTO_DISABLED :: int where "CHANNEL_STATUS_AUTO_DISABLED = 3"

datatype variant = Neutral | Success | Danger | Warning | Info

record badge =
  badge_variant :: variant
  badge_label :: jsstring

definition CHANNEL_STATUS_CONFIG :: "(int \<times> badge) list" where
  "CHANNEL_STATUS_CONFIG =
    [(CHANNEL_STATUS_UNKNOWN, \<lparr>badge_variant = Neutral, badge_label = ''Unknown''\<rparr>),
     (CHANNEL_STATUS_ENABLED, \<lparr>badge_variant = Success, badge_label = ''Enabled''\<rparr>),
     (CHANNEL_STATUS_MANUAL_DISABLED, \<lparr>badge_variant = Danger, badge_label = ''Disabled''\<rparr>),
     (CHANNEL_STATUS_AUTO_DISABLED, \<lparr>badge_variant = Warning, badge_label = ''Auto Disabled''\<rparr>)]"

definition MULTI_KEY_STATUS_CONFIG :: "(int \<times> badge) list" where
  "MULTI_KEY_STATUS_CONFIG =
    [(1, \<lparr>badge_variant = Success, badge_label = ''Enabled''\<rparr>),
     (2, \<lparr>badge_variant = Neutral, badge_label = ''Manual Disabled''\<rparr>),
     (3, \<lparr>badge_variant = Danger, badge_label = ''Auto Disabled''\<rparr>)]"

definition RESPONSE_TIME_EXCELLENT :: rat where "RESPONSE_TIME_EXCELLENT = 500"
definition RESPONSE_TIME_GOOD :: rat where "RESPONSE_TIME_GOOD = 1000"
definition RESPONSE_TIME_FAIR :: rat where "RESPONSE_TIME_FAIR = 2000"
definition RESPONSE_TIME_POOR :: rat where "RESPONSE_TIME_POOR = 5000"

definition TYPE_TO_KEY_PROMPT :: "(int \<times> jsstring) list" where
  "TYPE_TO_KEY_PROMPT =
    [(15, ''Format: APIKey|SecretKey''), (18, ''Format: APPID|APISecret|APIKey''),
    (22, ''Format: APIKey-AppId, e.g., fastgpt-0sp2gtvfdgyi4k30jwlgwf1i-64f335d84283f05518e9e041''),
    (23, ''Format: AppId|SecretId|SecretKey''), (33, ''Format: Ak|Sk|Region''),
    (50, ''Format: AccessKey|SecretKey (or just ApiKey if upstream is New API)''),
    (51, ''Format: Access Key ID|Secret Access Key''),
    (57, ''Paste Codex OAuth JSON credential (access_token / refresh_token / account_id)'')]"

definition TYPE_TO_ICON :: "(int \<times> jsstring) list" where
  "TYPE_TO_ICON =
    [(1, ''OpenAI''), (6, ''OpenAI''), (7, ''OpenAI''), (8, ''OpenAI''), (3, ''Azure''),
    (14, ''Claude''), (24, ''Gemini''), (11, ''Google''), (41, ''Gemini''), (33, ''Aws''),
    (39, ''Cloudflare''), (15, ''Baidu''), (46, ''Baidu''), (16, ''Zhipu''), (26, ''Zhipu''),
    (17, ''Qwen''), (18, ''Spark''), (23, ''Hunyuan''), (19, ''Ai360''), (25, ''Moonshot''),
    (31, ''Yi''), (35, ''Minimax''), (45, ''Volcengine''), (4, ''Ollama''), (27, ''Perplexity''),
    (34, ''Cohere''), (42, ''Mistral''), (43, ''DeepSeek''), (48, ''XAI''), (49, ''Coze''),
    (40, ''SiliconCloud''), (44, ''OpenAI''), (20, ''OpenRouter''), (2, ''Midjourney''),
    (5, ''Midjourney''), (50, ''Kling''), (51, ''Jimeng''), (52, ''Vidu''), (36, ''Suno''),
    (55, ''OpenAI''), (54, ''Doubao''), (56, ''Replicate''), (37, ''Dify''), (38, ''Jina''),
    (22, ''FastGPT''), (47, ''Xinference''), (53, ''OpenAI''), (10, ''OpenAI''), (21, ''OpenAI''),
    (12, ''OpenAI''), (13, ''OpenAI''), (9, ''OpenAI'')]"

end
