(* ===== verification/ChannelUtils.thy ===== *)
theory ChannelUtils
  imports ChannelData
begin

text \<open>
  Display and editing helpers of the channel feature
  (\<open>web/default/src/features/channels/lib/channel-utils.ts\<close>): labels and badges, key masking,
  parsing of model and group lists, the attention check, the grouping of channels by tag and the
  deduplication of keys. The functions that only format a date, a quota or a balance through the
  currency and date libraries are left out.
\<close>

section \<open>Labels and badges\<close>

definition getChannelTypeLabel :: "int \<Rightarrow> jsstring" where
  "getChannelTypeLabel type =
     (case map_of CHANNEL_TYPES type of Some l \<Rightarrow> if l \<noteq> [] then l else ''Unknown'' | None \<Rightarrow> ''Unknown'')"

definition getChannelTypeIcon :: "int \<Rightarrow> jsstring" where
  "getChannelTypeIcon type =
     (case map_of TYPE_TO_ICON type of Some i \<Rightarrow> if i \<noteq> [] then i else ''OpenAI'' | None \<Rightarrow> ''OpenAI'')"

definition getChannelStatusBadge :: "int \<Rightarrow> badge" where
  "getChannelStatusBadge status =
     (case map_of CHANNEL_STATUS_CONFIG status of
        Some b \<Rightarrow> b
      | None \<Rightarrow> \<lparr>badge_variant = Neutral, badge_label = ''Unknown''\<rparr>)"

definition getMultiKeyStatusBadge :: "int \<Rightarrow> badge" where
  "getMultiKeyStatusBadge status =
     (case map_of MULTI_KEY_STATUS_CONFIG status of
        Some b \<Rightarrow> b
      | None \<Rightarrow> \<lparr>badge_variant = Success, badge_label = ''Enabled''\<rparr>)"

definition isChannelEnabled :: "'a channel_scheme \<Rightarrow> bool" where
  "isChannelEnabled channel \<longleftrightarrow> ch_status channel = Some 1"

definition isMultiKeyChannel :: "'a channel_scheme \<Rightarrow> bool" where
  "isMultiKeyChannel channel =
     (case ch_channel_info channel of Some ci \<Rightarrow> ci_is_multi_key ci | None \<Rightarrow> False)"

section \<open>Keys\<close>

text \<open>\<open>s.slice(-n)\<close>: the last \<open>n\<close> characters, the whole string when it is shorter.\<close>

definition take_last :: "nat \<Rightarrow> 'a list \<Rightarrow> 'a list" where
  "take_last n s = drop (length s - n) s"

definition nonblank_lines :: "jsstring \<Rightarrow> jsstring list" where
  "nonblank_lines s = filter (\<lambda>k. js_trim k \<noteq> []) (split_on (CHR 0x0A) s)"

definition formatChannelKey :: "jsstring \<Rightarrow> bool \<Rightarrow> jsstring" where
  "formatChannelKey key isMultiKey =
     (if key = [] then []
      else if isMultiKey then show_nat (length (nonblank_lines key)) @ '' keys''
      else if length key \<le> 16 then take 4 key @ ''...'' @ take_last 4 key
      else take 8 key @ ''...'' @ take_last 8 key)"

definition formatKeyPreview :: "jsstring \<Rightarrow> nat \<Rightarrow> jsstring" where
  "formatKeyPreview key maxLength =
     (if key = [] then [] else if length key \<le> maxLength then key else take maxLength key @ ''...'')"

definition countKeys :: "jsstring \<Rightarrow> nat" where
  "countKeys key = (if key = [] then 0 else length (nonblank_lines key))"

section \<open>Model and group lists\<close>

definition parseModelsList :: "jsstring \<Rightarrow> jsstring list" where
  "parseModelsList models =
     (if models = [] then []
      else filter (\<lambda>m. length m > 0) (map js_trim (split_on (CHR '','') models)))"

text \<open>
  \<open>parseGroupsList\<close> sorts with a comparator that puts \<open>default\<close> first and otherwise asks
  \<open>localeCompare\<close>. The collation is a parameter: \<open>le a b\<close> stands for \<open>a.localeCompare(b) <= 0\<close>.
  \<open>Array.prototype.sort\<close> is a stable sort.
\<close>

definition group_le :: "(jsstring \<Rightarrow> jsstring \<Rightarrow> bool) \<Rightarrow> jsstring \<Rightarrow> jsstring \<Rightarrow> bool" where
  "group_le le a b = (if a = ''default'' then True else if b = ''default'' then False else le a b)"

definition parseGroupsList :: "(jsstring \<Rightarrow> jsstring \<Rightarrow> bool) \<Rightarrow> jsstring \<Rightarrow> jsstring list" where
  "parseGroupsList le groups =
     (if groups = [] then []
      else js_sort (group_le le)
        (filter (\<lambda>g. length g > 0) (map js_trim (split_on (CHR '','') groups))))"

definition formatModelsString :: "jsstring list \<Rightarrow> jsstring" where
  "formatModelsString models = js_join '','' models"

definition formatGroupsString :: "jsstring list \<Rightarrow> jsstring" where
  "formatGroupsString groups = js_join '','' groups"

section \<open>Settings\<close>

text \<open>Settings are kept as parsed JSON; \<open>{}\<close> is the fallback.\<close>

definition parseChannelSettings :: "jsstring option \<Rightarrow> json" where
  "parseChannelSettings settingStr =
     (case settingStr of
        None \<Rightarrow> JObj []
      | Some s \<Rightarrow> if s = [] then JObj []
                  else (case json_parse s of Some j \<Rightarrow> j | None \<Rightarrow> JObj []))"

definition parseChannelOtherSettings :: "jsstring option \<Rightarrow> json" where
  "parseChannelOtherSettings settingsStr =
     (case settingsStr of
        None \<Rightarrow> JObj []
      | Some s \<Rightarrow> if s = [] \<or> s = ''{}'' then JObj []
                  else (case json_parse s of Some j \<Rightarrow> j | None \<Rightarrow> JObj []))"

definition validateChannelSettings :: "jsstring \<Rightarrow> bool" where
  "validateChannelSettings settings \<longleftrightarrow> js_trim settings = [] \<or> json_parse settings \<noteq> None"

section \<open>Ratings\<close>

definition getBalanceVariant :: "rat \<Rightarrow> variant" where
  "getBalanceVariant balance =
     (if balance = 0 then Neutral else if balance < 1 then Danger
      else if balance < 10 then Warning else Success)"

definition getResponseTimeConfig :: "rat \<Rightarrow> badge" where
  "getResponseTimeConfig timeMs =
     (if timeMs = 0 then \<lparr>badge_variant = Neutral, badge_label = ''Not tested''\<rparr>
      else if timeMs \<le> RESPONSE_TIME_EXCELLENT then \<lparr>badge_variant = Success, badge_label = ''Excellent''\<rparr>
      else if timeMs \<le> RESPONSE_TIME_GOOD then \<lparr>badge_variant = Info, badge_label = ''Good''\<rparr>
      else if timeMs \<le> RESPONSE_TIME_FAIR then \<lparr>badge_variant = Warning, badge_label = ''Fair''\<rparr>
      else if timeMs \<le> RESPONSE_TIME_POOR then \<lparr>badge_variant = Danger, badge_label = ''Poor''\<rparr>
      else \<lparr>badge_variant = Danger, badge_label = ''Poor''\<rparr>)"

definition getPriorityDisplay :: "int option \<Rightarrow> jsstring" where
  "getPriorityDisplay priority = (case priority of None \<Rightarrow> ''0'' | Some p \<Rightarrow> show_int p)"

definition getWeightDisplay :: "int option \<Rightarrow> jsstring" where
  "getWeightDisplay weight = (case weight of None \<Rightarrow> ''0'' | Some w \<Rightarrow> show_int w)"

section \<open>Validation\<close>

definition validateChannelName :: "jsstring \<Rightarrow> bool" where
  "validateChannelName name \<longleftrightarrow> length (js_trim name) > 0"

definition validateApiKey :: "jsstring \<Rightarrow> bool" where
  "validateApiKey key \<longleftrightarrow> length (js_trim key) > 0"

definition validateModels :: "jsstring \<Rightarrow> bool" where
  "validateModels models \<longleftrightarrow> length (parseModelsList models) > 0"

definition validateGroups :: "(jsstring \<Rightarrow> jsstring \<Rightarrow> bool) \<Rightarrow> jsstring \<Rightarrow> bool" where
  "validateGroups le groups \<longleftrightarrow> length (parseGroupsList le groups) > 0"

definition all_keys_disabled :: "'a channel_scheme \<Rightarrow> bool" where
  "all_keys_disabled channel =
     (case ch_channel_info channel of
        None \<Rightarrow> False
      | Some ci \<Rightarrow> ci_is_multi_key ci \<and>
          (case ci_multi_key_status_list ci of
             None \<Rightarrow> False
           | Some l \<Rightarrow> int (length l) \<ge> ci_multi_key_size ci))"

definition channelNeedsAttention :: "'a channel_scheme \<Rightarrow> bool" where
  "channelNeedsAttention channel =
     (if ch_status channel = Some 3 then True
      else if 0 < ch_balance channel \<and> ch_balance channel < 1 then True
      else if all_keys_disabled channel then True
      else False)"

definition getAttentionReason :: "'a channel_scheme \<Rightarrow> jsstring option" where
  "getAttentionReason channel =
     (if ch_status channel = Some 3 then Some ''Auto-disabled''
      else if 0 < ch_balance channel \<and> ch_balance channel < 1 then Some ''Low balance''
      else if all_keys_disabled channel then Some ''All keys disabled''
      else None)"

section \<open>Tag view\<close>

definition tag_of :: "'a channel_scheme \<Rightarrow> jsstring" where
  "tag_of channel = (case ch_tag channel of None \<Rightarrow> [] | Some t \<Rightarrow> t)"

text \<open>A fresh aggregate row: a copy of the channel with the listed fields overwritten.\<close>

definition newTagRow :: "channel \<Rightarrow> tag_row" where
  "newTagRow channel =
     (channel.extend channel (tag_row.fields []))
       \<lparr>ch_key := tag_of channel, ch_id := TagId (tag_of channel), ch_tag := Some (tag_of channel),
        ch_name := tag_of channel, ch_type := 0, ch_status := None, ch_group := '''',
        ch_used_quota := 0, ch_response_time := 0, ch_priority := Some (- 1),
        ch_weight := Some (- 1), ch_balance := 0, ch_test_time := 0, ch_created_time := 0,
        ch_balance_updated_time := 0, ch_models := ''''\<rparr>"

text \<open>Priority and weight: the common value, or \<open>null\<close>; \<open>-1\<close> stands for "not set yet".\<close>

definition merge_same :: "int option \<Rightarrow> int option \<Rightarrow> int option" where
  "merge_same acc v = (if acc = Some (- 1) then v else if acc \<noteq> v then None else acc)"

definition merge_group :: "jsstring \<Rightarrow> jsstring \<Rightarrow> jsstring" where
  "merge_group acc g =
     (if acc = [] then g
      else (let existing = filter (\<lambda>x. x \<noteq> []) (split_on (CHR '','') acc);
                new = filter (\<lambda>x. x \<noteq> []) (split_on (CHR '','') g) in
            acc @ concat (map (\<lambda>x. '','' @ x) (filter (\<lambda>x. x \<notin> set existing) new))))"

text \<open>The body of the loop once the row of the channel's tag is at hand.\<close>

definition absorbChannel :: "tag_row \<Rightarrow> channel \<Rightarrow> tag_row" where
  "absorbChannel row channel =
     (let children = tr_children row @ [channel]; childCount = rat_of_nat (length children) in
      row\<lparr>tr_children := children,
          ch_used_quota := ch_used_quota row + ch_used_quota channel,
          ch_response_time :=
            (ch_response_time row * (childCount - 1) + ch_response_time channel) / childCount,
          ch_priority := merge_same (ch_priority row) (ch_priority channel),
          ch_weight := merge_same (ch_weight row) (ch_weight channel),
          ch_group := merge_group (ch_group row) (ch_group channel),
          ch_status := (if ch_status channel = Some 1 then Some 1
                        else if ch_status row = None then ch_status channel
                        else ch_status row)\<rparr>)"

text \<open>\<open>tagMap\<close> and \<open>result\<close> hold the same row objects, so one list of rows in order of creation
  stands for both.\<close>

definition aggregateChannelsByTag :: "channel list \<Rightarrow> tag_row list" where
  "aggregateChannelsByTag channels =
     foldl (\<lambda>rows channel. upsert tag_of (tag_of channel) (newTagRow channel)
       (\<lambda>row. absorbChannel row channel) rows) [] channels"

section \<open>Deduplication of keys\<close>

record dedup_result =
  dr_deduplicatedText :: jsstring
  dr_beforeCount :: nat
  dr_afterCount :: nat
  dr_removedCount :: int

definition deduplicateKeys :: "jsstring \<Rightarrow> dedup_result" where
  "deduplicateKeys keysText =
     (if js_trim keysText = [] then
        \<lparr>dr_deduplicatedText = '''', dr_beforeCount = 0, dr_afterCount = 0, dr_removedCount = 0\<rparr>
      else
        (let keyLines = split_on (CHR 0x0A) keysText;
             deduplicatedKeys = uniq (filter (\<lambda>l. l \<noteq> []) (map js_trim keyLines)) in
         \<lparr>dr_deduplicatedText = js_join [CHR 0x0A] deduplicatedKeys,
          dr_beforeCount = length keyLines, dr_afterCount = length deduplicatedKeys,
          dr_removedCount = int (length keyLines) - int (length deduplicatedKeys)\<rparr>))"

definition getKeyPromptForType :: "int \<Rightarrow> jsstring" where
  "getKeyPromptForType type =
     (case map_of TYPE_TO_KEY_PROMPT type of
        Some p \<Rightarrow> if p \<noteq> [] then p else ''Enter API key for this channel''
      | None \<Rightarrow> ''Enter API key for this channel'')"

section \<open>Lemmas on the tag view\<close>

lemma tag_of_newTagRow [simp]: "tag_of (newTagRow c) = tag_of c"
  by (simp add: newTagRow_def tag_of_def)

lemma tag_of_absorb [simp]: "tag_of (absorbChannel r c) = tag_of r"
  by (simp add: absorbChannel_def tag_of_def Let_def)

interpretation tags: grouping tag_of tag_of newTagRow absorbChannel
  by unfold_locales simp_all

lemma aggregate_rows:
  "aggregateChannelsByTag cs = map (tags.group_row cs) (uniq (map tag_of cs))"
  by (simp add: aggregateChannelsByTag_def tags.group_all_rows flip: tags.group_all_def)

lemma newTagRow_fields [simp]:
  "tr_children (newTagRow c) = []" "ch_used_quota (newTagRow c) = 0"
  "ch_response_time (newTagRow c) = 0" "ch_status (newTagRow c) = None"
  "ch_priority (newTagRow c) = Some (- 1)" "ch_weight (newTagRow c) = Some (- 1)"
  "ch_group (newTagRow c) = []"
  by (simp_all add: newTagRow_def channel.defs tag_row.defs)

lemma fold_children: "tr_children (foldl absorbChannel r cs) = tr_children r @ cs"
  by (induction cs arbitrary: r) (simp_all add: absorbChannel_def Let_def)

lemma fold_used_quota:
  "ch_used_quota (foldl absorbChannel r cs) = ch_used_quota r + sum_list (map ch_used_quota cs)"
  by (induction cs arbitrary: r) (simp_all add: absorbChannel_def Let_def)

text \<open>The running mean, multiplied out.\<close>

lemma absorb_response_time:
  "ch_response_time (absorbChannel r c) * rat_of_nat (Suc (length (tr_children r))) =
     ch_response_time r * rat_of_nat (length (tr_children r)) + ch_response_time c"
  by (simp add: absorbChannel_def Let_def field_simps add_eq_0_iff_both_eq_0)

lemma fold_response_time:
  "ch_response_time (foldl absorbChannel r cs) * rat_of_nat (length (tr_children r @ cs)) =
     ch_response_time r * rat_of_nat (length (tr_children r)) + sum_list (map ch_response_time cs)"
proof (induction cs rule: rev_induct)
  case (snoc c cs)
  then show ?case
    using absorb_response_time [of "foldl absorbChannel r cs" c] by (simp add: fold_children)
qed simp

lemma fold_status:
  assumes "list_all (\<lambda>c. ch_status c \<noteq> None) cs"
  shows "ch_status (foldl absorbChannel (newTagRow d) cs) =
    (if list_ex isChannelEnabled cs then Some 1 else if cs = [] then None else ch_status (hd cs))"
  using assms
proof (induction cs rule: rev_induct)
  case (snoc c cs)
  then show ?case
    by (cases cs) (auto simp: absorbChannel_def Let_def isChannelEnabled_def list_ex_iff)
qed simp

text \<open>The common value of a list of readings, none of which is the marker \<open>-1\<close>.\<close>

definition common_value :: "int option list \<Rightarrow> int option" where
  "common_value vs = (if list_all (\<lambda>v. v = hd vs) vs then hd vs else None)"

lemma foldl_merge_same:
  assumes "vs \<noteq> []" "Some (- 1) \<notin> set vs"
  shows "foldl merge_same (Some (- 1)) vs = common_value vs"
  using assms
proof (induction vs rule: rev_induct)
  case (snoc v vs)
  show ?case
  proof (cases "vs = []")
    case True
    then show ?thesis by (simp add: merge_same_def common_value_def)
  next
    case False
    with snoc have IH: "foldl merge_same (Some (- 1)) vs = common_value vs" by simp
    have "hd vs \<in> set vs" using False by simp
    with snoc.prems have "hd vs \<noteq> Some (- 1)" by auto
    then have "merge_same (common_value vs) v = common_value (vs @ [v])"
      using False by (auto simp: merge_same_def common_value_def list_all_iff)
    then show ?thesis using IH by simp
  qed
qed simp

lemma fold_priority:
  "ch_priority (foldl absorbChannel r cs) = foldl merge_same (ch_priority r) (map ch_priority cs)"
  "ch_weight (foldl absorbChannel r cs) = foldl merge_same (ch_weight r) (map ch_weight cs)"
  by (induction cs arbitrary: r) (simp_all add: absorbChannel_def Let_def)

lemma row_in_aggregate:
  assumes "row \<in> set (aggregateChannelsByTag cs)"
  obtains c where "tr_children row = filter (\<lambda>x. tag_of x = tag_of row) cs"
    "row = foldl absorbChannel (newTagRow c) (tr_children row)" "tr_children row \<noteq> []"
proof -
  from assms obtain k where k: "k \<in> tag_of ` set cs" "row = tags.group_row cs k"
    by (auto simp: aggregate_rows)
  from k have "tag_of row = k" by (simp add: tags.rkey_group_row)
  moreover from k(1) have "filter (\<lambda>x. tag_of x = k) cs \<noteq> []" by (auto simp: filter_empty_conv)
  ultimately show ?thesis
    using k(2) that by (auto simp: tags.group_row_def fold_children)
qed

section \<open>Lemmas on keys\<close>

text \<open>The keys of a text: its lines, trimmed, without the blank ones.\<close>

definition key_lines :: "jsstring \<Rightarrow> jsstring list" where
  "key_lines s = filter (\<lambda>l. l \<noteq> []) (map js_trim (split_on (CHR 0x0A) s))"

lemma split_on_parts: "p \<in> set (split_on c s) \<Longrightarrow> set p \<subseteq> set s"
  by (induction s arbitrary: p) (fastforce split: if_splits list.splits)+

lemma key_lines_blank: "js_trim s = [] \<Longrightarrow> key_lines s = []"
  using split_on_parts by (fastforce simp: key_lines_def js_trim_eq_Nil list_all_iff filter_empty_conv)

lemma key_lines_props:
  "k \<in> set (key_lines s) \<Longrightarrow> k \<noteq> [] \<and> trimmed k \<and> CHR 0x0A \<notin> set k"
  using split_on_parts_no_sep set_js_trim by (fastforce simp: key_lines_def)

lemma split_key_lines:
  assumes "ks \<noteq> []" "set ks \<subseteq> set (key_lines s)"
  shows "split_on (CHR 0x0A) (js_join [CHR 0x0A] ks) = ks"
  using assms key_lines_props by (intro split_on_join) blast+

lemma key_lines_join:
  assumes "set ks \<subseteq> set (key_lines s)"
  shows "key_lines (js_join [CHR 0x0A] ks) = ks"
proof (cases "ks = []")
  case False
  have "map js_trim ks = ks" "filter (\<lambda>l. l \<noteq> []) ks = ks"
    using assms key_lines_props by (auto intro!: map_idI filter_True js_trim_trimmed)
  then show ?thesis using False assms by (simp add: key_lines_def split_key_lines)
qed (simp add: key_lines_def)

lemma deduplicateKeys_text:
  "dr_deduplicatedText (deduplicateKeys s) = js_join [CHR 0x0A] (uniq (key_lines s))"
  "dr_afterCount (deduplicateKeys s) = length (uniq (key_lines s))"
  using key_lines_blank [of s] by (auto simp: deduplicateKeys_def Let_def key_lines_def)

text \<open>A channel whose other fields are empty.\<close>

definition sample_channel :: "jsstring \<Rightarrow> int \<Rightarrow> int option \<Rightarrow> rat \<Rightarrow> channel" where
  "sample_channel tag status priority rt =
     \<lparr>ch_id = NumId 1, ch_type = 1, ch_key = '''', ch_openai_organization = None,
      ch_test_model = None, ch_status = Some status, ch_name = ''n'', ch_weight = Some 0,
      ch_created_time = 0, ch_test_time = 0, ch_response_time = rt, ch_base_url = None,
      ch_other = '''', ch_balance = 0, ch_balance_updated_time = 0, ch_models = '''',
      ch_group = ''default'', ch_used_quota = 7, ch_model_mapping = None,
      ch_status_code_mapping = None, ch_priority = priority, ch_auto_ban = None,
      ch_other_info = '''', ch_tag = Some tag, ch_setting = None, ch_param_override = None,
      ch_header_override = None, ch_remark = '''', ch_max_input_tokens = 0,
      ch_channel_info = None, ch_settings = ''''\<rparr>"

definition sample_channels :: "channel list" where
  "sample_channels = [sample_channel ''eu'' 2 (Some 5) 100, sample_channel ''eu'' 1 (Some 5) 200]"

lemma sample_row:
  "hd (aggregateChannelsByTag sample_channels) \<in> set (aggregateChannelsByTag sample_channels)"
  "tr_children (hd (aggregateChannelsByTag sample_channels)) = sample_channels"
  by (simp_all add: aggregateChannelsByTag_def sample_channels_def upsert_def tag_of_def
      sample_channel_def newTagRow_def absorbChannel_def channel.defs tag_row.defs Let_def)

section \<open>Properties\<close>

text \<open>
  The tag view is a partition of the channels: one row per tag, in the order the tags first
  occur, and the children of a row are exactly the channels with its tag, in their order.
\<close>

theorem tag_view_partition:
  "map tag_of (aggregateChannelsByTag cs) = uniq (map tag_of cs) \<and>
   list_all (\<lambda>row. tr_children row = filter (\<lambda>c. tag_of c = tag_of row) cs)
     (aggregateChannelsByTag cs)"
proof
  show "map tag_of (aggregateChannelsByTag cs) = uniq (map tag_of cs)"
    by (auto simp: aggregate_rows tags.rkey_group_row intro: map_idI)
  show "list_all (\<lambda>row. tr_children row = filter (\<lambda>c. tag_of c = tag_of row) cs)
     (aggregateChannelsByTag cs)"
    unfolding list_all_iff by (blast elim: row_in_aggregate)
qed

text \<open>
  A row of the tag view shows the total quota of its channels and the mean of their response
  times; it is shown as enabled exactly when one of its channels is enabled.
\<close>

theorem tag_view_totals:
  assumes "list_all (\<lambda>c. ch_status c \<noteq> None) cs" and "row \<in> set (aggregateChannelsByTag cs)"
  shows "ch_used_quota row = sum_list (map ch_used_quota (tr_children row)) \<and>
    ch_response_time row =
      sum_list (map ch_response_time (tr_children row)) / rat_of_nat (length (tr_children row)) \<and>
    (isChannelEnabled row \<longleftrightarrow> list_ex isChannelEnabled (tr_children row))"
proof -
  from assms(2) obtain c where row: "tr_children row = filter (\<lambda>x. tag_of x = tag_of row) cs"
    "row = foldl absorbChannel (newTagRow c) (tr_children row)" "tr_children row \<noteq> []"
    by (rule row_in_aggregate)
  define ch where "ch = tr_children row"
  have r: "row = foldl absorbChannel (newTagRow c) ch" "ch \<noteq> []" using row by (simp_all add: ch_def)
  have st: "list_all (\<lambda>c. ch_status c \<noteq> None) ch"
    using assms(1) row(1) by (auto simp: ch_def list_all_iff)
  have "ch_response_time row * rat_of_nat (length ch) = sum_list (map ch_response_time ch)"
    using fold_response_time [of "newTagRow c" ch] by (simp add: r(1))
  moreover have "ch_used_quota row = sum_list (map ch_used_quota ch)"
    using fold_used_quota [of "newTagRow c" ch] by (simp add: r(1))
  moreover have "isChannelEnabled row \<longleftrightarrow> list_ex isChannelEnabled ch"
    using fold_status [OF st, of c] r by (cases ch) (auto simp: isChannelEnabled_def)
  ultimately show ?thesis using r(2) unfolding ch_def by (simp add: field_simps)
qed

theorem tag_view_totals_witness:
  "ch_used_quota (hd (aggregateChannelsByTag sample_channels)) = 14 \<and>
   ch_response_time (hd (aggregateChannelsByTag sample_channels)) = 150 \<and>
   isChannelEnabled (hd (aggregateChannelsByTag sample_channels))"
proof -
  have "list_all (\<lambda>c. ch_status c \<noteq> None) sample_channels"
    by (simp add: sample_channels_def sample_channel_def)
  from tag_view_totals [OF this sample_row(1)] show ?thesis
    by (simp add: sample_row(2)) (simp add: sample_channels_def sample_channel_def isChannelEnabled_def)
qed

text \<open>
  When no channel of the tag uses -1 itself, the row's priority and weight are the value all its
  channels share, or empty when they differ.
\<close>

theorem tag_view_common_priority:
  assumes "row \<in> set (aggregateChannelsByTag cs)"
    and "list_all (\<lambda>c. ch_priority c \<noteq> Some (- 1) \<and> ch_weight c \<noteq> Some (- 1)) (tr_children row)"
  shows "ch_priority row = common_value (map ch_priority (tr_children row)) \<and>
    ch_weight row = common_value (map ch_weight (tr_children row))"
proof -
  from assms(1) obtain c where row: "row = foldl absorbChannel (newTagRow c) (tr_children row)"
    "tr_children row \<noteq> []" by (rule row_in_aggregate)
  have "ch_priority row = foldl merge_same (Some (- 1)) (map ch_priority (tr_children row))"
    "ch_weight row = foldl merge_same (Some (- 1)) (map ch_weight (tr_children row))"
    by (subst row(1), simp add: fold_priority)+
  moreover have "Some (- 1) \<notin> set (map ch_priority (tr_children row))"
    "Some (- 1) \<notin> set (map ch_weight (tr_children row))"
    using assms(2) by (force simp: list_all_iff)+
  ultimately show ?thesis using row(2) by (simp add: foldl_merge_same)
qed

theorem tag_view_common_priority_witness:
  "ch_priority (hd (aggregateChannelsByTag sample_channels)) = Some 5"
proof -
  have "list_all (\<lambda>c. ch_priority c \<noteq> Some (- 1) \<and> ch_weight c \<noteq> Some (- 1))
      (tr_children (hd (aggregateChannelsByTag sample_channels)))"
    by (simp add: sample_row(2)) (simp add: sample_channels_def sample_channel_def)
  from tag_view_common_priority [OF sample_row(1) this] show ?thesis
    by (simp add: sample_row(2)) (simp add: sample_channels_def sample_channel_def common_value_def)
qed

text \<open>
  Deduplicating keys keeps every key of the text once, in order of first occurrence, reports
  as removed the difference between the lines before and the keys after, and has nothing left to
  remove when it is applied to its own output.
\<close>

theorem deduplicate_keys_stable:
  "let r = deduplicateKeys s; again = deduplicateKeys (dr_deduplicatedText r) in
   key_lines (dr_deduplicatedText r) = uniq (key_lines s) \<and>
   dr_afterCount r = length (uniq (key_lines s)) \<and>
   dr_removedCount r = int (dr_beforeCount r) - int (dr_afterCount r) \<and>
   0 \<le> dr_removedCount r \<and>
   dr_deduplicatedText again = dr_deduplicatedText r \<and> dr_removedCount again = 0"
proof -
  let ?ks = "uniq (key_lines s)"
  have kl: "key_lines (js_join [CHR 0x0A] ?ks) = ?ks" by (rule key_lines_join [of _ s]) simp
  have rm: "dr_removedCount (deduplicateKeys s) =
      int (dr_beforeCount (deduplicateKeys s)) - int (dr_afterCount (deduplicateKeys s))"
    by (simp add: deduplicateKeys_def Let_def)
  have "length ?ks \<le> length (split_on (CHR 0x0A) s)"
    by (metis key_lines_def length_filter_le length_map length_uniq_le order_trans)
  then have le: "dr_afterCount (deduplicateKeys s) \<le> dr_beforeCount (deduplicateKeys s)"
    by (simp add: deduplicateKeys_def Let_def key_lines_def)
  have "dr_removedCount (deduplicateKeys (js_join [CHR 0x0A] ?ks)) = 0"
  proof (cases "?ks = []")
    case False
    then have sp: "split_on (CHR 0x0A) (js_join [CHR 0x0A] ?ks) = ?ks"
      by (intro split_key_lines [of _ s]) auto
    with kl have "filter (\<lambda>l. l \<noteq> []) (map js_trim ?ks) = ?ks" by (simp add: key_lines_def)
    with sp show ?thesis by (simp add: deduplicateKeys_def Let_def)
  qed (simp add: deduplicateKeys_def)
  then show ?thesis using kl rm le by (simp add: Let_def deduplicateKeys_text)
qed

text \<open>
  A channel is flagged for attention exactly when there is a reason to show; the reason is the
  first of automatic disabling, a positive balance below one, and all keys of a multi-key channel
  being disabled.
\<close>

theorem attention_has_reason:
  "(channelNeedsAttention c \<longleftrightarrow> getAttentionReason c \<noteq> None) \<and>
   (getAttentionReason c = Some ''All keys disabled'' \<longleftrightarrow>
      all_keys_disabled c \<and> ch_status c \<noteq> Some 3 \<and> \<not> (0 < ch_balance c \<and> ch_balance c < 1))"
  by (auto simp: channelNeedsAttention_def getAttentionReason_def)

text \<open>
  What the masked form of a key gives away. Of a key above 16 characters only the first and
  the last eight are shown, so keys that differ in the middle look alike; a key of exactly eight
  characters is shown whole.
\<close>

theorem masked_key_middle_hidden:
  assumes "length a = 8" "length b = 8" "mid \<noteq> []" "length s = 8"
  shows "formatChannelKey (a @ mid @ b) False = a @ ''...'' @ b \<and>
    formatChannelKey s False = take 4 s @ ''...'' @ drop 4 s \<and> take 4 s @ drop 4 s = s"
  using assms by (auto simp: formatChannelKey_def take_last_def)

theorem masked_key_middle_hidden_witness:
  "formatChannelKey (''sk-live-'' @ ''xyz'' @ ''01234567'') False = ''sk-live-...01234567''"
  using masked_key_middle_hidden [of "''sk-live-''" "''01234567''" "''xyz''" "''abcdefgh''"] by simp

end
