(* ===== verification/JsRegex.thy ===== *)
theory JsRegex
  imports Prelude
begin

text \<open>
  The regular expressions of ECMAScript as far as the pricing sources use them: character
  classes, sequences, ordered alternatives, greedy repetition, captures, back references,
  anchors and word boundaries. The matcher follows the language definition: it takes a
  continuation, tries the alternatives in order and a greedy repetition before its absence, and
  rejects an iteration that consumes nothing. A repetition is only used on patterns without
  captures, so the resetting of captures at each iteration is not needed.

  A state is the text to the left in reverse, the text to the right, and the captures.

  \<open>rxm_shape\<close> says what any successful match consumed. The lemmas collected in \<open>rx_step\<close>
  evaluate a match on a text whose shape is known; \<open>star_delim\<close> and \<open>plus_delim\<close> step over a run
  of characters that is delimited on the right.
\<close>

named_theorems rx_step \<open>symbolic evaluation of regular expressions\<close>

type_synonym captures = "nat \<Rightarrow> jsstring option"
type_synonym rx_state = "jsstring \<times> jsstring \<times> captures"

datatype rx =
    RCls "char \<Rightarrow> bool" | REps | RCat rx rx | RAlt rx rx | RStar rx | ROpt rx
  | RCap nat rx | RRef nat | RBol | REol | RWb

text \<open>Stripping a literal prefix.\<close>

fun strip :: "jsstring \<Rightarrow> jsstring \<Rightarrow> jsstring option" where
  "strip [] s = Some s"
| "strip (x # l) [] = None"
| "strip (x # l) (y # s) = (if x = y then strip l s else None)"

text \<open>The class \<open>\w\<close>.\<close>

definition is_word :: "char \<Rightarrow> bool" where
  [js_ascii]: "is_word c \<longleftrightarrow> is_digit c \<or> c = CHR ''_'' \<or>
     (CHR ''a'' \<le> c \<and> c \<le> CHR ''z'') \<or> (CHR ''A'' \<le> c \<and> c \<le> CHR ''Z'')"

definition head_is :: "(char \<Rightarrow> bool) \<Rightarrow> jsstring \<Rightarrow> bool" where
  "head_is P s = (case s of [] \<Rightarrow> False | x # _ \<Rightarrow> P x)"

lemma head_is_simps [simp]: "head_is P [] = False" "head_is P (x # s) = P x"
  by (simp_all add: head_is_def)

function rxm :: "rx \<Rightarrow> rx_state \<Rightarrow> (rx_state \<Rightarrow> rx_state option) \<Rightarrow> rx_state option" where
  "rxm (RCls P) (p, s, c) k = (case s of [] \<Rightarrow> None | x # t \<Rightarrow> if P x then k (x # p, t, c) else None)"
| "rxm REps (p, s, c) k = k (p, s, c)"
| "rxm (RCat a b) (p, s, c) k = rxm a (p, s, c) (\<lambda>st. rxm b st k)"
| "rxm (RAlt a b) (p, s, c) k =
     (case rxm a (p, s, c) k of Some r \<Rightarrow> Some r | None \<Rightarrow> rxm b (p, s, c) k)"
| "rxm (RStar a) (p, s, c) k =
     (case rxm a (p, s, c) (\<lambda>st. if length (fst (snd st)) < length s then rxm (RStar a) st k else None) of
        Some r \<Rightarrow> Some r | None \<Rightarrow> k (p, s, c))"
| "rxm (ROpt a) (p, s, c) k =
     (case rxm a (p, s, c) (\<lambda>st. if length (fst (snd st)) < length s then k st else None) of
        Some r \<Rightarrow> Some r | None \<Rightarrow> k (p, s, c))"
| "rxm (RCap n a) (p, s, c) k =
     rxm a (p, s, c) (\<lambda>(p', s', c'). k (p', s', c'(n := Some (take (length s - length s') s))))"
| "rxm (RRef n) (p, s, c) k =
     (case c n of
        None \<Rightarrow> k (p, s, c)
      | Some l \<Rightarrow> (case strip l s of None \<Rightarrow> None | Some t \<Rightarrow> k (rev l @ p, t, c)))"
| "rxm RBol (p, s, c) k = (if p = [] then k (p, s, c) else None)"
| "rxm REol (p, s, c) k = (if s = [] then k (p, s, c) else None)"
| "rxm RWb (p, s, c) k = (if head_is is_word p \<noteq> head_is is_word s then k (p, s, c) else None)"
  by pat_completeness auto
termination
  by (relation "measures [\<lambda>(r, st, k). size r, \<lambda>(r, st, k). length (fst (snd st))]") auto

section \<open>Derived patterns\<close>

definition rplus :: "rx \<Rightarrow> rx" where "rplus a = RCat a (RStar a)"

fun rlit :: "jsstring \<Rightarrow> rx" where
  "rlit [] = REps"
| "rlit (x # l) = RCat (RCls (\<lambda>y. x = y)) (rlit l)"

fun rseq :: "rx list \<Rightarrow> rx" where
  "rseq [] = REps"
| "rseq [a] = a"
| "rseq (a # b # as) = RCat a (rseq (b # as))"

fun ralts :: "rx list \<Rightarrow> rx" where
  "ralts [] = RCls (\<lambda>_. False)"
| "ralts [a] = a"
| "ralts (a # b # as) = RAlt a (ralts (b # as))"

definition rws :: rx where "rws = RStar (RCls is_ws)"

text \<open>The dot: any character but a line terminator. With the flag \<open>s\<close> it is any character.\<close>

definition is_dot :: "char \<Rightarrow> bool" where
  [js_ascii]: "is_dot c \<longleftrightarrow> c \<noteq> CHR 0x0A \<and> c \<noteq> CHR 0x0D"

section \<open>Searching\<close>

definition rx_at :: "rx \<Rightarrow> jsstring \<Rightarrow> jsstring \<Rightarrow> rx_state option" where
  "rx_at r p s = rxm r (p, s, \<lambda>_. None) Some"

fun rx_search :: "rx \<Rightarrow> jsstring \<Rightarrow> jsstring \<Rightarrow> rx_state option" where
  "rx_search r p [] = rx_at r p []"
| "rx_search r p (x # s) =
     (case rx_at r p (x # s) of Some st \<Rightarrow> Some st | None \<Rightarrow> rx_search r (x # p) s)"

text \<open>\<open>text.match(re)\<close> without the flag \<open>g\<close>: the captures of the first match.\<close>

definition rx_match :: "rx \<Rightarrow> jsstring \<Rightarrow> captures option" where
  "rx_match r s = map_option (\<lambda>(p, t, c). c) (rx_search r [] s)"

definition rx_test :: "rx \<Rightarrow> jsstring \<Rightarrow> bool" where
  "rx_test r s \<longleftrightarrow> rx_search r [] s \<noteq> None"

text \<open>The captures of the successive matches of \<open>re.exec(text)\<close> with the flag \<open>g\<close>. The patterns
  it is used with never match the empty text, so every match moves on.\<close>

function rx_exec_all :: "rx \<Rightarrow> jsstring \<Rightarrow> jsstring \<Rightarrow> captures list" where
  "rx_exec_all r p s =
     (case rx_search r p s of
        None \<Rightarrow> []
      | Some (p', t, c) \<Rightarrow> c # (if length t < length s then rx_exec_all r p' t else []))"
  by pat_completeness auto
termination
  by (relation "measure (\<lambda>(r, p, s). length s)") auto

declare rx_exec_all.simps [simp del]

text \<open>\<open>text.split(re)\<close> and \<open>text.replace(re, rep)\<close> with the flag \<open>g\<close>, for patterns that never match
  the empty text; \<open>cur\<close> is the part read so far.\<close>

function rx_split :: "rx \<Rightarrow> jsstring \<Rightarrow> jsstring \<Rightarrow> jsstring \<Rightarrow> jsstring list" where
  "rx_split r cur p s =
     (case rx_at r p s of
        Some (p', t, c) \<Rightarrow>
          if length t < length s then cur # rx_split r [] p' t else [cur @ s]
      | None \<Rightarrow> (case s of [] \<Rightarrow> [cur] | x # s' \<Rightarrow> rx_split r (cur @ [x]) (x # p) s'))"
  by pat_completeness auto
termination
  by (relation "measure (\<lambda>(r, cur, p, s). length s)") auto

declare rx_split.simps [simp del]

definition rx_replace_all :: "rx \<Rightarrow> jsstring \<Rightarrow> jsstring \<Rightarrow> jsstring" where
  "rx_replace_all r rep s = js_join rep (rx_split r [] [] s)"

section \<open>What a match consumes\<close>

text \<open>The least number of characters of a match, and the classes a pattern may read.\<close>

fun rx_min :: "rx \<Rightarrow> nat" where
  "rx_min (RCls P) = 1"
| "rx_min (RCat a b) = rx_min a + rx_min b"
| "rx_min (RAlt a b) = min (rx_min a) (rx_min b)"
| "rx_min (RCap n a) = rx_min a"
| "rx_min _ = 0"

fun rx_over :: "(char \<Rightarrow> bool) \<Rightarrow> rx \<Rightarrow> bool" where
  "rx_over Q (RCls P) = (\<forall>x. P x \<longrightarrow> Q x)"
| "rx_over Q (RCat a b) = (rx_over Q a \<and> rx_over Q b)"
| "rx_over Q (RAlt a b) = (rx_over Q a \<and> rx_over Q b)"
| "rx_over Q (RStar a) = rx_over Q a"
| "rx_over Q (ROpt a) = rx_over Q a"
| "rx_over Q (RCap n a) = rx_over Q a"
| "rx_over Q (RRef n) = False"
| "rx_over Q _ = True"

lemma strip_append [simp]: "strip l (l @ t) = Some t"
  by (induction l) auto

lemma strip_Some: "strip l s = Some t \<longleftrightarrow> s = l @ t"
  by (induction l s rule: strip.induct) auto

text \<open>A successful match read a prefix \<open>u\<close> of the text and its continuation succeeded after it.\<close>

definition reads :: "rx \<Rightarrow> rx_state \<Rightarrow> (rx_state \<Rightarrow> rx_state option) \<Rightarrow> rx_state \<Rightarrow> bool" where
  "reads r st k res \<longleftrightarrow>
     (\<exists>u t c'. fst (snd st) = u @ t \<and> k (rev u @ fst st, t, c') = Some res \<and> rx_min r \<le> length u \<and>
       (\<forall>Q. rx_over Q r \<longrightarrow> list_all Q u))"

lemma readsI:
  "s = u @ t \<Longrightarrow> k (rev u @ p, t, c') = Some res \<Longrightarrow> rx_min r \<le> length u \<Longrightarrow>
   (\<forall>Q. rx_over Q r \<longrightarrow> list_all Q u) \<Longrightarrow> reads r (p, s, c) k res"
  unfolding reads_def by auto

lemma readsE:
  assumes "reads r (p, s, c) k res"
  obtains u t c' where "s = u @ t" "k (rev u @ p, t, c') = Some res" "rx_min r \<le> length u"
    "\<forall>Q. rx_over Q r \<longrightarrow> list_all Q u"
  using assms unfolding reads_def by auto

lemma rxm_reads: "rxm r st k = Some res \<Longrightarrow> reads r st k res"
proof (induction r st k rule: rxm.induct)
  case (1 P p s c k)
  then obtain x t where "s = [x] @ t" "P x" "k (rev [x] @ p, t, c) = Some res"
    by (auto split: list.splits if_splits)
  then show ?case by (intro readsI [of _ "[x]" t _ _ c]) auto
next
  case (3 a b p s c k)
  then have "reads a (p, s, c) (\<lambda>st. rxm b st k) res" by simp
  then obtain u t c1 where a: "s = u @ t" "rxm b (rev u @ p, t, c1) k = Some res" "rx_min a \<le> length u"
    "\<forall>Q. rx_over Q a \<longrightarrow> list_all Q u" by (rule readsE)
  from "3.IH"(1) [OF a(2)] obtain v t' c' where b: "t = v @ t'" "k (rev v @ rev u @ p, t', c') = Some res"
    "rx_min b \<le> length v" "\<forall>Q. rx_over Q b \<longrightarrow> list_all Q v" by (rule readsE)
  show ?case by (rule readsI [of _ "u @ v" t' _ _ c']) (use a b in auto)
next
  case (4 a b p s c k)
  then consider "reads a (p, s, c) k res" | "reads b (p, s, c) k res"
    by (auto split: option.splits)
  then show ?case by cases (erule readsE; rule readsI; auto)+
next
  case (5 a p s c k)
  let ?k = "\<lambda>st. if length (fst (snd st)) < length s then rxm (RStar a) st k else None"
  show ?case
  proof (cases "rxm a (p, s, c) ?k")
    case None
    with 5 show ?thesis by (intro readsI [of _ "[]"]) auto
  next
    case (Some r)
    with 5 have "reads a (p, s, c) ?k res" by simp
    then obtain u t c1 where a: "s = u @ t" "?k (rev u @ p, t, c1) = Some res"
      "\<forall>Q. rx_over Q a \<longrightarrow> list_all Q u" by (rule readsE)
    then have len: "length (fst (snd (rev u @ p, t, c1))) < length s"
      and m: "rxm (RStar a) (rev u @ p, t, c1) k = Some res" by (auto split: if_splits)
    from "5.IH"(1) [OF len m] obtain v t' c' where b: "t = v @ t'" "k (rev v @ rev u @ p, t', c') = Some res"
      "\<forall>Q. rx_over Q (RStar a) \<longrightarrow> list_all Q v" by (rule readsE)
    show ?thesis by (rule readsI [of _ "u @ v" t' _ _ c']) (use a b in auto)
  qed
next
  case (6 a p s c k)
  let ?k = "\<lambda>st. if length (fst (snd st)) < length s then k st else None"
  show ?case
  proof (cases "rxm a (p, s, c) ?k")
    case None
    with 6 show ?thesis by (intro readsI [of _ "[]"]) auto
  next
    case (Some r)
    with 6 have "reads a (p, s, c) ?k res" by simp
    then show ?thesis by (elim readsE, intro readsI) (auto split: if_splits)
  qed
next
  case (7 n a p s c k)
  then have "reads a (p, s, c) (\<lambda>(p', s', c'). k (p', s', c'(n := Some (take (length s - length s') s)))) res"
    by simp
  then show ?case by (elim readsE, intro readsI) auto
next
  case (8 n p s c k)
  show ?case
  proof (cases "c n")
    case None
    with 8 show ?thesis by (intro readsI [of _ "[]"]) auto
  next
    case (Some l)
    with 8 obtain t where "s = l @ t" "k (rev l @ p, t, c) = Some res"
      by (auto simp: strip_Some split: option.splits)
    then show ?thesis by (intro readsI [of _ l t _ _ c]) auto
  qed
qed (auto intro!: readsI [of _ "[]"] split: if_splits)

text \<open>Hence a search ends strictly further right when the pattern has to read something, so the
  loops over all matches make progress.\<close>

lemma rx_at_shape:
  assumes "rx_at r p s = Some (p', t, c)"
  obtains u where "s = u @ t" "p' = rev u @ p" "rx_min r \<le> length u" "\<forall>Q. rx_over Q r \<longrightarrow> list_all Q u"
  using rxm_reads [OF assms [unfolded rx_at_def]] by (auto elim: readsE)

lemma rx_search_progress:
  "rx_search r p s = Some (p', t, c) \<Longrightarrow> 0 < rx_min r \<Longrightarrow> length t < length s"
proof (induction s arbitrary: p)
  case Nil
  then show ?case by (auto elim: rx_at_shape)
next
  case (Cons x s)
  show ?case
  proof (cases "rx_at r p (x # s)")
    case None
    with Cons have "length t < length s" by simp
    then show ?thesis by simp
  next
    case (Some st)
    with Cons.prems have "rx_at r p (x # s) = Some (p', t, c)" by simp
    then obtain u where u: "x # s = u @ t" "rx_min r \<le> length u" by (rule rx_at_shape)
    from u(1) have "length (x # s) = length u + length t" by (metis length_append)
    with u(2) Cons.prems(2) show ?thesis by linarith
  qed
qed

section \<open>Symbolic evaluation\<close>

lemma rxm_lit [rx_step]:
  "rxm (rlit l) (p, s, c) k = (case strip l s of None \<Rightarrow> None | Some t \<Rightarrow> k (rev l @ p, t, c))"
  by (induction l arbitrary: p s) (auto split: list.splits option.splits)

lemma star_cls_Cons:
  "rxm (RStar (RCls P)) (p, x # s, c) k =
     (if P x then (case rxm (RStar (RCls P)) (x # p, s, c) k of Some r \<Rightarrow> Some r | None \<Rightarrow> k (p, x # s, c))
      else k (p, x # s, c))"
  by simp

lemma star_cls_Nil: "rxm (RStar (RCls P)) (p, [], c) k = k (p, [], c)"
  by simp

text \<open>A delimited run: when the continuation fails inside the run, the repetition stops at its end.\<close>

lemma star_delim:
  assumes "list_all P u" "\<not> head_is P t"
    and "\<And>p x s. P x \<Longrightarrow> k (p, x # s, c) = None"
  shows "rxm (RStar (RCls P)) (p, u @ t, c) k = k (rev u @ p, t, c)"
  using assms(1)
proof (induction u arbitrary: p)
  case Nil
  then show ?case using assms(2) by (cases t) (auto simp: star_cls_Cons)
next
  case (Cons x u)
  then have "rxm (RStar (RCls P)) (p, (x # u) @ t, c) k =
      (case k (rev (x # u) @ p, t, c) of Some r \<Rightarrow> Some r | None \<Rightarrow> k (p, (x # u) @ t, c))"
    by (simp add: star_cls_Cons del: rxm.simps split: option.splits)
  also have "k (p, (x # u) @ t, c) = None" using assms(3) Cons.prems by simp
  finally show ?case by (simp split: option.splits)
qed

lemma plus_delim:
  assumes "list_all P u" "u \<noteq> []" "\<not> head_is P t"
    and "\<And>p x s. P x \<Longrightarrow> k (p, x # s, c) = None"
  shows "rxm (rplus (RCls P)) (p, u @ t, c) k = k (rev u @ p, t, c)"
proof -
  obtain x v where u: "u = x # v" using assms(2) by (cases u) auto
  have "rxm (RStar (RCls P)) (x # p, v @ t, c) k = k (rev v @ x # p, t, c)"
    by (rule star_delim) (use assms u in auto)
  then show ?thesis using assms(1) by (simp add: rplus_def u del: rxm.simps(5))
qed

text \<open>A greedy run that succeeds at its end.\<close>

lemma star_greedy:
  assumes "list_all P u" "\<not> head_is P t" "k (rev u @ p, t, c) = Some r"
  shows "rxm (RStar (RCls P)) (p, u @ t, c) k = Some r"
  using assms(1,3)
proof (induction u arbitrary: p)
  case Nil
  then show ?case using assms(2) by (cases t) (auto simp: star_cls_Cons)
next
  case (Cons x u)
  then show ?case by (simp add: star_cls_Cons del: rxm.simps)
qed

lemma plus_greedy:
  assumes "list_all P u" "u \<noteq> []" "\<not> head_is P t" "k (rev u @ p, t, c) = Some r"
  shows "rxm (rplus (RCls P)) (p, u @ t, c) k = Some r"
proof -
  obtain x v where u: "u = x # v" using assms(2) by (cases u) auto
  have "rxm (RStar (RCls P)) (x # p, v @ t, c) k = Some r"
    by (rule star_greedy) (use assms u in auto)
  then show ?thesis using assms(1) by (simp add: rplus_def u del: rxm.simps(5))
qed

text \<open>A captured run that is delimited on the right or ends the text.\<close>

lemma cap_plus [rx_step]:
  assumes "list_all P u" "u \<noteq> []" "\<not> head_is P t" "\<And>p x s c. P x \<Longrightarrow> k (p, x # s, c) = None"
  shows "rxm (RCap n (rplus (RCls P))) (p, u @ t, c) k = k (rev u @ p, t, c(n := Some u))"
  using assms by (simp add: plus_delim)

lemma cap_plus_end [rx_step]:
  assumes "list_all P u" "u \<noteq> []" "\<And>p x s c. P x \<Longrightarrow> k (p, x # s, c) = None"
  shows "rxm (RCap n (rplus (RCls P))) (p, u, c) k = k (rev u @ p, [], c(n := Some u))"
  using cap_plus [of P u "[]" k n p c] assms by simp

lemma cap_alt [rx_step]:
  "rxm (RCap n (RAlt a b)) (p, s, c) k =
     (case rxm (RCap n a) (p, s, c) k of Some r \<Rightarrow> Some r | None \<Rightarrow> rxm (RCap n b) (p, s, c) k)"
  by (simp split: option.split)

lemma cap_lit [rx_step]:
  "rxm (RCap n (rlit l)) (p, s, c) k =
     (case strip l s of None \<Rightarrow> None | Some t \<Rightarrow> k (rev l @ p, t, c(n := Some l)))"
  by (auto simp: rxm_lit strip_Some split: option.splits)

text \<open>Greedy search for the last place where the continuation succeeds.\<close>

lemma star_last:
  assumes "k (rev u @ p, t, c) = Some r"
    and "\<And>v t' q. t = v @ t' \<Longrightarrow> v \<noteq> [] \<Longrightarrow> k (q, t', c) = None"
  shows "rxm (RStar (RCls (\<lambda>_. True))) (p, u @ t, c) k = Some r"
proof -
  have fail: "rxm (RStar (RCls (\<lambda>_. True))) (q, w, c) k = None"
    if "\<And>v t' q. w = v @ t' \<Longrightarrow> k (q, t', c) = None" for q w
    using that
  proof (induction w arbitrary: q)
    case (Cons x w)
    have "k (q, t', c) = None" if "w = v @ t'" for v t' q
      using Cons.prems [of "x # v" t'] that by simp
    then have "rxm (RStar (RCls (\<lambda>_. True))) (x # q, w, c) k = None" by (rule Cons.IH)
    moreover have "k (q, x # w, c) = None" using Cons.prems [of "[]"] by simp
    ultimately show ?case by (simp add: star_cls_Cons del: rxm.simps)
  qed (use that in simp)
  show ?thesis using assms(1)
  proof (induction u arbitrary: p)
    case Nil
    show ?case
    proof (cases t)
      case (Cons x w)
      have "rxm (RStar (RCls (\<lambda>_. True))) (x # p, w, c) k = None"
        by (rule fail) (use assms(2) Cons in \<open>metis append_Cons list.distinct(1)\<close>)
      with Nil Cons show ?thesis by (simp add: star_cls_Cons del: rxm.simps)
    qed (use Nil in simp)
  next
    case (Cons x u)
    then show ?case by (simp add: star_cls_Cons del: rxm.simps)
  qed
qed

text \<open>A pattern that starts with the anchor can only match at the start of the text.\<close>

lemma rx_search_anchored:
  "p \<noteq> [] \<Longrightarrow> rx_search (RCat RBol r) p s = None"
  by (induction s arbitrary: p) (simp_all add: rx_at_def)

lemma rx_match_anchored:
  "rx_match (RCat RBol r) s = map_option (\<lambda>(p, t, c). c) (rxm r ([], s, \<lambda>_. None) Some)"
  by (cases s) (auto simp: rx_match_def rx_at_def rx_search_anchored split: option.splits)

lemma rx_test_anchored:
  "rx_test (RCat RBol r) s \<longleftrightarrow> rxm r ([], s, \<lambda>_. None) Some \<noteq> None"
  by (cases s) (auto simp: rx_test_def rx_at_def rx_search_anchored split: option.splits)

text \<open>An anchored test bounds the characters of the text.\<close>

lemma rx_test_over:
  assumes "rx_test (RCat RBol (RCat r REol)) s" "rx_over Q r"
  shows "list_all Q s \<and> rx_min r \<le> length s"
proof -
  from assms(1) obtain st where "rxm (RCat r REol) ([], s, \<lambda>_. None) Some = Some st"
    by (auto simp: rx_test_anchored)
  then have "rxm r ([], s, \<lambda>_. None) (\<lambda>st. rxm REol st Some) = Some st" by simp
  from rxm_reads [OF this] obtain u t c where "s = u @ t" "rxm REol (rev u @ [], t, c) Some = Some st"
    "rx_min r \<le> length u" "list_all Q u" using assms(2) by (auto elim: readsE)
  then show ?thesis by (auto split: if_splits)
qed

text \<open>From here on matches are evaluated by the collected rules only.\<close>

lemmas rx_core [rx_step] = rxm.simps(1-4) rxm.simps(8-11)
lemmas rxm_cap = rxm.simps(7)
lemmas rxm_opt = rxm.simps(6)

declare rxm.simps [simp del] rlit.simps [simp del]

section \<open>Proof rules for successful matches\<close>

text \<open>
  \<open>hits k t c R\<close>: on the text \<open>t\<close> with the captures \<open>c\<close> the continuation \<open>k\<close> succeeds with remaining
  text and captures \<open>R\<close>, whatever is to the left; \<open>misses k t c\<close>: it fails. The rules step backwards
  through a pattern, from the text after it to the text before it.
\<close>

definition hits :: "(rx_state \<Rightarrow> rx_state option) \<Rightarrow> jsstring \<Rightarrow> captures \<Rightarrow> jsstring \<times> captures \<Rightarrow> bool" where
  "hits k t c R \<longleftrightarrow> (\<forall>q. \<exists>q'. k (q, t, c) = Some (q', R))"

definition misses :: "(rx_state \<Rightarrow> rx_state option) \<Rightarrow> jsstring \<Rightarrow> captures \<Rightarrow> bool" where
  "misses k t c \<longleftrightarrow> (\<forall>q. k (q, t, c) = None)"

lemma hits_mono:
  assumes "hits k t c R" "\<And>q r. k (q, t, c) = Some r \<Longrightarrow> k' (q, s, c') = Some r"
  shows "hits k' s c' R"
  unfolding hits_def
proof
  fix q
  obtain q' where "k (q, t, c) = Some (q', R)" using assms(1) unfolding hits_def by blast
  then have "k' (q, s, c') = Some (q', R)" by (rule assms(2))
  then show "\<exists>q'. k' (q, s, c') = Some (q', R)" ..
qed

lemma hits_done: "hits Some t c (t, c)"
  by (simp add: hits_def)

lemma hits_cat: "hits (\<lambda>st. rxm (RCat a b) st k) s c R \<longleftrightarrow> hits (\<lambda>st. rxm a st (\<lambda>st. rxm b st k)) s c R"
  by (simp add: hits_def rx_core)

lemma hits_lit: "hits k t c R \<Longrightarrow> hits (\<lambda>st. rxm (rlit l) st k) (l @ t) c R"
  by (simp add: hits_def rxm_lit)

lemma hits_eol: "hits k [] c R \<Longrightarrow> hits (\<lambda>st. rxm REol st k) [] c R"
  by (simp add: hits_def rx_core)

lemma misses_lit: "strip l s = None \<Longrightarrow> misses (\<lambda>st. rxm (rlit l) st k) s c"
  by (simp add: misses_def rxm_lit)

lemma misses_lit_then: "strip l s = Some t \<Longrightarrow> misses k t c \<Longrightarrow> misses (\<lambda>st. rxm (rlit l) st k) s c"
  by (simp add: misses_def rxm_lit)

lemma misses_cat:
  "misses (\<lambda>st. rxm (RCat a b) st k) s c \<longleftrightarrow> misses (\<lambda>st. rxm a st (\<lambda>st. rxm b st k)) s c"
  by (simp add: misses_def rx_core)

lemma hits_star: "list_all P u \<Longrightarrow> \<not> head_is P t \<Longrightarrow> hits k t c R \<Longrightarrow> hits (\<lambda>st. rxm (RStar (RCls P)) st k) (u @ t) c R"
  unfolding hits_def by (meson star_greedy)

lemma hits_plus:
  "list_all P u \<Longrightarrow> u \<noteq> [] \<Longrightarrow> \<not> head_is P t \<Longrightarrow> hits k t c R \<Longrightarrow> hits (\<lambda>st. rxm (rplus (RCls P)) st k) (u @ t) c R"
  unfolding hits_def by (meson plus_greedy)

lemma hits_ws: "\<not> head_is is_ws t \<Longrightarrow> hits k t c R \<Longrightarrow> hits (\<lambda>st. rxm rws st k) t c R"
  unfolding rws_def using hits_star [of is_ws "[]"] by simp

lemma hits_ws_space: "\<not> head_is is_ws t \<Longrightarrow> hits k t c R \<Longrightarrow> hits (\<lambda>st. rxm rws st k) (CHR '' '' # t) c R"
  unfolding rws_def using hits_star [of is_ws "'' ''"] by (simp add: is_ws_def)

lemma misses_ws: "\<not> head_is is_ws t \<Longrightarrow> misses k t c \<Longrightarrow> misses (\<lambda>st. rxm rws st k) t c"
  by (cases t) (auto simp: misses_def rws_def rxm.simps)

lemma misses_ws_space:
  "\<not> head_is is_ws t \<Longrightarrow> misses k t c \<Longrightarrow> misses k (CHR '' '' # t) c \<Longrightarrow>
   misses (\<lambda>st. rxm rws st k) (CHR '' '' # t) c"
  using misses_ws [of t k c] by (auto simp: misses_def rws_def rxm.simps(5) rx_core star_cls_Cons)

text \<open>A pattern that reads \<open>u\<close> before \<open>t\<close> and sets no captures may be captured.\<close>

lemma hits_cap:
  assumes "\<And>k. hits k t c R \<Longrightarrow> hits (\<lambda>st. rxm a st k) (u @ t) c R" "hits k t (c(n := Some u)) R"
  shows "hits (\<lambda>st. rxm (RCap n a) st k) (u @ t) c R"
proof -
  let ?k = "\<lambda>(p', s', c'). k (p', s', c'(n := Some (take (length (u @ t) - length s') (u @ t))))"
  have "hits ?k t c R" using assms(2) by (simp add: hits_def)
  then have "hits (\<lambda>st. rxm a st ?k) (u @ t) c R" by (rule assms(1))
  then show ?thesis by (simp add: hits_def rxm_cap)
qed

lemma hits_cap_plus:
  "list_all P u \<Longrightarrow> u \<noteq> [] \<Longrightarrow> \<not> head_is P t \<Longrightarrow> hits k t (c(n := Some u)) R \<Longrightarrow>
   hits (\<lambda>st. rxm (RCap n (rplus (RCls P))) st k) (u @ t) c R"
  by (rule hits_cap) (simp_all add: hits_plus)

lemma hits_cap_star:
  "list_all P u \<Longrightarrow> \<not> head_is P t \<Longrightarrow> hits k t (c(n := Some u)) R \<Longrightarrow>
   hits (\<lambda>st. rxm (RCap n (RStar (RCls P))) st k) (u @ t) c R"
  by (rule hits_cap) (simp_all add: hits_star)

lemma hits_alt_left: "hits (\<lambda>st. rxm a st k) s c R \<Longrightarrow> hits (\<lambda>st. rxm (RAlt a b) st k) s c R"
  by (erule hits_mono) (simp add: rx_core)

lemma hits_alt_right:
  "misses (\<lambda>st. rxm a st k) s c \<Longrightarrow> hits (\<lambda>st. rxm b st k) s c R \<Longrightarrow> hits (\<lambda>st. rxm (RAlt a b) st k) s c R"
  by (simp add: hits_def misses_def rx_core)

lemma misses_alt:
  "misses (\<lambda>st. rxm a st k) s c \<Longrightarrow> misses (\<lambda>st. rxm b st k) s c \<Longrightarrow> misses (\<lambda>st. rxm (RAlt a b) st k) s c"
  by (simp add: misses_def rx_core)

text \<open>Optional patterns and repetitions of patterns.\<close>

lemma hits_opt_present:
  assumes "\<And>k. hits k t c' R \<Longrightarrow> hits (\<lambda>st. rxm a st k) (u @ t) c R" "u \<noteq> []" "hits k t c' R"
  shows "hits (\<lambda>st. rxm (ROpt a) st k) (u @ t) c R"
proof -
  let ?k = "\<lambda>st. if length (fst (snd st)) < length (u @ t) then k st else None"
  have "hits ?k t c' R" using assms(2,3) by (simp add: hits_def)
  then have "hits (\<lambda>st. rxm a st ?k) (u @ t) c R" by (rule assms(1))
  then show ?thesis by (rule hits_mono) (simp add: rxm_opt)
qed

lemma hits_opt_absent:
  assumes "\<And>k. misses (\<lambda>st. rxm a st k) s c" "hits k s c R"
  shows "hits (\<lambda>st. rxm (ROpt a) st k) s c R"
  using assms unfolding hits_def misses_def by (simp add: rxm_opt)

lemma hits_star_end:
  assumes "\<And>k. misses (\<lambda>st. rxm a st k) s c" "hits k s c R"
  shows "hits (\<lambda>st. rxm (RStar a) st k) s c R"
  using assms unfolding hits_def misses_def by (simp add: rxm.simps)

lemma hits_star_step:
  assumes "\<And>k. hits k t c R \<Longrightarrow> hits (\<lambda>st. rxm a st k) (u @ t) c R" "u \<noteq> []"
    and "hits (\<lambda>st. rxm (RStar a) st k) t c R"
  shows "hits (\<lambda>st. rxm (RStar a) st k) (u @ t) c R"
proof -
  let ?k = "\<lambda>st. if length (fst (snd st)) < length (u @ t) then rxm (RStar a) st k else None"
  have "hits ?k t c R" using assms(2,3) by (simp add: hits_def)
  then have "hits (\<lambda>st. rxm a st ?k) (u @ t) c R" by (rule assms(1))
  then show ?thesis by (rule hits_mono) (simp add: rxm.simps)
qed

text \<open>The same for a sequence of patterns.\<close>

definition hseq :: "rx list \<Rightarrow> (rx_state \<Rightarrow> rx_state option) \<Rightarrow> jsstring \<Rightarrow> captures \<Rightarrow> jsstring \<times> captures \<Rightarrow> bool" where
  "hseq rs k s c R \<longleftrightarrow> hits (\<lambda>st. rxm (rseq rs) st k) s c R"

definition mseq :: "rx list \<Rightarrow> (rx_state \<Rightarrow> rx_state option) \<Rightarrow> jsstring \<Rightarrow> captures \<Rightarrow> bool" where
  "mseq rs k s c \<longleftrightarrow> misses (\<lambda>st. rxm (rseq rs) st k) s c"

lemma rxm_rseq: "rxm (rseq (r # rs)) st k = rxm r st (\<lambda>st. rxm (rseq rs) st k)"
proof -
  have "(\<lambda>st. rxm REps st k) = k" by (rule ext, rename_tac st, case_tac st) (simp add: rx_core)
  then show ?thesis by (cases rs; cases st) (simp_all add: rx_core)
qed

lemma hseq_Nil: "hits k s c R \<Longrightarrow> hseq [] k s c R"
  by (simp add: hseq_def hits_def rx_core)

lemma hseq_Cons: "hseq (r # rs) k s c R \<longleftrightarrow> hits (\<lambda>st. rxm r st (\<lambda>st. rxm (rseq rs) st k)) s c R"
  by (simp add: hseq_def rxm_rseq)

lemma mseq_Cons: "mseq (r # rs) k s c \<longleftrightarrow> misses (\<lambda>st. rxm r st (\<lambda>st. rxm (rseq rs) st k)) s c"
  by (simp add: mseq_def rxm_rseq)

lemma hseq_append: "hseq (rs @ qs) k s c R \<longleftrightarrow> hseq rs (\<lambda>st. rxm (rseq qs) st k) s c R"
proof -
  have "rxm (rseq (rs @ qs)) st k = rxm (rseq rs) st (\<lambda>st. rxm (rseq qs) st k)" for st
    by (induction rs arbitrary: st; case_tac st) (simp_all add: rxm_rseq rx_core)
  then show ?thesis by (simp add: hseq_def)
qed

lemma hseq_lit: "hseq rs k t c R \<Longrightarrow> hseq (rlit l # rs) k (l @ t) c R"
  unfolding hseq_Cons by (rule hits_lit) (simp add: hseq_def)

lemma hseq_char: "hseq rs k t c R \<Longrightarrow> hseq (rlit [x] # rs) k (x # t) c R"
  using hseq_lit [of rs k t c R "[x]"] by simp

lemma hseq_ws: "\<not> head_is is_ws t \<Longrightarrow> hseq rs k t c R \<Longrightarrow> hseq (rws # rs) k t c R"
  unfolding hseq_Cons by (rule hits_ws) (simp_all add: hseq_def)

lemma hseq_sp: "\<not> head_is is_ws t \<Longrightarrow> hseq rs k t c R \<Longrightarrow> hseq (rws # rs) k (CHR '' '' # t) c R"
  unfolding hseq_Cons by (rule hits_ws_space) (simp_all add: hseq_def)

lemma hseq_cap_plus:
  "list_all P u \<Longrightarrow> u \<noteq> [] \<Longrightarrow> \<not> head_is P t \<Longrightarrow> hseq rs k t (c(n := Some u)) R \<Longrightarrow>
   hseq (RCap n (rplus (RCls P)) # rs) k (u @ t) c R"
  unfolding hseq_Cons by (rule hits_cap_plus) (simp_all add: hseq_def)

lemma hseq_plus:
  "list_all P u \<Longrightarrow> u \<noteq> [] \<Longrightarrow> \<not> head_is P t \<Longrightarrow> hseq rs k t c R \<Longrightarrow>
   hseq (rplus (RCls P) # rs) k (u @ t) c R"
  unfolding hseq_Cons by (rule hits_plus) (simp_all add: hseq_def)

lemma hseq_cap_star:
  "list_all P u \<Longrightarrow> \<not> head_is P t \<Longrightarrow> hseq rs k t (c(n := Some u)) R \<Longrightarrow>
   hseq (RCap n (RStar (RCls P)) # rs) k (u @ t) c R"
  unfolding hseq_Cons by (rule hits_cap_star) (simp_all add: hseq_def)

lemma hseq_cap:
  "(\<And>k. hits k t c R \<Longrightarrow> hits (\<lambda>st. rxm a st k) (u @ t) c R) \<Longrightarrow> hseq rs k t (c(n := Some u)) R \<Longrightarrow>
   hseq (RCap n a # rs) k (u @ t) c R"
  unfolding hseq_Cons by (rule hits_cap) (simp_all add: hseq_def)

lemma hseq_opt_present:
  "(\<And>k. hits k t c' R \<Longrightarrow> hseq as k (u @ t) c R) \<Longrightarrow> u \<noteq> [] \<Longrightarrow> hseq rs k t c' R \<Longrightarrow>
   hseq (ROpt (rseq as) # rs) k (u @ t) c R"
  unfolding hseq_Cons by (rule hits_opt_present) (simp_all add: hseq_def)

lemma hseq_opt_absent:
  "(\<And>k. mseq as k s c) \<Longrightarrow> hseq rs k s c R \<Longrightarrow> hseq (ROpt (rseq as) # rs) k s c R"
  unfolding hseq_Cons by (rule hits_opt_absent) (simp_all add: hseq_def mseq_def)

lemma hseq_eol: "hseq rs k [] c R \<Longrightarrow> hseq (REol # rs) k [] c R"
  unfolding hseq_Cons by (rule hits_eol) (simp add: hseq_def)

lemma mseq_lit: "strip l s = None \<Longrightarrow> mseq (rlit l # rs) k s c"
  unfolding mseq_Cons by (rule misses_lit)

lemma mseq_lit_then: "strip l s = Some t \<Longrightarrow> mseq rs k t c \<Longrightarrow> mseq (rlit l # rs) k s c"
  unfolding mseq_Cons by (rule misses_lit_then) (simp_all add: mseq_def)

lemma mseq_ws: "\<not> head_is is_ws t \<Longrightarrow> mseq rs k t c \<Longrightarrow> mseq (rws # rs) k t c"
  unfolding mseq_Cons by (rule misses_ws) (simp_all add: mseq_def)

lemma mseq_sp:
  "\<not> head_is is_ws t \<Longrightarrow> mseq rs k t c \<Longrightarrow> mseq rs k (CHR '' '' # t) c \<Longrightarrow> mseq (rws # rs) k (CHR '' '' # t) c"
  unfolding mseq_Cons by (rule misses_ws_space) (simp_all add: mseq_def)

lemma mseq_plus: "\<not> head_is P s \<Longrightarrow> mseq (rplus (RCls P) # rs) k s c"
  unfolding mseq_Cons by (cases s) (auto simp: misses_def rplus_def rx_core)

lemma mseq_cap_plus: "\<not> head_is P s \<Longrightarrow> mseq (RCap n (rplus (RCls P)) # rs) k s c"
  unfolding mseq_Cons by (cases s) (auto simp: misses_def rplus_def rx_core rxm_cap)

lemma hits_seq_pair:
  "hseq (as @ bs) k s c R \<Longrightarrow> hits (\<lambda>st. rxm (RCat (rseq as) (rseq bs)) st k) s c R"
  by (simp add: hits_cat hseq_append) (simp add: hseq_def)

text \<open>A separator is not found inside a run that ends in a character other than white space.\<close>

lemma misses_ws_run:
  assumes "u \<noteq> []" "\<not> is_ws (last u)" "\<And>q x s. x \<in> set u \<Longrightarrow> k (q, x # s, c) = None"
  shows "misses (\<lambda>st. rxm rws st k) (u @ t) c"
  using assms
proof (induction u)
  case (Cons x u)
  show ?case
  proof (cases "is_ws x")
    case True
    with Cons.prems(2) have "u \<noteq> []" by auto
    with Cons have "misses (\<lambda>st. rxm rws st k) (u @ t) c" by auto
    with Cons.prems(3) show ?thesis by (auto simp: misses_def rws_def star_cls_Cons)
  next
    case False
    with Cons.prems(3) show ?thesis by (auto simp: misses_def rws_def star_cls_Cons)
  qed
qed simp

text \<open>Searching with such a pattern.\<close>

lemma rx_search_hit:
  "hits (\<lambda>st. rxm r st Some) s (\<lambda>_. None) (t, c) \<Longrightarrow> \<exists>q. rx_search r p s = Some (q, t, c)"
  unfolding hits_def by (cases s) (auto simp: rx_at_def dest!: spec [of _ p])

lemma rx_match_hseq:
  assumes "hseq rs Some s (\<lambda>_. None) (t, c)" "rs \<noteq> []"
  shows "rx_match (rseq (RBol # rs)) s = Some c"
proof -
  have "rseq (RBol # rs) = RCat RBol (rseq rs)" using assms(2) by (cases rs) simp_all
  moreover obtain q where "rxm (rseq rs) ([], s, \<lambda>_. None) Some = Some (q, t, c)"
    using assms(1) unfolding hseq_def hits_def by blast
  ultimately show ?thesis by (simp add: rx_match_anchored)
qed

lemma rx_match_mseq:
  assumes "mseq rs Some s (\<lambda>_. None)" "rs \<noteq> []"
  shows "rx_match (rseq (RBol # rs)) s = None"
proof -
  have "rseq (RBol # rs) = RCat RBol (rseq rs)" using assms(2) by (cases rs) simp_all
  then show ?thesis using assms(1) by (simp add: rx_match_anchored mseq_def misses_def)
qed

lemma rx_search_skip:
  "misses (\<lambda>st. rxm r st Some) (x # s) (\<lambda>_. None) \<Longrightarrow> rx_search r p (x # s) = rx_search r (x # p) s"
  by (simp add: misses_def rx_at_def)

lemma rx_search_Nil:
  "misses (\<lambda>st. rxm r st Some) [] (\<lambda>_. None) \<Longrightarrow> rx_search r p [] = None"
  by (simp add: misses_def rx_at_def)

lemma rx_exec_all_hit:
  assumes "hits (\<lambda>st. rxm r st Some) s (\<lambda>_. None) (t, c)" "length t < length s"
  obtains q where "rx_exec_all r p s = c # rx_exec_all r q t"
proof -
  obtain q where "rx_search r p s = Some (q, t, c)" using rx_search_hit [OF assms(1)] by blast
  with assms(2) that show ?thesis by (subst (asm) rx_exec_all.simps) simp
qed

lemma rx_exec_all_skip:
  assumes "misses (\<lambda>st. rxm r st Some) (x # s) (\<lambda>_. None)" "0 < rx_min r"
  shows "rx_exec_all r p (x # s) = rx_exec_all r (x # p) s"
  unfolding rx_exec_all.simps [of r p] rx_exec_all.simps [of r "x # p"] rx_search_skip [OF assms(1)]
  using rx_search_progress [of r "x # p" s] assms(2) by (auto split: option.split)

lemma rx_exec_all_Nil:
  "misses (\<lambda>st. rxm r st Some) [] (\<lambda>_. None) \<Longrightarrow> rx_exec_all r p [] = []"
  by (subst rx_exec_all.simps) (simp add: misses_def rx_at_def)

text \<open>Splitting a text at a separator.\<close>

lemma rx_split_run:
  assumes "\<And>v w. u = v @ w \<Longrightarrow> w \<noteq> [] \<Longrightarrow> misses (\<lambda>st. rxm r st Some) (w @ t) (\<lambda>_. None)"
  shows "rx_split r cur p (u @ t) = rx_split r (cur @ u) (rev u @ p) t"
  using assms
proof (induction u arbitrary: cur p)
  case (Cons x u)
  have "misses (\<lambda>st. rxm r st Some) (x # u @ t) (\<lambda>_. None)" using Cons.prems [of "[]" "x # u"] by simp
  then have "rx_at r p (x # u @ t) = None" by (simp add: misses_def rx_at_def)
  then have "rx_split r cur p ((x # u) @ t) = rx_split r (cur @ [x]) (x # p) (u @ t)"
    by (subst rx_split.simps) simp
  also have "\<dots> = rx_split r ((cur @ [x]) @ u) (rev u @ x # p) t"
    by (rule Cons.IH) (use Cons.prems in \<open>metis append_Cons\<close>)
  finally show ?case by simp
qed simp

lemma rx_split_sep:
  assumes "hits (\<lambda>st. rxm r st Some) s (\<lambda>_. None) (t, c)" "length t < length s"
  obtains q where "rx_split r cur p s = cur # rx_split r [] q t"
proof -
  obtain q where "rx_at r p s = Some (q, t, c)" using assms(1) by (auto simp: hits_def rx_at_def)
  with assms(2) that show ?thesis by (subst (asm) rx_split.simps) simp
qed

lemma rx_split_end: "misses (\<lambda>st. rxm r st Some) [] (\<lambda>_. None) \<Longrightarrow> rx_split r cur p [] = [cur]"
  by (subst rx_split.simps) (simp add: misses_def rx_at_def)

end
