(* ===== verification/RequestRules.thy ===== *)
theory RequestRules
  imports Json JsRegex
begin

text \<open>
  Request rules of a billing expression
  (\<open>web/default/src/features/pricing/lib/billing-expr.ts\<close>): a request rule is a factor
  \<open>(cond && cond ? multiplier : 1)\<close> that the gateway multiplies to the price of a request. The
  editor shows the rules as groups of conditions; it prints the groups as an expression, joins the
  expression with the base price, and later splits and parses the stored text again.

  A regular expression of the source is a pattern of the theory \<open>JsRegex\<close>. The only exception that
  can leave the parser is the one \<open>JSON.parse\<close> throws on the argument of \<open>has\<close>; functions it can
  pass through return \<open>Inl SyntaxError\<close> for it, and \<open>Inr None\<close> for \<open>null\<close>.
\<close>

section \<open>Constants and types\<close>

definition SOURCE_PARAM :: jsstring where "SOURCE_PARAM = ''param''"
definition SOURCE_HEADER :: jsstring where "SOURCE_HEADER = ''header''"
definition SOURCE_TIME :: jsstring where "SOURCE_TIME = ''time''"

definition MATCH_EQ :: jsstring where "MATCH_EQ = ''eq''"
definition MATCH_CONTAINS :: jsstring where "MATCH_CONTAINS = ''contains''"
definition MATCH_GT :: jsstring where "MATCH_GT = ''gt''"
definition MATCH_GTE :: jsstring where "MATCH_GTE = ''gte''"
definition MATCH_LT :: jsstring where "MATCH_LT = ''lt''"
definition MATCH_LTE :: jsstring where "MATCH_LTE = ''lte''"
definition MATCH_EXISTS :: jsstring where "MATCH_EXISTS = ''exists''"
definition MATCH_RANGE :: jsstring where "MATCH_RANGE = ''range''"

lemmas match_defs = SOURCE_PARAM_def SOURCE_HEADER_def SOURCE_TIME_def MATCH_EQ_def MATCH_CONTAINS_def
  MATCH_GT_def MATCH_GTE_def MATCH_LT_def MATCH_LTE_def MATCH_EXISTS_def MATCH_RANGE_def

definition TIME_FUNCS :: "jsstring list" where
  "TIME_FUNCS = [''hour'', ''minute'', ''weekday'', ''month'', ''day'']"

text \<open>The class \<open>[\d.eE+-]\<close>.\<close>

definition is_num_char :: "char \<Rightarrow> bool" where
  [js_ascii]: "is_num_char c \<longleftrightarrow> is_digit c \<or> c = CHR ''.'' \<or> c = CHR ''e'' \<or> c = CHR ''E'' \<or>
     c = CHR ''+'' \<or> c = CHR ''-''"

definition rnum :: rx where "rnum = rplus (RCls is_num_char)"

text \<open>\<open>-?(?:\d+\.?\d*|\.\d+)(?:[eE][+-]?\d+)?\<close>, to be anchored on both sides.\<close>

definition numeric_literal_rx :: rx where
  "numeric_literal_rx = rseq [
     ROpt (rlit ''-''),
     RAlt (rseq [rplus (RCls is_digit), ROpt (rlit ''.''), RStar (RCls is_digit)])
          (RCat (rlit ''.'') (rplus (RCls is_digit))),
     ROpt (rseq [RCls (\<lambda>c. c = CHR ''e'' \<or> c = CHR ''E''),
       ROpt (RCls (\<lambda>c. c = CHR ''+'' \<or> c = CHR ''-'')), rplus (RCls is_digit)])]"

definition NUMERIC_LITERAL_REGEX :: rx where
  "NUMERIC_LITERAL_REGEX = RCat RBol (RCat numeric_literal_rx REol)"

record param_header_condition =
  pc_source :: jsstring
  pc_path :: jsstring
  pc_mode :: jsstring
  pc_value :: jsstring

record time_condition =
  tc_timeFunc :: jsstring
  tc_timezone :: jsstring
  tc_mode :: jsstring
  tc_value :: jsstring
  tc_rangeStart :: jsstring
  tc_rangeEnd :: jsstring

datatype request_condition = TimeCondition time_condition | ParamHeaderCondition param_header_condition

record request_rule_group =
  rg_conditions :: "request_condition list"
  rg_multiplier :: jsstring

datatype js_error = SyntaxError

section \<open>Splitting at the top level\<close>

text \<open>
  The scanning loop of \<open>splitTopLevelMultiply\<close> and \<open>splitTopLevelAnd\<close>: \<open>depth\<close> counts the open
  parentheses, \<open>cur\<close> is \<open>expr.slice(start, index)\<close>. A separator found at depth zero ends a part.
\<close>

definition paren_depth :: "char \<Rightarrow> int" where
  "paren_depth c = (if c = CHR ''('' then 1 else if c = CHR '')'' then - 1 else 0)"

fun split_top :: "jsstring \<Rightarrow> int \<Rightarrow> jsstring \<Rightarrow> jsstring \<Rightarrow> jsstring list" where
  "split_top sep depth cur [] = [js_trim cur]"
| "split_top sep depth cur (c # s) =
     (let depth = depth + paren_depth c in
      if depth = 0 \<and> take (length sep) (c # s) = sep
      then js_trim cur # split_top sep depth [] (drop (length sep - 1) s)
      else split_top sep depth (cur @ [c]) s)"

definition splitTopLevelMultiply :: "jsstring \<Rightarrow> jsstring list" where
  "splitTopLevelMultiply expr = filter (\<lambda>p. p \<noteq> []) (split_top '' * '' 0 [] expr)"

definition splitTopLevelAnd :: "jsstring \<Rightarrow> jsstring list" where
  "splitTopLevelAnd expr = filter (\<lambda>p. p \<noteq> []) (split_top '' && '' 0 [] expr)"

section \<open>Parsing\<close>

text \<open>The value is kept as JSON: the literal texts \<open>true\<close>, \<open>false\<close> and numbers are strings.\<close>

definition parseExprLiteral :: "jsstring \<Rightarrow> json option" where
  "parseExprLiteral raw =
     (let text = js_trim raw in
      if text = ''true'' \<or> text = ''false'' then Some (JStr text)
      else if rx_test NUMERIC_LITERAL_REGEX text then Some (JStr text)
      else (case json_parse text of Some JNull \<Rightarrow> None | r \<Rightarrow> r))"

definition not_quote :: "char \<Rightarrow> bool" where
  [js_ascii]: "not_quote c \<longleftrightarrow> c \<noteq> CHR 0x22"

definition time_fn_rx :: rx where
  "time_fn_rx = RCap 1 (ralts (map rlit TIME_FUNCS))"

text \<open>\<open>fn("tz") >= a || \1("\2") < b\<close>\<close>

definition time_range_rx :: rx where
  "time_range_rx = rseq [time_fn_rx, rlit ''(\"'', RCap 2 (rplus (RCls not_quote)), rlit ''\") >= '',
     RCap 3 rnum, rlit '' || '', RRef 1, rlit ''(\"'', RRef 2, rlit ''\") < '', RCap 4 rnum]"

definition time_cmp_rx :: rx where
  "time_cmp_rx = rseq [RBol, time_fn_rx, rlit ''(\"'', RCap 2 (rplus (RCls not_quote)), rlit ''\") '',
     RCap 3 (ralts [rlit ''=='', rlit ''>='', rlit ''<'']), rlit '' '', RCap 4 rnum, REol]"

text \<open>A capture that took part in the match.\<close>

definition cap :: "captures \<Rightarrow> nat \<Rightarrow> jsstring" where
  "cap m n = (case m n of Some s \<Rightarrow> s | None \<Rightarrow> [])"

definition range_condition :: "captures \<Rightarrow> request_condition" where
  "range_condition m = TimeCondition \<lparr>tc_timeFunc = cap m 1, tc_timezone = cap m 2,
     tc_mode = MATCH_RANGE, tc_value = '''', tc_rangeStart = cap m 3, tc_rangeEnd = cap m 4\<rparr>"

definition time_op_mode :: "jsstring \<Rightarrow> jsstring" where
  "time_op_mode op =
     (case map_of [(''=='', MATCH_EQ), (''>='', MATCH_GTE), (''<'', MATCH_LT)] op of
        Some m \<Rightarrow> m | None \<Rightarrow> MATCH_EQ)"

definition tryParseTimeCondition :: "jsstring \<Rightarrow> request_condition option" where
  "tryParseTimeCondition expr =
     (case rx_match (RCat RBol (RCat time_range_rx REol)) expr of
        Some m \<Rightarrow> Some (range_condition m)
      | None \<Rightarrow>
     (case rx_match (RCat RBol (rseq [rlit ''('', time_range_rx, rlit '')'', REol])) expr of
        Some m \<Rightarrow> Some (range_condition m)
      | None \<Rightarrow>
     (case rx_match time_cmp_rx expr of
        Some m \<Rightarrow> Some (TimeCondition \<lparr>tc_timeFunc = cap m 1, tc_timezone = cap m 2,
          tc_mode = time_op_mode (cap m 3), tc_value = cap m 4,
          tc_rangeStart = '''', tc_rangeEnd = ''''\<rparr>)
      | None \<Rightarrow> None)))"

definition path_rx :: "nat \<Rightarrow> rx" where
  "path_rx n = RCap n (rplus (RCls not_quote))"

text \<open>\<open>"(?:[^"\\]|\\.)*"\<close>\<close>

definition quoted_rx :: rx where
  "quoted_rx = rseq [rlit ''\"'',
     RStar (RAlt (RCls (\<lambda>c. c \<noteq> CHR 0x22 \<and> c \<noteq> CHR 0x5C)) (RCat (rlit [CHR 0x5C]) (RCls is_dot))),
     rlit ''\"'']"

definition header_exists_rx :: rx where
  "header_exists_rx = rseq [RBol, rlit ''header(\"'', path_rx 1, rlit ''\") != \"\"'', REol]"

definition param_exists_rx :: rx where
  "param_exists_rx = rseq [RBol, rlit ''param(\"'', path_rx 1, rlit ''\") != nil'', REol]"

definition header_contains_rx :: rx where
  "header_contains_rx = rseq [RBol, rlit ''has(header(\"'', path_rx 1, rlit ''\"), '', RCap 2 quoted_rx,
     rlit '')'', REol]"

definition param_contains_rx :: rx where
  "param_contains_rx = rseq [RBol, rlit ''param(\"'', path_rx 1, rlit ''\") != nil && has(param(\"'',
     path_rx 2, rlit ''\"), '', RCap 3 quoted_rx, rlit '')'', REol]"

definition param_compare_rx :: rx where
  "param_compare_rx = rseq [RBol, rlit ''param(\"'', path_rx 1, rlit ''\") != nil && param(\"'',
     path_rx 2, rlit ''\") '', RCap 3 (ralts [rlit ''>'', rlit ''>='', rlit ''<'', rlit ''<='']),
     rlit '' '', RCap 4 rnum, REol]"

definition equals_rx :: rx where
  "equals_rx = rseq [RBol, RCap 1 (RAlt (rlit ''param'') (rlit ''header'')), rlit ''(\"'', path_rx 2,
     rlit ''\") == '', RCap 3 (rplus (RCls is_dot)), REol]"

definition param_op_mode :: "jsstring \<Rightarrow> jsstring" where
  "param_op_mode op =
     (case map_of [(''>'', MATCH_GT), (''>='', MATCH_GTE), (''<'', MATCH_LT), (''<='', MATCH_LTE)] op of
        Some m \<Rightarrow> m | None \<Rightarrow> [])"

text \<open>\<open>JSON.parse\<close> of a text in quotes: a string, or the exception.\<close>

definition contains_condition :: "jsstring \<Rightarrow> jsstring \<Rightarrow> jsstring \<Rightarrow> js_error + request_condition option" where
  "contains_condition source path text =
     (case json_parse text of
        None \<Rightarrow> Inl SyntaxError
      | Some j \<Rightarrow> Inr (Some (ParamHeaderCondition \<lparr>pc_source = source, pc_path = path,
          pc_mode = MATCH_CONTAINS, pc_value = js_to_string j\<rparr>)))"

text \<open>The last regular expression, \<open>source("path") == literal\<close>.\<close>

definition parse_equals :: "jsstring \<Rightarrow> request_condition option" where
  "parse_equals expr =
     (case rx_match equals_rx expr of
        None \<Rightarrow> None
      | Some m \<Rightarrow>
          (case parseExprLiteral (cap m 3) of
             None \<Rightarrow> None
           | Some v \<Rightarrow> Some (ParamHeaderCondition \<lparr>pc_source = cap m 1, pc_path = cap m 2,
               pc_mode = MATCH_EQ, pc_value = js_to_string v\<rparr>)))"

text \<open>The two regular expressions that read the path twice.\<close>

definition parse_compare :: "jsstring \<Rightarrow> request_condition option" where
  "parse_compare expr =
     (case rx_match param_compare_rx expr of
        Some m \<Rightarrow>
          if cap m 1 = cap m 2
          then Some (ParamHeaderCondition \<lparr>pc_source = ''param'', pc_path = cap m 1,
            pc_mode = param_op_mode (cap m 3), pc_value = cap m 4\<rparr>)
          else parse_equals expr
      | None \<Rightarrow> parse_equals expr)"

definition parse_param_guarded :: "jsstring \<Rightarrow> js_error + request_condition option" where
  "parse_param_guarded expr =
     (case rx_match param_contains_rx expr of
        Some m \<Rightarrow>
          if cap m 1 = cap m 2 then contains_condition ''param'' (cap m 1) (cap m 3)
          else Inr (parse_compare expr)
      | None \<Rightarrow> Inr (parse_compare expr))"

definition tryParseRequestCondition :: "jsstring \<Rightarrow> js_error + request_condition option" where
  "tryParseRequestCondition expr =
     (case tryParseTimeCondition expr of
        Some tc \<Rightarrow> Inr (Some tc)
      | None \<Rightarrow>
     (case rx_match header_exists_rx expr of
        Some m \<Rightarrow> Inr (Some (ParamHeaderCondition \<lparr>pc_source = ''header'', pc_path = cap m 1,
          pc_mode = MATCH_EXISTS, pc_value = ''''\<rparr>))
      | None \<Rightarrow>
     (case rx_match param_exists_rx expr of
        Some m \<Rightarrow> Inr (Some (ParamHeaderCondition \<lparr>pc_source = ''param'', pc_path = cap m 1,
          pc_mode = MATCH_EXISTS, pc_value = ''''\<rparr>))
      | None \<Rightarrow>
     (case rx_match header_contains_rx expr of
        Some m \<Rightarrow> contains_condition ''header'' (cap m 1) (cap m 2)
      | None \<Rightarrow> parse_param_guarded expr))))"

text \<open>\<open>/^\((.+) \? ([\d.eE+-]+) : 1\)$/s\<close>\<close>

definition rule_group_rx :: rx where
  "rule_group_rx = rseq [RBol, rlit ''('', RCap 1 (rplus (RCls (\<lambda>_. True))), rlit '' ? '', RCap 2 rnum,
     rlit '' : 1)'', REol]"

text \<open>A loop that parses every part and stops at the first failure or exception.\<close>

fun parse_each :: "('a \<Rightarrow> js_error + 'b option) \<Rightarrow> 'a list \<Rightarrow> js_error + 'b list option" where
  "parse_each f [] = Inr (Some [])"
| "parse_each f (x # xs) =
     (case f x of
        Inl e \<Rightarrow> Inl e
      | Inr None \<Rightarrow> Inr None
      | Inr (Some y) \<Rightarrow>
          (case parse_each f xs of
             Inl e \<Rightarrow> Inl e
           | Inr None \<Rightarrow> Inr None
           | Inr (Some ys) \<Rightarrow> Inr (Some (y # ys))))"

definition tryParseRuleGroupFactor :: "jsstring \<Rightarrow> js_error + request_rule_group option" where
  "tryParseRuleGroupFactor part =
     (case rx_match rule_group_rx part of
        None \<Rightarrow> Inr None
      | Some m \<Rightarrow>
          (case parse_each (\<lambda>ap. tryParseRequestCondition (js_trim ap)) (splitTopLevelAnd (cap m 1)) of
             Inl e \<Rightarrow> Inl e
           | Inr None \<Rightarrow> Inr None
           | Inr (Some conditions) \<Rightarrow>
               if conditions = [] then Inr None
               else Inr (Some \<lparr>rg_conditions = conditions, rg_multiplier = cap m 2\<rparr>)))"

definition tryParseRequestRuleExpr :: "jsstring \<Rightarrow> js_error + request_rule_group list option" where
  "tryParseRequestRuleExpr expr =
     (let trimmed = js_trim expr in
      if trimmed = [] then Inr (Some [])
      else parse_each tryParseRuleGroupFactor (splitTopLevelMultiply trimmed))"

section \<open>Splitting and combining\<close>

text \<open>The loop of \<open>hasFullOuterParens\<close>: depth zero before the last character is a failure.\<close>

fun depth_positive :: "int \<Rightarrow> jsstring \<Rightarrow> bool" where
  "depth_positive depth [] \<longleftrightarrow> depth = 0"
| "depth_positive depth (c # s) =
     (let depth = depth + paren_depth c in
      if depth = 0 \<and> s \<noteq> [] then False else depth_positive depth s)"

definition hasFullOuterParens :: "jsstring \<Rightarrow> bool" where
  "hasFullOuterParens expr =
     (if expr = [] \<or> hd expr \<noteq> CHR ''('' \<or> last expr \<noteq> CHR '')'' then False
      else depth_positive 0 expr)"

lemma js_trim_length: "length (js_trim s) \<le> length s"
  by (simp add: js_trim_def) (metis length_dropWhile_le length_rev order_trans)

function unwrap_loop :: "jsstring \<Rightarrow> jsstring" where
  "unwrap_loop current =
     (if hasFullOuterParens current then unwrap_loop (js_trim (butlast (tl current))) else current)"
  by pat_completeness auto
termination
proof (relation "measure length", simp)
  fix s :: jsstring
  assume "hasFullOuterParens s"
  then have "s \<noteq> []" by (auto simp: hasFullOuterParens_def)
  then have "length (butlast (tl s)) < length s" by (cases s) auto
  then show "(js_trim (butlast (tl s)), s) \<in> measure length"
    using js_trim_length [of "butlast (tl s)"] by simp
qed

declare unwrap_loop.simps [simp del]

definition unwrapOuterParens :: "jsstring \<Rightarrow> jsstring" where
  "unwrapOuterParens expr = unwrap_loop (js_trim expr)"

record split_expr =
  billingExpr :: jsstring
  requestRuleExpr :: jsstring

text \<open>Whether a part parses as a non-empty list of rules.\<close>

definition is_rule_part :: "jsstring \<Rightarrow> js_error + bool" where
  "is_rule_part part =
     (case tryParseRequestRuleExpr part of
        Inl e \<Rightarrow> Inl e
      | Inr None \<Rightarrow> Inr False
      | Inr (Some gs) \<Rightarrow> Inr (gs \<noteq> []))"

text \<open>The \<open>forEach\<close>: the rule parts and the base parts, or the first exception.\<close>

fun classify_parts :: "jsstring list \<Rightarrow> js_error + (jsstring list \<times> jsstring list)" where
  "classify_parts [] = Inr ([], [])"
| "classify_parts (part # parts) =
     (case is_rule_part part of
        Inl e \<Rightarrow> Inl e
      | Inr b \<Rightarrow>
          (case classify_parts parts of
             Inl e \<Rightarrow> Inl e
           | Inr (rules, bases) \<Rightarrow>
               Inr (if b then (part # rules, bases) else (rules, part # bases))))"

definition splitBillingExprAndRequestRules :: "jsstring \<Rightarrow> js_error + split_expr" where
  "splitBillingExprAndRequestRules expr =
     (let trimmed = js_trim expr in
      if trimmed = [] then Inr \<lparr>billingExpr = '''', requestRuleExpr = ''''\<rparr>
      else (let parts = splitTopLevelMultiply trimmed in
        if length parts \<le> 1 then Inr \<lparr>billingExpr = trimmed, requestRuleExpr = ''''\<rparr>
        else (case classify_parts parts of
                Inl e \<Rightarrow> Inl e
              | Inr (ruleParts, baseParts) \<Rightarrow>
                  if ruleParts = [] \<or> length baseParts \<noteq> 1
                  then Inr \<lparr>billingExpr = trimmed, requestRuleExpr = ''''\<rparr>
                  else Inr \<lparr>billingExpr = unwrapOuterParens (hd baseParts),
                            requestRuleExpr = js_join '' * '' ruleParts\<rparr>)))"

definition combineBillingExpr :: "jsstring \<Rightarrow> jsstring \<Rightarrow> jsstring" where
  "combineBillingExpr baseExpr ruleExpr =
     (let base = js_trim baseExpr; rules = js_trim ruleExpr in
      if base = [] then [] else if rules = [] then base
      else ''('' @ base @ '') * '' @ rules)"

section \<open>Editing\<close>

definition createEmptyCondition :: param_header_condition where
  "createEmptyCondition = \<lparr>pc_source = ''param'', pc_path = '''', pc_mode = MATCH_EQ, pc_value = ''''\<rparr>"

definition createEmptyTimeCondition :: time_condition where
  "createEmptyTimeCondition = \<lparr>tc_timeFunc = ''hour'', tc_timezone = ''Asia/Shanghai'',
     tc_mode = MATCH_GTE, tc_value = '''', tc_rangeStart = '''', tc_rangeEnd = ''''\<rparr>"

definition createEmptyRuleGroup :: request_rule_group where
  "createEmptyRuleGroup =
     \<lparr>rg_conditions = [ParamHeaderCondition createEmptyCondition], rg_multiplier = ''''\<rparr>"

definition createEmptyTimeRuleGroup :: request_rule_group where
  "createEmptyTimeRuleGroup =
     \<lparr>rg_conditions = [TimeCondition createEmptyTimeCondition], rg_multiplier = ''''\<rparr>"

record match_option =
  mo_value :: jsstring
  mo_labelKey :: jsstring

definition getRequestRuleMatchOptions :: "jsstring \<Rightarrow> match_option list" where
  "getRequestRuleMatchOptions source =
     (if source = SOURCE_TIME then
        [\<lparr>mo_value = MATCH_EQ, mo_labelKey = ''Equals''\<rparr>,
         \<lparr>mo_value = MATCH_GTE, mo_labelKey = ''Greater than or equal''\<rparr>,
         \<lparr>mo_value = MATCH_LT, mo_labelKey = ''Less than''\<rparr>,
         \<lparr>mo_value = MATCH_RANGE, mo_labelKey = ''Overnight range''\<rparr>]
      else (let base =
         [\<lparr>mo_value = MATCH_EQ, mo_labelKey = ''Equals''\<rparr>,
          \<lparr>mo_value = MATCH_CONTAINS, mo_labelKey = ''Contains''\<rparr>,
          \<lparr>mo_value = MATCH_EXISTS, mo_labelKey = ''Exists''\<rparr>] in
        if source = SOURCE_HEADER then base
        else base @
         [\<lparr>mo_value = MATCH_GT, mo_labelKey = ''Greater than''\<rparr>,
          \<lparr>mo_value = MATCH_GTE, mo_labelKey = ''Greater than or equal''\<rparr>,
          \<lparr>mo_value = MATCH_LT, mo_labelKey = ''Less than''\<rparr>,
          \<lparr>mo_value = MATCH_LTE, mo_labelKey = ''Less than or equal''\<rparr>]))"

definition isTimeFunc :: "jsstring \<Rightarrow> bool" where
  "isTimeFunc value \<longleftrightarrow> value \<in> set TIME_FUNCS"

text \<open>A partial condition: every field may be missing.\<close>

record partial_condition =
  pt_source :: "jsstring option"
  pt_path :: "jsstring option"
  pt_timeFunc :: "jsstring option"
  pt_timezone :: "jsstring option"
  pt_mode :: "jsstring option"
  pt_value :: "jsstring option"
  pt_rangeStart :: "jsstring option"
  pt_rangeEnd :: "jsstring option"

definition text_or_empty :: "jsstring option \<Rightarrow> jsstring" where
  "text_or_empty v = (case v of None \<Rightarrow> [] | Some s \<Rightarrow> s)"

text \<open>\<open>options.some(item => item.value === mode) ? mode : fallback\<close>\<close>

definition choose_mode :: "match_option list \<Rightarrow> jsstring option \<Rightarrow> jsstring \<Rightarrow> jsstring" where
  "choose_mode options mode fallback =
     (case mode of
        Some m \<Rightarrow> if m \<in> set (map mo_value options) then m else fallback
      | None \<Rightarrow> fallback)"

definition normalizeCondition :: "partial_condition \<Rightarrow> request_condition" where
  "normalizeCondition cond =
     (let source = (if pt_source cond = Some ''time'' then ''time''
                    else if pt_source cond = Some ''header'' then ''header'' else ''param'') in
      if source = ''time'' then
        TimeCondition
          \<lparr>tc_timeFunc = (case pt_timeFunc cond of
               Some f \<Rightarrow> if isTimeFunc f then f else ''hour'' | None \<Rightarrow> ''hour''),
           tc_timezone = (case pt_timezone cond of
               Some z \<Rightarrow> if z \<noteq> [] then z else ''Asia/Shanghai'' | None \<Rightarrow> ''Asia/Shanghai''),
           tc_mode = choose_mode (getRequestRuleMatchOptions SOURCE_TIME) (pt_mode cond) MATCH_GTE,
           tc_value = text_or_empty (pt_value cond),
           tc_rangeStart = text_or_empty (pt_rangeStart cond),
           tc_rangeEnd = text_or_empty (pt_rangeEnd cond)\<rparr>
      else
        ParamHeaderCondition
          \<lparr>pc_source = source, pc_path = text_or_empty (pt_path cond),
           pc_mode = choose_mode (getRequestRuleMatchOptions source) (pt_mode cond) MATCH_EQ,
           pc_value = text_or_empty (pt_value cond)\<rparr>)"

text \<open>A condition as an argument of \<open>normalizeCondition\<close>.\<close>

fun as_partial :: "request_condition \<Rightarrow> partial_condition" where
  "as_partial (TimeCondition t) = \<lparr>pt_source = Some ''time'', pt_path = None,
     pt_timeFunc = Some (tc_timeFunc t), pt_timezone = Some (tc_timezone t), pt_mode = Some (tc_mode t),
     pt_value = Some (tc_value t), pt_rangeStart = Some (tc_rangeStart t),
     pt_rangeEnd = Some (tc_rangeEnd t)\<rparr>"
| "as_partial (ParamHeaderCondition h) = \<lparr>pt_source = Some (pc_source h), pt_path = Some (pc_path h),
     pt_timeFunc = None, pt_timezone = None, pt_mode = Some (pc_mode h), pt_value = Some (pc_value h),
     pt_rangeStart = None, pt_rangeEnd = None\<rparr>"

section \<open>Building expressions\<close>

definition is_numeric_literal :: "jsstring \<Rightarrow> bool" where
  "is_numeric_literal s \<longleftrightarrow> rx_test NUMERIC_LITERAL_REGEX s"

definition buildExprLiteral :: "jsstring \<Rightarrow> jsstring \<Rightarrow> jsstring" where
  "buildExprLiteral mode value =
     (let text = js_trim value in
      if mode = MATCH_CONTAINS then json_stringify (JStr text)
      else if text = ''true'' \<or> text = ''false'' then text
      else if is_numeric_literal text then text
      else json_stringify (JStr text))"

definition time_mode_op :: "jsstring \<Rightarrow> jsstring" where
  "time_mode_op mode =
     (case map_of [(MATCH_EQ, ''==''), (MATCH_GTE, ''>=''), (MATCH_LT, ''<'')] mode of
        Some op \<Rightarrow> op | None \<Rightarrow> ''=='')"

definition buildTimeConditionExpr :: "time_condition \<Rightarrow> jsstring" where
  "buildTimeConditionExpr cond =
     (case normalizeCondition (as_partial (TimeCondition cond)) of
        ParamHeaderCondition _ \<Rightarrow> []
      | TimeCondition normalized \<Rightarrow>
          (let fn = tc_timeFunc normalized @ ''('' @ json_stringify (JStr (tc_timezone normalized)) @ '')'' in
           if tc_mode normalized = MATCH_RANGE then
             (let s = js_trim (tc_rangeStart normalized); e = js_trim (tc_rangeEnd normalized) in
              if \<not> is_numeric_literal s \<or> \<not> is_numeric_literal e then []
              else fn @ '' >= '' @ s @ '' || '' @ fn @ '' < '' @ e)
           else
             (let v = js_trim (tc_value normalized) in
              if \<not> is_numeric_literal v then []
              else fn @ '' '' @ time_mode_op (tc_mode normalized) @ '' '' @ v)))"

definition param_mode_op :: "jsstring \<Rightarrow> jsstring" where
  "param_mode_op mode =
     (case map_of [(MATCH_GT, ''>''), (MATCH_GTE, ''>=''), (MATCH_LT, ''<''), (MATCH_LTE, ''<='')] mode of
        Some op \<Rightarrow> op | None \<Rightarrow> [])"

definition buildRequestConditionExpr :: "request_condition \<Rightarrow> jsstring" where
  "buildRequestConditionExpr cond =
     (case cond of
        TimeCondition t \<Rightarrow> buildTimeConditionExpr t
      | ParamHeaderCondition _ \<Rightarrow>
          (case normalizeCondition (as_partial cond) of
             TimeCondition _ \<Rightarrow> []
           | ParamHeaderCondition normalized \<Rightarrow>
               (let path = js_trim (pc_path normalized);
                    isHeader = (pc_source normalized = ''header'');
                    sourceExpr = (if isHeader then ''header('' @ json_stringify (JStr path) @ '')''
                                  else ''param('' @ json_stringify (JStr path) @ '')'');
                    mode = pc_mode normalized in
                if path = [] then []
                else if mode = MATCH_EXISTS then
                  (if isHeader then sourceExpr @ '' != \"\"'' else sourceExpr @ '' != nil'')
                else if mode = MATCH_CONTAINS then
                  (if isHeader
                   then ''has('' @ sourceExpr @ '', '' @ buildExprLiteral mode (pc_value normalized) @ '')''
                   else sourceExpr @ '' != nil && has('' @ sourceExpr @ '', '' @
                          buildExprLiteral mode (pc_value normalized) @ '')'')
                else if mode \<in> {MATCH_GT, MATCH_GTE, MATCH_LT, MATCH_LTE} then
                  (let numText = js_trim (pc_value normalized) in
                   if \<not> is_numeric_literal numText then []
                   else sourceExpr @ '' != nil && '' @ sourceExpr @ '' '' @ param_mode_op mode @
                          '' '' @ numText)
                else sourceExpr @ '' == '' @ buildExprLiteral mode (pc_value normalized))))"

definition buildRuleGroupFactor :: "request_rule_group \<Rightarrow> jsstring" where
  "buildRuleGroupFactor grp =
     (let multiplier = js_trim (rg_multiplier grp) in
      if \<not> is_numeric_literal multiplier then []
      else (let condExprs = filter (\<lambda>e. e \<noteq> []) (map buildRequestConditionExpr (rg_conditions grp)) in
            if condExprs = [] then []
            else (let combined =
                    (if length condExprs = 1 then hd condExprs
                     else js_join '' && ''
                            (map (\<lambda>e. if js_includes e '' || '' then ''('' @ e @ '')'' else e) condExprs)) in
                  ''('' @ combined @ '' ? '' @ multiplier @ '' : 1)'')))"

definition buildRequestRuleExpr :: "request_rule_group list \<Rightarrow> jsstring" where
  "buildRequestRuleExpr groups =
     js_join '' * '' (filter (\<lambda>f. f \<noteq> []) (map buildRuleGroupFactor groups))"

end
