(* ===== verification/RequestRuleProofs.thy ===== *)
theory RequestRuleProofs
  imports RequestRules
begin

text \<open>
  Correctness of the request rule editor: printing and parsing are inverse on the rules the parser
  supports, splitting and combining of billing expressions are inverse, and the cases in which the
  printed text is not read back.

  The two scanning loops share the locale \<open>splitter\<close>, interpreted for the separators \<open>*\<close> and
  \<open>&&\<close>. The regular expressions are evaluated symbolically with the lemmas of \<open>JsRegex\<close>.
\<close>

section \<open>Balanced texts\<close>

text \<open>Scanning a text from depth \<open>d\<close> never goes below zero and ends at zero.\<close>

fun balanced :: "int \<Rightarrow> jsstring \<Rightarrow> bool" where
  "balanced d [] \<longleftrightarrow> d = 0"
| "balanced d (c # s) \<longleftrightarrow> 0 \<le> d + paren_depth c \<and> balanced (d + paren_depth c) s"

definition paren_free :: "jsstring \<Rightarrow> bool" where
  "paren_free s \<longleftrightarrow> CHR ''('' \<notin> set s \<and> CHR '')'' \<notin> set s"

lemma paren_free_Cons [simp]:
  "paren_free (c # s) \<longleftrightarrow> c \<noteq> CHR ''('' \<and> c \<noteq> CHR '')'' \<and> paren_free s"
  by (auto simp: paren_free_def)

lemma paren_free_simps [simp]: "paren_free []" "paren_free (a @ b) \<longleftrightarrow> paren_free a \<and> paren_free b"
  by (auto simp: paren_free_def)

lemma paren_depth_simps [simp]:
  "paren_depth (CHR ''('') = 1" "paren_depth (CHR '')'') = - 1"
  "c \<noteq> CHR ''('' \<Longrightarrow> c \<noteq> CHR '')'' \<Longrightarrow> paren_depth c = 0"
  by (simp_all add: paren_depth_def)

lemma balanced_free_append [simp]: "paren_free x \<Longrightarrow> 0 \<le> d \<Longrightarrow> balanced d (x @ y) = balanced d y"
  by (induction x) auto

lemma balanced_free [simp]: "paren_free x \<Longrightarrow> balanced 0 x"
  using balanced_free_append [of x 0 "[]"] by simp

lemma balanced_append: "balanced e x \<Longrightarrow> 0 \<le> d \<Longrightarrow> balanced (d + e) (x @ y) = balanced d y"
proof (induction x arbitrary: e)
  case (Cons c x)
  then have "balanced (d + (e + paren_depth c)) (x @ y) = balanced d y" by simp
  with Cons.prems show ?case by (simp add: add.assoc)
qed simp

lemma balanced_append0: "balanced 0 x \<Longrightarrow> 0 \<le> d \<Longrightarrow> balanced d (x @ y) = balanced d y"
  using balanced_append [of 0 x d y] by simp

section \<open>The splitting loops\<close>

text \<open>No separator starts at depth zero, and the depth ends at zero.\<close>

fun closed :: "jsstring \<Rightarrow> int \<Rightarrow> jsstring \<Rightarrow> bool" where
  "closed sep d [] \<longleftrightarrow> d = 0"
| "closed sep d (c # s) \<longleftrightarrow>
     \<not> (d + paren_depth c = 0 \<and> take (length sep) (c # s) = sep) \<and> closed sep (d + paren_depth c) s"

definition split_part :: "jsstring \<Rightarrow> jsstring \<Rightarrow> bool" where
  "split_part sep x \<longleftrightarrow> x \<noteq> [] \<and> trimmed x \<and> last x \<notin> set sep \<and> closed sep 0 x"

lemma take_eq_prefix: "take (length sep) s = sep \<longleftrightarrow> (\<exists>t. s = sep @ t)"
  by (metis append_eq_conv_conj append_take_drop_id)

locale splitter =
  fixes sep :: jsstring
  assumes sep_nonempty: "sep \<noteq> []" and sep_free: "paren_free sep"
begin

lemma no_straddle:
  assumes "x \<noteq> []" "last x \<notin> set sep" "take (length sep) (x @ sep @ rest) = sep"
  shows "take (length sep) x = sep"
proof (rule ccontr)
  assume neq: "take (length sep) x \<noteq> sep"
  from assms(3) obtain t where t: "x @ sep @ rest = sep @ t" by (metis take_eq_prefix)
  then obtain us where "(x = sep @ us) \<or> (x @ us = sep)"
    by (auto simp: append_eq_append_conv2)
  with neq have "x @ us = sep" by auto
  then have "set x \<subseteq> set sep" by auto
  with assms(1,2) show False using last_in_set by blast
qed

lemma split_at_sep: "split_top sep 0 cur (sep @ rest) = js_trim cur # split_top sep 0 [] rest"
proof -
  obtain c s where s: "sep = c # s" using sep_nonempty by (cases sep) auto
  then have "paren_depth c = 0" using sep_free by simp
  with s show ?thesis by simp
qed

lemma split_step:
  assumes "closed sep d x" "x = [] \<or> last x \<notin> set sep"
  shows "split_top sep d cur (x @ sep @ rest) = js_trim (cur @ x) # split_top sep 0 [] rest"
  using assms
proof (induction x arbitrary: d cur)
  case Nil
  then show ?case by (simp add: split_at_sep)
next
  case (Cons c x)
  let ?d = "d + paren_depth c"
  have "\<not> (?d = 0 \<and> take (length sep) ((c # x) @ sep @ rest) = sep)"
    using Cons.prems no_straddle [of "c # x" rest] by auto
  then have "split_top sep d cur ((c # x) @ sep @ rest) = split_top sep ?d (cur @ [c]) (x @ sep @ rest)"
    by (auto simp: Let_def)
  also have "\<dots> = js_trim ((cur @ [c]) @ x) # split_top sep 0 [] rest"
    by (rule Cons.IH) (use Cons.prems in \<open>auto split: if_splits\<close>)
  finally show ?case by simp
qed

lemma split_end: "closed sep d x \<Longrightarrow> split_top sep d cur x = [js_trim (cur @ x)]"
  by (induction x arbitrary: d cur) (auto simp: Let_def)

theorem split_join:
  assumes "list_all (split_part sep) xs" "xs \<noteq> []"
  shows "split_top sep 0 [] (js_join sep xs) = xs"
  using assms
proof (induction xs rule: induct_list012)
  case (2 x)
  then show ?case by (simp add: split_end split_part_def js_trim_trimmed)
next
  case (3 x y ys)
  then show ?case by (simp add: split_step split_part_def js_trim_trimmed)
qed simp

lemma filter_split_join:
  assumes "list_all (split_part sep) xs" "xs \<noteq> []"
  shows "filter (\<lambda>p. p \<noteq> []) (split_top sep 0 [] (js_join sep xs)) = xs"
  unfolding split_join [OF assms] using assms(1)
  by (auto simp: list_all_iff split_part_def intro: filter_True)

lemma closed_enclosed: "balanced d x \<Longrightarrow> 0 \<le> d \<Longrightarrow> closed sep (d + 1) (x @ '')'')"
proof (induction x arbitrary: d)
  case Nil
  then show ?case using sep_nonempty sep_free by (cases sep) auto
next
  case (Cons c x)
  then have "closed sep (d + paren_depth c + 1) (x @ '')'')" by auto
  with Cons.prems show ?case by (auto simp: algebra_simps)
qed

text \<open>A balanced text in parentheses is a part.\<close>

lemma enclosed_part: "balanced 0 x \<Longrightarrow> split_part sep (''('' @ x @ '')'')"
proof -
  assume b: "balanced 0 x"
  then have "closed sep 0 (''('' @ x @ '')'')"
    using closed_enclosed [OF b] sep_nonempty sep_free by (cases sep) auto
  moreover have "trimmed (''('' @ x @ '')'')" by (simp add: trimmed_def is_ws_def)
  ultimately show ?thesis using sep_free by (simp add: split_part_def paren_free_def)
qed

text \<open>A balanced text without the second character of the separator is closed.\<close>

lemma closed_without: "balanced d x \<Longrightarrow> m \<in> set sep \<Longrightarrow> m \<notin> set x \<Longrightarrow> closed sep d x"
proof (induction x arbitrary: d)
  case (Cons c x)
  have "take (length sep) (c # x) \<noteq> sep"
    using Cons.prems by (metis in_set_takeD)
  with Cons show ?case by auto
qed simp

end

interpretation mul: splitter "'' * ''"
  by unfold_locales simp_all

interpretation conj: splitter "'' && ''"
  by unfold_locales simp_all

lemma splitTopLevelMultiply_join:
  "list_all (split_part '' * '') xs \<Longrightarrow> xs \<noteq> [] \<Longrightarrow> splitTopLevelMultiply (js_join '' * '' xs) = xs"
  unfolding splitTopLevelMultiply_def by (rule mul.filter_split_join)

lemma splitTopLevelAnd_join:
  "list_all (split_part '' && '') xs \<Longrightarrow> xs \<noteq> [] \<Longrightarrow> splitTopLevelAnd (js_join '' && '' xs) = xs"
  unfolding splitTopLevelAnd_def by (rule conj.filter_split_join)

section \<open>Texts of conditions\<close>

text \<open>Characters that neither end a condition nor nest it.\<close>

definition plain_char :: "char \<Rightarrow> bool" where
  "plain_char c \<longleftrightarrow> c \<noteq> CHR ''('' \<and> c \<noteq> CHR '')'' \<and> c \<noteq> CHR ''&'' \<and> c \<noteq> CHR ''|''"

text \<open>A value, and a path or time zone, which the parser reads between quotes as it stands.\<close>

definition plain_value :: "jsstring \<Rightarrow> bool" where
  "plain_value v \<longleftrightarrow> trimmed v \<and> list_all plain_char v"

definition plain_path :: "jsstring \<Rightarrow> bool" where
  "plain_path s \<longleftrightarrow> s \<noteq> [] \<and> trimmed s \<and>
     list_all (\<lambda>c. plain_char c \<and> c \<noteq> dquote \<and> c \<noteq> backslash \<and> 32 \<le> (of_char c :: nat)) s"

text \<open>The conditions that can be read back.\<close>

fun cond_wf :: "request_condition \<Rightarrow> bool" where
  "cond_wf (TimeCondition t) \<longleftrightarrow>
     isTimeFunc (tc_timeFunc t) \<and> plain_path (tc_timezone t) \<and>
     (if tc_mode t = MATCH_RANGE
      then tc_value t = [] \<and> is_numeric_literal (tc_rangeStart t) \<and> is_numeric_literal (tc_rangeEnd t)
      else tc_mode t \<in> {MATCH_EQ, MATCH_GTE, MATCH_LT} \<and> is_numeric_literal (tc_value t) \<and>
        tc_rangeStart t = [] \<and> tc_rangeEnd t = [])"
| "cond_wf (ParamHeaderCondition h) \<longleftrightarrow>
     pc_source h \<in> {''param'', ''header''} \<and> plain_path (pc_path h) \<and>
     (pc_mode h = MATCH_EXISTS \<and> pc_value h = [] \<or>
      pc_mode h = MATCH_CONTAINS \<and> pc_source h = ''header'' \<and> plain_value (pc_value h) \<or>
      pc_mode h = MATCH_EQ \<and> plain_value (pc_value h))"

definition rule_wf :: "request_rule_group \<Rightarrow> bool" where
  "rule_wf g \<longleftrightarrow> rg_conditions g \<noteq> [] \<and> list_all cond_wf (rg_conditions g) \<and>
     is_numeric_literal (rg_multiplier g)"

lemma is_num_char_marks:
  "is_num_char c \<Longrightarrow> c \<noteq> CHR '' '' \<and> c \<noteq> CHR ''('' \<and> c \<noteq> CHR '')'' \<and> c \<noteq> CHR ''&'' \<and> c \<noteq> CHR ''|'' \<and>
     c \<noteq> dquote \<and> c \<noteq> CHR ''?'' \<and> c \<noteq> CHR 0x0A \<and> c \<noteq> CHR 0x0D \<and> \<not> is_ws c"
  by (auto simp: is_num_char_def is_digit_def is_ws_def)

lemma numeric_over: "rx_over is_num_char numeric_literal_rx"
  by (simp add: numeric_literal_rx_def rplus_def rlit.simps is_num_char_def)

lemma numeric_literal_chars:
  assumes "is_numeric_literal s"
  shows "list_all is_num_char s" "s \<noteq> []" "trimmed s" "js_trim s = s"
proof -
  have "list_all is_num_char s \<and> rx_min numeric_literal_rx \<le> length s"
    using assms numeric_over unfolding is_numeric_literal_def NUMERIC_LITERAL_REGEX_def by (rule rx_test_over)
  moreover have "rx_min numeric_literal_rx = 1" by (simp add: numeric_literal_rx_def rplus_def rlit.simps)
  ultimately show "list_all is_num_char s" "s \<noteq> []" by auto
  then show "trimmed s" by (intro trimmed_no_ws) (auto simp: list_all_iff dest: is_num_char_marks)
  then show "js_trim s = s" by (rule js_trim_trimmed)
qed

lemma escape_plain:
  "c \<noteq> dquote \<Longrightarrow> c \<noteq> backslash \<Longrightarrow> 32 \<le> (of_char c :: nat) \<Longrightarrow> escape_char c = [c]"
  by (auto simp: escape_char_def)

lemma path_quote: "plain_path s \<Longrightarrow> json_quote s = dquote # s @ [dquote]"
proof -
  assume "plain_path s"
  then have "list_all (\<lambda>c. c \<noteq> dquote \<and> c \<noteq> backslash \<and> 32 \<le> (of_char c :: nat)) s"
    by (simp add: plain_path_def list_all_iff)
  then have "concat (map escape_char s) = s"
    by (induction s) (simp_all add: escape_plain)
  then show ?thesis by (simp add: json_quote_def)
qed

section \<open>Reading time conditions\<close>

lemma time_fn_step:
  assumes "fn \<in> set TIME_FUNCS"
  shows "rxm time_fn_rx (p, fn @ t, c) k = k (rev fn @ p, t, c(1 := Some fn))"
proof -
  consider "fn = ''hour''" | "fn = ''minute''" | "fn = ''weekday''" | "fn = ''month''" | "fn = ''day''"
    using assms by (auto simp: TIME_FUNCS_def)
  then show ?thesis
    by cases (simp_all add: time_fn_rx_def TIME_FUNCS_def rx_step split: option.split)
qed

lemma class_marks:
  "is_num_char x \<Longrightarrow> CHR '' '' \<noteq> x" "is_num_char x \<Longrightarrow> CHR '')'' \<noteq> x" "not_quote x \<Longrightarrow> dquote \<noteq> x"
  "\<not> is_num_char (CHR '' '')" "\<not> is_num_char (CHR '')'')" "\<not> not_quote dquote"
  by (auto dest: is_num_char_marks simp: not_quote_def)

lemmas rx_eval = rx_step time_fn_step class_marks rnum_def

lemma time_range_step:
  assumes "fn \<in> set TIME_FUNCS" "list_all not_quote tz" "tz \<noteq> []"
    "list_all is_num_char a" "a \<noteq> []" "list_all is_num_char b" "b \<noteq> []" "\<not> head_is is_num_char t"
    "\<And>p x s c. is_num_char x \<Longrightarrow> k (p, x # s, c) = None"
  shows "\<exists>q. rxm time_range_rx (p, fn @ ''(\"'' @ tz @ ''\") >= '' @ a @ '' || '' @ fn @ ''(\"'' @ tz @
      ''\") < '' @ b @ t, c) k = k (q, t, c(1 := Some fn, 2 := Some tz, 3 := Some a, 4 := Some b))"
  using assms by (simp add: time_range_rx_def rx_eval) blast

text \<open>The text of a time range, bare or in parentheses.\<close>

definition time_range_text :: "jsstring \<Rightarrow> jsstring \<Rightarrow> jsstring \<Rightarrow> jsstring \<Rightarrow> jsstring" where
  "time_range_text fn tz a b =
     fn @ ''(\"'' @ tz @ ''\") >= '' @ a @ '' || '' @ fn @ ''(\"'' @ tz @ ''\") < '' @ b"

lemma parse_time_range:
  assumes "fn \<in> set TIME_FUNCS" "list_all not_quote tz" "tz \<noteq> []"
    "list_all is_num_char a" "a \<noteq> []" "list_all is_num_char b" "b \<noteq> []"
  shows "tryParseTimeCondition (time_range_text fn tz a b) = Some (TimeCondition \<lparr>tc_timeFunc = fn,
      tc_timezone = tz, tc_mode = MATCH_RANGE, tc_value = '''', tc_rangeStart = a, tc_rangeEnd = b\<rparr>)"
    and "tryParseTimeCondition (''('' @ time_range_text fn tz a b @ '')'') = Some (TimeCondition \<lparr>tc_timeFunc = fn,
      tc_timezone = tz, tc_mode = MATCH_RANGE, tc_value = '''', tc_rangeStart = a, tc_rangeEnd = b\<rparr>)"
proof -
  have "\<exists>q. rxm time_range_rx ([], time_range_text fn tz a b, \<lambda>_. None) (\<lambda>st. rxm REol st Some) =
      Some (q, [], (\<lambda>_. None)(1 := Some fn, 2 := Some tz, 3 := Some a, 4 := Some b))"
    using time_range_step [OF assms, of "[]" "\<lambda>st. rxm REol st Some" "[]" "\<lambda>_. None"]
    by (simp add: time_range_text_def rx_eval)
  then show "tryParseTimeCondition (time_range_text fn tz a b) = Some (TimeCondition \<lparr>tc_timeFunc = fn,
      tc_timezone = tz, tc_mode = MATCH_RANGE, tc_value = '''', tc_rangeStart = a, tc_rangeEnd = b\<rparr>)"
    by (auto simp: tryParseTimeCondition_def rx_match_anchored rx_core range_condition_def cap_def)
  let ?k = "\<lambda>st. rxm (RCat (rlit '')'') REol) st Some"
  have no: "rxm time_range_rx ([], CHR ''('' # s, c) k = None" for s c k
    by (simp add: time_range_rx_def time_fn_rx_def TIME_FUNCS_def rx_eval)
  have "\<exists>q. rxm time_range_rx ([CHR ''(''], time_range_text fn tz a b @ '')'', \<lambda>_. None) ?k =
      Some (q, [], (\<lambda>_. None)(1 := Some fn, 2 := Some tz, 3 := Some a, 4 := Some b))"
    using time_range_step [OF assms, of "'')''" ?k "[CHR ''('']" "\<lambda>_. None"]
    by (simp add: time_range_text_def rx_eval) blast
  then show "tryParseTimeCondition (''('' @ time_range_text fn tz a b @ '')'') = Some (TimeCondition \<lparr>tc_timeFunc = fn,
      tc_timezone = tz, tc_mode = MATCH_RANGE, tc_value = '''', tc_rangeStart = a, tc_rangeEnd = b\<rparr>)"
    by (auto simp: tryParseTimeCondition_def rx_match_anchored rx_core rxm_lit range_condition_def cap_def no)
qed

lemma parse_time_compare:
  assumes "fn \<in> set TIME_FUNCS" "list_all not_quote tz" "tz \<noteq> []" "op \<in> {''=='', ''>='', ''<''}"
    "list_all is_num_char v" "v \<noteq> []"
  shows "tryParseTimeCondition (fn @ ''(\"'' @ tz @ ''\") '' @ op @ '' '' @ v) =
    Some (TimeCondition \<lparr>tc_timeFunc = fn, tc_timezone = tz, tc_mode = time_op_mode op, tc_value = v,
      tc_rangeStart = '''', tc_rangeEnd = ''''\<rparr>)"
proof -
  let ?s = "fn @ ''(\"'' @ tz @ ''\") '' @ op @ '' '' @ v"
  have hd: "hd fn \<noteq> CHR ''(''" "fn \<noteq> []" using assms(1) by (auto simp: TIME_FUNCS_def)
  have 1: "rxm time_range_rx ([], ?s, \<lambda>_. None) (\<lambda>st. rxm REol st Some) = None"
    using assms by (auto simp: time_range_rx_def rx_eval)
  have 2: "rxm (rseq [rlit ''('', time_range_rx, rlit '')'', REol]) ([], ?s, \<lambda>_. None) Some = None"
    using hd by (cases fn) (auto simp: rx_eval)
  have 3: "\<exists>q. rxm (rseq (tl [RBol, time_fn_rx, rlit ''(\"'', RCap 2 (rplus (RCls not_quote)), rlit ''\") '',
      RCap 3 (ralts [rlit ''=='', rlit ''>='', rlit ''<'']), rlit '' '', RCap 4 rnum, REol])) ([], ?s, \<lambda>_. None) Some =
      Some (q, [], (\<lambda>_. None)(1 := Some fn, 2 := Some tz, 3 := Some op, 4 := Some v))"
    using assms by (auto simp: rx_eval)
  show ?thesis
    using 1 2 3
    by (auto simp: tryParseTimeCondition_def rx_match_anchored rx_core time_cmp_rx_def cap_def)
qed

section \<open>Reading parameter and header conditions\<close>

lemma not_time:
  "tryParseTimeCondition (''header('' @ s) = None" "tryParseTimeCondition (''param('' @ s) = None"
  "tryParseTimeCondition (''has('' @ s) = None"
  by (simp_all add: tryParseTimeCondition_def rx_match_anchored time_range_rx_def time_cmp_rx_def
      time_fn_rx_def TIME_FUNCS_def rx_eval)

lemmas cond_rxs = header_exists_rx_def param_exists_rx_def header_contains_rx_def param_contains_rx_def
  param_compare_rx_def equals_rx_def path_rx_def

lemma parse_header_exists:
  assumes "list_all not_quote s" "s \<noteq> []"
  shows "tryParseRequestCondition (''header(\"'' @ s @ ''\") != \"\"'') = Inr (Some (ParamHeaderCondition
    \<lparr>pc_source = ''header'', pc_path = s, pc_mode = MATCH_EXISTS, pc_value = ''''\<rparr>))"
  using assms not_time(1) [of "dquote # s @ ''\") != \"\"''"]
  by (simp add: tryParseRequestCondition_def cond_rxs rx_match_anchored rx_eval cap_def)

lemma parse_param_exists:
  assumes "list_all not_quote s" "s \<noteq> []"
  shows "tryParseRequestCondition (''param(\"'' @ s @ ''\") != nil'') = Inr (Some (ParamHeaderCondition
    \<lparr>pc_source = ''param'', pc_path = s, pc_mode = MATCH_EXISTS, pc_value = ''''\<rparr>))"
  using assms not_time(2) [of "dquote # s @ ''\") != nil''"]
  by (simp add: tryParseRequestCondition_def cond_rxs rx_match_anchored rx_eval cap_def)

text \<open>The inside of a quoted text: plain characters and escaped ones.\<close>

fun quoted_body :: "jsstring \<Rightarrow> bool" where
  "quoted_body [] \<longleftrightarrow> True"
| "quoted_body [x] \<longleftrightarrow> x \<noteq> backslash \<and> x \<noteq> dquote"
| "quoted_body (x # y # s) \<longleftrightarrow>
     (if x = backslash then is_dot y \<and> quoted_body s else x \<noteq> dquote \<and> quoted_body (y # s))"

lemma quoted_body_append: "quoted_body a \<Longrightarrow> quoted_body b \<Longrightarrow> quoted_body (a @ b)"
proof (induction a rule: quoted_body.induct)
  case (2 x)
  then show ?case by (cases b) auto
qed auto

lemma hex_digit_word: "n < 16 \<Longrightarrow> is_word (hex_digit n)"
proof -
  assume "n < 16"
  then have "n \<in> set [0..<16]" by simp
  then show ?thesis by (auto simp: upt_rec hex_digit_def is_word_def is_digit_def less_eq_char_def)
qed

lemma is_word_marks: "is_word x \<Longrightarrow> x \<noteq> dquote \<and> x \<noteq> backslash \<and> plain_char x \<and> is_dot x"
  by (auto simp: is_word_def is_digit_def less_eq_char_def plain_char_def is_dot_def)

lemma escape_char_cases:
  obtains (same) "escape_char c = [c]" "c \<noteq> dquote" "c \<noteq> backslash" "is_dot c"
  | (short) y where "escape_char c = [backslash, y]" "y = c \<and> is_dot y \<or> is_word y"
  | (long) y z where "escape_char c = [backslash, CHR ''u'', CHR ''0'', CHR ''0'', y, z]" "is_word y" "is_word z"
proof -
  have w: "is_word (CHR ''b'')" "is_word (CHR ''f'')" "is_word (CHR ''n'')" "is_word (CHR ''r'')" "is_word (CHR ''t'')"
    by (simp_all add: is_word_def less_eq_char_def)
  consider "c = dquote \<or> c = backslash" | "c \<in> {CHR 0x08, CHR 0x0C, CHR 0x0A, CHR 0x0D, CHR 0x09}"
    | "c \<noteq> dquote" "c \<noteq> backslash" "c \<notin> {CHR 0x08, CHR 0x0C, CHR 0x0A, CHR 0x0D, CHR 0x09}"
      "(of_char c :: nat) < 32"
    | "c \<noteq> dquote" "c \<noteq> backslash" "c \<notin> {CHR 0x08, CHR 0x0C, CHR 0x0A, CHR 0x0D, CHR 0x09}"
      "\<not> (of_char c :: nat) < 32" by blast
  then show ?thesis
  proof cases
    case 1
    then show ?thesis using short [of c] by (auto simp: escape_char_def is_dot_def)
  next
    case 2
    then show ?thesis using short w by (auto simp: escape_char_def)
  next
    case 3
    then have "is_word (hex_digit (of_char c div 16))" "is_word (hex_digit (of_char c mod 16))"
      by (simp_all add: hex_digit_word)
    with 3 show ?thesis using long by (simp add: escape_char_def)
  next
    case 4
    then show ?thesis using same by (simp add: escape_char_def is_dot_def)
  qed
qed

lemma escape_char_body: "quoted_body (escape_char c)"
  by (rule escape_char_cases [of c]) (auto simp: is_dot_def dest: is_word_marks)

lemma quoted_body_escape: "quoted_body (concat (map escape_char s))"
  by (induction s) (simp_all add: quoted_body_append escape_char_body)

lemma escape_char_set: "x \<in> set (escape_char c) \<Longrightarrow> x = c \<and> is_dot x \<or> x = backslash \<or> is_word x"
proof (rule escape_char_cases [of c])
  fix y z
  assume "x \<in> set (escape_char c)" "is_word y" "is_word z"
    "escape_char c = [backslash, CHR ''u'', CHR ''0'', CHR ''0'', y, z]"
  moreover have "is_word (CHR ''u'')" "is_word (CHR ''0'')"
    by (simp_all add: is_word_def less_eq_char_def)
  ultimately show ?thesis by auto
qed auto

lemma cap_quoted:
  assumes "quoted_body b"
    and "k (dquote # rev b @ dquote # p, t, c(n := Some (dquote # b @ [dquote]))) = Some r"
  shows "rxm (RCap n quoted_rx) (p, dquote # b @ dquote # t, c) k = Some r"
proof -
  let ?unit = "RAlt (RCls (\<lambda>c. c \<noteq> CHR 0x22 \<and> c \<noteq> CHR 0x5C)) (RCat (rlit [CHR 0x5C]) (RCls is_dot))"
  have star: "rxm (RStar ?unit) (q, b @ dquote # t, c) k' = Some r"
    if "k' (rev b @ q, dquote # t, c) = Some r" for q k'
    using assms(1) that
  proof (induction b arbitrary: q rule: quoted_body.induct)
    case 1
    then show ?case by (subst rxm.simps) (simp add: rx_eval)
  next
    case (2 x)
    have "rxm (RStar ?unit) (x # q, dquote # t, c) k' = Some r"
      using 2 by (subst rxm.simps) (simp add: rx_eval)
    with 2 show ?case by (subst rxm.simps) (simp add: rx_eval)
  next
    case (3 x y s)
    then show ?case by (subst rxm.simps) (auto simp: rx_eval split: if_splits)
  qed
  show ?thesis
    unfolding rxm_cap quoted_rx_def by (simp add: rx_eval, rule star) (use assms(2) in \<open>simp add: rx_eval\<close>)
qed

lemma parse_header_contains:
  assumes "list_all not_quote s" "s \<noteq> []"
  shows "tryParseRequestCondition (''has(header(\"'' @ s @ ''\"), '' @ json_quote v @ '')'') =
    Inr (Some (ParamHeaderCondition
      \<lparr>pc_source = ''header'', pc_path = s, pc_mode = MATCH_CONTAINS, pc_value = v\<rparr>))"
proof -
  let ?s = "''has(header(\"'' @ s @ ''\"), '' @ json_quote v @ '')''"
  have no: "tryParseTimeCondition ?s = None" "rx_match header_exists_rx ?s = None"
    "rx_match param_exists_rx ?s = None"
    using not_time(3) [of "''header(\"'' @ s @ ''\"), '' @ json_quote v @ '')''"]
    by (simp_all add: cond_rxs rx_match_anchored rx_eval)
  have "\<exists>q. rxm (rseq (tl [RBol, rlit ''has(header(\"'', path_rx 1, rlit ''\"), '', RCap 2 quoted_rx,
      rlit '')'', REol])) ([], ?s, \<lambda>_. None) Some =
      Some (q, [], (\<lambda>_. None)(1 := Some s, 2 := Some (json_quote v)))"
    using assms
    by (simp add: path_rx_def json_quote_def rx_eval)
      (rule exI, rule cap_quoted, rule quoted_body_escape, simp add: rx_eval)
  then have "map_option (\<lambda>m. (cap m 1, cap m 2)) (rx_match header_contains_rx ?s) = Some (s, json_quote v)"
    by (auto simp: header_contains_rx_def rx_match_anchored cap_def)
  moreover have "json_parse (json_quote v) = Some (JStr v)"
    using json.decode_encode [of "JStr v"] by simp
  ultimately show ?thesis
    unfolding tryParseRequestCondition_def no by (auto simp: contains_condition_def)
qed

lemma parse_equals_text:
  assumes "list_all not_quote s" "s \<noteq> []" "src = ''param'' \<or> src = ''header''" "list_all is_dot l" "l \<noteq> []"
  shows "tryParseRequestCondition (src @ ''(\"'' @ s @ ''\") == '' @ l) =
    Inr (case parseExprLiteral l of
           None \<Rightarrow> None
         | Some v \<Rightarrow> Some (ParamHeaderCondition
             \<lparr>pc_source = src, pc_path = s, pc_mode = MATCH_EQ, pc_value = js_to_string v\<rparr>))"
proof -
  let ?s = "src @ ''(\"'' @ s @ ''\") == '' @ l"
  have no: "tryParseTimeCondition ?s = None" "rx_match header_exists_rx ?s = None"
    "rx_match param_exists_rx ?s = None" "rx_match header_contains_rx ?s = None"
    "rx_match param_contains_rx ?s = None" "rx_match param_compare_rx ?s = None"
    using not_time(1,2) [of "dquote # s @ ''\") == '' @ l"] assms
    by (auto simp: cond_rxs rx_match_anchored rx_eval)
  have "\<exists>q. rxm (rseq (tl [RBol, RCap 1 (RAlt (rlit ''param'') (rlit ''header'')), rlit ''(\"'', path_rx 2,
     rlit ''\") == '', RCap 3 (rplus (RCls is_dot)), REol])) ([], ?s, \<lambda>_. None) Some =
     Some (q, [], (\<lambda>_. None)(1 := Some src, 2 := Some s, 3 := Some l))"
    using assms by (auto simp: path_rx_def rx_eval)
  then obtain m where "rx_match equals_rx ?s = Some m" "cap m 1 = src" "cap m 2 = s" "cap m 3 = l"
    by (auto simp: equals_rx_def rx_match_anchored cap_def)
  then show ?thesis
    unfolding tryParseRequestCondition_def no parse_param_guarded_def parse_compare_def parse_equals_def
    by (simp split: option.split)
qed

text \<open>A literal reads back as the value it was built from.\<close>

lemma numeric_not_quote: "is_numeric_literal (dquote # s) = False"
  using numeric_literal_chars(1) [of "dquote # s"] is_num_char_marks [of dquote] by auto

lemma trimmed_json_quote: "trimmed (json_quote v)"
  by (simp add: trimmed_def json_quote_def is_ws_def)

lemma parse_literal:
  assumes "trimmed v"
  shows "parseExprLiteral (buildExprLiteral MATCH_EQ v) = Some (JStr v)"
proof (cases "v = ''true'' \<or> v = ''false'' \<or> is_numeric_literal v")
  case True
  with assms show ?thesis
    by (auto simp: parseExprLiteral_def buildExprLiteral_def match_defs js_trim_trimmed is_numeric_literal_def)
next
  case False
  then have "buildExprLiteral MATCH_EQ v = json_quote v"
    using assms by (simp add: buildExprLiteral_def match_defs js_trim_trimmed)
  moreover have "parseExprLiteral (json_quote v) = Some (JStr v)"
    using json.decode_encode [of "JStr v"] numeric_not_quote [of "concat (map escape_char v) @ [dquote]"]
    by (simp add: parseExprLiteral_def js_trim_trimmed trimmed_json_quote is_numeric_literal_def Let_def)
      (simp add: json_quote_def)
  ultimately show ?thesis by simp
qed

lemma escape_char_dots: "x \<in> set (escape_char c) \<Longrightarrow> x \<noteq> CHR 0x0A \<and> x \<noteq> CHR 0x0D"
  using escape_char_set [of x c] is_word_marks [of x] by (auto simp: is_dot_def)

lemma literal_dots: "trimmed v \<Longrightarrow> list_all is_dot (buildExprLiteral MATCH_EQ v) \<and> buildExprLiteral MATCH_EQ v \<noteq> []"
proof -
  assume v: "trimmed v"
  have q: "list_all is_dot (json_quote v)" "json_quote v \<noteq> []"
    using escape_char_dots by (auto simp: json_quote_def list_all_iff is_dot_def)
  have "is_numeric_literal v \<Longrightarrow> list_all is_dot v \<and> v \<noteq> []"
    using numeric_literal_chars [of v] by (auto simp: list_all_iff is_dot_def dest: is_num_char_marks)
  with q v show ?thesis
    by (auto simp: buildExprLiteral_def match_defs js_trim_trimmed is_dot_def)
qed

section \<open>Conditions\<close>

text \<open>The text of a well-formed condition.\<close>

fun is_range :: "request_condition \<Rightarrow> bool" where
  "is_range (TimeCondition t) \<longleftrightarrow> tc_mode t = MATCH_RANGE"
| "is_range (ParamHeaderCondition h) \<longleftrightarrow> False"

fun cond_text :: "request_condition \<Rightarrow> jsstring" where
  "cond_text (TimeCondition t) =
     (if tc_mode t = MATCH_RANGE
      then time_range_text (tc_timeFunc t) (tc_timezone t) (tc_rangeStart t) (tc_rangeEnd t)
      else tc_timeFunc t @ ''(\"'' @ tc_timezone t @ ''\") '' @ time_mode_op (tc_mode t) @ '' '' @ tc_value t)"
| "cond_text (ParamHeaderCondition h) =
     (if pc_mode h = MATCH_CONTAINS
      then ''has(header(\"'' @ pc_path h @ ''\"), '' @ json_quote (pc_value h) @ '')''
      else pc_source h @ ''(\"'' @ pc_path h @
        (if pc_mode h = MATCH_EXISTS then (if pc_source h = ''header'' then ''\") != \"\"'' else ''\") != nil'')
         else ''\") == '' @ buildExprLiteral MATCH_EQ (pc_value h)))"

lemma plain_path_trim: "plain_path s \<Longrightarrow> js_trim s = s \<and> s \<noteq> []"
  by (simp add: plain_path_def js_trim_trimmed)

lemma plain_path_quote: "plain_path s \<Longrightarrow> list_all not_quote s"
  by (auto simp: plain_path_def list_all_iff not_quote_def)

lemma build_cond: "cond_wf c \<Longrightarrow> buildRequestConditionExpr c = cond_text c"
proof (cases c)
  case (TimeCondition t)
  assume "cond_wf c"
  then show ?thesis
    using TimeCondition numeric_literal_chars(4) plain_path_trim path_quote
    by (auto simp: buildRequestConditionExpr_def buildTimeConditionExpr_def normalizeCondition_def choose_mode_def
        getRequestRuleMatchOptions_def text_or_empty_def time_range_text_def Let_def match_defs)
next
  case (ParamHeaderCondition h)
  assume "cond_wf c"
  then show ?thesis
    using ParamHeaderCondition plain_path_trim path_quote
    by (auto simp: buildRequestConditionExpr_def normalizeCondition_def choose_mode_def
        getRequestRuleMatchOptions_def text_or_empty_def Let_def match_defs plain_value_def
        buildExprLiteral_def [of "''contains''"] js_trim_trimmed)
qed

lemma time_mode_roundtrip:
  "m \<in> {MATCH_EQ, MATCH_GTE, MATCH_LT} \<Longrightarrow> time_op_mode (time_mode_op m) = m \<and>
     time_mode_op m \<in> {''=='', ''>='', ''<''}"
  by (auto simp: time_op_mode_def time_mode_op_def match_defs)

lemma parse_cond: "cond_wf c \<Longrightarrow> tryParseRequestCondition (cond_text c) = Inr (Some c)"
proof (cases c)
  case (TimeCondition t)
  assume wf: "cond_wf c"
  then have tz: "isTimeFunc (tc_timeFunc t)" "list_all not_quote (tc_timezone t)" "tc_timezone t \<noteq> []"
    using TimeCondition plain_path_quote plain_path_trim by auto
  show ?thesis
  proof (cases "tc_mode t = MATCH_RANGE")
    case True
    with wf TimeCondition tz show ?thesis
      using numeric_literal_chars by (simp add: tryParseRequestCondition_def parse_time_range isTimeFunc_def)
  next
    case False
    with wf TimeCondition tz show ?thesis
      using numeric_literal_chars time_mode_roundtrip [of "tc_mode t"]
        parse_time_compare [of "tc_timeFunc t" "tc_timezone t" "time_mode_op (tc_mode t)" "tc_value t"]
      by (simp add: tryParseRequestCondition_def isTimeFunc_def)
  qed
next
  case (ParamHeaderCondition h)
  assume wf: "cond_wf c"
  then have s: "list_all not_quote (pc_path h)" "pc_path h \<noteq> []" "pc_source h = ''param'' \<or> pc_source h = ''header''"
    using ParamHeaderCondition plain_path_quote plain_path_trim by auto
  consider "pc_mode h = MATCH_EXISTS" "pc_value h = []"
    | "pc_mode h = MATCH_CONTAINS" "pc_source h = ''header''" "trimmed (pc_value h)"
    | "pc_mode h = MATCH_EQ" "trimmed (pc_value h)"
    using wf ParamHeaderCondition by (auto simp: plain_value_def)
  then show ?thesis
  proof cases
    case 1
    then show ?thesis
      using s parse_header_exists parse_param_exists by (auto simp: ParamHeaderCondition match_defs)
  next
    case 2
    then show ?thesis
      using s parse_header_contains by (auto simp: ParamHeaderCondition match_defs)
  next
    case 3
    then show ?thesis
      using parse_equals_text [OF s, of "buildExprLiteral MATCH_EQ (pc_value h)"] literal_dots parse_literal
      by (simp add: ParamHeaderCondition match_defs)
  qed
qed

text \<open>A condition text is a part for the separator \<open>&&\<close> and is balanced.\<close>

definition cond_shape :: "jsstring \<Rightarrow> bool" where
  "cond_shape s \<longleftrightarrow> s \<noteq> [] \<and> trimmed s \<and> balanced 0 s \<and> CHR ''&'' \<notin> set s"

lemma cond_shape_part: "cond_shape s \<Longrightarrow> split_part '' && '' s"
proof -
  assume s: "cond_shape s"
  then have "\<not> is_ws (last s)" by (auto simp: cond_shape_def trimmed_def)
  then have "last s \<noteq> CHR '' ''" by (auto simp: is_ws_def)
  moreover have "closed '' && '' 0 s"
    using s conj.closed_without [of 0 s "CHR ''&''"] by (simp add: cond_shape_def)
  moreover have "last s \<noteq> CHR ''&''" using s by (metis cond_shape_def last_in_set)
  ultimately show ?thesis using s by (simp add: split_part_def cond_shape_def)
qed

lemma plain_free: "list_all plain_char s \<Longrightarrow> paren_free s \<and> CHR ''&'' \<notin> set s \<and> CHR ''|'' \<notin> set s"
  by (auto simp: plain_char_def paren_free_def list_all_iff)

lemma plain_path_free: "plain_path s \<Longrightarrow> paren_free s \<and> CHR ''&'' \<notin> set s \<and> CHR ''|'' \<notin> set s"
  by (rule plain_free) (simp add: plain_path_def list_all_iff)

lemma numeric_free:
  "is_numeric_literal s \<Longrightarrow> paren_free s \<and> CHR ''&'' \<notin> set s \<and> CHR ''|'' \<notin> set s \<and> s \<noteq> [] \<and> \<not> is_ws (last s)"
proof -
  assume n: "is_numeric_literal s"
  note c = numeric_literal_chars [OF n]
  then have "list_all plain_char s" by (auto simp: list_all_iff plain_char_def dest: is_num_char_marks)
  moreover from c have "is_num_char (last s)" by (simp add: list_all_iff)
  ultimately show ?thesis using plain_free [of s] c is_num_char_marks [of "last s"] by auto
qed

lemma quote_free:
  "list_all plain_char v \<Longrightarrow> paren_free (json_quote v) \<and> CHR ''&'' \<notin> set (json_quote v) \<and> CHR ''|'' \<notin> set (json_quote v)"
proof (rule plain_free)
  assume v: "list_all plain_char v"
  have "plain_char backslash" "plain_char dquote" by (simp_all add: plain_char_def)
  moreover have "plain_char x" if "x \<in> set (escape_char y)" "y \<in> set v" for x y
    using escape_char_set [OF that(1)] v that(2) is_word_marks [of x] \<open>plain_char backslash\<close>
    by (auto simp: list_all_iff)
  ultimately show "list_all plain_char (json_quote v)"
    by (auto simp: json_quote_def list_all_iff)
qed

lemma literal_free:
  assumes "plain_value v"
  shows "paren_free (buildExprLiteral MATCH_EQ v) \<and> CHR ''&'' \<notin> set (buildExprLiteral MATCH_EQ v) \<and>
    CHR ''|'' \<notin> set (buildExprLiteral MATCH_EQ v) \<and> \<not> is_ws (last (buildExprLiteral MATCH_EQ v))"
proof -
  have v: "js_trim v = v" "list_all plain_char v" using assms by (auto simp: plain_value_def js_trim_trimmed)
  have "\<not> is_ws (last (json_quote v))" by (simp add: json_quote_def is_ws_def)
  moreover have "\<not> is_ws (CHR ''e'')" by (simp add: is_ws_def)
  ultimately show ?thesis
    using v numeric_free [of v] quote_free [of v] by (simp add: buildExprLiteral_def match_defs)
qed

lemma time_func_free:
  "isTimeFunc f \<Longrightarrow> f \<noteq> [] \<and> paren_free f \<and> CHR ''&'' \<notin> set f \<and> CHR ''|'' \<notin> set f \<and> \<not> is_ws (hd f)"
  by (auto simp: isTimeFunc_def TIME_FUNCS_def is_ws_def)

lemma time_op_free:
  "paren_free (time_mode_op m) \<and> CHR ''&'' \<notin> set (time_mode_op m) \<and> CHR ''|'' \<notin> set (time_mode_op m)"
  by (auto simp: time_mode_op_def match_defs)

lemma cond_text_shape: "cond_wf c \<Longrightarrow> cond_shape (cond_text c)"
proof (cases c)
  case (TimeCondition t)
  assume wf: "cond_wf c"
  then show ?thesis
    using TimeCondition time_func_free [of "tc_timeFunc t"] plain_path_free [of "tc_timezone t"]
      numeric_free [of "tc_rangeStart t"] numeric_free [of "tc_rangeEnd t"] numeric_free [of "tc_value t"]
      time_op_free [of "tc_mode t"]
    by (auto simp: cond_shape_def trimmed_def time_range_text_def)
next
  case (ParamHeaderCondition h)
  assume wf: "cond_wf c"
  then have p: "paren_free (pc_path h)" "CHR ''&'' \<notin> set (pc_path h)"
    using ParamHeaderCondition plain_path_free by auto
  show ?thesis
    using wf p ParamHeaderCondition literal_free [of "pc_value h"] quote_free [of "pc_value h"]
      literal_dots [of "pc_value h"]
    by (auto simp: cond_shape_def trimmed_def match_defs is_ws_def plain_value_def)
qed

lemma includes_middle: "js_includes (a @ l @ b) l"
proof -
  have "l @ b \<in> set (suffixes (a @ l @ b))" by (simp add: suffix_def)
  then show ?thesis unfolding js_includes_def list_ex_iff by (intro bexI [of _ "l @ b"]) simp_all
qed

lemma includes_absent: "x \<in> set l \<Longrightarrow> x \<notin> set s \<Longrightarrow> \<not> js_includes s l"
  unfolding js_includes_def list_ex_iff
  by (metis in_set_suffixes in_set_takeD set_mono_suffix subsetD)

lemma cond_includes: "cond_wf c \<Longrightarrow> js_includes (cond_text c) '' || '' \<longleftrightarrow> is_range c"
proof (cases c)
  case (TimeCondition t)
  assume wf: "cond_wf c"
  show ?thesis
  proof (cases "tc_mode t = MATCH_RANGE")
    case True
    let ?f = "tc_timeFunc t @ ''(\"'' @ tc_timezone t @ ''\")''"
    have "cond_text c = (?f @ '' >= '' @ tc_rangeStart t) @ '' || '' @ ?f @ '' < '' @ tc_rangeEnd t"
      using True TimeCondition by (simp add: time_range_text_def)
    then show ?thesis using True TimeCondition by (simp only: includes_middle) simp
  next
    case False
    then have "CHR ''|'' \<notin> set (cond_text c)"
      using wf TimeCondition time_func_free [of "tc_timeFunc t"] plain_path_free [of "tc_timezone t"]
        numeric_free [of "tc_value t"] time_op_free [of "tc_mode t"] by auto
    then have "\<not> js_includes (cond_text c) '' || ''" by (intro includes_absent [of "CHR ''|''"]) simp_all
    with False TimeCondition show ?thesis by simp
  qed
next
  case (ParamHeaderCondition h)
  assume wf: "cond_wf c"
  then have "CHR ''|'' \<notin> set (cond_text c)"
    using ParamHeaderCondition plain_path_free [of "pc_path h"] literal_free [of "pc_value h"]
      quote_free [of "pc_value h"] by (auto simp: plain_value_def)
  then have "\<not> js_includes (cond_text c) '' || ''" by (intro includes_absent [of "CHR ''|''"]) simp_all
  then show ?thesis by (simp add: ParamHeaderCondition)
qed

section \<open>Rule groups\<close>

text \<open>The conditions of a group as they are joined: a range is put in parentheses unless it is alone.\<close>

definition cond_part :: "bool \<Rightarrow> request_condition \<Rightarrow> jsstring" where
  "cond_part wrap c = (if wrap \<and> is_range c then ''('' @ cond_text c @ '')'' else cond_text c)"

definition group_parts :: "request_condition list \<Rightarrow> jsstring list" where
  "group_parts cs = map (cond_part (length cs \<noteq> 1)) cs"

definition group_text :: "request_rule_group \<Rightarrow> jsstring" where
  "group_text g =
     ''('' @ js_join '' && '' (group_parts (rg_conditions g)) @ '' ? '' @ rg_multiplier g @ '' : 1)''"

lemma build_group: "rule_wf g \<Longrightarrow> buildRuleGroupFactor g = group_text g"
proof -
  assume wf: "rule_wf g"
  let ?cs = "rg_conditions g"
  have cs: "?cs \<noteq> []" "\<And>c. c \<in> set ?cs \<Longrightarrow> cond_wf c" "js_trim (rg_multiplier g) = rg_multiplier g"
    using wf numeric_literal_chars(4) by (auto simp: rule_wf_def list_all_iff)
  have "map buildRequestConditionExpr ?cs = map cond_text ?cs"
    using cs(2) by (simp add: build_cond)
  moreover have "filter (\<lambda>e. e \<noteq> []) (map cond_text ?cs) = map cond_text ?cs"
    using cs(2) cond_text_shape by (auto simp: cond_shape_def intro!: filter_True)
  ultimately have exprs: "filter (\<lambda>e. e \<noteq> []) (map buildRequestConditionExpr ?cs) = map cond_text ?cs"
    by (simp only:)
  have wrap: "map (\<lambda>e. if js_includes e '' || '' then ''('' @ e @ '')'' else e) (map cond_text ?cs) =
      map (cond_part True) ?cs"
    using cs(2) by (auto simp: cond_includes cond_part_def)
  have combined: "(if length (map cond_text ?cs) = 1 then hd (map cond_text ?cs) else js_join '' && '' (map (cond_part True) ?cs)) =
      js_join '' && '' (group_parts ?cs)"
    by (cases "length ?cs = 1") (auto simp: group_parts_def cond_part_def length_Suc_conv)
  show ?thesis
    unfolding buildRuleGroupFactor_def Let_def cs(3) exprs wrap combined group_text_def
    using wf cs(1) by (simp add: rule_wf_def)
qed

lemma enclosed_shape: "cond_shape s \<Longrightarrow> cond_shape (''('' @ s @ '')'')"
  using balanced_append0 [of s 1 "'')''"] by (simp add: cond_shape_def trimmed_def is_ws_def)

lemma cond_part_shape: "cond_wf c \<Longrightarrow> cond_shape (cond_part w c)"
  using cond_text_shape enclosed_shape by (simp add: cond_part_def)

lemma group_parts_shape: "list_all cond_wf cs \<Longrightarrow> list_all cond_shape (group_parts cs)"
  by (auto simp: group_parts_def list_all_iff cond_part_shape)

lemma parse_each_map:
  "(\<And>x. x \<in> set xs \<Longrightarrow> f (h x) = Inr (Some x)) \<Longrightarrow> parse_each f (map h xs) = Inr (Some xs)"
  by (induction xs) auto

lemma parse_enclosed_range:
  assumes "cond_wf c" "is_range c"
  shows "tryParseRequestCondition (''('' @ cond_text c @ '')'') = Inr (Some c)"
proof -
  obtain t where t: "c = TimeCondition t" "tc_mode t = MATCH_RANGE" using assms(2) by (cases c) auto
  then have "tryParseTimeCondition (''('' @ cond_text c @ '')'') = Some c"
    using assms(1) parse_time_range(2) [of "tc_timeFunc t" "tc_timezone t" "tc_rangeStart t" "tc_rangeEnd t"]
      numeric_literal_chars plain_path_quote [of "tc_timezone t"] plain_path_trim [of "tc_timezone t"]
    by (simp add: isTimeFunc_def)
  then show ?thesis by (simp add: tryParseRequestCondition_def)
qed

lemma parse_cond_part: "cond_wf c \<Longrightarrow> tryParseRequestCondition (js_trim (cond_part w c)) = Inr (Some c)"
proof -
  assume wf: "cond_wf c"
  then have "js_trim (cond_part w c) = cond_part w c"
    using cond_part_shape [of c w] by (simp add: cond_shape_def js_trim_trimmed)
  with wf parse_cond [OF wf] parse_enclosed_range [OF wf] show ?thesis by (simp add: cond_part_def)
qed

lemma parse_group_parts:
  assumes "list_all cond_wf cs" "cs \<noteq> []"
  shows "parse_each (\<lambda>ap. tryParseRequestCondition (js_trim ap))
    (splitTopLevelAnd (js_join '' && '' (group_parts cs))) = Inr (Some cs)"
proof -
  have "list_all (split_part '' && '') (group_parts cs)"
    using group_parts_shape [OF assms(1)] by (auto simp: list_all_iff cond_shape_part)
  then have "splitTopLevelAnd (js_join '' && '' (group_parts cs)) = group_parts cs"
    using assms(2) by (intro splitTopLevelAnd_join) (simp_all add: group_parts_def)
  moreover have "parse_each (\<lambda>ap. tryParseRequestCondition (js_trim ap)) (group_parts cs) = Inr (Some cs)"
    unfolding group_parts_def using assms(1) by (intro parse_each_map) (simp add: list_all_iff parse_cond_part)
  ultimately show ?thesis by simp
qed

text \<open>The question mark that the greedy pattern stops at is the last one.\<close>

lemma last_question:
  assumes "list_all is_num_char m" "'' ? '' @ m @ '' : 1)'' = v @ t" "v \<noteq> []"
  shows "strip '' ? '' t = None"
proof (rule ccontr)
  assume "strip '' ? '' t \<noteq> None"
  then obtain w where t: "t = '' ? '' @ w" by (auto simp: strip_Some)
  obtain x v' where "v = x # v'" using assms(3) by (cases v) auto
  with assms(2) t have eq: "''? '' @ m @ '' : 1)'' = v' @ '' ? '' @ w" by auto
  then obtain y v'' where "v' = y # v''" by (cases v') auto
  with eq have "'' '' @ m @ '' : 1)'' = v'' @ '' ? '' @ w" by auto
  then have "CHR ''?'' \<in> set ('' '' @ m @ '' : 1)'')" by auto
  then have "CHR ''?'' \<in> set m" by auto
  with assms(1) show False by (auto simp: list_all_iff dest: is_num_char_marks)
qed

lemma match_group:
  assumes "s \<noteq> []" "is_numeric_literal m"
  shows "\<exists>c. rx_match rule_group_rx (''('' @ s @ '' ? '' @ m @ '' : 1)'') = Some c \<and> cap c 1 = s \<and> cap c 2 = m"
proof -
  obtain x u where s: "s = x # u" using assms(1) by (cases s) auto
  let ?t = "'' ? '' @ m @ '' : 1)''"
  let ?rest = "RCat (rlit '' ? '') (RCat (RCap 2 rnum) (RCat (rlit '' : 1)'') REol))"
  let ?k = "\<lambda>(p', s', c'). rxm ?rest (p', s', c'(1 := Some (take (length (s @ ?t) - length s') (s @ ?t)))) Some"
  note n = numeric_literal_chars [OF assms(2)]
  have "\<exists>q. ?k (rev u @ [x, CHR ''(''], ?t, \<lambda>_. None) = Some (q, [], (\<lambda>_. None)(1 := Some s, 2 := Some m))"
    using n by (simp add: rx_eval s)
  then obtain q where q: "?k (rev u @ [x, CHR ''(''], ?t, \<lambda>_. None) = Some (q, [], (\<lambda>_. None)(1 := Some s, 2 := Some m))"
    by blast
  have "rxm (RStar (RCls (\<lambda>_. True))) ([x, CHR ''(''], u @ ?t, \<lambda>_. None) ?k =
      Some (q, [], (\<lambda>_. None)(1 := Some s, 2 := Some m))"
  proof (rule star_last [where k = ?k, OF q])
    fix v t' q'
    assume "?t = v @ t'" "v \<noteq> []"
    then have "strip '' ? '' t' = None" using n(1) by (intro last_question [of m v])
    then show "?k (q', t', \<lambda>_. None) = None" by (simp add: rx_core rxm_lit)
  qed
  then have "rxm (RCap 1 (rplus (RCls (\<lambda>_. True)))) ([CHR ''(''], s @ ?t, \<lambda>_. None) (\<lambda>st. rxm ?rest st Some) =
      Some (q, [], (\<lambda>_. None)(1 := Some s, 2 := Some m))"
    by (simp add: rxm_cap rplus_def rx_core s)
  then show ?thesis
    by (simp add: rule_group_rx_def rx_match_anchored rx_core rxm_lit cap_def)
qed

lemma parse_group: "rule_wf g \<Longrightarrow> tryParseRuleGroupFactor (group_text g) = Inr (Some g)"
proof -
  assume wf: "rule_wf g"
  let ?cs = "rg_conditions g"
  have cs: "list_all cond_wf ?cs" "?cs \<noteq> []" "is_numeric_literal (rg_multiplier g)"
    using wf by (auto simp: rule_wf_def)
  have "list_all cond_shape (group_parts ?cs)" using cs(1) by (rule group_parts_shape)
  then have "js_join '' && '' (group_parts ?cs) \<noteq> []"
    using cs(2) by (subst js_join_Nil_iff) (auto simp: list_all_iff cond_shape_def group_parts_def)
  from match_group [OF this cs(3)] obtain c where "rx_match rule_group_rx (group_text g) = Some c"
    "cap c 1 = js_join '' && '' (group_parts ?cs)" "cap c 2 = rg_multiplier g"
    by (auto simp: group_text_def)
  with cs(2) parse_group_parts [OF cs(1,2)] show ?thesis
    by (simp add: tryParseRuleGroupFactor_def)
qed

section \<open>Rule expressions\<close>

lemma balanced_join:
  assumes "list_all (balanced 0) xs" "paren_free sep" "0 \<le> d"
  shows "balanced d (js_join sep xs @ t) = balanced d t"
  using assms(1)
proof (induction xs rule: induct_list012)
  case (2 x)
  then show ?case using assms(3) by (simp add: balanced_append0)
next
  case (3 x y ys)
  then show ?case using assms(2,3) by (simp add: balanced_append0)
qed (simp add: assms)

lemma group_text_part: "rule_wf g \<Longrightarrow> split_part '' * '' (group_text g)"
proof -
  assume wf: "rule_wf g"
  let ?j = "js_join '' && '' (group_parts (rg_conditions g))"
  have "list_all (balanced 0) (group_parts (rg_conditions g))"
    using wf group_parts_shape [of "rg_conditions g"] by (auto simp: rule_wf_def list_all_iff cond_shape_def)
  moreover have "paren_free (rg_multiplier g)"
    using wf numeric_free [of "rg_multiplier g"] by (simp add: rule_wf_def)
  ultimately have "balanced 0 (?j @ '' ? '' @ rg_multiplier g @ '' : 1'')"
    by (simp add: balanced_join)
  from mul.enclosed_part [OF this] show ?thesis by (simp add: group_text_def)
qed

lemma build_rules:
  assumes "list_all rule_wf gs"
  shows "buildRequestRuleExpr gs = js_join '' * '' (map group_text gs)"
proof -
  have "map buildRuleGroupFactor gs = map group_text gs"
    using assms by (simp add: list_all_iff build_group)
  moreover have "filter (\<lambda>f. f \<noteq> []) (map group_text gs) = map group_text gs"
    by (simp add: group_text_def)
  ultimately show ?thesis by (simp only: buildRequestRuleExpr_def)
qed

lemma rules_text:
  assumes "list_all rule_wf gs"
  shows "list_all (split_part '' * '') (map group_text gs)" "trimmed (js_join '' * '' (map group_text gs))"
    "js_join '' * '' (map group_text gs) = [] \<longleftrightarrow> gs = []"
proof -
  show parts: "list_all (split_part '' * '') (map group_text gs)"
    using assms group_text_part by (auto simp: list_all_iff)
  then show "trimmed (js_join '' * '' (map group_text gs))"
    by (intro trimmed_js_join) (auto simp: list_all_iff split_part_def)
  show "js_join '' * '' (map group_text gs) = [] \<longleftrightarrow> gs = []"
    by (subst js_join_Nil_iff) (auto simp: group_text_def)
qed

lemma parse_rules:
  assumes "list_all rule_wf gs"
  shows "tryParseRequestRuleExpr (js_join '' * '' (map group_text gs)) = Inr (Some gs)"
proof (cases "gs = []")
  case False
  note r = rules_text [OF assms]
  have "splitTopLevelMultiply (js_join '' * '' (map group_text gs)) = map group_text gs"
    using r(1) False by (intro splitTopLevelMultiply_join) simp_all
  moreover have "parse_each tryParseRuleGroupFactor (map group_text gs) = Inr (Some gs)"
    using assms by (intro parse_each_map) (simp add: list_all_iff parse_group)
  ultimately show ?thesis
    using r(2,3) False by (simp add: tryParseRequestRuleExpr_def js_trim_trimmed)
qed (simp add: tryParseRequestRuleExpr_def)

text \<open>The rules of the editor and their expression are an interpretation of \<open>codec\<close>; an exception and an
  unsupported text both give no rules.\<close>

definition rules_of_text :: "jsstring \<Rightarrow> request_rule_group list option" where
  "rules_of_text s = (case tryParseRequestRuleExpr s of Inr r \<Rightarrow> r | Inl _ \<Rightarrow> None)"

interpretation rules: codec buildRequestRuleExpr rules_of_text "list_all rule_wf"
  by unfold_locales (simp add: rules_of_text_def build_rules parse_rules)

lemma parse_built: "list_all rule_wf gs \<Longrightarrow> tryParseRequestRuleExpr (buildRequestRuleExpr gs) = Inr (Some gs)"
  using rules.decode_encode [of gs] by (simp add: rules_of_text_def split: sum.splits)

section \<open>Outer parentheses\<close>

lemma depth_positive_enclosed: "balanced d x \<Longrightarrow> 0 \<le> d \<Longrightarrow> depth_positive (d + 1) (x @ '')'')"
proof (induction x arbitrary: d)
  case (Cons c x)
  then have "depth_positive (d + paren_depth c + 1) (x @ '')'')" by simp
  with Cons.prems show ?case by (simp add: Let_def algebra_simps)
qed simp

lemma unwrap_enclosed:
  assumes "balanced 0 x" "trimmed x" "\<not> hasFullOuterParens x"
  shows "unwrapOuterParens (''('' @ x @ '')'') = x"
proof -
  have "depth_positive 1 (x @ '')'')" using depth_positive_enclosed [OF assms(1)] by simp
  then have "hasFullOuterParens (''('' @ x @ '')'')" by (simp add: hasFullOuterParens_def)
  then have "unwrap_loop (''('' @ x @ '')'') = unwrap_loop x"
    using assms(2) by (subst unwrap_loop.simps) (simp add: js_trim_trimmed butlast_append)
  moreover have "unwrap_loop x = x" using assms(3) by (subst unwrap_loop.simps) simp
  moreover have "js_trim (''('' @ x @ '')'') = ''('' @ x @ '')''"
    by (rule js_trim_trimmed) (simp add: trimmed_def is_ws_def)
  ultimately show ?thesis by (simp add: unwrapOuterParens_def)
qed

lemma classify_rules:
  assumes "list_all rule_wf gs"
  shows "classify_parts (map group_text gs) = Inr (map group_text gs, [])"
  using assms
proof (induction gs)
  case (Cons g gs)
  then have "tryParseRequestRuleExpr (group_text g) = Inr (Some [g])"
    using parse_rules [of "[g]"] by simp
  with Cons show ?case by (simp add: is_rule_part_def)
qed simp

lemma combine_split:
  assumes "base \<noteq> []" "trimmed base" "balanced 0 base" "\<not> hasFullOuterParens base"
    and "is_rule_part (''('' @ base @ '')'') = Inr False"
    and "list_all rule_wf gs" "gs \<noteq> []"
  shows "splitBillingExprAndRequestRules (combineBillingExpr base (buildRequestRuleExpr gs)) =
    Inr \<lparr>billingExpr = base, requestRuleExpr = buildRequestRuleExpr gs\<rparr>"
proof -
  let ?b = "''('' @ base @ '')''" and ?gs = "map group_text gs"
  let ?rules = "js_join '' * '' ?gs"
  note r = rules_text [OF assms(6)]
  have join: "?b @ '' * '' @ ?rules = js_join '' * '' (?b # ?gs)" using assms(7) by (cases gs) simp_all
  have parts: "list_all (split_part '' * '') (?b # ?gs)"
    using r(1) mul.enclosed_part [OF assms(3)] by simp
  have "combineBillingExpr base ?rules = ?b @ '' * '' @ ?rules"
    using assms(1,2,7) r(2,3) by (simp add: combineBillingExpr_def js_trim_trimmed Let_def)
  moreover have "trimmed (js_join '' * '' (?b # ?gs))"
    using parts by (intro trimmed_js_join) (auto simp: list_all_iff split_part_def)
  moreover have "splitTopLevelMultiply (js_join '' * '' (?b # ?gs)) = ?b # ?gs"
    by (rule splitTopLevelMultiply_join [OF parts]) simp
  moreover have "classify_parts (?b # ?gs) = Inr (?gs, [?b])"
    using assms(5) classify_rules [OF assms(6)] by simp
  moreover have "js_join '' * '' (?b # ?gs) \<noteq> []" using assms(7) by (cases gs) simp_all
  ultimately have "splitBillingExprAndRequestRules (combineBillingExpr base ?rules) =
      Inr \<lparr>billingExpr = unwrapOuterParens ?b, requestRuleExpr = ?rules\<rparr>"
    using assms(7) unfolding join by (simp add: splitBillingExprAndRequestRules_def js_trim_trimmed Let_def)
  then show ?thesis
    using unwrap_enclosed [OF assms(3,2,4)] by (simp add: build_rules [OF assms(6)])
qed

section \<open>Conditions that are not read back\<close>

text \<open>The second half of a guarded parameter condition is no condition of its own.\<close>

lemma parse_param_compare_half:
  assumes "list_all not_quote s" "s \<noteq> []" "op \<in> {''>'', ''>='', ''<'', ''<=''}"
  shows "tryParseRequestCondition (''param(\"'' @ s @ ''\") '' @ op @ '' '' @ v) = Inr None"
  using assms not_time(2) [of "dquote # s @ ''\") '' @ op @ '' '' @ v"]
  by (auto simp: tryParseRequestCondition_def parse_param_guarded_def parse_compare_def parse_equals_def
      cond_rxs rx_match_anchored rx_eval)

lemma parse_param_contains_half:
  "tryParseRequestCondition (''has(param('' @ s) = Inr None"
  using not_time(3) [of "''param('' @ s"]
  by (simp add: tryParseRequestCondition_def parse_param_guarded_def parse_compare_def parse_equals_def
      cond_rxs rx_match_anchored rx_eval)

text \<open>The two halves of the text of such a condition.\<close>

definition guarded_text :: "param_header_condition \<Rightarrow> jsstring \<times> jsstring" where
  "guarded_text h =
     (''param(\"'' @ pc_path h @ ''\") != nil'',
      if pc_mode h = MATCH_CONTAINS
      then ''has(param(\"'' @ pc_path h @ ''\"), '' @ json_quote (pc_value h) @ '')''
      else ''param(\"'' @ pc_path h @ ''\") '' @ param_mode_op (pc_mode h) @ '' '' @ pc_value h)"

definition guarded_wf :: "param_header_condition \<Rightarrow> bool" where
  "guarded_wf h \<longleftrightarrow> pc_source h = ''param'' \<and> plain_path (pc_path h) \<and>
     (pc_mode h = MATCH_CONTAINS \<and> plain_value (pc_value h) \<or>
      pc_mode h \<in> {MATCH_GT, MATCH_GTE, MATCH_LT, MATCH_LTE} \<and> is_numeric_literal (pc_value h))"

lemma build_guarded:
  assumes "guarded_wf h"
  shows "buildRequestConditionExpr (ParamHeaderCondition h) =
    js_join '' && '' [fst (guarded_text h), snd (guarded_text h)]"
  using assms plain_path_trim [of "pc_path h"] path_quote [of "pc_path h"]
    numeric_literal_chars(4) [of "pc_value h"]
  by (auto simp: guarded_wf_def guarded_text_def buildRequestConditionExpr_def normalizeCondition_def
      choose_mode_def getRequestRuleMatchOptions_def text_or_empty_def Let_def match_defs plain_value_def
      buildExprLiteral_def js_trim_trimmed)

lemma guarded_halves:
  assumes "guarded_wf h"
  shows "cond_shape (fst (guarded_text h))" "cond_shape (snd (guarded_text h))"
    "\<exists>c. tryParseRequestCondition (fst (guarded_text h)) = Inr (Some c)"
    "tryParseRequestCondition (snd (guarded_text h)) = Inr None"
proof -
  have p: "paren_free (pc_path h)" "CHR ''&'' \<notin> set (pc_path h)" "list_all not_quote (pc_path h)" "pc_path h \<noteq> []"
    using assms plain_path_free [of "pc_path h"] plain_path_quote [of "pc_path h"] plain_path_trim [of "pc_path h"]
    by (auto simp: guarded_wf_def)
  have op: "param_mode_op (pc_mode h) \<in> {''>'', ''>='', ''<'', ''<=''}" if "pc_mode h \<noteq> MATCH_CONTAINS"
    using assms that by (auto simp: guarded_wf_def param_mode_op_def match_defs)
  show "cond_shape (fst (guarded_text h))"
    using p by (simp add: guarded_text_def cond_shape_def trimmed_def is_ws_def)
  show "cond_shape (snd (guarded_text h))"
  proof (cases "pc_mode h = MATCH_CONTAINS")
    case True
    then show ?thesis
      using p assms quote_free [of "pc_value h"]
      by (auto simp: guarded_text_def guarded_wf_def cond_shape_def trimmed_def is_ws_def plain_value_def match_defs)
  next
    case False
    then show ?thesis
      using p op assms numeric_free [of "pc_value h"]
      by (auto simp: guarded_text_def guarded_wf_def cond_shape_def trimmed_def is_ws_def)
  qed
  show "\<exists>c. tryParseRequestCondition (fst (guarded_text h)) = Inr (Some c)"
    using parse_param_exists [OF p(3,4)] by (simp add: guarded_text_def)
  show "tryParseRequestCondition (snd (guarded_text h)) = Inr None"
    using op parse_param_compare_half [OF p(3,4), of "param_mode_op (pc_mode h)" "pc_value h"]
      parse_param_contains_half [of "dquote # pc_path h @ ''\"), '' @ json_quote (pc_value h) @ '')''"]
    by (auto simp: guarded_text_def)
qed

text \<open>A rule with a guarded condition is one factor, and it is not read back.\<close>

lemma guarded_rule:
  assumes "guarded_wf h" "is_numeric_literal m"
  defines "r \<equiv> buildRequestRuleExpr [\<lparr>rg_conditions = [ParamHeaderCondition h], rg_multiplier = m\<rparr>]"
  shows "tryParseRequestRuleExpr r = Inr None" "split_part '' * '' r" "r \<noteq> []"
proof -
  let ?parts = "[fst (guarded_text h), snd (guarded_text h)]"
  let ?cond = "js_join '' && '' ?parts"
  let ?text = "''('' @ ?cond @ '' ? '' @ m @ '' : 1)''"
  note g = guarded_halves [OF assms(1)]
  note m = numeric_literal_chars [OF assms(2)]
  have "?cond \<noteq> []" using g(1) by (simp add: cond_shape_def)
  have build: "buildRequestRuleExpr [\<lparr>rg_conditions = [ParamHeaderCondition h], rg_multiplier = m\<rparr>] = ?text"
    using assms m \<open>?cond \<noteq> []\<close>
    by (simp add: buildRequestRuleExpr_def buildRuleGroupFactor_def build_guarded Let_def)
  have trims: "js_trim (fst (guarded_text h)) = fst (guarded_text h)" "js_trim (snd (guarded_text h)) = snd (guarded_text h)"
    using g(1,2) by (simp_all add: cond_shape_def js_trim_trimmed)
  have "splitTopLevelAnd ?cond = ?parts"
    by (rule splitTopLevelAnd_join) (use g(1,2) cond_shape_part in simp_all)
  then have "parse_each (\<lambda>ap. tryParseRequestCondition (js_trim ap)) (splitTopLevelAnd ?cond) = Inr None"
    using g(3,4) trims by auto
  moreover from match_group [OF \<open>?cond \<noteq> []\<close> assms(2)] obtain c
    where "rx_match rule_group_rx ?text = Some c" "cap c 1 = ?cond" by auto
  ultimately have factor: "tryParseRuleGroupFactor ?text = Inr None"
    unfolding tryParseRuleGroupFactor_def by simp
  have "list_all (balanced 0) ?parts" using g(1,2) by (simp add: cond_shape_def)
  then have "balanced 0 (?cond @ '' ? '' @ m @ '' : 1'')"
    using numeric_free [OF assms(2)] balanced_join [of ?parts "'' && ''" 0 "'' ? '' @ m @ '' : 1''"] by simp
  from mul.enclosed_part [OF this] have part: "split_part '' * '' ?text" by simp
  then have "splitTopLevelMultiply ?text = [?text]"
    using splitTopLevelMultiply_join [of "[?text]"] by simp
  moreover have "js_trim ?text = ?text" using part by (simp add: split_part_def js_trim_trimmed)
  ultimately have "tryParseRequestRuleExpr ?text = Inr None"
    using factor unfolding tryParseRequestRuleExpr_def by (simp only: Let_def) simp
  then show "tryParseRequestRuleExpr r = Inr None" "split_part '' * '' r" "r \<noteq> []"
    unfolding r_def build using part by simp_all
qed

section \<open>Examples\<close>

definition sample_rules :: "request_rule_group list" where
  "sample_rules =
    [\<lparr>rg_conditions =
       [TimeCondition \<lparr>tc_timeFunc = ''hour'', tc_timezone = ''Asia/Tokyo'', tc_mode = ''range'',
          tc_value = '''', tc_rangeStart = ''22'', tc_rangeEnd = ''6''\<rparr>,
        ParamHeaderCondition \<lparr>pc_source = ''header'', pc_path = ''x-tier'', pc_mode = ''contains'',
          pc_value = ''a \"b\"''\<rparr>], rg_multiplier = ''0.5''\<rparr>,
     \<lparr>rg_conditions =
       [ParamHeaderCondition \<lparr>pc_source = ''param'', pc_path = ''stream'', pc_mode = ''eq'',
          pc_value = ''true''\<rparr>], rg_multiplier = ''1.2e1''\<rparr>]"

lemma sample_rules_wf: "list_all rule_wf sample_rules"
  by code_simp

section \<open>Properties\<close>

text \<open>
  C11: Printing and parsing are inverse: the expression the editor builds from any list of
  supported rule groups (time conditions in every mode, existence and equality of parameters and
  headers, containment on headers) is parsed back to exactly these groups.
\<close>

theorem request_rules_roundtrip:
  assumes "list_all rule_wf gs"
  shows "tryParseRequestRuleExpr (buildRequestRuleExpr gs) = Inr (Some gs)"
  using assms by (rule parse_built)

theorem request_rules_roundtrip_witness:
  "tryParseRequestRuleExpr (buildRequestRuleExpr sample_rules) = Inr (Some sample_rules)"
  by (rule request_rules_roundtrip [OF sample_rules_wf])

text \<open>
  C2: Combining a base price with rules and splitting the result are inverse: for a base
  expression with balanced parentheses that is not itself in parentheses nor reads as a rule, the
  editor gets back the base and the rule expression it stored.
\<close>

theorem combine_split_roundtrip:
  assumes "base \<noteq> []" "trimmed base" "balanced 0 base" "\<not> hasFullOuterParens base"
    and "is_rule_part (''('' @ base @ '')'') = Inr False"
    and "list_all rule_wf gs" "gs \<noteq> []"
  shows "splitBillingExprAndRequestRules (combineBillingExpr base (buildRequestRuleExpr gs)) =
    Inr \<lparr>billingExpr = base, requestRuleExpr = buildRequestRuleExpr gs\<rparr>"
  using assms by (rule combine_split)

theorem combine_split_roundtrip_witness:
  "splitBillingExprAndRequestRules (combineBillingExpr ''max(p, c) * 3'' (buildRequestRuleExpr sample_rules)) =
    Inr \<lparr>billingExpr = ''max(p, c) * 3'', requestRuleExpr = buildRequestRuleExpr sample_rules\<rparr>"
proof (rule combine_split_roundtrip)
  show "trimmed ''max(p, c) * 3''" by code_simp
  show "balanced 0 ''max(p, c) * 3''" by code_simp
  show "\<not> hasFullOuterParens ''max(p, c) * 3''" by code_simp
  show "is_rule_part (''('' @ ''max(p, c) * 3'' @ '')'') = Inr False" by code_simp
  show "list_all rule_wf sample_rules" by (rule sample_rules_wf)
  show "sample_rules \<noteq> []" by (simp add: sample_rules_def)
qed simp

text \<open>
  C38: The editor does not read back its own conditions on a parameter that compare with a number
  or ask for containment: the guard \<open>param(..) != nil &&\<close> it prints is split off as a condition of
  its own, the other half is refused, and the whole rule expression is reported as unsupported.
\<close>

theorem guarded_rules_not_read_back:
  assumes "guarded_wf h" "is_numeric_literal m"
  shows "tryParseRequestRuleExpr
    (buildRequestRuleExpr [\<lparr>rg_conditions = [ParamHeaderCondition h], rg_multiplier = m\<rparr>]) = Inr None"
  using assms by (rule guarded_rule)

theorem guarded_rules_not_read_back_witness:
  "tryParseRequestRuleExpr
    (buildRequestRuleExpr [\<lparr>rg_conditions = [ParamHeaderCondition \<lparr>pc_source = ''param'', pc_path = ''max_tokens'',
       pc_mode = ''gt'', pc_value = ''1000''\<rparr>], rg_multiplier = ''2''\<rparr>]) = Inr None"
  by (rule guarded_rules_not_read_back; code_simp)

text \<open>
  A rule text whose \<open>has\<close> argument is quoted but no JSON string makes the parser throw instead
  of reporting the text as unsupported, and the exception also leaves the splitting of a whole
  billing expression.
\<close>

theorem bad_escape_throws:
  "tryParseRequestRuleExpr (''(has(header(\"x\"), \"'' @ [backslash] @ ''q\") ? 2 : 1)'') = Inl SyntaxError \<and>
   splitBillingExprAndRequestRules
     (''(p * 2) * (has(header(\"x\"), \"'' @ [backslash] @ ''q\") ? 2 : 1)'') = Inl SyntaxError"
  by code_simp

end
