(* ===== verification/BillingTiers.thy ===== *)
theory BillingTiers
  imports RequestRules
begin

text \<open>
  Tiered prices of a billing expression
  (\<open>web/default/src/features/pricing/lib/billing-expr.ts\<close>, the variable registry and the tier
  parser). A tiered expression is a chain \<open>cond ? tier("label", p * a + c * b + ...) : ...\<close>; the
  pricing page reads the tiers, their conditions and their prices from the text with regular
  expressions.
\<close>

section \<open>Variable registry\<close>

datatype var_side = SideInput | SideOutput | SideCondition

record billing_var =
  bv_key :: jsstring
  bv_field :: "jsstring option"
  bv_tierField :: "jsstring option"
  bv_label :: jsstring
  bv_shortLabel :: jsstring
  bv_side :: var_side
  bv_isBase :: bool
  bv_isConditionOnly :: bool
  bv_group :: "jsstring option"

text \<open>A variable with a price.\<close>

definition price_var ::
  "jsstring \<Rightarrow> jsstring \<Rightarrow> jsstring \<Rightarrow> jsstring \<Rightarrow> jsstring \<Rightarrow> var_side \<Rightarrow> bool \<Rightarrow> jsstring option \<Rightarrow> billing_var" where
  "price_var key field tierField label shortLabel side base grp =
     \<lparr>bv_key = key, bv_field = Some field, bv_tierField = Some tierField, bv_label = label,
      bv_shortLabel = shortLabel, bv_side = side, bv_isBase = base, bv_isConditionOnly = False,
      bv_group = grp\<rparr>"

definition BILLING_VARS :: "billing_var list" where
  "BILLING_VARS =
    [price_var ''p'' ''inputPrice'' ''input_unit_cost'' ''Input price'' ''Input'' SideInput True None,
     price_var ''c'' ''outputPrice'' ''output_unit_cost'' ''Completion price'' ''Output'' SideOutput True None,
     \<lparr>bv_key = ''len'', bv_field = None, bv_tierField = None, bv_label = ''Input length'',
      bv_shortLabel = ''Length'', bv_side = SideCondition, bv_isBase = False,
      bv_isConditionOnly = True, bv_group = None\<rparr>,
     price_var ''cr'' ''cacheReadPrice'' ''cache_read_unit_cost'' ''Cache read price'' ''Cache Read''
       SideInput False (Some ''cache''),
     price_var ''cc'' ''cacheCreatePrice'' ''cache_create_unit_cost'' ''Cache create price'' ''Cache Write''
       SideInput False (Some ''cache''),
     price_var ''cc1h'' ''cacheCreate1hPrice'' ''cache_create_1h_unit_cost'' ''Cache create (1h) price''
       ''Cache Write (1h)'' SideInput False (Some ''cache''),
     price_var ''img'' ''imagePrice'' ''image_unit_cost'' ''Image input price'' ''Image In''
       SideInput False (Some ''media''),
     price_var ''img_o'' ''imageOutputPrice'' ''image_output_unit_cost'' ''Image output price'' ''Image Out''
       SideOutput False (Some ''media''),
     price_var ''ai'' ''audioInputPrice'' ''audio_input_unit_cost'' ''Audio input price'' ''Audio In''
       SideInput False (Some ''media''),
     price_var ''ao'' ''audioOutputPrice'' ''audio_output_unit_cost'' ''Audio output price'' ''Audio Out''
       SideOutput False (Some ''media'')]"

definition BILLING_PRICING_VARS :: "billing_var list" where
  "BILLING_PRICING_VARS = filter (\<lambda>v. \<not> bv_isConditionOnly v) BILLING_VARS"

definition BILLING_CONDITION_VARS :: "jsstring list" where
  "BILLING_CONDITION_VARS = map bv_key (filter (\<lambda>v. bv_isBase v \<or> bv_isConditionOnly v) BILLING_VARS)"

definition some_text :: "jsstring option \<Rightarrow> jsstring" where
  "some_text v = (case v of Some s \<Rightarrow> s | None \<Rightarrow> [])"

definition BILLING_VAR_KEY_TO_FIELD :: "(jsstring \<times> jsstring) list" where
  "BILLING_VAR_KEY_TO_FIELD = map (\<lambda>v. (bv_key v, some_text (bv_field v))) BILLING_PRICING_VARS"

definition BILLING_EXTRA_VARS :: "billing_var list" where
  "BILLING_EXTRA_VARS = filter (\<lambda>v. \<not> bv_isBase v \<and> \<not> bv_isConditionOnly v) BILLING_VARS"

text \<open>Pairs of \<open>field\<close> and \<open>exprVar\<close>.\<close>

definition BILLING_CACHE_VAR_MAP :: "(jsstring \<times> jsstring) list" where
  "BILLING_CACHE_VAR_MAP = map (\<lambda>v. (some_text (bv_tierField v), bv_key v)) BILLING_EXTRA_VARS"

definition BILLING_VAR_REGEX :: rx where
  "BILLING_VAR_REGEX = rseq [RWb, RCap 1 (ralts (map (\<lambda>v. rlit (bv_key v)) BILLING_PRICING_VARS)),
     rws, rlit ''*'', rws, RCap 2 rnum]"

definition COMMON_TIMEZONES :: "(jsstring \<times> jsstring) list" where
  "COMMON_TIMEZONES =
    [(''Asia/Shanghai'', ''UTC+8 Shanghai (Asia/Shanghai)''), (''UTC'', ''UTC''),
     (''America/New_York'', ''UTC-5 New York (America/New_York)''),
     (''America/Los_Angeles'', ''UTC-8 Los Angeles (America/Los_Angeles)''),
     (''America/Chicago'', ''UTC-6 Chicago (America/Chicago)''),
     (''Europe/London'', ''UTC+0 London (Europe/London)''),
     (''Europe/Berlin'', ''UTC+1 Berlin (Europe/Berlin)''),
     (''Asia/Tokyo'', ''UTC+9 Tokyo (Asia/Tokyo)''),
     (''Asia/Singapore'', ''UTC+8 Singapore (Asia/Singapore)''),
     (''Asia/Seoul'', ''UTC+9 Seoul (Asia/Seoul)''),
     (''Australia/Sydney'', ''UTC+10 Sydney (Australia/Sydney)'')]"

section \<open>Tiers\<close>

record tier_condition =
  cond_var :: jsstring
  cond_op :: jsstring
  cond_value :: jsnum

text \<open>A parsed tier: its label, its conditions and its prices by field name.\<close>

record parsed_tier =
  pt_label :: jsstring
  pt_conditions :: "tier_condition list"
  pt_prices :: "(jsstring \<times> jsnum) list"

record versioned_expr =
  ve_version :: jsnum
  ve_body :: jsstring

definition version_rx :: rx where
  "version_rx = rseq [RBol, rlit ''v'', RCap 1 (rplus (RCls is_digit)), rlit '':'',
     RCap 2 (RStar (RCls (\<lambda>_. True))), REol]"

definition stripExprVersion :: "jsstring \<Rightarrow> versioned_expr" where
  "stripExprVersion exprStr =
     (if exprStr = [] then \<lparr>ve_version = JDec 1 0, ve_body = ''''\<rparr>
      else (case rx_match version_rx exprStr of
              Some m \<Rightarrow> \<lparr>ve_version = to_number (cap m 1), ve_body = cap m 2\<rparr>
            | None \<Rightarrow> \<lparr>ve_version = JDec 1 0, ve_body = exprStr\<rparr>))"

text \<open>The coefficients of the body; the first occurrence of a variable counts.\<close>

definition body_coeffs :: "jsstring \<Rightarrow> (jsstring \<times> jsnum) list" where
  "body_coeffs bodyStr =
     foldl (\<lambda>coeffs m. if cap m 1 \<in> fst ` set coeffs then coeffs
              else coeffs @ [(cap m 1, to_number (cap m 2))])
       [] (rx_exec_all BILLING_VAR_REGEX [] bodyStr)"

definition parseTierBody :: "jsstring \<Rightarrow> (jsstring \<times> jsnum) list" where
  "parseTierBody bodyStr =
     (let coeffs = body_coeffs bodyStr in
      map (\<lambda>(varName, field). (field,
             case map_of coeffs varName of Some n \<Rightarrow> num_or_zero n | None \<Rightarrow> JDec 0 0))
        BILLING_VAR_KEY_TO_FIELD)"

text \<open>The class \<open>[\d.eE+]\<close> of the numbers in conditions.\<close>

definition is_cond_num :: "char \<Rightarrow> bool" where
  [js_ascii]: "is_cond_num c \<longleftrightarrow> is_digit c \<or> c = CHR ''.'' \<or> c = CHR ''e'' \<or> c = CHR ''E'' \<or> c = CHR ''+''"

definition cond_var_rx :: rx where "cond_var_rx = ralts [rlit ''p'', rlit ''c'', rlit ''len'']"

definition cond_op_rx :: rx where "cond_op_rx = ralts [rlit ''<'', rlit ''<='', rlit ''>'', rlit ''>='']"

definition one_cond_rx :: rx where
  "one_cond_rx = rseq [cond_var_rx, rws, cond_op_rx, rws, rplus (RCls is_cond_num)]"

definition and_rx :: rx where "and_rx = rseq [rws, rlit ''&&'', rws]"

definition condGroup :: rx where
  "condGroup = RCap 1 (RCat one_cond_rx (RStar (RCat and_rx one_cond_rx)))"

definition cond_prefix_rx :: rx where
  "cond_prefix_rx = ROpt (rseq [condGroup, rws, rlit ''?'', rws])"

definition tier_rx :: rx where
  "tier_rx = rseq [cond_prefix_rx, rlit ''tier(\"'', RCap 2 (RStar (RCls not_quote)), rlit ''\",'', rws,
     RCap 3 (rplus (RCls (\<lambda>c. c \<noteq> CHR '')''))), rlit '')'']"

definition cond_full_rx :: rx where
  "cond_full_rx = rseq [RBol, RCap 1 cond_var_rx, rws, RCap 2 cond_op_rx, rws,
     RCap 3 (rplus (RCls is_cond_num)), REol]"

text \<open>The conditions of a captured condition text.\<close>

definition parse_conditions :: "jsstring \<Rightarrow> tier_condition list" where
  "parse_conditions condStr =
     (if condStr = [] then []
      else List.map_filter (\<lambda>cp.
             case rx_match cond_full_rx (js_trim cp) of
               Some cm \<Rightarrow> Some \<lparr>cond_var = cap cm 1, cond_op = cap cm 2, cond_value = to_number (cap cm 3)\<rparr>
             | None \<Rightarrow> None) (rx_split and_rx [] [] condStr))"

definition parsed_tier_of :: "captures \<Rightarrow> parsed_tier" where
  "parsed_tier_of m = \<lparr>pt_label = cap m 2, pt_conditions = parse_conditions (cap m 1),
     pt_prices = parseTierBody (cap m 3)\<rparr>"

definition parseTiersFromExpr :: "jsstring \<Rightarrow> parsed_tier list" where
  "parseTiersFromExpr exprStr =
     (if exprStr = [] then []
      else map parsed_tier_of (rx_exec_all tier_rx [] (ve_body (stripExprVersion exprStr))))"

section \<open>Labels\<close>

text \<open>The fullwidth forms and the signs for less-or-equal and greater-or-equal, as UTF-8 bytes.\<close>

definition fw_eq :: jsstring where "fw_eq = [CHR 0xEF, CHR 0xBC, CHR 0x9D]"
definition fw_lt :: jsstring where "fw_lt = [CHR 0xEF, CHR 0xBC, CHR 0x9C]"
definition fw_gt :: jsstring where "fw_gt = [CHR 0xEF, CHR 0xBC, CHR 0x9E]"
definition le_sign :: jsstring where "le_sign = [CHR 0xE2, CHR 0x89, CHR 0xA4]"
definition ge_sign :: jsstring where "ge_sign = [CHR 0xE2, CHR 0x89, CHR 0xA5]"

definition eq_rx :: rx where "eq_rx = ROpt (RAlt (rlit ''='') (rlit fw_eq))"

definition less_rx :: rx where
  "less_rx = ralts [RCat (rlit ''<'') eq_rx, rlit le_sign, RCat (rlit fw_lt) eq_rx]"

definition greater_rx :: rx where
  "greater_rx = ralts [RCat (rlit ''>'') eq_rx, rlit ge_sign, RCat (rlit fw_gt) eq_rx]"

definition normalizeTierLabel :: "jsstring option \<Rightarrow> jsstring" where
  "normalizeTierLabel label =
     (case label of
        None \<Rightarrow> []
      | Some l \<Rightarrow> if l = [] then []
          else map to_lower (filter (\<lambda>c. \<not> is_ws c)
                 (rx_replace_all greater_rx ''>'' (rx_replace_all less_rx ''<'' l))))"

end
