(* ===== verification/TierExpr.thy ===== *)
theory TierExpr
  imports BillingTiers
begin

text \<open>
  The visual editor of tiered prices (\<open>web/default/src/features/pricing/lib/tier-expr.ts\<close>): a list
  of tiers with conditions and unit costs is printed as a billing expression, and an expression of
  that shape is read back into the editor. The local evaluation of an expression, which runs the
  text as JavaScript code, is left out.
\<close>

section \<open>Types\<close>

datatype cache_mode = Timed | Generic

text \<open>A threshold as typed by the user: a number or a text.\<close>

datatype threshold = NumValue jsnum | TextValue jsstring

record tier_condition_input =
  ti_var :: jsstring
  ti_op :: jsstring
  ti_value :: "threshold option"

record visual_tier =
  vt_label :: jsstring
  vt_conditions :: "tier_condition_input list"
  vt_input_unit_cost :: jsnum
  vt_output_unit_cost :: jsnum
  vt_cache_mode :: cache_mode
  vt_cache_read_unit_cost :: jsnum
  vt_cache_create_unit_cost :: jsnum
  vt_cache_create_1h_unit_cost :: jsnum
  vt_image_unit_cost :: jsnum
  vt_image_output_unit_cost :: jsnum
  vt_audio_input_unit_cost :: jsnum
  vt_audio_output_unit_cost :: jsnum

text \<open>A partial tier: a property that is absent is \<open>None\<close>.\<close>

record partial_tier =
  pa_label :: "jsstring option"
  pa_conditions :: "tier_condition_input list option"
  pa_input_unit_cost :: "jsnum option"
  pa_output_unit_cost :: "jsnum option"
  pa_cache_mode :: "cache_mode option"
  pa_cache_read_unit_cost :: "jsnum option"
  pa_cache_create_unit_cost :: "jsnum option"
  pa_cache_create_1h_unit_cost :: "jsnum option"
  pa_image_unit_cost :: "jsnum option"
  pa_image_output_unit_cost :: "jsnum option"
  pa_audio_input_unit_cost :: "jsnum option"
  pa_audio_output_unit_cost :: "jsnum option"

type_synonym visual_config = "visual_tier list"

section \<open>Normalisation\<close>

definition getTierCacheMode :: "partial_tier \<Rightarrow> cache_mode" where
  "getTierCacheMode tier =
     (case pa_cache_mode tier of
        Some m \<Rightarrow> m
      | None \<Rightarrow>
          (case pa_cache_create_1h_unit_cost tier of
             Some n \<Rightarrow> if num_positive n then Timed else Generic
           | None \<Rightarrow> Generic))"

text \<open>\<open>Number(x) || 0\<close> of an optional property.\<close>

definition opt_num :: "jsnum option \<Rightarrow> jsnum" where
  "opt_num x = (case x of Some n \<Rightarrow> num_or_zero n | None \<Rightarrow> JDec 0 0)"

text \<open>A property before the spread keeps its own value when the tier has one.\<close>

definition spread :: "'a option \<Rightarrow> 'a \<Rightarrow> 'a" where
  "spread own dflt = (case own of Some v \<Rightarrow> v | None \<Rightarrow> dflt)"

definition normalizeVisualTier :: "partial_tier \<Rightarrow> visual_tier" where
  "normalizeVisualTier tier =
     \<lparr>vt_label = spread (pa_label tier) '''',
      vt_conditions = spread (pa_conditions tier) [],
      vt_input_unit_cost = spread (pa_input_unit_cost tier) (opt_num (pa_input_unit_cost tier)),
      vt_output_unit_cost = spread (pa_output_unit_cost tier) (opt_num (pa_output_unit_cost tier)),
      vt_cache_mode = spread (pa_cache_mode tier) (getTierCacheMode tier),
      vt_cache_read_unit_cost = opt_num (pa_cache_read_unit_cost tier),
      vt_cache_create_unit_cost = opt_num (pa_cache_create_unit_cost tier),
      vt_cache_create_1h_unit_cost = opt_num (pa_cache_create_1h_unit_cost tier),
      vt_image_unit_cost = opt_num (pa_image_unit_cost tier),
      vt_image_output_unit_cost = opt_num (pa_image_output_unit_cost tier),
      vt_audio_input_unit_cost = opt_num (pa_audio_input_unit_cost tier),
      vt_audio_output_unit_cost = opt_num (pa_audio_output_unit_cost tier)\<rparr>"

text \<open>A tier with every property.\<close>

definition as_partial_tier :: "visual_tier \<Rightarrow> partial_tier" where
  "as_partial_tier t =
     \<lparr>pa_label = Some (vt_label t), pa_conditions = Some (vt_conditions t),
      pa_input_unit_cost = Some (vt_input_unit_cost t), pa_output_unit_cost = Some (vt_output_unit_cost t),
      pa_cache_mode = Some (vt_cache_mode t),
      pa_cache_read_unit_cost = Some (vt_cache_read_unit_cost t),
      pa_cache_create_unit_cost = Some (vt_cache_create_unit_cost t),
      pa_cache_create_1h_unit_cost = Some (vt_cache_create_1h_unit_cost t),
      pa_image_unit_cost = Some (vt_image_unit_cost t),
      pa_image_output_unit_cost = Some (vt_image_output_unit_cost t),
      pa_audio_input_unit_cost = Some (vt_audio_input_unit_cost t),
      pa_audio_output_unit_cost = Some (vt_audio_output_unit_cost t)\<rparr>"

definition empty_partial_tier :: partial_tier where
  "empty_partial_tier =
     \<lparr>pa_label = None, pa_conditions = None, pa_input_unit_cost = None, pa_output_unit_cost = None,
      pa_cache_mode = None, pa_cache_read_unit_cost = None, pa_cache_create_unit_cost = None,
      pa_cache_create_1h_unit_cost = None, pa_image_unit_cost = None, pa_image_output_unit_cost = None,
      pa_audio_input_unit_cost = None, pa_audio_output_unit_cost = None\<rparr>"

definition createDefaultVisualConfig :: visual_config where
  "createDefaultVisualConfig =
     [normalizeVisualTier (empty_partial_tier\<lparr>pa_conditions := Some [], pa_input_unit_cost := Some (JDec 0 0),
        pa_output_unit_cost := Some (JDec 0 0), pa_label := Some ''base'', pa_cache_mode := Some Generic\<rparr>)]"

definition normalizeVisualConfig :: "visual_config option \<Rightarrow> visual_config" where
  "normalizeVisualConfig config =
     (case config of
        None \<Rightarrow> createDefaultVisualConfig
      | Some tiers \<Rightarrow> if tiers = [] then createDefaultVisualConfig
                      else map (\<lambda>tier. normalizeVisualTier (as_partial_tier tier)) tiers)"

section \<open>Printing\<close>

definition threshold_text :: "threshold \<Rightarrow> jsstring" where
  "threshold_text v = (case v of NumValue n \<Rightarrow> num_to_string n | TextValue s \<Rightarrow> s)"

definition buildConditionStr :: "tier_condition_input list \<Rightarrow> jsstring" where
  "buildConditionStr conditions =
     js_join '' && '' (List.map_filter (\<lambda>c.
       case ti_value c of
         None \<Rightarrow> None
       | Some v \<Rightarrow> if ti_var c \<noteq> [] \<and> ti_op c \<noteq> [] \<and> v \<noteq> TextValue []
                   then Some (ti_var c @ '' '' @ ti_op c @ '' '' @ threshold_text v) else None) conditions)"

text \<open>The property of a tier by its name.\<close>

definition tier_fields :: "visual_tier \<Rightarrow> (jsstring \<times> jsnum) list" where
  "tier_fields t =
     [(''cache_read_unit_cost'', vt_cache_read_unit_cost t),
      (''cache_create_unit_cost'', vt_cache_create_unit_cost t),
      (''cache_create_1h_unit_cost'', vt_cache_create_1h_unit_cost t),
      (''image_unit_cost'', vt_image_unit_cost t),
      (''image_output_unit_cost'', vt_image_output_unit_cost t),
      (''audio_input_unit_cost'', vt_audio_input_unit_cost t),
      (''audio_output_unit_cost'', vt_audio_output_unit_cost t)]"

definition term_text :: "jsstring \<Rightarrow> jsnum \<Rightarrow> jsstring" where
  "term_text v n = v @ '' * '' @ num_to_string n"

definition buildTierBodyExpr :: "visual_tier \<Rightarrow> jsstring" where
  "buildTierBodyExpr tier =
     js_join '' + ''
       ([term_text ''p'' (num_or_zero (vt_input_unit_cost tier)),
         term_text ''c'' (num_or_zero (vt_output_unit_cost tier))] @
        List.map_filter (\<lambda>(field, exprVar).
          let v = opt_num (map_of (tier_fields tier) field) in
          if v \<noteq> JDec 0 0 then Some (term_text exprVar v) else None) BILLING_CACHE_VAR_MAP)"

definition tier_call :: "jsstring \<Rightarrow> visual_tier \<Rightarrow> jsstring" where
  "tier_call label tier = ''tier(\"'' @ label @ ''\", '' @ buildTierBodyExpr tier @ '')''"

text \<open>The loop over several tiers, from tier number \<open>i + 1\<close> on.\<close>

fun tier_chain :: "nat \<Rightarrow> visual_tier list \<Rightarrow> jsstring list" where
  "tier_chain i [] = []"
| "tier_chain i (tier # tiers) =
     (let label = (if vt_label tier \<noteq> [] then vt_label tier else ''tier_'' @ show_nat (i + 1));
          body = tier_call label tier;
          cond = buildConditionStr (vt_conditions tier) in
      (if tiers \<noteq> [] \<and> cond \<noteq> [] then cond @ '' ? '' @ body else body) # tier_chain (i + 1) tiers)"

definition generateExprFromVisualConfig :: "visual_config option \<Rightarrow> jsstring" where
  "generateExprFromVisualConfig config =
     (case config of
        None \<Rightarrow> ''p * 0 + c * 0''
      | Some [] \<Rightarrow> ''p * 0 + c * 0''
      | Some [tier] \<Rightarrow>
          (let label = (if vt_label tier \<noteq> [] then vt_label tier else ''default'');
               body = tier_call label tier;
               cond = buildConditionStr (vt_conditions tier) in
           if cond \<noteq> [] then cond @ '' ? '' @ body @ '' : p * 0 + c * 0'' else body)
      | Some tiers \<Rightarrow> js_join '' : '' (tier_chain 0 tiers))"

section \<open>Reading\<close>

definition visual_version_rx :: rx where
  "visual_version_rx = rseq [RBol, rlit ''v'', rplus (RCls is_digit), rlit '':'',
     RCap 1 (RStar (RCls (\<lambda>_. True))), REol]"

text \<open>An optional term \<open>+ var * number\<close>, captured as number \<open>n\<close>.\<close>

definition opt_term_rx :: "nat \<Rightarrow> jsstring \<Rightarrow> rx" where
  "opt_term_rx n v = ROpt (rseq [rws, rlit ''+'', rws, rlit v, rws, rlit ''*'', rws, RCap n rnum])"

fun opt_terms :: "nat \<Rightarrow> jsstring list \<Rightarrow> rx list" where
  "opt_terms n [] = []"
| "opt_terms n (v # vs) = opt_term_rx n v # opt_terms (n + 1) vs"

text \<open>The pattern of a tier body; its captures start at \<open>n\<close>.\<close>

definition body_pat :: "nat \<Rightarrow> rx list" where
  "body_pat n = [rlit ''p'', rws, rlit ''*'', rws, RCap n rnum, rws, rlit ''+'', rws, rlit ''c'', rws,
     rlit ''*'', rws, RCap (n + 1) rnum] @ opt_terms (n + 2) (map snd BILLING_CACHE_VAR_MAP)"

definition single_rx :: rx where
  "single_rx = rseq ([RBol, rlit ''tier(\"'', RCap 1 (RStar (RCls not_quote)), rlit ''\",'', rws] @
     body_pat 2 @ [rlit '')'', REol])"

definition visual_tier_rx :: rx where
  "visual_tier_rx = rseq ([cond_prefix_rx, rlit ''tier(\"'', RCap 2 (RStar (RCls not_quote)),
     rlit ''\",'', rws] @ body_pat 3 @ [rlit '')''])"

text \<open>The tier of a match whose label is capture \<open>n\<close>, followed by the costs.\<close>

definition matched_tier :: "captures \<Rightarrow> nat \<Rightarrow> tier_condition_input list \<Rightarrow> partial_tier" where
  "matched_tier m n conditions =
     \<lparr>pa_label = Some (cap m n), pa_conditions = Some conditions,
      pa_input_unit_cost = Some (to_number (cap m (n + 1))),
      pa_output_unit_cost = Some (to_number (cap m (n + 2))), pa_cache_mode = None,
      pa_cache_read_unit_cost = map_option to_number (m (n + 3)),
      pa_cache_create_unit_cost = map_option to_number (m (n + 4)),
      pa_cache_create_1h_unit_cost = map_option to_number (m (n + 5)),
      pa_image_unit_cost = map_option to_number (m (n + 6)),
      pa_image_output_unit_cost = map_option to_number (m (n + 7)),
      pa_audio_input_unit_cost = map_option to_number (m (n + 8)),
      pa_audio_output_unit_cost = map_option to_number (m (n + 9))\<rparr>"

text \<open>A parsed condition as an input of the editor.\<close>

definition as_input :: "tier_condition \<Rightarrow> tier_condition_input" where
  "as_input c = \<lparr>ti_var = cond_var c, ti_op = cond_op c, ti_value = Some (NumValue (cond_value c))\<rparr>"

definition no_ws :: "jsstring \<Rightarrow> jsstring" where
  "no_ws s = filter (\<lambda>c. \<not> is_ws c) s"

definition tryParseVisualConfig :: "jsstring \<Rightarrow> visual_config option" where
  "tryParseVisualConfig exprStr =
     (if exprStr = [] then None
      else
       (let body = (case rx_match visual_version_rx exprStr of Some m \<Rightarrow> cap m 1 | None \<Rightarrow> exprStr) in
        case rx_match single_rx body of
          Some m \<Rightarrow> Some (normalizeVisualConfig (Some [normalizeVisualTier (matched_tier m 1 [])]))
        | None \<Rightarrow>
            (let tiers = map (\<lambda>m. normalizeVisualTier
                   (matched_tier m 2 (map as_input (parse_conditions (cap m 1)))))
                   (rx_exec_all visual_tier_rx [] body) in
             if tiers = [] then None
             else (let cfg = normalizeVisualConfig (Some tiers) in
                   if no_ws (generateExprFromVisualConfig (Some cfg)) \<noteq> no_ws body then None
                   else Some cfg))))"

section \<open>Extra variables\<close>

definition ESTIMATOR_VARS :: "(jsstring \<times> jsstring) list" where
  "ESTIMATOR_VARS =
    [(''cr'', ''cacheReadTokens''), (''cc'', ''cacheCreateTokens''), (''cc1h'', ''cacheCreate1hTokens''),
     (''img'', ''imageTokens''), (''img_o'', ''imageOutputTokens''), (''ai'', ''audioInputTokens''),
     (''ao'', ''audioOutputTokens'')]"

definition exprUsesExtraVars :: "jsstring \<Rightarrow> bool" where
  "exprUsesExtraVars exprStr =
     (if exprStr = [] then False
      else rx_test (rseq [RWb, ralts (map (\<lambda>f. rlit (fst f)) ESTIMATOR_VARS), RWb]) exprStr)"

end
