(* ===== verification/TierProofs.thy ===== *)
theory TierProofs
  imports TierExpr
begin

text \<open>
  Correctness of the tier editor: the expression printed from a visual configuration is read back
  to the same configuration by the editor, and the pricing page reads from it the same labels,
  conditions and prices. The proofs step backwards through the patterns with the rules of
  \<open>JsRegex\<close>.
\<close>

section \<open>Numbers\<close>

definition num_ok :: "jsnum \<Rightarrow> bool" where
  "num_ok n \<longleftrightarrow> is_finite n \<and> canonical_num n"

lemma number_num_char: "number_char c \<Longrightarrow> is_num_char c"
  by (auto simp: number_char_def is_num_char_def)

lemma num_text: "num_ok n \<Longrightarrow> list_all is_num_char (num_to_string n) \<and> num_to_string n \<noteq> []"
  using num_to_string_chars [of n] number_num_char by (auto simp: num_ok_def list_all_iff)

lemma num_text_ws: "num_ok n \<Longrightarrow> \<not> head_is is_ws (num_to_string n @ t)"
proof -
  assume "num_ok n"
  from num_text [OF this] obtain x s where "num_to_string n = x # s" "is_num_char x"
    by (cases "num_to_string n") auto
  then show ?thesis by (auto simp: is_num_char_def is_ws_def is_digit_def)
qed

lemma num_ok_number: "num_ok n \<Longrightarrow> to_number (num_to_string n) = n \<and> num_or_zero n = n"
  by (auto simp: num_ok_def to_number_print num_or_zero_def)

section \<open>Terms of a tier body\<close>

text \<open>The optional terms in the order of \<open>BILLING_CACHE_VAR_MAP\<close>.\<close>

definition tier_terms :: "visual_tier \<Rightarrow> (jsstring \<times> jsnum) list" where
  "tier_terms t =
     [(''cr'', vt_cache_read_unit_cost t), (''cc'', vt_cache_create_unit_cost t),
      (''cc1h'', vt_cache_create_1h_unit_cost t), (''img'', vt_image_unit_cost t),
      (''img_o'', vt_image_output_unit_cost t), (''ai'', vt_audio_input_unit_cost t),
      (''ao'', vt_audio_output_unit_cost t)]"

fun terms_text :: "(jsstring \<times> jsnum) list \<Rightarrow> jsstring" where
  "terms_text [] = []"
| "terms_text ((v, n) # xs) =
     (if n = JDec 0 0 then [] else '' + '' @ v @ '' * '' @ num_to_string n) @ terms_text xs"

fun upd_caps :: "nat \<Rightarrow> (jsstring \<times> jsnum) list \<Rightarrow> captures \<Rightarrow> captures" where
  "upd_caps i [] c = c"
| "upd_caps i ((v, n) # xs) c =
     upd_caps (i + 1) xs (if n = JDec 0 0 then c else c(i := Some (num_to_string n)))"

lemma upd_caps_below: "j < i \<Longrightarrow> upd_caps i xs c j = c j"
  by (induction i xs c rule: upd_caps.induct) auto

lemma upd_caps_at:
  "k < length xs \<Longrightarrow> upd_caps i xs c (i + k) =
     (if snd (xs ! k) = JDec 0 0 then c (i + k) else Some (num_to_string (snd (xs ! k))))"
proof (induction i xs c arbitrary: k rule: upd_caps.induct)
  case (2 i v n xs c)
  show ?case
  proof (cases k)
    case 0
    then show ?thesis by (simp add: upd_caps_below)
  next
    case (Suc k')
    with 2 show ?thesis by simp
  qed
qed simp

text \<open>The pattern for one variable does not read the term of another one.\<close>

definition apart :: "jsstring \<Rightarrow> jsstring \<Rightarrow> bool" where
  "apart v w \<longleftrightarrow> (\<forall>t. case strip v (w @ '' '' @ t) of None \<Rightarrow> True
     | Some r \<Rightarrow> \<not> head_is is_ws r \<and> \<not> head_is (\<lambda>c. c = CHR ''*'') r)"

lemma terms_apart: "sorted_wrt (\<lambda>x y. apart (fst x) (fst y)) (tier_terms t)"
  by (simp add: tier_terms_def apart_def is_ws_def)

lemma strip_first: "\<not> head_is (\<lambda>c. c = x) s \<Longrightarrow> strip (x # l) s = None"
  by (cases s) auto

text \<open>The pattern of one optional term.\<close>

abbreviation term_rx :: "nat \<Rightarrow> jsstring \<Rightarrow> rx list" where
  "term_rx n v \<equiv> [rws, rlit ''+'', rws, rlit v, rws, rlit ''*'', rws, RCap n rnum]"

lemma term_misses_close: "mseq (term_rx n v) k (CHR '')'' # t) c"
  by (intro mseq_ws mseq_lit) (simp_all add: is_ws_def)

lemma term_misses_other:
  assumes "apart v w" "\<not> head_is is_ws (w @ '' * '' @ t)" "\<not> head_is is_ws v" "v \<noteq> []"
  shows "mseq (term_rx n v) k ('' + '' @ w @ '' * '' @ t) c"
proof -
  let ?s = "w @ '' * '' @ t" and ?tail = "[rws, rlit ''*'', rws, RCap n rnum]"
  have "mseq (rlit v # ?tail) k ?s c"
  proof (cases "strip v ?s")
    case (Some r)
    with assms(1) have r: "\<not> head_is is_ws r" "\<not> head_is (\<lambda>c. c = CHR ''*'') r"
      by (auto simp: apart_def split: option.splits dest!: spec [of _ "''* '' @ t"])
    then have "strip ''*'' r = None" by (simp add: strip_first)
    then show ?thesis by (intro mseq_lit_then [OF Some] mseq_ws [OF r(1)] mseq_lit)
  qed (rule mseq_lit)
  moreover have "mseq (rlit v # ?tail) k (CHR '' '' # ?s) c"
    using assms(3,4) by (intro mseq_lit) (cases v; auto simp: is_ws_def)
  ultimately have "mseq (rws # rlit v # ?tail) k (CHR '' '' # ?s) c"
    using assms(2) by (intro mseq_sp)
  then have "mseq (rlit ''+'' # rws # rlit v # ?tail) k (CHR ''+'' # CHR '' '' # ?s) c"
    by (intro mseq_lit_then [of _ _ "CHR '' '' # ?s"]) simp_all
  moreover have "mseq (rlit ''+'' # rws # rlit v # ?tail) k (CHR '' '' # CHR ''+'' # CHR '' '' # ?s) c"
    by (intro mseq_lit) simp
  ultimately show ?thesis unfolding append_Cons append_Nil by (intro mseq_sp) (simp_all add: is_ws_def)
qed

text \<open>What follows the terms: the closing parenthesis, or another term.\<close>

lemma terms_text_cases:
  "terms_text xs = [] \<or> (\<exists>w n s. (w, n) \<in> set xs \<and> terms_text xs = '' + '' @ w @ '' * '' @ s)"
  by (induction xs rule: terms_text.induct) auto

definition term_ok :: "jsstring \<times> jsnum \<Rightarrow> bool" where
  "term_ok x \<longleftrightarrow> num_ok (snd x) \<and> fst x \<noteq> [] \<and> (\<forall>s. \<not> head_is is_ws (fst x @ s))"

lemma term_hit:
  assumes "term_ok (v, n)" "\<not> head_is is_num_char t" "hits k t (c(i := Some (num_to_string n))) R"
  shows "hseq (term_rx i v) k (('' + '' @ v @ '' * '' @ num_to_string n) @ t) c R"
proof -
  let ?n = "num_to_string n"
  have n: "list_all is_num_char ?n" "?n \<noteq> []" "\<not> head_is is_ws (?n @ t)"
    using assms(1) num_text num_text_ws by (auto simp: term_ok_def)
  have v: "\<not> head_is is_ws (v @ s)" for s using assms(1) by (simp add: term_ok_def)
  show ?thesis
    unfolding rnum_def append_assoc append_Cons append_Nil
    by (intro hseq_sp hseq_char hseq_lit hseq_cap_plus hseq_Nil) (simp_all add: n v assms is_ws_def)
qed

lemma terms_hit:
  assumes "sorted_wrt (\<lambda>x y. apart (fst x) (fst y)) xs" "list_all term_ok xs"
    and "hseq fin k (CHR '')'' # t) (upd_caps i xs c) R"
  shows "hseq (opt_terms i (map fst xs) @ fin) k (terms_text xs @ CHR '')'' # t) c R"
  using assms
proof (induction i xs c rule: upd_caps.induct)
  case (2 i v n xs c)
  let ?s = "terms_text xs @ CHR '')'' # t" and ?c = "if n = JDec 0 0 then c else c(i := Some (num_to_string n))"
  have rest: "hseq (opt_terms (i + 1) (map fst xs) @ fin) k ?s ?c R"
    using 2 by simp
  have ok: "term_ok (v, n)" "v \<noteq> []" "\<not> head_is is_ws v"
    using "2.prems"(2) by (auto simp: term_ok_def dest: spec [of _ "[]"])
  have "hseq (ROpt (rseq (term_rx i v)) # opt_terms (i + 1) (map fst xs) @ fin) k
      (terms_text ((v, n) # xs) @ CHR '')'' # t) c R"
  proof (cases "n = JDec 0 0")
    case True
    have "mseq (term_rx i v) k ?s c" for k
    proof (cases "terms_text xs = []")
      case True
      then show ?thesis by (simp only: append_Nil term_misses_close)
    next
      case False
      then obtain w n' s where w: "(w, n') \<in> set xs" "terms_text xs = '' + '' @ w @ '' * '' @ s"
        using terms_text_cases [of xs] by blast
      then have "apart v w" "term_ok (w, n')" using "2.prems"(1,2) by (auto simp: list_all_iff)
      with term_misses_other [of v w "s @ CHR '')'' # t"] ok show ?thesis
        by (simp only: w(2) append_assoc) (auto simp: term_ok_def)
    qed
    with rest True show ?thesis by (simp add: hseq_opt_absent del: rseq.simps)
  next
    case False
    have "\<not> head_is is_num_char ?s"
      using terms_text_cases [of xs] by (auto simp: is_num_char_def is_digit_def)
    with ok(1) have "hseq (term_rx i v) k' (('' + '' @ v @ '' * '' @ num_to_string n) @ ?s) c R"
      if "hits k' ?s (c(i := Some (num_to_string n))) R" for k'
      using that by (intro term_hit)
    moreover have "hseq (opt_terms (i + 1) (map fst xs) @ fin) k ?s (c(i := Some (num_to_string n))) R"
      using rest False by simp
    ultimately have "hseq (ROpt (rseq (term_rx i v)) # opt_terms (i + 1) (map fst xs) @ fin) k
        (('' + '' @ v @ '' * '' @ num_to_string n) @ ?s) c R"
      by (intro hseq_opt_present [where c' = "c(i := Some (num_to_string n))"]) simp_all
    then show ?thesis using False by (simp del: rseq.simps)
  qed
  then show ?case by (simp del: rseq.simps add: opt_term_rx_def)
qed simp

section \<open>Conditions\<close>

definition cond_in_ok :: "tier_condition_input \<Rightarrow> bool" where
  "cond_in_ok c \<longleftrightarrow> ti_var c \<in> {''p'', ''c'', ''len''} \<and> ti_op c \<in> {''<'', ''<='', ''>'', ''>=''} \<and>
     (case ti_value c of
        Some (NumValue n) \<Rightarrow> num_ok n \<and> list_all is_cond_num (num_to_string n)
      | _ \<Rightarrow> False)"

definition value_text :: "tier_condition_input \<Rightarrow> jsstring" where
  "value_text c = (case ti_value c of Some v \<Rightarrow> threshold_text v | None \<Rightarrow> [])"

definition cond_in_text :: "tier_condition_input \<Rightarrow> jsstring" where
  "cond_in_text c = ti_var c @ '' '' @ ti_op c @ '' '' @ value_text c"

definition conds_text :: "tier_condition_input list \<Rightarrow> jsstring" where
  "conds_text cs = js_join '' && '' (map cond_in_text cs)"

lemma cond_in_value:
  assumes "cond_in_ok c"
  obtains n where "ti_value c = Some (NumValue n)" "value_text c = num_to_string n" "num_ok n"
    "list_all is_cond_num (num_to_string n)" "num_to_string n \<noteq> []"
  using assms num_text
  by (auto simp: cond_in_ok_def value_text_def threshold_text_def split: option.splits threshold.splits)

lemma buildConditionStr_text:
  "list_all cond_in_ok cs \<Longrightarrow> buildConditionStr cs = conds_text cs"
proof -
  assume ok: "list_all cond_in_ok cs"
  have "List.map_filter (\<lambda>c. case ti_value c of None \<Rightarrow> None
       | Some v \<Rightarrow> if ti_var c \<noteq> [] \<and> ti_op c \<noteq> [] \<and> v \<noteq> TextValue []
                   then Some (ti_var c @ '' '' @ ti_op c @ '' '' @ threshold_text v) else None) cs =
      map cond_in_text cs"
    using ok
  proof (induction cs)
    case (Cons c cs)
    then obtain n where "ti_value c = Some (NumValue n)" "value_text c = num_to_string n"
      by (auto elim: cond_in_value)
    with Cons show ?case by (auto simp: cond_in_text_def cond_in_ok_def threshold_text_def List.map_filter_simps)
  qed (simp add: List.map_filter_simps)
  then show ?thesis by (simp only: buildConditionStr_def conds_text_def)
qed

lemma cond_var_step:
  "v \<in> {''p'', ''c'', ''len''} \<Longrightarrow> rxm cond_var_rx (q, v @ t, c) k = k (rev v @ q, t, c)"
  by (auto simp: cond_var_rx_def rx_step split: option.split)

lemma hseq_cond_var: "v \<in> {''p'', ''c'', ''len''} \<Longrightarrow> hseq rs k t c R \<Longrightarrow> hseq (cond_var_rx # rs) k (v @ t) c R"
  by (simp add: hseq_def hits_def rxm_rseq cond_var_step del: rseq.simps)

lemma hseq_cond_op:
  assumes "op \<in> {''<'', ''<='', ''>'', ''>=''}" "hseq rs k (CHR '' '' # t) c R" "mseq rs k (CHR ''='' # CHR '' '' # t) c"
  shows "hseq (cond_op_rx # rs) k (op @ CHR '' '' # t) c R"
  unfolding hseq_def hits_def
proof
  fix q
  obtain q' where "rxm (rseq rs) (rev op @ q, CHR '' '' # t, c) k = Some (q', R)"
    using assms(2) unfolding hseq_def hits_def by blast
  then show "\<exists>q'. rxm (rseq (cond_op_rx # rs)) (q, op @ CHR '' '' # t, c) k = Some (q', R)"
    using assms(1,3)
    by (auto simp: mseq_def misses_def rxm_rseq cond_op_rx_def rx_step simp del: rseq.simps)
qed

lemma one_cond_hit:
  assumes "cond_in_ok x" "\<not> head_is is_cond_num t" "hits k t c R"
  shows "hseq [cond_var_rx, rws, cond_op_rx, rws, rplus (RCls is_cond_num)] k (cond_in_text x @ t) c R"
proof -
  from assms(1) obtain n where n: "value_text x = num_to_string n" "num_ok n"
    "list_all is_cond_num (num_to_string n)" "num_to_string n \<noteq> []" by (rule cond_in_value)
  have op: "ti_op x \<in> {''<'', ''<='', ''>'', ''>=''}" "ti_var x \<in> {''p'', ''c'', ''len''}"
    using assms(1) by (auto simp: cond_in_ok_def)
  have "\<not> head_is is_ws (ti_op x @ s)" for s using op(1) by (auto simp: is_ws_def)
  moreover have "mseq [rws, rplus (RCls is_cond_num)] k (CHR ''='' # CHR '' '' # num_to_string n @ t) c"
    by (intro mseq_ws mseq_plus) (simp_all add: is_ws_def is_cond_num_def is_digit_def)
  ultimately show ?thesis
    unfolding cond_in_text_def n(1) append_assoc append_Cons append_Nil
    by (intro hseq_cond_var hseq_sp hseq_cond_op hseq_plus hseq_Nil)
      (use op n assms num_text_ws in simp_all)
qed

lemma and_cond_hit:
  assumes "cond_in_ok x" "\<not> head_is is_cond_num t" "hits k t c R"
  shows "hits (\<lambda>st. rxm (RCat and_rx one_cond_rx) st k) (('' && '' @ cond_in_text x) @ t) c R"
proof -
  have "\<not> head_is is_ws (cond_in_text x @ t)"
    using assms(1) by (auto simp: cond_in_ok_def cond_in_text_def is_ws_def)
  moreover from one_cond_hit [OF assms]
  have "hseq ([rlit ''&&''] @ [rws, cond_var_rx, rws, cond_op_rx, rws, rplus (RCls is_cond_num)]) k
      (''&&'' @ CHR '' '' # cond_in_text x @ t) c R"
    unfolding append_Cons [of "rlit ''&&''"] append_Nil [of "[rws, cond_var_rx, rws, cond_op_rx, rws, rplus (RCls is_cond_num)]"]
    by (intro hseq_lit hseq_sp \<open>\<not> head_is is_ws (cond_in_text x @ t)\<close>)
  ultimately have "hseq ([rws, rlit ''&&'', rws] @ [cond_var_rx, rws, cond_op_rx, rws, rplus (RCls is_cond_num)]) k
      ('' && '' @ cond_in_text x @ t) c R"
    unfolding append_Cons append_Nil by (intro hseq_sp) (simp_all add: is_ws_def)
  then show ?thesis unfolding and_rx_def one_cond_rx_def append_assoc by (rule hits_seq_pair)
qed

text \<open>The group of conditions before a question mark.\<close>

definition more_conds :: "tier_condition_input list \<Rightarrow> jsstring" where
  "more_conds cs = concat (map (\<lambda>c. '' && '' @ cond_in_text c) cs)"

lemma conds_text_Cons: "conds_text (x # cs) = cond_in_text x @ more_conds cs"
  by (induction cs arbitrary: x) (simp_all add: conds_text_def more_conds_def)

lemma more_conds_stop: "\<not> head_is is_cond_num (more_conds cs @ '' ? '' @ t)"
  by (cases cs) (auto simp: more_conds_def is_cond_num_def is_digit_def)

lemma more_conds_hit:
  assumes "list_all cond_in_ok cs" "hits k ('' ? '' @ t) c R"
  shows "hits (\<lambda>st. rxm (RStar (RCat and_rx one_cond_rx)) st k) (more_conds cs @ '' ? '' @ t) c R"
  using assms(1)
proof (induction cs)
  case Nil
  have "misses (\<lambda>st. rxm (RCat and_rx one_cond_rx) st k') (CHR '' '' # CHR ''?'' # CHR '' '' # t) c" for k'
    by (simp add: misses_def and_rx_def rx_step rws_def star_cls_Cons is_ws_def)
  then show ?case using assms(2) by (simp add: more_conds_def hits_star_end)
next
  case (Cons x cs)
  then have "hits (\<lambda>st. rxm (RStar (RCat and_rx one_cond_rx)) st k)
      (('' && '' @ cond_in_text x) @ more_conds cs @ '' ? '' @ t) c R"
    by (intro hits_star_step [where u = "'' && '' @ cond_in_text x" and t = "more_conds cs @ '' ? '' @ t"]
        and_cond_hit more_conds_stop) simp_all
  then show ?case by (simp add: more_conds_def)
qed

lemma cond_group_hit:
  assumes "list_all cond_in_ok cs" "cs \<noteq> []" "hseq rs k ('' ? '' @ t) (c(1 := Some (conds_text cs))) R"
  shows "hseq (condGroup # rs) k (conds_text cs @ '' ? '' @ t) c R"
  unfolding condGroup_def
proof (rule hseq_cap)
  fix k'
  assume "hits k' ('' ? '' @ t) c R"
  moreover obtain x ys where cs: "cs = x # ys" using assms(2) by (cases cs) auto
  ultimately have "hits (\<lambda>st. rxm (RStar (RCat and_rx one_cond_rx)) st k') (more_conds ys @ '' ? '' @ t) c R"
    using assms(1) by (intro more_conds_hit) simp_all
  with assms(1) show "hits (\<lambda>st. rxm (RCat one_cond_rx (RStar (RCat and_rx one_cond_rx))) st k')
      (conds_text cs @ '' ? '' @ t) c R"
    using one_cond_hit [of x "more_conds ys @ '' ? '' @ t"] more_conds_stop [of ys t]
    by (simp add: cs conds_text_Cons hits_cat one_cond_rx_def flip: hseq_def del: rseq.simps append_Cons append.simps)
qed (rule assms(3))

text \<open>Reading the conditions of a group.\<close>

lemma cond_in_text_chars:
  assumes "cond_in_ok x"
  shows "cond_in_text x \<noteq> []" "\<not> is_ws (last (cond_in_text x))" "CHR ''&'' \<notin> set (cond_in_text x)"
    "trimmed (cond_in_text x)"
proof -
  from assms obtain n where n: "value_text x = num_to_string n" "list_all is_cond_num (num_to_string n)"
    "num_to_string n \<noteq> []" by (rule cond_in_value)
  have num: "\<not> is_ws c \<and> c \<noteq> CHR ''&''" if "c \<in> set (num_to_string n)" for c
    using n(2) that by (auto simp: list_all_iff is_cond_num_def is_ws_def is_digit_def)
  show ne: "cond_in_text x \<noteq> []" by (simp add: cond_in_text_def)
  show ws: "\<not> is_ws (last (cond_in_text x))" using n num last_in_set by (simp add: cond_in_text_def)
  show "CHR ''&'' \<notin> set (cond_in_text x)"
    using assms num by (auto simp: cond_in_text_def n(1) cond_in_ok_def)
  have "\<not> is_ws (hd (cond_in_text x))" using assms by (auto simp: cond_in_text_def cond_in_ok_def is_ws_def)
  with ws show "trimmed (cond_in_text x)" by (simp add: trimmed_def)
qed

lemma and_rx_misses_run:
  assumes "cond_in_ok x" "cond_in_text x = v @ w" "w \<noteq> []"
  shows "misses (\<lambda>st. rxm and_rx st Some) (w @ t) (\<lambda>_. None)"
proof -
  note ch = cond_in_text_chars [OF assms(1)]
  have "misses (\<lambda>st. rxm rws st (\<lambda>st. rxm (rseq [rlit ''&&'', rws]) st Some)) (w @ t) (\<lambda>_. None)"
  proof (rule misses_ws_run [OF assms(3)])
    show "\<not> is_ws (last w)" using ch(2) assms(2,3) by simp
    fix q y s
    assume "y \<in> set w"
    then have "y \<noteq> CHR ''&''" using ch(3) assms(2) by auto
    then show "rxm (rseq [rlit ''&&'', rws]) (q, y # s, \<lambda>_. None) Some = None" by (auto simp: rx_step)
  qed
  then show ?thesis by (simp add: and_rx_def misses_cat)
qed

lemma and_rx_misses_Nil: "misses (\<lambda>st. rxm and_rx st Some) [] (\<lambda>_. None)"
  by (simp add: misses_def and_rx_def rx_step rws_def star_cls_Nil)

lemma split_more_conds:
  assumes "list_all cond_in_ok cs"
  shows "rx_split and_rx cur p (more_conds cs) = cur # map cond_in_text cs"
  using assms
proof (induction cs arbitrary: cur p)
  case Nil
  then show ?case by (simp add: more_conds_def rx_split_end and_rx_misses_Nil)
next
  case (Cons x cs)
  then have x: "cond_in_ok x" by simp
  have "\<not> head_is is_ws (cond_in_text x @ more_conds cs)"
    using x by (auto simp: cond_in_ok_def cond_in_text_def is_ws_def)
  then have "hseq [rws, rlit ''&&'', rws] Some ('' '' @ ''&&'' @ '' '' @ cond_in_text x @ more_conds cs) (\<lambda>_. None)
      (cond_in_text x @ more_conds cs, \<lambda>_. None)"
    unfolding append_Cons [of "CHR '' ''"] append_Nil
    by (intro hseq_sp hseq_lit hseq_Nil hits_done) (simp_all add: is_ws_def)
  then have "hits (\<lambda>st. rxm and_rx st Some) ('' '' @ ''&&'' @ '' '' @ cond_in_text x @ more_conds cs) (\<lambda>_. None)
      (cond_in_text x @ more_conds cs, \<lambda>_. None)"
    by (simp add: hseq_def and_rx_def)
  then obtain q where "rx_split and_rx cur p ('' '' @ ''&&'' @ '' '' @ cond_in_text x @ more_conds cs) =
      cur # rx_split and_rx [] q (cond_in_text x @ more_conds cs)"
    by (rule rx_split_sep) simp
  moreover have "rx_split and_rx [] q (cond_in_text x @ more_conds cs) =
      rx_split and_rx ([] @ cond_in_text x) (rev (cond_in_text x) @ q) (more_conds cs)"
    by (rule rx_split_run) (use and_rx_misses_run [OF x] in blast)
  ultimately show ?case using Cons by (simp add: more_conds_def)
qed

lemma split_conds:
  assumes "list_all cond_in_ok cs" "cs \<noteq> []"
  shows "rx_split and_rx [] [] (conds_text cs) = map cond_in_text cs"
proof -
  obtain x ys where cs: "cs = x # ys" using assms(2) by (cases cs) auto
  have "rx_split and_rx [] [] (cond_in_text x @ more_conds ys) =
      rx_split and_rx ([] @ cond_in_text x) (rev (cond_in_text x) @ []) (more_conds ys)"
    by (rule rx_split_run) (use and_rx_misses_run [of x] assms(1) cs in auto)
  then show ?thesis using assms(1) by (simp add: cs conds_text_Cons split_more_conds)
qed

definition parsed_cond :: "tier_condition_input \<Rightarrow> tier_condition" where
  "parsed_cond x = \<lparr>cond_var = ti_var x, cond_op = ti_op x,
     cond_value = (case ti_value x of Some (NumValue n) \<Rightarrow> n | _ \<Rightarrow> JNaN)\<rparr>"

lemma as_input_parsed: "cond_in_ok x \<Longrightarrow> as_input (parsed_cond x) = x"
  by (cases x) (auto simp: as_input_def parsed_cond_def cond_in_ok_def split: option.splits threshold.splits)

lemma hseq_cap_var:
  "v \<in> {''p'', ''c'', ''len''} \<Longrightarrow> hseq rs k t (c(n := Some v)) R \<Longrightarrow> hseq (RCap n cond_var_rx # rs) k (v @ t) c R"
  by (rule hseq_cap) (auto simp: hits_def cond_var_step)

lemma hseq_cap_op:
  assumes "op \<in> {''<'', ''<='', ''>'', ''>=''}" "hseq rs k (CHR '' '' # t) (c(n := Some op)) R"
    "\<And>c. mseq rs k (CHR ''='' # CHR '' '' # t) c"
  shows "hseq (RCap n cond_op_rx # rs) k (op @ CHR '' '' # t) c R"
  unfolding hseq_def hits_def
proof
  fix q
  obtain q' where "rxm (rseq rs) (rev op @ q, CHR '' '' # t, c(n := Some op)) k = Some (q', R)"
    using assms(2) unfolding hseq_def hits_def by blast
  then show "\<exists>q'. rxm (rseq (RCap n cond_op_rx # rs)) (q, op @ CHR '' '' # t, c) k = Some (q', R)"
    using assms(1,3)
    by (auto simp: mseq_def misses_def rxm_rseq cond_op_rx_def rx_step simp del: rseq.simps)
qed

lemma match_cond_full:
  assumes "cond_in_ok x"
  shows "rx_match cond_full_rx (cond_in_text x) =
    Some ((\<lambda>_. None)(1 := Some (ti_var x), 2 := Some (ti_op x), 3 := Some (value_text x)))"
proof -
  from assms obtain n where n: "value_text x = num_to_string n" "num_ok n"
    "list_all is_cond_num (num_to_string n)" "num_to_string n \<noteq> []" by (rule cond_in_value)
  have op: "ti_op x \<in> {''<'', ''<='', ''>'', ''>=''}" "ti_var x \<in> {''p'', ''c'', ''len''}"
    "\<not> head_is is_ws (ti_op x @ s)" for s
    using assms by (auto simp: cond_in_ok_def is_ws_def)
  have "mseq [rws, RCap 3 (rplus (RCls is_cond_num)), REol] Some (CHR ''='' # CHR '' '' # num_to_string n @ []) c" for c
    by (intro mseq_ws mseq_cap_plus) (simp_all add: is_ws_def is_cond_num_def is_digit_def)
  with op n num_text_ws [OF n(2), of "[]"]
  have "hseq [RCap 1 cond_var_rx, rws, RCap 2 cond_op_rx, rws, RCap 3 (rplus (RCls is_cond_num)), REol] Some
      (ti_var x @ CHR '' '' # ti_op x @ CHR '' '' # num_to_string n @ []) (\<lambda>_. None)
      ([], (\<lambda>_. None)(1 := Some (ti_var x), 2 := Some (ti_op x), 3 := Some (num_to_string n)))"
    by (intro hseq_cap_var hseq_sp hseq_cap_op hseq_cap_plus hseq_eol hseq_Nil hits_done) simp_all
  then show ?thesis
    unfolding cond_full_rx_def by (simp only: rx_match_hseq [where t = "[]"] cond_in_text_def n(1) append_Cons append_Nil
        append_Nil2 list.distinct not_False_eq_True)
qed

lemma parse_conds:
  assumes "list_all cond_in_ok cs"
  shows "parse_conditions (conds_text cs) = map parsed_cond cs"
proof (cases "cs = []")
  case True
  then show ?thesis by (simp add: parse_conditions_def conds_text_def)
next
  case False
  then have "conds_text cs \<noteq> []"
    by (cases cs) (simp_all add: conds_text_Cons cond_in_text_def)
  moreover have "List.map_filter (\<lambda>cp. case rx_match cond_full_rx (js_trim cp) of
               Some cm \<Rightarrow> Some \<lparr>cond_var = cap cm 1, cond_op = cap cm 2, cond_value = to_number (cap cm 3)\<rparr>
             | None \<Rightarrow> None) (map cond_in_text cs) = map parsed_cond cs"
    using assms
  proof (induction cs)
    case (Cons x cs)
    then obtain n where "ti_value x = Some (NumValue n)" "value_text x = num_to_string n" "num_ok n"
      by (auto elim: cond_in_value)
    with Cons show ?case
      by (simp add: List.map_filter_simps match_cond_full cond_in_text_chars js_trim_trimmed parsed_cond_def
          cap_def num_ok_number)
  qed (simp add: List.map_filter_simps)
  ultimately show ?thesis
    using assms False by (simp add: parse_conditions_def split_conds)
qed

section \<open>Tiers\<close>

definition costs_ok :: "visual_tier \<Rightarrow> bool" where
  "costs_ok t \<longleftrightarrow> num_ok (vt_input_unit_cost t) \<and> num_ok (vt_output_unit_cost t) \<and>
     list_all (\<lambda>x. num_ok (snd x)) (tier_terms t)"

definition label_ok :: "jsstring \<Rightarrow> bool" where
  "label_ok l \<longleftrightarrow> l \<noteq> [] \<and> list_all not_quote l"

definition body_text :: "visual_tier \<Rightarrow> jsstring" where
  "body_text t = ''p * '' @ num_to_string (vt_input_unit_cost t) @ '' + c * '' @
     num_to_string (vt_output_unit_cost t) @ terms_text (tier_terms t)"

lemma join_terms: "js_join '' + '' (x # ys) = x @ concat (map (\<lambda>y. '' + '' @ y) ys)"
  by (induction ys arbitrary: x) simp_all

lemma cache_var_map:
  "BILLING_CACHE_VAR_MAP =
    [(''cache_read_unit_cost'', ''cr''), (''cache_create_unit_cost'', ''cc''),
     (''cache_create_1h_unit_cost'', ''cc1h''), (''image_unit_cost'', ''img''),
     (''image_output_unit_cost'', ''img_o''), (''audio_input_unit_cost'', ''ai''),
     (''audio_output_unit_cost'', ''ao'')]"
  by (simp add: BILLING_CACHE_VAR_MAP_def BILLING_EXTRA_VARS_def BILLING_VARS_def price_var_def some_text_def)

lemma terms_text_concat:
  "concat (map (\<lambda>y. '' + '' @ y) (List.map_filter (\<lambda>(v, n). if n \<noteq> JDec 0 0 then Some (term_text v n) else None) xs)) =
     terms_text xs"
  by (induction xs rule: terms_text.induct) (simp_all add: List.map_filter_simps term_text_def)

lemma map_filter_fields:
  "List.map_filter (\<lambda>(field, v). g (v, h field)) xs = List.map_filter g (map (\<lambda>(field, v). (v, h field)) xs)"
  by (induction xs) (auto simp: List.map_filter_simps split: option.split)

lemma tier_terms_fields:
  assumes "costs_ok t"
  shows "map (\<lambda>(field, v). (v, opt_num (map_of (tier_fields t) field))) BILLING_CACHE_VAR_MAP = tier_terms t"
  using assms num_ok_number
  by (simp add: cache_var_map tier_fields_def tier_terms_def costs_ok_def opt_num_def)

lemma build_body: "costs_ok t \<Longrightarrow> buildTierBodyExpr t = body_text t"
proof -
  assume ok: "costs_ok t"
  have "List.map_filter (\<lambda>(field, exprVar).
          let v = opt_num (map_of (tier_fields t) field) in
          if v \<noteq> JDec 0 0 then Some (term_text exprVar v) else None) BILLING_CACHE_VAR_MAP =
      List.map_filter (\<lambda>(v, n). if n \<noteq> JDec 0 0 then Some (term_text v n) else None) (tier_terms t)"
    using map_filter_fields [of "\<lambda>(v, n). if n \<noteq> JDec 0 0 then Some (term_text v n) else None"]
    by (simp add: Let_def flip: tier_terms_fields [OF ok])
  then show ?thesis
    using ok num_ok_number terms_text_concat [of "tier_terms t"]
    by (simp add: buildTierBodyExpr_def body_text_def join_terms term_text_def costs_ok_def)
qed

text \<open>The text of a tier with its conditions.\<close>

definition cond_prefix :: "tier_condition_input list \<Rightarrow> jsstring" where
  "cond_prefix cs = (if cs = [] then [] else conds_text cs @ '' ? '')"

definition tier_text :: "jsstring \<Rightarrow> visual_tier \<Rightarrow> jsstring" where
  "tier_text l t = ''tier(\"'' @ l @ ''\", '' @ body_text t @ '')''"

definition piece :: "tier_condition_input list \<Rightarrow> jsstring \<Rightarrow> visual_tier \<Rightarrow> jsstring" where
  "piece cs l t = cond_prefix cs @ tier_text l t"

definition prefix_caps :: "tier_condition_input list \<Rightarrow> captures \<Rightarrow> captures" where
  "prefix_caps cs c = (if cs = [] then c else c(1 := Some (conds_text cs)))"

lemma prefix_hit:
  assumes "list_all cond_in_ok cs" "hseq rs k (''tier(\"'' @ s) (prefix_caps cs c) R"
  shows "hseq (cond_prefix_rx # rs) k (cond_prefix cs @ ''tier(\"'' @ s) c R"
proof (cases "cs = []")
  case True
  have "mseq [condGroup, rws, rlit ''?'', rws] k' (''tier(\"'' @ s) c" for k'
    by (simp add: mseq_def misses_def condGroup_def rxm_cap rx_core one_cond_rx_def cond_var_rx_def rxm_lit)
  then show ?thesis
    using assms(2) True unfolding cond_prefix_rx_def by (simp add: hseq_opt_absent prefix_caps_def cond_prefix_def del: rseq.simps)
next
  case False
  have "hseq [condGroup, rws, rlit ''?'', rws] k' (conds_text cs @ '' ? '' @ ''tier(\"'' @ s) c R"
    if "hits k' (''tier(\"'' @ s) (c(1 := Some (conds_text cs))) R" for k'
  proof (rule cond_group_hit [OF assms(1) False])
    show "hseq [rws, rlit ''?'', rws] k' ('' ? '' @ ''tier(\"'' @ s) (c(1 := Some (conds_text cs))) R"
      unfolding append_Cons append_Nil
      by (intro hseq_sp hseq_char hseq_Nil) (use that in \<open>simp_all add: is_ws_def\<close>)
  qed
  then have "hseq (cond_prefix_rx # rs) k ((conds_text cs @ '' ? '') @ ''tier(\"'' @ s) c R"
    unfolding cond_prefix_rx_def
    using assms(2) False
    by (intro hseq_opt_present [where c' = "c(1 := Some (conds_text cs))"]) (simp_all add: prefix_caps_def)
  then show ?thesis using False by (simp add: cond_prefix_def)
qed

lemma terms_ok: "costs_ok t \<Longrightarrow> list_all term_ok (tier_terms t)"
  by (simp add: costs_ok_def tier_terms_def term_ok_def is_ws_def)

lemma body_hit:
  assumes "costs_ok t"
    and "hseq fin k (CHR '')'' # s) (upd_caps (n + 2) (tier_terms t)
      (c(n := Some (num_to_string (vt_input_unit_cost t)), n + 1 := Some (num_to_string (vt_output_unit_cost t))))) R"
  shows "hseq (body_pat n @ fin) k (body_text t @ CHR '')'' # s) c R"
proof -
  let ?a = "num_to_string (vt_input_unit_cost t)" and ?b = "num_to_string (vt_output_unit_cost t)"
  let ?t = "terms_text (tier_terms t) @ CHR '')'' # s"
  have ok: "num_ok (vt_input_unit_cost t)" "num_ok (vt_output_unit_cost t)" using assms(1) by (auto simp: costs_ok_def)
  have vars: "map snd BILLING_CACHE_VAR_MAP = map fst (tier_terms t)" by (simp add: cache_var_map tier_terms_def)
  have "hseq (opt_terms (n + 2) (map snd BILLING_CACHE_VAR_MAP) @ fin) k ?t (c(n := Some ?a, n + 1 := Some ?b)) R"
    unfolding vars by (rule terms_hit [OF terms_apart terms_ok [OF assms(1)] assms(2)])
  moreover have "\<not> head_is is_num_char ?t"
    using terms_text_cases [of "tier_terms t"] by (auto simp: is_num_char_def is_digit_def)
  moreover have "\<not> head_is is_ws (?b @ ?t)" "\<not> head_is is_ws (?a @ u)" for u
    using ok num_text_ws by auto
  ultimately show ?thesis
    unfolding body_pat_def body_text_def rnum_def append_assoc append_Cons append_Nil
    by (intro hseq_char hseq_sp hseq_cap_plus)
      (use ok num_text in \<open>simp_all add: is_ws_def is_num_char_def is_digit_def\<close>)
qed

text \<open>The captures of the editor's pattern and of the pricing page's pattern.\<close>

definition visual_caps :: "nat \<Rightarrow> jsstring \<Rightarrow> visual_tier \<Rightarrow> captures \<Rightarrow> captures" where
  "visual_caps n l t c = upd_caps (n + 3) (tier_terms t)
     (c(n := Some l, n + 1 := Some (num_to_string (vt_input_unit_cost t)),
        n + 2 := Some (num_to_string (vt_output_unit_cost t))))"

lemma visual_tail_hit:
  assumes "costs_ok t" "list_all not_quote l" "hseq fin k (CHR '')'' # s) (visual_caps n l t c) R"
  shows "hseq ([rlit ''tier(\"'', RCap n (RStar (RCls not_quote)), rlit ''\",'', rws] @ body_pat (n + 1) @ fin) k
    (tier_text l t @ s) c R"
proof -
  have "hseq (body_pat (n + 1) @ fin) k (body_text t @ CHR '')'' # s) (c(n := Some l)) R"
    using assms(1,3) by (intro body_hit) (simp_all add: visual_caps_def numeral_3_eq_3)
  moreover have "\<not> head_is is_ws (body_text t @ CHR '')'' # s)" by (simp add: body_text_def is_ws_def)
  ultimately have "hseq (rlit ''tier(\"'' # RCap n (RStar (RCls not_quote)) # rlit ''\",'' # rws # body_pat (n + 1) @ fin) k
      (''tier(\"'' @ l @ ''\",'' @ CHR '' '' # body_text t @ CHR '')'' # s) c R"
    using assms(2) by (intro hseq_lit hseq_cap_star hseq_sp) (simp_all add: not_quote_def)
  then show ?thesis by (simp add: tier_text_def)
qed

section \<open>Scanning a chain of tiers\<close>

text \<open>
  The contract of a pattern that is applied repeatedly to a chain of tiers: it reads a tier with its
  conditions wherever one starts and does not match in between. Then the successive matches are
  exactly the tiers.
\<close>

locale tier_matcher =
  fixes r :: rx
    and caps_of :: "tier_condition_input list \<Rightarrow> jsstring \<Rightarrow> visual_tier \<Rightarrow> captures"
  assumes hit: "costs_ok t \<Longrightarrow> label_ok l \<Longrightarrow> list_all cond_in_ok cs \<Longrightarrow>
      hits (\<lambda>st. rxm r st Some) (piece cs l t @ s) (\<lambda>_. None) (s, caps_of cs l t)"
    and miss_sep: "x = CHR '' '' \<or> x = CHR '':'' \<Longrightarrow> misses (\<lambda>st. rxm r st Some) (x # s) (\<lambda>_. None)"
    and miss_end: "misses (\<lambda>st. rxm r st Some) [] (\<lambda>_. None)"
    and reads_some: "0 < rx_min r"
    and no_default: "rx_exec_all r q ''p * 0 + c * 0'' = []"
begin

lemma exec_sep: "\<exists>q. rx_exec_all r p ('' : '' @ s) = rx_exec_all r q s"
  using reads_some by (simp add: rx_exec_all_skip miss_sep) blast

lemma exec_piece:
  assumes "costs_ok t" "label_ok l" "list_all cond_in_ok cs"
  shows "\<exists>q. rx_exec_all r p (piece cs l t @ s) = caps_of cs l t # rx_exec_all r q s"
proof -
  have "length s < length (piece cs l t @ s)" by (simp add: piece_def tier_text_def)
  with hit [OF assms, of s] show ?thesis using rx_exec_all_hit by metis
qed

theorem exec_chain:
  assumes "list_all (\<lambda>(cs, l, t). costs_ok t \<and> label_ok l \<and> list_all cond_in_ok cs) items"
  shows "rx_exec_all r p (js_join '' : '' (map (\<lambda>(cs, l, t). piece cs l t) items)) =
    map (\<lambda>(cs, l, t). caps_of cs l t) items"
  using assms
proof (induction items arbitrary: p rule: induct_list012)
  case 1
  then show ?case by (simp add: rx_exec_all_Nil miss_end)
next
  case (2 x)
  obtain cs l t where x: "x = (cs, l, t)" by (cases x)
  with 2 exec_piece [of t l cs p "[]"] show ?case by (auto simp: rx_exec_all_Nil miss_end)
next
  case (3 x y zs)
  obtain cs l t where x: "x = (cs, l, t)" by (cases x)
  let ?rest = "js_join '' : '' (map (\<lambda>(cs, l, t). piece cs l t) (y # zs))"
  obtain q where q: "rx_exec_all r p (piece cs l t @ '' : '' @ ?rest) =
      caps_of cs l t # rx_exec_all r q ('' : '' @ ?rest)"
    using exec_piece [of t l cs p "'' : '' @ ?rest"] 3 x by auto
  obtain q' where "rx_exec_all r q ('' : '' @ ?rest) = rx_exec_all r q' ?rest"
    using exec_sep by blast
  with q 3 x show ?case by simp
qed

lemma exec_default:
  assumes "costs_ok t" "label_ok l" "list_all cond_in_ok cs"
  shows "rx_exec_all r p (piece cs l t @ '' : p * 0 + c * 0'') = [caps_of cs l t]"
proof -
  obtain q where "rx_exec_all r p (piece cs l t @ '' : '' @ ''p * 0 + c * 0'') =
      caps_of cs l t # rx_exec_all r q ('' : '' @ ''p * 0 + c * 0'')"
    using exec_piece [OF assms] by blast
  moreover obtain q' where "rx_exec_all r q ('' : '' @ ''p * 0 + c * 0'') = rx_exec_all r q' ''p * 0 + c * 0''"
    using exec_sep by blast
  ultimately show ?thesis using no_default [of q'] by simp
qed

end

lemma prefix_misses_sep:
  "x = CHR '' '' \<or> x = CHR '':'' \<Longrightarrow> misses (\<lambda>st. rxm (RCat cond_prefix_rx (RCat (rlit ''tier(\"'') b)) st k) (x # s) c"
  "misses (\<lambda>st. rxm (RCat cond_prefix_rx (RCat (rlit ''tier(\"'') b)) st k) [] c"
  by (auto simp: misses_def cond_prefix_rx_def rxm_opt condGroup_def rxm_cap rx_core one_cond_rx_def
      cond_var_rx_def rxm_lit)

lemma prefix_no_default:
  "0 < rx_min (RCat cond_prefix_rx (RCat (rlit ''tier(\"'') b)) \<Longrightarrow>
   rx_exec_all (RCat cond_prefix_rx (RCat (rlit ''tier(\"'') b)) q ''p * 0 + c * 0'' = []"
  by (subst rx_exec_all.simps)
    (simp add: rx_at_def cond_prefix_rx_def rxm_opt condGroup_def rxm_cap rx_core one_cond_rx_def
      cond_var_rx_def cond_op_rx_def rxm_lit rws_def star_cls_Cons star_cls_Nil is_ws_def)

lemma visual_tier_rx_form:
  "visual_tier_rx = RCat cond_prefix_rx (RCat (rlit ''tier(\"'') (rseq ([RCap 2 (RStar (RCls not_quote)),
     rlit ''\",'', rws] @ body_pat 3 @ [rlit '')''])))"
  by (simp add: visual_tier_rx_def)

interpretation visual: tier_matcher visual_tier_rx
  "\<lambda>cs l t. visual_caps 2 l t (prefix_caps cs (\<lambda>_. None))"
proof
  fix t l cs s
  assume "costs_ok t" "label_ok l" and cs: "list_all cond_in_ok cs"
  let ?c = "prefix_caps cs (\<lambda>_. None)"
  have "hseq [rlit '')''] Some (CHR '')'' # s) (visual_caps 2 l t ?c) (s, visual_caps 2 l t ?c)"
    by (intro hseq_char hseq_Nil hits_done)
  then have "hseq ([rlit ''tier(\"'', RCap 2 (RStar (RCls not_quote)), rlit ''\",'', rws] @ body_pat (2 + 1) @ [rlit '')''])
      Some (tier_text l t @ s) ?c (s, visual_caps 2 l t ?c)"
    using \<open>costs_ok t\<close> \<open>label_ok l\<close> by (intro visual_tail_hit) (simp_all add: label_ok_def)
  then have "hseq (cond_prefix_rx # [rlit ''tier(\"'', RCap 2 (RStar (RCls not_quote)), rlit ''\",'', rws] @
      body_pat (2 + 1) @ [rlit '')'']) Some (cond_prefix cs @ tier_text l t @ s) (\<lambda>_. None) (s, visual_caps 2 l t ?c)"
    using prefix_hit [OF cs] unfolding tier_text_def append_assoc by blast
  then show "hits (\<lambda>st. rxm visual_tier_rx st Some) (piece cs l t @ s) (\<lambda>_. None) (s, visual_caps 2 l t ?c)"
    by (simp add: hseq_def visual_tier_rx_def piece_def del: rseq.simps)
next
  show min: "0 < rx_min visual_tier_rx" by (simp add: visual_tier_rx_form rlit.simps)
  then show "rx_exec_all visual_tier_rx q ''p * 0 + c * 0'' = []" for q
    unfolding visual_tier_rx_form by (rule prefix_no_default)
qed (simp_all only: visual_tier_rx_form prefix_misses_sep)

section \<open>Reading a tier back\<close>

definition tier_wf :: "visual_tier \<Rightarrow> bool" where
  "tier_wf t \<longleftrightarrow> costs_ok t \<and> label_ok (vt_label t) \<and> list_all cond_in_ok (vt_conditions t) \<and>
     vt_cache_mode t = (if num_positive (vt_cache_create_1h_unit_cost t) then Timed else Generic)"

text \<open>A configuration that prints a complete chain: with several tiers, every tier but the last has
  conditions.\<close>

definition config_wf :: "visual_config \<Rightarrow> bool" where
  "config_wf ts \<longleftrightarrow> ts \<noteq> [] \<and> list_all tier_wf ts \<and>
     (length ts = 1 \<or>
      vt_conditions (last ts) = [] \<and> list_all (\<lambda>t. vt_conditions t \<noteq> []) (butlast ts))"

lemma visual_caps_low:
  "visual_caps n l t c n = Some l"
  "visual_caps n l t c (n + 1) = Some (num_to_string (vt_input_unit_cost t))"
  "visual_caps n l t c (n + 2) = Some (num_to_string (vt_output_unit_cost t))"
  "j < n \<Longrightarrow> visual_caps n l t c j = c j"
  by (simp_all add: visual_caps_def upd_caps_below)

lemma visual_caps_term:
  assumes "k < 7" "c (n + 3 + k) = None"
  shows "visual_caps n l t c (n + 3 + k) =
    (if snd (tier_terms t ! k) = JDec 0 0 then None else Some (num_to_string (snd (tier_terms t ! k))))"
proof -
  have "k < length (tier_terms t)" using assms(1) by (simp add: tier_terms_def)
  then show ?thesis unfolding visual_caps_def using assms(2) by (subst upd_caps_at) simp_all
qed

lemma cap_term:
  assumes "k < 7" "c (n + 3 + k) = None" "costs_ok t"
  shows "opt_num (map_option to_number (visual_caps n l t c (n + 3 + k))) = snd (tier_terms t ! k)"
proof -
  have "k < length (tier_terms t)" using assms(1) by (simp add: tier_terms_def)
  then have "num_ok (snd (tier_terms t ! k))" using assms(3) by (simp add: costs_ok_def list_all_length)
  then show ?thesis
    using visual_caps_term [where c = c and n = n and k = k, OF assms(1,2)] num_ok_number
    by (simp add: opt_num_def)
qed

lemma tier_back:
  assumes "tier_wf t" "\<And>j. n \<le> j \<Longrightarrow> c j = None"
  shows "normalizeVisualTier (matched_tier (visual_caps n (vt_label t) t c) n (vt_conditions t)) = t"
proof -
  let ?m = "visual_caps n (vt_label t) t c"
  have ok: "costs_ok t" "num_ok (vt_input_unit_cost t)" "num_ok (vt_output_unit_cost t)"
    "num_ok (vt_cache_create_1h_unit_cost t)"
    using assms(1) by (auto simp: tier_wf_def costs_ok_def tier_terms_def)
  have none: "c (n + 3 + k) = None" for k using assms(2) by simp
  have ix: "n + 3 + 0 = n + 3" "n + 3 + 1 = n + 4" "n + 3 + 2 = n + 5" "n + 3 + 3 = n + 6"
    "n + 3 + 4 = n + 7" "n + 3 + 5 = n + 8" "n + 3 + 6 = n + 9" by simp_all
  have "opt_num (map_option to_number (?m (n + 3 + k))) = snd (tier_terms t ! k)" if "k < 7" for k
    using that none ok(1) by (intro cap_term)
  note costs = this [of 0, unfolded ix] this [of 1, unfolded ix] this [of 2, unfolded ix]
    this [of 3, unfolded ix] this [of 4, unfolded ix] this [of 5, unfolded ix] this [of 6, unfolded ix]
  have "?m (n + 3 + 2) = (if vt_cache_create_1h_unit_cost t = JDec 0 0 then None
      else Some (num_to_string (vt_cache_create_1h_unit_cost t)))"
    using visual_caps_term [where c = c and n = n and k = 2 and t = t and l = "vt_label t"] none [of 2]
    by (simp add: tier_terms_def)
  then have mode: "getTierCacheMode (matched_tier ?m n (vt_conditions t)) = vt_cache_mode t"
    using assms(1) num_ok_number [OF ok(4)] unfolding ix
    by (simp add: getTierCacheMode_def matched_tier_def tier_wf_def)
  have "cap ?m n = vt_label t" "to_number (cap ?m (n + 1)) = vt_input_unit_cost t"
    "to_number (cap ?m (n + 2)) = vt_output_unit_cost t"
    using ok num_ok_number by (simp_all only: cap_def visual_caps_low) simp_all
  with costs mode show ?thesis
    by (simp add: normalizeVisualTier_def spread_def tier_terms_def) (simp add: matched_tier_def)
qed

lemma normalize_wf: "costs_ok t \<Longrightarrow> normalizeVisualTier (as_partial_tier t) = t"
  using num_ok_number
  by (simp add: normalizeVisualTier_def as_partial_tier_def spread_def opt_num_def costs_ok_def tier_terms_def)

lemma normalize_config: "list_all tier_wf ts \<Longrightarrow> ts \<noteq> [] \<Longrightarrow> normalizeVisualConfig (Some ts) = ts"
  by (auto simp: normalizeVisualConfig_def list_all_iff tier_wf_def normalize_wf intro: map_idI)

text \<open>The texts of configurations.\<close>

definition tier_item :: "visual_tier \<Rightarrow> tier_condition_input list \<times> jsstring \<times> visual_tier" where
  "tier_item t = (vt_conditions t, vt_label t, t)"

lemma tier_call_text: "tier_wf t \<Longrightarrow> tier_call (vt_label t) t = tier_text (vt_label t) t"
  by (simp add: tier_call_def tier_text_def build_body tier_wf_def)

lemma conds_text_Nil_iff: "conds_text cs = [] \<longleftrightarrow> cs = []"
  by (cases cs) (simp_all add: conds_text_Cons cond_in_text_def, simp add: conds_text_def)

lemma tier_chain_text:
  assumes "list_all tier_wf ts" "ts \<noteq> [] \<Longrightarrow> vt_conditions (last ts) = []"
  shows "tier_chain i ts = map (\<lambda>t. piece (vt_conditions t) (vt_label t) t) ts"
  using assms
proof (induction ts arbitrary: i)
  case (Cons t ts)
  have t: "tier_wf t" "vt_label t \<noteq> []" using Cons.prems(1) by (auto simp: tier_wf_def label_ok_def)
  then have "buildConditionStr (vt_conditions t) = conds_text (vt_conditions t)"
    by (simp add: buildConditionStr_text tier_wf_def)
  with t Cons.prems Cons.IH [of "i + 1"] show ?case
    by (cases ts) (auto simp: Let_def tier_call_text piece_def cond_prefix_def conds_text_Nil_iff conds_text_def [of "[]"])
qed simp

lemma piece_head:
  "cs \<noteq> [] \<Longrightarrow> list_all cond_in_ok cs \<Longrightarrow> \<exists>x s. piece cs l t = x # s \<and> x \<in> {CHR ''p'', CHR ''c'', CHR ''l''}"
  "\<exists>s. piece [] l t = CHR ''t'' # s"
proof -
  assume "cs \<noteq> []" "list_all cond_in_ok cs"
  then obtain y ys where "cs = y # ys" "ti_var y \<in> {''p'', ''c'', ''len''}"
    by (cases cs) (auto simp: cond_in_ok_def)
  then show "\<exists>x s. piece cs l t = x # s \<and> x \<in> {CHR ''p'', CHR ''c'', CHR ''l''}"
    by (auto simp: piece_def cond_prefix_def conds_text_Cons cond_in_text_def)
qed (simp add: piece_def cond_prefix_def tier_text_def)

lemma no_version:
  assumes "x \<noteq> CHR ''v''"
  shows "rx_match visual_version_rx (x # s) = None"
  unfolding visual_version_rx_def using assms by (intro rx_match_mseq mseq_lit) auto

lemma no_single:
  assumes "x \<noteq> CHR ''t''"
  shows "rx_match single_rx (x # s) = None"
  unfolding single_rx_def append_Cons append_Nil using assms by (intro rx_match_mseq mseq_lit) auto

lemma single_match:
  assumes "costs_ok t" "label_ok l"
  shows "rx_match single_rx (piece [] l t) = Some (visual_caps 1 l t (\<lambda>_. None))"
proof -
  have "hseq [rlit '')'', REol] Some (CHR '')'' # []) (visual_caps 1 l t (\<lambda>_. None)) ([], visual_caps 1 l t (\<lambda>_. None))"
    by (intro hseq_char hseq_eol hseq_Nil hits_done)
  then have "hseq ([rlit ''tier(\"'', RCap 1 (RStar (RCls not_quote)), rlit ''\",'', rws] @ body_pat (1 + 1) @ [rlit '')'', REol])
      Some (tier_text l t @ []) (\<lambda>_. None) ([], visual_caps 1 l t (\<lambda>_. None))"
    using assms by (intro visual_tail_hit) (simp_all add: label_ok_def)
  then have "rx_match (rseq (RBol # [rlit ''tier(\"'', RCap 1 (RStar (RCls not_quote)), rlit ''\",'', rws] @ body_pat (1 + 1) @ [rlit '')'', REol]))
      (tier_text l t @ []) = Some (visual_caps 1 l t (\<lambda>_. None))"
    by (rule rx_match_hseq) simp
  then show ?thesis by (simp add: single_rx_def piece_def cond_prefix_def numeral_2_eq_2 del: rseq.simps)
qed

text \<open>The tiers read from the matches of the editor's pattern.\<close>

lemma tiers_back:
  assumes "list_all tier_wf ts"
  shows "map (\<lambda>m. normalizeVisualTier (matched_tier m 2 (map as_input (parse_conditions (cap m 1)))))
    (map (\<lambda>(cs, l, t). visual_caps 2 l t (prefix_caps cs (\<lambda>_. None))) (map tier_item ts)) = ts"
proof -
  have "normalizeVisualTier (matched_tier m 2 (map as_input (parse_conditions (cap m 1)))) = t"
    if t: "tier_wf t" and m: "m = visual_caps 2 (vt_label t) t (prefix_caps (vt_conditions t) (\<lambda>_. None))" for t m
  proof -
    have "cap m 1 = conds_text (vt_conditions t)"
      by (simp add: m cap_def visual_caps_low prefix_caps_def conds_text_def)
    then have "map as_input (parse_conditions (cap m 1)) = vt_conditions t"
      using t as_input_parsed by (simp add: tier_wf_def parse_conds list_all_iff map_idI)
    then show ?thesis using tier_back [OF t] by (simp add: m prefix_caps_def)
  qed
  with assms show ?thesis by (auto simp: tier_item_def list_all_iff intro!: map_idI)
qed

lemma items_ok:
  "list_all tier_wf ts \<Longrightarrow>
   list_all (\<lambda>(cs, l, t). costs_ok t \<and> label_ok l \<and> list_all cond_in_ok cs) (map tier_item ts)"
  by (auto simp: list_all_iff tier_item_def tier_wf_def)

section \<open>Whole configurations\<close>

lemma generate_cases:
  assumes "config_wf ts"
  obtains (single) t where "ts = [t]" "tier_wf t" "vt_conditions t = []"
      "generateExprFromVisualConfig (Some ts) = piece [] (vt_label t) t"
  | (guarded) t where "ts = [t]" "tier_wf t" "vt_conditions t \<noteq> []"
      "generateExprFromVisualConfig (Some ts) = piece (vt_conditions t) (vt_label t) t @ '' : p * 0 + c * 0''"
  | (chain) t ts' where "ts = t # ts'" "ts' \<noteq> []" "list_all tier_wf ts" "vt_conditions t \<noteq> []"
      "generateExprFromVisualConfig (Some ts) = js_join '' : '' (map (\<lambda>(cs, l, t). piece cs l t) (map tier_item ts))"
proof -
  obtain t ts' where ts: "ts = t # ts'" using assms by (cases ts) (auto simp: config_wf_def)
  show ?thesis
  proof (cases "ts' = []")
    case True
    then have wf: "tier_wf t" "vt_label t \<noteq> []" using assms ts by (auto simp: config_wf_def tier_wf_def label_ok_def)
    then have "buildConditionStr (vt_conditions t) = conds_text (vt_conditions t)"
      by (simp add: buildConditionStr_text tier_wf_def)
    with wf ts True single guarded show ?thesis
      by (cases "vt_conditions t = []")
        (simp_all add: generateExprFromVisualConfig_def tier_call_text piece_def cond_prefix_def conds_text_Nil_iff Let_def)
  next
    case False
    then have wf: "list_all tier_wf ts" "vt_conditions (last ts) = []" "vt_conditions t \<noteq> []"
      using assms ts by (auto simp: config_wf_def list_all_iff)
    then have "tier_chain 0 ts = map (\<lambda>(cs, l, t). piece cs l t) (map tier_item ts)"
      by (subst tier_chain_text) (simp_all add: tier_item_def)
    with chain ts False wf show ?thesis
      by (cases ts') (auto simp: generateExprFromVisualConfig_def simp del: tier_chain.simps)
  qed
qed

text \<open>Reading a text that does not start like a single tier, when it is the text of \<open>ts\<close>.\<close>

lemma try_parse_chain:
  assumes "list_all tier_wf ts" "ts \<noteq> []" "s = generateExprFromVisualConfig (Some ts)"
    and "s = x # s'" "x \<in> {CHR ''p'', CHR ''c'', CHR ''l''}"
    and "rx_exec_all visual_tier_rx [] s = map (\<lambda>(cs, l, t). visual_caps 2 l t (prefix_caps cs (\<lambda>_. None))) (map tier_item ts)"
  shows "tryParseVisualConfig s = Some ts"
proof -
  have v: "rx_match visual_version_rx s = None" "rx_match single_rx s = None" "s \<noteq> []"
    using assms(4,5) no_version [of x s'] no_single [of x s'] by auto
  show ?thesis
    unfolding tryParseVisualConfig_def v Let_def option.case if_False assms(6) tiers_back [OF assms(1)]
    using assms(2) by (simp add: normalize_config [OF assms(1)] assms(3) [symmetric] v(3))
qed

lemma join_head: "xs \<noteq> [] \<Longrightarrow> x = y # s \<Longrightarrow> \<exists>s'. js_join sep (x # xs) = y # s'"
  by (cases xs) auto

definition sample_tier :: "tier_condition_input list \<Rightarrow> jsstring \<Rightarrow> visual_tier" where
  "sample_tier cs l =
     \<lparr>vt_label = l, vt_conditions = cs, vt_input_unit_cost = JDec 3 0, vt_output_unit_cost = JDec 15 (- 1),
      vt_cache_mode = Timed, vt_cache_read_unit_cost = JDec 3 (- 1), vt_cache_create_unit_cost = JDec 0 0,
      vt_cache_create_1h_unit_cost = JDec 6 0, vt_image_unit_cost = JDec 0 0,
      vt_image_output_unit_cost = JDec 0 0, vt_audio_input_unit_cost = JDec 0 0,
      vt_audio_output_unit_cost = JDec 7 (- 8)\<rparr>"

definition sample_config :: visual_config where
  "sample_config =
     [sample_tier [\<lparr>ti_var = ''len'', ti_op = ''<='', ti_value = Some (NumValue (JDec 2 5))\<rparr>] ''base'',
      sample_tier [] ''long'']"

lemma sample_config_wf: "config_wf sample_config"
  by code_simp

section \<open>Prices of a tier body\<close>

abbreviation var_keys :: "jsstring list" where
  "var_keys \<equiv> [''p'', ''c'', ''cr'', ''cc'', ''cc1h'', ''img'', ''img_o'', ''ai'', ''ao'']"

abbreviation after_var :: "rx list" where
  "after_var \<equiv> [rws, rlit ''*'', rws, RCap 2 rnum]"

lemma billing_var_rx_form:
  "BILLING_VAR_REGEX = RCat RWb (rseq (RCap 1 (ralts (map rlit var_keys)) # after_var))"
  by (simp add: BILLING_VAR_REGEX_def BILLING_PRICING_VARS_def BILLING_VARS_def price_var_def)

lemma hseq_cap_alts:
  assumes "v \<in> set us" "\<And>u. u \<in> set us \<Longrightarrow> u \<noteq> v \<Longrightarrow> apart u v"
    and "hseq rs k ('' '' @ t) (c(n := Some v)) R"
    and "\<And>r c. \<not> head_is is_ws r \<Longrightarrow> \<not> head_is (\<lambda>x. x = CHR ''*'') r \<Longrightarrow> mseq rs k r c"
  shows "hseq (RCap n (ralts (map rlit us)) # rs) k (v @ '' '' @ t) c R"
  using assms(1,2)
proof (induction us rule: induct_list012)
  case (2 u)
  then show ?case using assms(3) by (auto simp: hseq_def hits_def rxm_rseq cap_lit simp del: rseq.simps append.simps)
next
  case (3 u w us)
  let ?rest = "RCap n (ralts (map rlit (w # us)))"
  have form: "rxm (RCap n (ralts (map rlit (u # w # us)))) (q, s, c) k' =
      (case rxm (RCap n (rlit u)) (q, s, c) k' of Some r \<Rightarrow> Some r | None \<Rightarrow> rxm ?rest (q, s, c) k')" for q s k'
    by (simp only: list.map ralts.simps cap_alt)
  show ?case
  proof (cases "u = v")
    case True
    then have "hseq (RCap n (rlit u) # rs) k (v @ '' '' @ t) c R"
      using assms(3) by (auto simp: hseq_def hits_def rxm_rseq cap_lit simp del: rseq.simps append.simps)
    then show ?thesis
      unfolding hseq_Cons by (rule hits_mono) (simp only: form option.case)
  next
    case False
    with 3 have IH: "hseq (?rest # rs) k (v @ '' '' @ t) c R" and "apart u v" by auto
    have "mseq (RCap n (rlit u) # rs) k (v @ '' '' @ t) c"
    proof (cases "strip u (v @ '' '' @ t)")
      case (Some r)
      with \<open>apart u v\<close> have "mseq rs k r (c(n := Some u))"
        by (intro assms(4)) (auto simp: apart_def split: option.splits dest!: spec [of _ t])
      with Some show ?thesis by (simp add: mseq_def misses_def rxm_rseq cap_lit del: rseq.simps append.simps)
    qed (simp add: mseq_def misses_def rxm_rseq cap_lit del: rseq.simps append.simps)
    with IH show ?thesis
      unfolding hseq_Cons mseq_Cons hits_def misses_def by (simp only: form option.case) blast
  qed
qed simp

lemma keys_apart: "u \<in> set var_keys \<Longrightarrow> v \<in> set var_keys \<Longrightarrow> u \<noteq> v \<Longrightarrow> apart u v"
  by (auto simp: apart_def is_ws_def)

definition var_caps :: "jsstring \<times> jsnum \<Rightarrow> captures" where
  "var_caps x = (\<lambda>_. None)(1 := Some (fst x), 2 := Some (num_to_string (snd x)))"

lemma var_term_hit:
  assumes "v \<in> set var_keys" "num_ok n" "\<not> head_is is_num_char t"
  shows "hseq (RCap 1 (ralts (map rlit var_keys)) # after_var) Some (v @ '' * '' @ num_to_string n @ t)
    (\<lambda>_. None) (t, var_caps (v, n))"
proof -
  have "hseq after_var Some ('' '' @ ''* '' @ num_to_string n @ t) ((\<lambda>_. None)(1 := Some v)) (t, var_caps (v, n))"
    unfolding append_Cons append_Nil rnum_def
    by (intro hseq_sp hseq_char hseq_cap_plus hseq_Nil)
      (use assms num_text num_text_ws in \<open>simp_all add: is_ws_def var_caps_def hits_done\<close>)
  moreover have "mseq after_var Some r c" if "\<not> head_is is_ws r" "\<not> head_is (\<lambda>x. x = CHR ''*'') r" for r c
    using that by (intro mseq_ws mseq_lit) (simp_all add: strip_first)
  ultimately have "hseq (RCap 1 (ralts (map rlit var_keys)) # after_var) Some (v @ '' '' @ ''* '' @ num_to_string n @ t)
    (\<lambda>_. None) (t, var_caps (v, n))"
    using assms(1) keys_apart by (intro hseq_cap_alts) blast+
  then show ?thesis by simp
qed

lemma var_min: "0 < rx_min BILLING_VAR_REGEX"
  by (simp add: billing_var_rx_form rlit.simps)

lemma var_misses:
  "x = CHR '' '' \<or> x = CHR ''+'' \<Longrightarrow> misses (\<lambda>st. rxm BILLING_VAR_REGEX st Some) (x # s) (\<lambda>_. None)"
  "misses (\<lambda>st. rxm BILLING_VAR_REGEX st Some) [] (\<lambda>_. None)"
  by (auto simp: billing_var_rx_form misses_def rx_step)

lemma var_exec_one:
  assumes "v \<in> set var_keys" "num_ok n" "\<not> head_is is_num_char t" "\<not> head_is is_word q"
  shows "\<exists>q'. rx_exec_all BILLING_VAR_REGEX q (term_text v n @ t) =
    var_caps (v, n) # rx_exec_all BILLING_VAR_REGEX q' t"
proof -
  let ?s = "v @ '' * '' @ num_to_string n @ t"
  obtain q' where "rxm (rseq (RCap 1 (ralts (map rlit var_keys)) # after_var)) (q, ?s, \<lambda>_. None) Some =
      Some (q', t, var_caps (v, n))"
    using var_term_hit [OF assms(1-3)] unfolding hseq_def hits_def by blast
  moreover have "head_is is_word ?s"
    using assms(1) by (auto simp: is_word_def is_digit_def less_eq_char_def)
  ultimately have "rx_at BILLING_VAR_REGEX q ?s = Some (q', t, var_caps (v, n))"
    using assms(4) unfolding rx_at_def billing_var_rx_form by (simp only: rx_core) simp
  then have "rx_search BILLING_VAR_REGEX q ?s = Some (q', t, var_caps (v, n))"
    by (cases ?s) simp_all
  then show ?thesis
    by (subst rx_exec_all.simps) (use var_min in \<open>simp add: term_text_def, blast\<close>)
qed

lemma var_exec:
  assumes "list_all (\<lambda>x. fst x \<in> set var_keys \<and> num_ok (snd x)) xs" "\<not> head_is is_word q"
  shows "rx_exec_all BILLING_VAR_REGEX q (js_join '' + '' (map (\<lambda>(v, n). term_text v n) xs)) = map var_caps xs"
  using assms
proof (induction xs arbitrary: q rule: induct_list012)
  case 1
  then show ?case by (simp add: rx_exec_all_Nil var_misses)
next
  case (2 x)
  then show ?case
    using var_exec_one [of "fst x" "snd x" "[]" q] by (cases x) (auto simp: rx_exec_all_Nil var_misses)
next
  case (3 x y zs)
  let ?rest = "js_join '' + '' (map (\<lambda>(v, n). term_text v n) (y # zs))"
  have "\<not> head_is is_num_char ('' + '' @ ?rest)" by (simp add: is_num_char_def is_digit_def)
  then obtain q' where "rx_exec_all BILLING_VAR_REGEX q (term_text (fst x) (snd x) @ '' + '' @ ?rest) =
      var_caps x # rx_exec_all BILLING_VAR_REGEX q' ('' + '' @ ?rest)"
    using var_exec_one [of "fst x" "snd x" "'' + '' @ ?rest" q] 3(3,4) by auto
  moreover have "rx_exec_all BILLING_VAR_REGEX q' ('' + '' @ ?rest) =
      rx_exec_all BILLING_VAR_REGEX (CHR '' '' # CHR ''+'' # CHR '' '' # q') ?rest"
    using var_min by (simp add: rx_exec_all_skip var_misses)
  moreover have "rx_exec_all BILLING_VAR_REGEX (CHR '' '' # CHR ''+'' # CHR '' '' # q') ?rest = map var_caps (y # zs)"
    using 3(2) 3(3) by (simp add: is_word_def is_digit_def less_eq_char_def)
  ultimately show ?case by (cases x) simp
qed

text \<open>The prices the pricing page shows for a tier.\<close>

definition all_terms :: "visual_tier \<Rightarrow> (jsstring \<times> jsnum) list" where
  "all_terms t = (''p'', vt_input_unit_cost t) # (''c'', vt_output_unit_cost t) #
     filter (\<lambda>x. snd x \<noteq> JDec 0 0) (tier_terms t)"

definition tier_prices :: "visual_tier \<Rightarrow> (jsstring \<times> jsnum) list" where
  "tier_prices t =
     [(''inputPrice'', vt_input_unit_cost t), (''outputPrice'', vt_output_unit_cost t),
      (''cacheReadPrice'', vt_cache_read_unit_cost t), (''cacheCreatePrice'', vt_cache_create_unit_cost t),
      (''cacheCreate1hPrice'', vt_cache_create_1h_unit_cost t), (''imagePrice'', vt_image_unit_cost t),
      (''imageOutputPrice'', vt_image_output_unit_cost t), (''audioInputPrice'', vt_audio_input_unit_cost t),
      (''audioOutputPrice'', vt_audio_output_unit_cost t)]"

lemma terms_text_filter:
  "terms_text xs = concat (map (\<lambda>y. '' + '' @ y) (map (\<lambda>(v, n). term_text v n) (filter (\<lambda>x. snd x \<noteq> JDec 0 0) xs)))"
  by (induction xs rule: terms_text.induct) (simp_all add: term_text_def)

lemma body_text_join: "body_text t = js_join '' + '' (map (\<lambda>(v, n). term_text v n) (all_terms t))"
  by (simp add: body_text_def all_terms_def join_terms terms_text_filter term_text_def)

lemma all_terms_ok:
  "costs_ok t \<Longrightarrow> list_all (\<lambda>x. fst x \<in> set var_keys \<and> num_ok (snd x)) (all_terms t)"
  "distinct (map fst (all_terms t))"
proof -
  show "costs_ok t \<Longrightarrow> list_all (\<lambda>x. fst x \<in> set var_keys \<and> num_ok (snd x)) (all_terms t)"
    by (auto simp: all_terms_def costs_ok_def tier_terms_def)
  have "distinct (map fst ((''p'', vt_input_unit_cost t) # (''c'', vt_output_unit_cost t) # tier_terms t))"
    by (simp add: tier_terms_def)
  then show "distinct (map fst (all_terms t))"
    by (auto simp: all_terms_def distinct_map_filter)
qed

lemma coeffs_fold:
  assumes "distinct (map fst (acc @ xs))" "list_all (\<lambda>x. num_ok (snd x)) xs"
  shows "foldl (\<lambda>coeffs m. if cap m 1 \<in> fst ` set coeffs then coeffs
      else coeffs @ [(cap m 1, to_number (cap m 2))]) acc (map var_caps xs) = acc @ xs"
  using assms
proof (induction xs arbitrary: acc)
  case (Cons x xs)
  have "cap (var_caps x) 1 = fst x" "to_number (cap (var_caps x) 2) = snd x"
    using Cons.prems(2) num_ok_number by (simp_all add: cap_def var_caps_def)
  moreover have "fst x \<notin> fst ` set acc" using Cons.prems(1) by auto
  ultimately show ?case using Cons.IH [of "acc @ [x]"] Cons.prems by simp
qed simp

lemma body_coeffs_text: "costs_ok t \<Longrightarrow> body_coeffs (body_text t) = all_terms t"
  unfolding body_coeffs_def body_text_join
  using all_terms_ok [of t] var_exec [of "all_terms t" "[]"] coeffs_fold [of "[]" "all_terms t"]
  by (simp add: list_all_iff)

lemma map_of_filter_nonzero:
  "distinct (map fst xs) \<Longrightarrow>
   (case map_of (filter (\<lambda>x. snd x \<noteq> z) xs) v of Some n \<Rightarrow> n | None \<Rightarrow> z) =
   (case map_of xs v of Some n \<Rightarrow> n | None \<Rightarrow> z)"
proof (induction xs)
  case (Cons x xs)
  show ?case
  proof (cases "fst x = v")
    case True
    with Cons.prems have "map_of xs v = None" by (auto simp: map_of_eq_None_iff)
    with Cons True show ?thesis by (cases x) auto
  next
    case False
    with Cons show ?thesis by (cases x) auto
  qed
qed simp

lemma num_or_zero_zero: "num_or_zero (JDec 0 0) = JDec 0 0"
  by (simp add: num_or_zero_def)

lemma term_price:
  assumes "costs_ok t" "v \<notin> {''p'', ''c''}"
  shows "(case map_of (all_terms t) v of Some n \<Rightarrow> num_or_zero n | None \<Rightarrow> JDec 0 0) =
    (case map_of (tier_terms t) v of Some n \<Rightarrow> n | None \<Rightarrow> JDec 0 0)"
proof -
  have "distinct (map fst (tier_terms t))" by (simp add: tier_terms_def)
  note m = map_of_filter_nonzero [OF this, of "JDec 0 0" v]
  have "num_or_zero n = n" if "map_of (filter (\<lambda>x. snd x \<noteq> JDec 0 0) (tier_terms t)) v = Some n" for n
    using assms(1) map_of_SomeD [OF that] num_ok_number by (auto simp: costs_ok_def list_all_iff)
  then show ?thesis using m assms(2) by (auto simp: all_terms_def split: option.splits)
qed

lemma key_to_field:
  "BILLING_VAR_KEY_TO_FIELD =
    [(''p'', ''inputPrice''), (''c'', ''outputPrice''), (''cr'', ''cacheReadPrice''), (''cc'', ''cacheCreatePrice''),
     (''cc1h'', ''cacheCreate1hPrice''), (''img'', ''imagePrice''), (''img_o'', ''imageOutputPrice''),
     (''ai'', ''audioInputPrice''), (''ao'', ''audioOutputPrice'')]"
  by (simp add: BILLING_VAR_KEY_TO_FIELD_def BILLING_PRICING_VARS_def BILLING_VARS_def price_var_def some_text_def)

lemma parse_body: "costs_ok t \<Longrightarrow> parseTierBody (body_text t) = tier_prices t"
proof -
  assume ok: "costs_ok t"
  have "(case map_of (all_terms t) ''p'' of Some n \<Rightarrow> num_or_zero n | None \<Rightarrow> JDec 0 0) = vt_input_unit_cost t"
    "(case map_of (all_terms t) ''c'' of Some n \<Rightarrow> num_or_zero n | None \<Rightarrow> JDec 0 0) = vt_output_unit_cost t"
    using ok num_ok_number by (simp_all add: all_terms_def costs_ok_def)
  then show ?thesis
    unfolding parseTierBody_def Let_def body_coeffs_text [OF ok] key_to_field tier_prices_def
    using term_price [OF ok] by (simp add: tier_terms_def)
qed

section \<open>The pattern of the pricing page\<close>

definition pricing_caps :: "tier_condition_input list \<Rightarrow> jsstring \<Rightarrow> visual_tier \<Rightarrow> captures" where
  "pricing_caps cs l t = (prefix_caps cs (\<lambda>_. None))(2 := Some l, 3 := Some (body_text t))"

lemma body_no_paren: "costs_ok t \<Longrightarrow> list_all (\<lambda>c. c \<noteq> CHR '')'') (body_text t)"
proof -
  assume ok: "costs_ok t"
  have num: "CHR '')'' \<notin> set (num_to_string n)" if "num_ok n" for n
    using num_text [OF that] by (auto simp: list_all_iff is_num_char_def is_digit_def)
  have "CHR '')'' \<notin> set (terms_text (tier_terms t))"
    using ok num by (auto simp: tier_terms_def costs_ok_def)
  with ok num show ?thesis
    unfolding body_text_def by (auto simp: costs_ok_def list_all_iff)
qed

lemma tier_rx_form:
  "tier_rx = RCat cond_prefix_rx (RCat (rlit ''tier(\"'') (rseq [RCap 2 (RStar (RCls not_quote)), rlit ''\",'', rws,
     RCap 3 (rplus (RCls (\<lambda>c. c \<noteq> CHR '')''))), rlit '')'']))"
  by (simp add: tier_rx_def)

interpretation pricing: tier_matcher tier_rx pricing_caps
proof
  fix t l cs s
  assume t: "costs_ok t" "label_ok l" and cs: "list_all cond_in_ok cs"
  let ?rs = "[RCap 2 (RStar (RCls not_quote)), rlit ''\",'', rws, RCap 3 (rplus (RCls (\<lambda>c. c \<noteq> CHR '')''))), rlit '')'']"
  have b: "list_all (\<lambda>c. c \<noteq> CHR '')'') (body_text t)" "body_text t \<noteq> []" "\<not> head_is is_ws (body_text t @ CHR '')'' # s)"
    using body_no_paren [OF t(1)] by (simp_all add: body_text_def is_ws_def)
  have "hseq (rlit ''tier(\"'' # ?rs) Some (''tier(\"'' @ l @ ''\",'' @ CHR '' '' # body_text t @ CHR '')'' # s)
      (prefix_caps cs (\<lambda>_. None)) (s, pricing_caps cs l t)"
    by (intro hseq_lit hseq_cap_star hseq_sp hseq_cap_plus hseq_char hseq_Nil)
      (use t b in \<open>simp_all add: label_ok_def not_quote_def pricing_caps_def hits_done\<close>)
  from prefix_hit [OF cs this]
  have "hseq (cond_prefix_rx # rlit ''tier(\"'' # ?rs) Some
      (cond_prefix cs @ ''tier(\"'' @ l @ ''\",'' @ CHR '' '' # body_text t @ CHR '')'' # s) (\<lambda>_. None) (s, pricing_caps cs l t)" .
  then show "hits (\<lambda>st. rxm tier_rx st Some) (piece cs l t @ s) (\<lambda>_. None) (s, pricing_caps cs l t)"
    by (simp add: hseq_def tier_rx_def piece_def tier_text_def del: rseq.simps)
next
  show min: "0 < rx_min tier_rx" by (simp add: tier_rx_form rlit.simps)
  then show "rx_exec_all tier_rx q ''p * 0 + c * 0'' = []" for q
    unfolding tier_rx_form by (rule prefix_no_default)
qed (simp_all only: tier_rx_form prefix_misses_sep)

definition shown_tier :: "visual_tier \<Rightarrow> parsed_tier" where
  "shown_tier t = \<lparr>pt_label = vt_label t, pt_conditions = map parsed_cond (vt_conditions t), pt_prices = tier_prices t\<rparr>"

lemma pricing_back:
  "tier_wf t \<Longrightarrow> parsed_tier_of (pricing_caps (vt_conditions t) (vt_label t) t) = shown_tier t"
  by (cases "vt_conditions t = []")
    (simp_all add: parsed_tier_of_def shown_tier_def pricing_caps_def prefix_caps_def cap_def tier_wf_def parse_body
      parse_conds parse_conditions_def [of "[]"])

lemma no_expr_version:
  assumes "x \<noteq> CHR ''v''"
  shows "ve_body (stripExprVersion (x # s)) = x # s"
proof -
  have "rx_match version_rx (x # s) = None"
    unfolding version_rx_def using assms by (intro rx_match_mseq mseq_lit) auto
  then show ?thesis by (simp add: stripExprVersion_def)
qed

lemma visual_config_back:
  assumes "config_wf ts"
  shows "tryParseVisualConfig (generateExprFromVisualConfig (Some ts)) = Some ts"
  using assms
proof (cases rule: generate_cases)
  case (single t)
  obtain s where s: "piece [] (vt_label t) t = CHR ''t'' # s" using piece_head(2) by blast
  have t: "costs_ok t" "label_ok (vt_label t)" using single(2) by (auto simp: tier_wf_def)
  have "normalizeVisualTier (matched_tier (visual_caps 1 (vt_label t) t (\<lambda>_. None)) 1 []) = t"
    using tier_back [OF single(2), of 1 "\<lambda>_. None"] single(3) by simp
  moreover have "rx_match visual_version_rx (piece [] (vt_label t) t) = None" "piece [] (vt_label t) t \<noteq> []"
    unfolding s by (simp_all add: no_version)
  ultimately show ?thesis
    unfolding single(4) using single_match [OF t] single(1,2) normalize_config [of ts]
    by (simp add: tryParseVisualConfig_def)
next
  case (guarded t)
  have t: "costs_ok t" "label_ok (vt_label t)" "list_all cond_in_ok (vt_conditions t)"
    using guarded(2) by (auto simp: tier_wf_def)
  obtain x s where x: "piece (vt_conditions t) (vt_label t) t = x # s" "x \<in> {CHR ''p'', CHR ''c'', CHR ''l''}"
    using piece_head(1) [OF guarded(3) t(3)] by blast
  show ?thesis
    by (rule try_parse_chain [OF _ _ refl, of ts x "s @ '' : p * 0 + c * 0''"])
      (use guarded x t visual.exec_default [OF t, of "[]"] in \<open>simp_all add: tier_item_def\<close>)
next
  case (chain t ts')
  have t: "list_all cond_in_ok (vt_conditions t)" using chain(1,3) by (simp add: tier_wf_def)
  obtain x s where x: "piece (vt_conditions t) (vt_label t) t = x # s" "x \<in> {CHR ''p'', CHR ''c'', CHR ''l''}"
    using piece_head(1) [OF chain(4) t] by blast
  have "map (\<lambda>(cs, l, t). piece cs l t) (map tier_item ts') \<noteq> []" using chain(2) by simp
  from join_head [OF this x(1)] obtain s' where "generateExprFromVisualConfig (Some ts) = x # s'"
    unfolding chain(5) by (auto simp: chain(1) tier_item_def)
  moreover have "rx_exec_all visual_tier_rx [] (generateExprFromVisualConfig (Some ts)) =
      map (\<lambda>(cs, l, t). visual_caps 2 l t (prefix_caps cs (\<lambda>_. None))) (map tier_item ts)"
    unfolding chain(5) by (rule visual.exec_chain [OF items_ok [OF chain(3)]])
  ultimately show ?thesis
    using chain(1,3) x(2) by (intro try_parse_chain [OF _ _ refl]) auto
qed

text \<open>The tiers of the editor and their expression are an interpretation of \<open>codec\<close>.\<close>

interpretation tiers: codec "\<lambda>ts. generateExprFromVisualConfig (Some ts)" tryParseVisualConfig config_wf
  by unfold_locales (rule visual_config_back)

section \<open>Properties\<close>

text \<open>
  C3: The visual editor reads its own expressions: for a configuration of one tier, or of several
  tiers of which all but the last have conditions, parsing the generated billing expression gives
  the configuration back, with every label, condition, price and cache mode.
\<close>

theorem visual_config_roundtrip:
  assumes "config_wf ts"
  shows "tryParseVisualConfig (generateExprFromVisualConfig (Some ts)) = Some ts"
  using assms by (rule tiers.decode_encode)

theorem visual_config_roundtrip_witness:
  "tryParseVisualConfig (generateExprFromVisualConfig (Some sample_config)) = Some sample_config"
  by (rule visual_config_roundtrip [OF sample_config_wf])

text \<open>
  C16: The pricing page shows the tiers the administrator configured: reading the generated billing
  expression for display gives one entry per configured tier, in order, with its label, its
  conditions and all nine prices.
\<close>

theorem pricing_page_shows_config:
  assumes "config_wf ts"
  shows "parseTiersFromExpr (generateExprFromVisualConfig (Some ts)) = map shown_tier ts"
  using assms
proof (cases rule: generate_cases)
  case (single t)
  obtain s where s: "piece [] (vt_label t) t = CHR ''t'' # s" using piece_head(2) by blast
  have "rx_exec_all tier_rx [] (piece [] (vt_label t) t) = [pricing_caps [] (vt_label t) t]"
    using pricing.exec_chain [of "[([], vt_label t, t)]" "[]"] single(2) by (simp add: tier_wf_def)
  with single pricing_back [OF single(2)] show ?thesis
    using no_expr_version [of "CHR ''t''" s] by (simp add: parseTiersFromExpr_def s)
next
  case (guarded t)
  have t: "costs_ok t" "label_ok (vt_label t)" "list_all cond_in_ok (vt_conditions t)"
    using guarded(2) by (auto simp: tier_wf_def)
  obtain x s where x: "piece (vt_conditions t) (vt_label t) t = x # s" "x \<in> {CHR ''p'', CHR ''c'', CHR ''l''}"
    using piece_head(1) [OF guarded(3) t(3)] by blast
  show ?thesis
    using guarded x t pricing.exec_default [OF t, of "[]"] pricing_back [OF guarded(2)]
      no_expr_version [of x "s @ '' : p * 0 + c * 0''"]
    by (auto simp: parseTiersFromExpr_def)
next
  case (chain t ts')
  have t: "list_all cond_in_ok (vt_conditions t)" using chain(1,3) by (simp add: tier_wf_def)
  obtain x s where x: "piece (vt_conditions t) (vt_label t) t = x # s" "x \<in> {CHR ''p'', CHR ''c'', CHR ''l''}"
    using piece_head(1) [OF chain(4) t] by blast
  have "map (\<lambda>(cs, l, t). piece cs l t) (map tier_item ts') \<noteq> []" using chain(2) by simp
  from join_head [OF this x(1)] obtain s' where s': "generateExprFromVisualConfig (Some ts) = x # s'"
    unfolding chain(5) by (auto simp: chain(1) tier_item_def)
  have "rx_exec_all tier_rx [] (generateExprFromVisualConfig (Some ts)) =
      map (\<lambda>(cs, l, t). pricing_caps cs l t) (map tier_item ts)"
    unfolding chain(5) by (rule pricing.exec_chain [OF items_ok [OF chain(3)]])
  then show ?thesis
    using s' x(2) no_expr_version [of x s'] chain(3)
    by (auto simp: parseTiersFromExpr_def tier_item_def pricing_back list_all_iff)
qed

theorem pricing_page_shows_config_witness:
  "parseTiersFromExpr (generateExprFromVisualConfig (Some sample_config)) = map shown_tier sample_config"
  by (rule pricing_page_shows_config [OF sample_config_wf])

end
