(* ===== verification/JsValue.thy ===== *)
theory JsValue
  imports Json
begin

text \<open>
  Dynamic values: truthiness, property access and the spread of objects on JSON values, as the
  sources use them on data read from the network or from the browser storage.
\<close>

fun truthy :: "json \<Rightarrow> bool" where
  "truthy JNull \<longleftrightarrow> False"
| "truthy (JBool b) \<longleftrightarrow> b"
| "truthy (JNum n) \<longleftrightarrow> n \<noteq> JNaN \<and> n \<noteq> JDec 0 0"
| "truthy (JStr s) \<longleftrightarrow> s \<noteq> []"
| "truthy _ \<longleftrightarrow> True"

text \<open>\<open>value?.name\<close>: a named property that no primitive and no array has.\<close>

fun json_get :: "json \<Rightarrow> jsstring \<Rightarrow> json option" where
  "json_get (JObj kvs) k = map_of kvs k"
| "json_get _ k = None"

text \<open>\<open>value?.[0]\<close>.\<close>

fun json_first :: "json \<Rightarrow> json option" where
  "json_first (JArr (x # xs)) = Some x"
| "json_first (JObj kvs) = map_of kvs ''0''"
| "json_first (JStr (c # s)) = Some (JStr [c])"
| "json_first _ = None"

text \<open>\<open>value || fallback\<close> on an optional value: \<open>undefined\<close> is \<^term>\<open>None\<close>.\<close>

definition js_or :: "json option \<Rightarrow> 'a \<Rightarrow> (json \<Rightarrow> 'a) \<Rightarrow> 'a" where
  "js_or v fallback use = (case v of Some j \<Rightarrow> if truthy j then use j else fallback | None \<Rightarrow> fallback)"

text \<open>\<open>Number(value)\<close> on JSON values.\<close>

fun js_number :: "json option \<Rightarrow> jsnum" where
  "js_number None = JNaN"
| "js_number (Some JNull) = JDec 0 0"
| "js_number (Some (JBool b)) = (if b then JDec 1 0 else JDec 0 0)"
| "js_number (Some (JNum n)) = n"
| "js_number (Some j) = to_number (js_to_string j)"

section \<open>Objects\<close>

text \<open>The own properties that \<open>...value\<close> copies: those of an object, the elements of an array and
  the characters of a string under their indices, none for the other values.\<close>

definition indexed :: "'a list \<Rightarrow> (jsstring \<times> 'a) list" where
  "indexed xs = zip (map show_nat [0..<length xs]) xs"

fun spread_props :: "json \<Rightarrow> (jsstring \<times> json) list" where
  "spread_props (JObj kvs) = kvs"
| "spread_props (JArr xs) = indexed xs"
| "spread_props (JStr s) = indexed (map (\<lambda>c. JStr [c]) s)"
| "spread_props _ = []"

definition obj_assign :: "(jsstring \<times> 'a) list \<Rightarrow> (jsstring \<times> 'a) list \<Rightarrow> (jsstring \<times> 'a) list" where
  "obj_assign base kvs = obj_order (foldl (\<lambda>o' (k, v). obj_set o' k v) base kvs)"

lemma foldl_obj_set_lookup:
  "distinct (map fst kvs) \<Longrightarrow>
   map_of (foldl (\<lambda>o' (k, v). obj_set o' k v) base kvs) = map_of base ++ map_of kvs"
proof (induction kvs arbitrary: base)
  case (Cons x kvs)
  then have "map_of kvs (fst x) = None" by (auto simp: map_of_eq_None_iff)
  with Cons show ?case by (auto simp: case_prod_unfold map_of_obj_set map_add_def split: option.splits)
qed simp

lemma foldl_obj_set_fst:
  "fst ` set (foldl (\<lambda>o' (k, v). obj_set o' k v) base kvs) = fst ` set base \<union> fst ` set kvs"
  by (induction kvs arbitrary: base) (simp_all add: case_prod_unfold fst_obj_set)

lemma foldl_obj_set_snd:
  "snd ` set (foldl (\<lambda>o' (k, v). obj_set o' k v) base kvs) \<subseteq> snd ` set base \<union> snd ` set kvs"
proof (induction kvs arbitrary: base)
  case (Cons x kvs)
  show ?case using Cons.IH [of "obj_set base (fst x) (snd x)"] snd_obj_set [of base "fst x" "snd x"] by (cases x) auto
qed simp

lemma foldl_obj_set_distinct:
  "distinct (map fst base) \<Longrightarrow> distinct (map fst (foldl (\<lambda>o' (k, v). obj_set o' k v) base kvs))"
  by (induction kvs arbitrary: base) (auto simp: distinct_obj_set)

text \<open>Assigning the values an object already has, in its own order, changes nothing.\<close>

lemma obj_set_known: "k \<in> fst ` set base \<Longrightarrow> map fst (obj_set base k v) = map fst base"
  by (induction base k v rule: obj_set.induct) auto

lemma foldl_obj_set_keys:
  "fst ` set kvs \<subseteq> fst ` set base \<Longrightarrow> map fst (foldl (\<lambda>o' (k, v). obj_set o' k v) base kvs) = map fst base"
proof (induction kvs arbitrary: base)
  case (Cons x kvs)
  have k: "map fst (obj_set base (fst x) (snd x)) = map fst base" using Cons.prems by (intro obj_set_known) auto
  then have "fst ` set (obj_set base (fst x) (snd x)) = fst ` set base" by (metis list.set_map)
  then show ?case using Cons.IH [of "obj_set base (fst x) (snd x)"] Cons.prems k by (cases x) auto
qed simp

lemma map_of_keys_eq:
  "map fst xs = map fst ys \<Longrightarrow> distinct (map fst xs) \<Longrightarrow> map_of xs = map_of ys \<Longrightarrow> xs = ys"
proof (induction xs arbitrary: ys)
  case (Cons x xs)
  then obtain y ys' where ys: "ys = y # ys'" "fst y = fst x" "map fst xs = map fst ys'" by (cases ys) auto
  have "snd x = snd y" using fun_cong [OF Cons.prems(3), of "fst x"] ys by simp
  moreover have "map_of xs = map_of ys'"
  proof
    fix k
    have x: "fst x \<notin> set (map fst xs)" using Cons.prems(2) by simp
    then have "fst x \<notin> set (map fst ys')" unfolding ys(3) .
    with x have "map_of xs (fst x) = None" "map_of ys' (fst x) = None" by (simp_all add: map_of_eq_None_iff)
    then show "map_of xs k = map_of ys' k"
      using fun_cong [OF Cons.prems(3), of k] ys by (cases "k = fst x") auto
  qed
  ultimately show ?case using Cons ys by (simp add: prod_eqI)
qed simp

lemma no_index_order: "list_all (\<lambda>kv. \<not> is_array_index (fst kv)) kvs \<Longrightarrow> obj_order kvs = kvs"
  by (simp add: obj_order_def list_all_iff filter_id_conv filter_empty_conv)

lemma obj_assign_same_keys:
  assumes "map fst base = map fst kvs" "obj_wf kvs"
  shows "obj_assign base kvs = kvs"
proof -
  let ?r = "foldl (\<lambda>o' (k, v). obj_set o' k v) base kvs"
  have keys: "fst ` set base = fst ` set kvs" using assms(1) by (metis list.set_map)
  have d: "distinct (map fst kvs)" "obj_order kvs = kvs" using assms(2) by (auto simp: obj_wf_def)
  have "map fst ?r = map fst kvs" using foldl_obj_set_keys [of kvs base] keys assms(1) by simp
  moreover have "map_of ?r = map_of kvs"
  proof
    fix k
    show "map_of ?r k = map_of kvs k"
    proof (cases "map_of kvs k")
      case None
      then have "map_of base k = None" using keys by (simp add: map_of_eq_None_iff)
      with None d show ?thesis by (simp add: foldl_obj_set_lookup map_add_def)
    next
      case (Some v)
      with d show ?thesis by (simp add: foldl_obj_set_lookup map_add_def)
    qed
  qed
  ultimately have "?r = kvs" using map_of_keys_eq [of ?r kvs] d(1) by simp
  then show ?thesis by (simp add: obj_assign_def d(2))
qed

text \<open>\<open>delete value[name]\<close>.\<close>

definition obj_delete :: "(jsstring \<times> 'a) list \<Rightarrow> jsstring \<Rightarrow> (jsstring \<times> 'a) list" where
  "obj_delete m name = filter (\<lambda>kv. fst kv \<noteq> name) m"

lemma obj_order_filter: "obj_order (filter P kvs) = filter P (obj_order kvs)"
  by (simp add: obj_order_def filter_sort conj_commute)

lemma obj_wf_filter: "obj_wf kvs \<Longrightarrow> obj_wf (filter P kvs)"
  by (simp add: obj_wf_def obj_order_filter distinct_map_filter)

lemma map_of_filter_key: "map_of (filter (\<lambda>kv. P (fst kv)) kvs) k = (if P k then map_of kvs k else None)"
  by (induction kvs) auto

lemma map_of_obj_order: "distinct (map fst kvs) \<Longrightarrow> map_of (obj_order kvs) = map_of kvs"
  by (rule map_of_inject_set [THEN iffD2]) (simp_all add: distinct_obj_order)

lemma obj_set_append: "k \<notin> fst ` set a \<Longrightarrow> obj_set (a @ b) k v = a @ obj_set b k v"
  by (induction a) auto

lemma filter_obj_set_keys: "(\<And>w. P (k, w)) \<Longrightarrow> filter P (obj_set kvs k v) = obj_set (filter P kvs) k v"
  by (induction kvs k v rule: obj_set.induct) auto

lemma filter_obj_set_others: "(\<And>w. \<not> P (k, w)) \<Longrightarrow> filter P (obj_set kvs k v) = filter P kvs"
  by (induction kvs k v rule: obj_set.induct) auto

lemma obj_wf_set: "obj_wf kvs \<Longrightarrow> \<not> is_array_index k \<Longrightarrow> obj_wf (obj_set kvs k v)"
proof -
  assume wf: "obj_wf kvs" and k: "\<not> is_array_index k"
  let ?i = "filter (\<lambda>kv. is_array_index (fst kv)) kvs" and ?n = "filter (\<lambda>kv. \<not> is_array_index (fst kv)) kvs"
  let ?s = "sort_key (\<lambda>kv. parse_digits (fst kv)) ?i"
  have kvs: "kvs = ?s @ ?n" "distinct (map fst kvs)" using wf by (auto simp: obj_wf_def obj_order_def)
  have "k \<notin> fst ` set ?s" using k by auto
  then have "obj_set kvs k v = ?s @ obj_set ?n k v" using obj_set_append kvs(1) by metis
  moreover have "obj_order (obj_set kvs k v) = ?s @ obj_set ?n k v"
    using k by (simp add: obj_order_def filter_obj_set_keys filter_obj_set_others)
  ultimately have "obj_order (obj_set kvs k v) = obj_set kvs k v" by metis
  then show ?thesis using kvs(2) by (simp add: obj_wf_def distinct_obj_set)
qed

lemma json_wf_set:
  assumes "json_wf (JObj kvs)" "\<not> is_array_index k" "json_wf v"
  shows "json_wf (JObj (obj_set kvs k v))"
proof -
  have "\<forall>w \<in> insert v (snd ` set kvs). json_wf w" using assms by (auto simp: list_all_iff)
  then have "\<forall>w \<in> snd ` set (obj_set kvs k v). json_wf w" using snd_obj_set [of kvs k v] by blast
  then show ?thesis using assms(1,2) by (auto simp: obj_wf_set list_all_iff)
qed

lemma json_wf_delete: "json_wf (JObj kvs) \<Longrightarrow> json_wf (JObj (obj_delete kvs k))"
  by (auto simp: obj_delete_def obj_wf_filter list_all_iff)

lemma map_of_obj_delete: "map_of (obj_delete m k) = (map_of m)(k := None)"
  unfolding obj_delete_def using map_of_filter_key [of "\<lambda>x. x \<noteq> k" m] by (auto simp: fun_eq_iff)

lemma obj_set_same: "map_of m k = Some v \<Longrightarrow> obj_set m k v = m"
  by (induction m k v rule: obj_set.induct) (auto split: if_splits)

lemma obj_delete_absent: "map_of m k = None \<Longrightarrow> obj_delete m k = m"
  by (auto simp: obj_delete_def filter_id_conv map_of_eq_None_iff)

end
