(* ===== verification/PlaygroundMessages.thy ===== *)
theory PlaygroundMessages
  imports JsValue
begin

text \<open>
  The messages of the playground (\<open>features/playground/types.ts\<close>, \<open>constants.ts\<close> and
  \<open>lib/message-utils.ts\<close>): a conversation is a list of messages, the last of which is the assistant
  message being generated. Its content is kept raw while it streams; \<open>parseThinkTags\<close> separates the
  text between \<open><think>\<close> and \<open></think>\<close> from the visible text.

  \<open>nanoid()\<close> comes from a package and is a parameter: the supply \<open>nanoid n\<close> is the result of the
  call number \<open>n\<close>, and the operations that call it return the number of the next call.
\<close>

section \<open>Data\<close>

datatype message_role = USER | ASSISTANT | SYSTEM

datatype message_status = LOADING | STREAMING | COMPLETE | ERROR

text \<open>The identifier of a version is absent when the version was built by spreading a missing one.\<close>

record message_version =
  mv_id :: "jsstring option"
  mv_content :: jsstring

record reasoning =
  rs_content :: jsstring
  rs_duration :: int

text \<open>An absent property is \<^term>\<open>None\<close>; \<open>errorCode\<close> may also be \<open>null\<close>, which differs from absent.\<close>

record message =
  msg_key :: jsstring
  msg_from :: message_role
  msg_versions :: "message_version list"
  msg_sources :: "(jsstring \<times> jsstring) list option"
  msg_reasoning :: "reasoning option"
  msg_isReasoningStreaming :: "bool option"
  msg_isReasoningComplete :: "bool option"
  msg_isContentComplete :: "bool option"
  msg_status :: "message_status option"
  msg_errorCode :: "json option"

datatype content_part = TextPart jsstring | ImagePart jsstring

datatype message_content = Plain jsstring | Parts "content_part list"

record chat_message =
  cm_role :: message_role
  cm_content :: jsstring

definition API_REQUEST_ERROR :: jsstring where "API_REQUEST_ERROR = ''Request error occurred''"
definition PARSE_ERROR :: jsstring where "PARSE_ERROR = ''Error parsing response data''"
definition STREAM_START_ERROR :: jsstring where "STREAM_START_ERROR = ''Error establishing connection''"
definition CONNECTION_CLOSED :: jsstring where "CONNECTION_CLOSED = ''Connection closed''"
definition INTERRUPTED :: jsstring where "INTERRUPTED = ''Generation was interrupted''"

section \<open>Versions\<close>

definition createMessageVersion :: "(nat \<Rightarrow> jsstring) \<Rightarrow> nat \<Rightarrow> jsstring \<Rightarrow> message_version" where
  "createMessageVersion nanoid n content = \<lparr>mv_id = Some (nanoid n), mv_content = content\<rparr>"

definition getCurrentVersion :: "message \<Rightarrow> message_version" where
  "getCurrentVersion message =
     (case msg_versions message of v # _ \<Rightarrow> v | [] \<Rightarrow> \<lparr>mv_id = Some ''default'', mv_content = ''''\<rparr>)"

definition updateCurrentVersionContent :: "message \<Rightarrow> jsstring \<Rightarrow> message" where
  "updateCurrentVersionContent message content =
     message\<lparr>msg_versions := [(getCurrentVersion message)\<lparr>mv_content := content\<rparr>]\<rparr>"

definition createUserMessage :: "(nat \<Rightarrow> jsstring) \<Rightarrow> nat \<Rightarrow> jsstring \<Rightarrow> message \<times> nat" where
  "createUserMessage nanoid n content =
     (\<lparr>msg_key = nanoid n, msg_from = USER, msg_versions = [createMessageVersion nanoid (n + 1) content],
       msg_sources = None, msg_reasoning = None, msg_isReasoningStreaming = None, msg_isReasoningComplete = None,
       msg_isContentComplete = None, msg_status = None, msg_errorCode = None\<rparr>, n + 2)"

definition createLoadingAssistantMessage :: "(nat \<Rightarrow> jsstring) \<Rightarrow> nat \<Rightarrow> message \<times> nat" where
  "createLoadingAssistantMessage nanoid n =
     (\<lparr>msg_key = nanoid n, msg_from = ASSISTANT, msg_versions = [createMessageVersion nanoid (n + 1) ''''],
       msg_sources = None, msg_reasoning = None, msg_isReasoningStreaming = Some False, msg_isReasoningComplete = Some False,
       msg_isContentComplete = Some False, msg_status = Some LOADING, msg_errorCode = None\<rparr>, n + 2)"

section \<open>Content for the API\<close>

definition buildMessageContent :: "jsstring \<Rightarrow> jsstring list \<Rightarrow> message_content" where
  "buildMessageContent text imageUrls =
     (let validImages = filter (\<lambda>url. js_trim url \<noteq> []) imageUrls
      in if validImages = [] then Plain text
         else Parts (TextPart text # map (\<lambda>url. ImagePart (js_trim url)) validImages))"

fun first_text :: "content_part list \<Rightarrow> jsstring" where
  "first_text (TextPart t # ps) = t"
| "first_text (ImagePart u # ps) = first_text ps"
| "first_text [] = []"

fun getTextContent :: "message_content \<Rightarrow> jsstring" where
  "getTextContent (Plain s) = s"
| "getTextContent (Parts ps) = first_text ps"

definition formatMessageForAPI :: "message \<Rightarrow> chat_message" where
  "formatMessageForAPI message =
     \<lparr>cm_role = msg_from message, cm_content = mv_content (getCurrentVersion message)\<rparr>"

definition isValidMessage :: "message \<Rightarrow> bool" where
  "isValidMessage message \<longleftrightarrow>
     (case msg_versions message of
        [] \<Rightarrow> False
      | v # _ \<Rightarrow> \<not> (msg_from message = ASSISTANT \<and> js_trim (mv_content v) = []))"

section \<open>Reasoning tags\<close>

text \<open>\<open>content.indexOf(pat, pos)\<close> on the text from \<open>pos\<close> on: the text before and after the first
  occurrence of the pattern.\<close>

fun find_first :: "jsstring \<Rightarrow> jsstring \<Rightarrow> (jsstring \<times> jsstring) option" where
  "find_first pat [] = (if pat = [] then Some ([], []) else None)"
| "find_first pat (c # s) =
     (if prefix pat (c # s) then Some ([], drop (length pat) (c # s))
      else map_option (\<lambda>(a, b). (c # a, b)) (find_first pat s))"

lemma find_first_Some: "find_first pat s = Some (a, b) \<Longrightarrow> s = a @ pat @ b"
  by (induction pat s arbitrary: a b rule: find_first.induct)
    (auto split: if_splits elim!: prefixE)

definition think_open :: jsstring where "think_open = ''<think>''"
definition think_close :: jsstring where "think_close = ''</think>''"

function think_loop :: "jsstring \<Rightarrow> jsstring list \<Rightarrow> jsstring list \<Rightarrow> jsstring list \<times> jsstring list \<times> bool" where
  "think_loop rest visibleParts reasoningParts =
     (case find_first think_open rest of
        None \<Rightarrow> (if rest \<noteq> [] then visibleParts @ [rest] else visibleParts, reasoningParts, False)
      | Some (before, after) \<Rightarrow>
          let visible' = (if before \<noteq> [] then visibleParts @ [before] else visibleParts)
          in case find_first think_close after of
               None \<Rightarrow> (visible', reasoningParts @ [after], True)
             | Some (inner, rest') \<Rightarrow> think_loop rest' visible' (reasoningParts @ [inner]))"
  by pat_completeness auto
termination
  by (relation "measure (\<lambda>(rest, _). length rest)")
    (auto dest!: find_first_Some simp: think_open_def think_close_def)

declare think_loop.simps [simp del]

record think_split =
  visibleContent :: jsstring
  reasoningText :: jsstring
  hasUnclosedTag :: bool

definition parseThinkTags :: "jsstring \<Rightarrow> think_split" where
  "parseThinkTags content =
     (if find_first think_open content = None
      then \<lparr>visibleContent = content, reasoningText = '''', hasUnclosedTag = False\<rparr>
      else (case think_loop content [] [] of
              (visibleParts, reasoningParts, unclosed) \<Rightarrow>
                \<lparr>visibleContent = js_trim (concat visibleParts),
                 reasoningText = js_trim (js_join [CHR 0x0A, CHR 0x0A] reasoningParts),
                 hasUnclosedTag = unclosed\<rparr>))"

subsection \<open>The text of a split\<close>

lemma find_first_None: "find_first pat s = None \<longleftrightarrow> \<not> sublist pat s"
  by (induction pat s rule: find_first.induct) (auto simp: sublist_Cons_right)

text \<open>A pattern whose first character does not recur cannot overlap the text before it.\<close>

lemma find_first_at:
  assumes "x \<notin> set p" "\<not> sublist (x # p) a"
  shows "find_first (x # p) (a @ (x # p) @ b) = Some (a, b)"
  using assms(2)
proof (induction a)
  case (Cons c a)
  have "\<not> prefix (x # p) (c # a @ (x # p) @ b)"
  proof
    assume pre: "prefix (x # p) (c # a @ (x # p) @ b)"
    then have p: "prefix p (a @ x # p @ b)" and "c = x" by auto
    have "length p \<le> length a"
    proof (rule ccontr)
      assume "\<not> length p \<le> length a"
      then have len: "length a < length p" by simp
      obtain zs where "a @ x # p @ b = p @ zs" using p by (auto elim: prefixE)
      then have "(p @ zs) ! length a = x" by (metis nth_append_length)
      with len have "p ! length a = x" by (simp add: nth_append)
      with len assms(1) show False using nth_mem by fastforce
    qed
    then have "prefix p a" using p prefix_length_prefix [of p "a @ x # p @ b" a] by simp
    with \<open>c = x\<close> Cons.prems show False by (auto simp: sublist_Cons_right)
  qed
  moreover have "\<not> sublist (x # p) a" using Cons.prems by (auto simp: sublist_Cons_right)
  ultimately show ?case using Cons.IH by simp
qed simp

lemma find_first_before: "find_first pat s = Some (a, b) \<Longrightarrow> pat \<noteq> [] \<Longrightarrow> \<not> sublist pat a"
proof (induction pat s arbitrary: a b rule: find_first.induct)
  case (2 pat c s)
  show ?case
  proof (cases "prefix pat (c # s)")
    case True
    with 2 show ?thesis by auto
  next
    case False
    with 2 obtain a' where a': "a = c # a'" "find_first pat s = Some (a', b)" by auto
    with find_first_Some have "s = a' @ pat @ b" by blast
    with False have "\<not> prefix pat (c # a')" using prefix_prefix [of pat "c # a'" "pat @ b"] by auto
    with 2 a' False show ?thesis by (auto simp: sublist_Cons_right)
  qed
qed auto

lemma find_open: "\<not> sublist think_open a \<Longrightarrow> find_first think_open (a @ think_open @ b) = Some (a, b)"
  unfolding think_open_def by (rule find_first_at) simp_all

lemma find_close: "\<not> sublist think_close a \<Longrightarrow> find_first think_close (a @ think_close @ b) = Some (a, b)"
  unfolding think_close_def by (rule find_first_at) simp_all

text \<open>A text as alternating visible and reasoning parts, with the last part visible, or reasoning
  whose tag is not closed.\<close>

fun think_text :: "(jsstring \<times> jsstring) list \<Rightarrow> jsstring \<Rightarrow> jsstring option \<Rightarrow> jsstring" where
  "think_text [] v None = v"
| "think_text [] v (Some r) = v @ think_open @ r"
| "think_text ((v', r') # segs) v t = v' @ think_open @ r' @ think_close @ think_text segs v t"

definition think_wf :: "(jsstring \<times> jsstring) list \<Rightarrow> jsstring \<Rightarrow> jsstring option \<Rightarrow> bool" where
  "think_wf segs v t \<longleftrightarrow>
     list_all (\<lambda>(v', r'). \<not> sublist think_open v' \<and> \<not> sublist think_close r') segs \<and>
     \<not> sublist think_open v \<and> (case t of None \<Rightarrow> True | Some r \<Rightarrow> \<not> sublist think_close r)"

definition think_reasons :: "(jsstring \<times> jsstring) list \<Rightarrow> jsstring option \<Rightarrow> jsstring list" where
  "think_reasons segs t = map snd segs @ (case t of None \<Rightarrow> [] | Some r \<Rightarrow> [r])"

lemma think_loop_text:
  assumes "think_wf segs v t"
  shows "\<exists>vis. think_loop (think_text segs v t) vs rs = (vs @ vis, rs @ think_reasons segs t, t \<noteq> None) \<and>
    concat vis = concat (map fst segs) @ v"
  using assms
proof (induction segs v t arbitrary: vs rs rule: think_text.induct)
  case (1 v)
  then have "find_first think_open v = None" by (simp add: think_wf_def find_first_None)
  then show ?case by (subst think_loop.simps) (auto simp: think_reasons_def)
next
  case (2 v r)
  then have "find_first think_open (v @ think_open @ r) = Some (v, r)" "find_first think_close r = None"
    by (simp_all add: think_wf_def find_open find_first_None)
  then show ?case by (subst think_loop.simps) (auto simp: think_reasons_def)
next
  case (3 v' r' segs v t)
  let ?rest = "think_text segs v t"
  have "find_first think_open (v' @ think_open @ r' @ think_close @ ?rest) = Some (v', r' @ think_close @ ?rest)"
    "find_first think_close (r' @ think_close @ ?rest) = Some (r', ?rest)"
    using 3(2) by (simp_all add: think_wf_def find_open find_close)
  moreover obtain vis where "think_loop ?rest (vs @ (if v' \<noteq> [] then [v'] else [])) (rs @ [r']) =
      ((vs @ (if v' \<noteq> [] then [v'] else [])) @ vis, (rs @ [r']) @ think_reasons segs t, t \<noteq> None)"
      "concat vis = concat (map fst segs) @ v"
    using 3(1) [of "vs @ (if v' \<noteq> [] then [v'] else [])" "rs @ [r']"] 3(2) by (auto simp: think_wf_def)
  ultimately show ?case
    by (subst think_text.simps, subst think_loop.simps)
      (auto simp: think_reasons_def intro: exI [of _ "(if v' \<noteq> [] then [v'] else []) @ vis"] split: if_splits)
qed

lemma think_decompose: "\<exists>segs v t. think_wf segs v t \<and> think_text segs v t = s"
proof (induction s rule: length_induct)
  case (1 s)
  show ?case
  proof (cases "find_first think_open s")
    case None
    then have "think_wf [] s None" by (simp add: think_wf_def find_first_None)
    then show ?thesis by (metis think_text.simps(1))
  next
    case (Some ab)
    then obtain a b where ab: "find_first think_open s = Some (a, b)" by (cases ab) auto
    then have s: "s = a @ think_open @ b" "\<not> sublist think_open a"
      using find_first_Some find_first_before by (fastforce simp: think_open_def)+
    show ?thesis
    proof (cases "find_first think_close b")
      case None
      with s have "think_wf [] a (Some b)" "think_text [] a (Some b) = s"
        by (simp_all add: think_wf_def find_first_None)
      then show ?thesis by blast
    next
      case (Some rc)
      then obtain r c where rc: "find_first think_close b = Some (r, c)" by (cases rc) auto
      then have b: "b = r @ think_close @ c" "\<not> sublist think_close r"
        using find_first_Some find_first_before by (fastforce simp: think_close_def)+
      then have "length c < length s" using s(1) by (simp add: think_close_def)
      then obtain segs v t where "think_wf segs v t" "think_text segs v t = c" using 1 by blast
      with s b have "think_wf ((a, r) # segs) v t" "think_text ((a, r) # segs) v t = s"
        by (simp_all add: think_wf_def)
      then show ?thesis by blast
    qed
  qed
qed

section \<open>Updating the last message\<close>

definition updateLastAssistantMessage :: "message list \<Rightarrow> (message \<Rightarrow> message) \<Rightarrow> message list" where
  "updateLastAssistantMessage messages updater =
     (if messages = [] then messages
      else if msg_from (last messages) \<noteq> ASSISTANT then messages
      else butlast messages @ [updater (last messages)])"

text \<open>\<open>errorCode || null\<close>.\<close>

definition updateAssistantMessageWithError :: "message list \<Rightarrow> jsstring \<Rightarrow> json option \<Rightarrow> message list" where
  "updateAssistantMessageWithError messages errorMessage errorCode =
     updateLastAssistantMessage messages (\<lambda>message.
       (updateCurrentVersionContent message (API_REQUEST_ERROR @ '': '' @ errorMessage))
         \<lparr>msg_status := Some ERROR, msg_isReasoningStreaming := Some False,
          msg_errorCode := Some (js_or errorCode JNull id)\<rparr>)"

definition processStreamingContent :: "message \<Rightarrow> jsstring \<Rightarrow> message" where
  "processStreamingContent message contentChunk =
     (let fullContent = mv_content (getCurrentVersion message) @ contentChunk;
          parsed = parseThinkTags fullContent
      in (updateCurrentVersionContent message fullContent)
           \<lparr>msg_reasoning := (if reasoningText parsed \<noteq> []
                                then Some \<lparr>rs_content = reasoningText parsed, rs_duration = 0\<rparr>
                                else msg_reasoning message),
            msg_isReasoningStreaming := Some (hasUnclosedTag parsed)\<rparr>)"

definition first_nonempty :: "jsstring list \<Rightarrow> jsstring" where
  "first_nonempty xs = (case filter (\<lambda>x. x \<noteq> []) xs of x # _ \<Rightarrow> x | [] \<Rightarrow> [])"

definition finalizeMessage :: "message \<Rightarrow> jsstring option \<Rightarrow> message" where
  "finalizeMessage message apiReasoningContent =
     (let parsed = parseThinkTags (mv_content (getCurrentVersion message));
          finalReasoning = first_nonempty
            [case apiReasoningContent of Some r \<Rightarrow> r | None \<Rightarrow> [],
             case msg_reasoning message of Some r \<Rightarrow> rs_content r | None \<Rightarrow> [],
             reasoningText parsed]
      in (updateCurrentVersionContent message (visibleContent parsed))
           \<lparr>msg_reasoning := (if finalReasoning \<noteq> []
                                then Some \<lparr>rs_content = finalReasoning,
                                           rs_duration = (case msg_reasoning message of Some r \<Rightarrow> rs_duration r | None \<Rightarrow> 0)\<rparr>
                                else None),
            msg_isReasoningStreaming := Some False\<rparr>)"

section \<open>Repair of stored messages\<close>

definition is_stuck :: "message \<Rightarrow> bool" where
  "is_stuck m \<longleftrightarrow> msg_from m = ASSISTANT \<and> (msg_status m = Some LOADING \<or> msg_status m = Some STREAMING)"

text \<open>The index of the last stuck message: the loop runs downwards.\<close>

fun last_index :: "('a \<Rightarrow> bool) \<Rightarrow> 'a list \<Rightarrow> nat \<Rightarrow> nat option" where
  "last_index P xs 0 = None"
| "last_index P xs (Suc i) = (if P (xs ! i) then Some i else last_index P xs i)"

definition sanitized_message :: "message \<Rightarrow> message" where
  "sanitized_message m =
     (let finalized = finalizeMessage m None;
          hasContent = (case msg_versions finalized of v # _ \<Rightarrow> js_trim (mv_content v) \<noteq> [] | [] \<Rightarrow> False);
          hasReasoning = (case msg_reasoning finalized of Some r \<Rightarrow> js_trim (rs_content r) \<noteq> [] | None \<Rightarrow> False)
      in if hasContent \<or> hasReasoning
         then finalized\<lparr>msg_status := Some COMPLETE, msg_isReasoningStreaming := Some False\<rparr>
         else (updateCurrentVersionContent finalized (API_REQUEST_ERROR @ '': '' @ INTERRUPTED))
                \<lparr>msg_status := Some ERROR, msg_isReasoningStreaming := Some False\<rparr>)"

definition sanitizeMessagesOnLoad :: "message list \<Rightarrow> message list" where
  "sanitizeMessagesOnLoad messages =
     (case last_index is_stuck messages (length messages) of
        None \<Rightarrow> messages
      | Some i \<Rightarrow> messages[i := sanitized_message (messages ! i)])"

section \<open>Lemmas on updates\<close>

lemma current_version_update [simp]:
  "getCurrentVersion (updateCurrentVersionContent m c) = (getCurrentVersion m)\<lparr>mv_content := c\<rparr>"
  by (simp add: getCurrentVersion_def updateCurrentVersionContent_def)

lemma update_version_fields [simp]:
  "msg_key (updateCurrentVersionContent m c) = msg_key m"
  "msg_from (updateCurrentVersionContent m c) = msg_from m"
  "msg_reasoning (updateCurrentVersionContent m c) = msg_reasoning m"
  "msg_status (updateCurrentVersionContent m c) = msg_status m"
  "msg_versions (updateCurrentVersionContent m c) = [(getCurrentVersion m)\<lparr>mv_content := c\<rparr>]"
  by (simp_all add: updateCurrentVersionContent_def)

lemma finalize_fields [simp]:
  "msg_key (finalizeMessage m r) = msg_key m" "msg_from (finalizeMessage m r) = msg_from m"
  by (simp_all add: finalizeMessage_def Let_def)

lemma sanitized_fields [simp]:
  "msg_key (sanitized_message m) = msg_key m" "msg_from (sanitized_message m) = msg_from m"
  by (simp_all add: sanitized_message_def Let_def)

lemma sanitized_settled: "\<not> is_stuck (sanitized_message m)"
  by (simp add: is_stuck_def sanitized_message_def Let_def)

lemma update_last_keys:
  "(\<And>m. msg_key (f m) = msg_key m) \<Longrightarrow> map msg_key (updateLastAssistantMessage ms f) = map msg_key ms"
  by (cases ms rule: rev_cases) (auto simp: updateLastAssistantMessage_def)

lemma update_last_snoc:
  "msg_from m = ASSISTANT \<Longrightarrow> updateLastAssistantMessage (ms @ [m]) f = ms @ [f m]"
  by (simp add: updateLastAssistantMessage_def)

lemma last_index_cases:
  obtains "last_index P xs n = None" "\<forall>j < n. \<not> P (xs ! j)"
  | i where "last_index P xs n = Some i" "i < n" "P (xs ! i)" "\<forall>j. i < j \<and> j < n \<longrightarrow> \<not> P (xs ! j)"
proof (induction P xs n arbitrary: thesis rule: last_index.induct)
  case (2 P xs i)
  show ?case
  proof (cases "P (xs ! i)")
    case True
    then show ?thesis by (intro 2(3) [of i]) auto
  next
    case False
    show ?thesis
      by (rule 2(1) [OF False]) (use False 2(2,3) less_antisym in \<open>fastforce simp: less_Suc_eq\<close>)+
  qed
qed simp

text \<open>Loading repairs one stuck message and touches nothing else.\<close>

lemma sanitize_cases:
  obtains "sanitizeMessagesOnLoad ms = ms" "filter is_stuck ms = []"
  | xs m ys where "ms = xs @ m # ys" "is_stuck m" "filter is_stuck ys = []"
      "sanitizeMessagesOnLoad ms = xs @ sanitized_message m # ys"
proof (cases rule: last_index_cases [of is_stuck ms "length ms"])
  case 1
  then have "filter is_stuck ms = []" by (auto simp: filter_empty_conv in_set_conv_nth)
  with 1 that(1) show ?thesis by (simp add: sanitizeMessagesOnLoad_def)
next
  case (2 i)
  have "filter is_stuck (drop (Suc i) ms) = []"
    using 2(4) by (auto simp: filter_empty_conv in_set_conv_nth add.commute)
  moreover have "ms = take i ms @ ms ! i # drop (Suc i) ms" using 2(2) by (rule id_take_nth_drop)
  moreover have "sanitizeMessagesOnLoad ms = take i ms @ sanitized_message (ms ! i) # drop (Suc i) ms"
    using 2 by (simp add: sanitizeMessagesOnLoad_def upd_conv_take_nth_drop)
  ultimately show ?thesis using 2(3) that(2) by blast
qed

lemma sanitize_keys: "map msg_key (sanitizeMessagesOnLoad ms) = map msg_key ms"
  by (rule sanitize_cases [of ms]) auto

lemma sanitize_stuck_count:
  "length (filter is_stuck (sanitizeMessagesOnLoad ms)) = length (filter is_stuck ms) - 1"
  by (rule sanitize_cases [of ms]) (auto simp: sanitized_settled)

lemma sanitize_settled: "filter is_stuck ms = [] \<Longrightarrow> sanitizeMessagesOnLoad ms = ms"
  by (rule sanitize_cases [of ms]) auto

section \<open>Properties\<close>

definition think_shown :: "(jsstring \<times> jsstring) list \<Rightarrow> jsstring \<Rightarrow> jsstring option \<Rightarrow> think_split" where
  "think_shown segs v t =
     (if segs = [] \<and> t = None then \<lparr>visibleContent = v, reasoningText = [], hasUnclosedTag = False\<rparr>
      else \<lparr>visibleContent = js_trim (concat (map fst segs) @ v),
            reasoningText = js_trim (js_join [CHR 0x0A, CHR 0x0A] (think_reasons segs t)),
            hasUnclosedTag = (t \<noteq> None)\<rparr>)"

lemma find_open_text: "segs \<noteq> [] \<or> t \<noteq> None \<Longrightarrow> find_first think_open (think_text segs v t) \<noteq> None"
  unfolding find_first_None
  by (cases "(segs, v, t)" rule: think_text.cases) (auto simp: sublist_def)

text \<open>
  C30: Every text is a sequence of visible parts, each followed by a closed reasoning part, that ends
  in a visible part or in one whose tag is still open, and the parser returns exactly that split: the
  visible parts together, the reasoning parts separated by blank lines, and whether a tag is open.
\<close>

theorem think_tags_exact:
  assumes "think_wf segs v t"
  shows "parseThinkTags (think_text segs v t) = think_shown segs v t \<and>
    (\<exists>segs' v' t'. think_wf segs' v' t' \<and> think_text segs' v' t' = content)"
proof (cases "segs = [] \<and> t = None")
  case True
  have "find_first think_open v = None" using assms by (simp add: think_wf_def find_first_None)
  with True think_decompose [of content] show ?thesis by (simp add: parseThinkTags_def think_shown_def)
next
  case False
  moreover obtain vis where "think_loop (think_text segs v t) [] [] = (vis, think_reasons segs t, t \<noteq> None)"
      "concat vis = concat (map fst segs) @ v"
    using think_loop_text [OF assms, of "[]" "[]"] by auto
  ultimately show ?thesis
    using find_open_text [of segs t v] by (auto simp: parseThinkTags_def think_shown_def think_decompose)
qed

theorem think_tags_exact_witness:
  "parseThinkTags ''a<think>b</think>c<think>d'' =
     \<lparr>visibleContent = ''ac'', reasoningText = ''b'' @ [CHR 0x0A, CHR 0x0A] @ ''d'', hasUnclosedTag = True\<rparr>"
proof -
  have "think_wf [(''a'', ''b'')] ''c'' (Some ''d'')" by code_simp
  from think_tags_exact [OF this]
  have "parseThinkTags (think_text [(''a'', ''b'')] ''c'' (Some ''d'')) = think_shown [(''a'', ''b'')] ''c'' (Some ''d'')"
    by blast
  moreover have "think_text [(''a'', ''b'')] ''c'' (Some ''d'') = ''a<think>b</think>c<think>d''" by code_simp
  moreover have "think_shown [(''a'', ''b'')] ''c'' (Some ''d'') =
      \<lparr>visibleContent = ''ac'', reasoningText = ''b'' @ [CHR 0x0A, CHR 0x0A] @ ''d'', hasUnclosedTag = True\<rparr>"
    by code_simp
  ultimately show ?thesis by (simp only:)
qed

end
