(* ===== verification/PlaygroundStorage.thy ===== *)
theory PlaygroundStorage
  imports PlaygroundMessages "HOL-Library.Monad_Syntax"
begin

text \<open>
  The browser storage of the playground (\<open>lib/storage.ts\<close>) and the request payload
  (\<open>lib/payload-builder.ts\<close>). The configuration and the enabled parameters are objects read from the
  storage and spread over the defaults, so they are lists of properties with dynamic values; messages
  have the record type of \<open>types.ts\<close> and are stored as JSON.

  The storage is a map from keys to texts. Whether the browser accepts a write is a parameter: a
  refused \<open>setItem\<close> throws, the exception is caught and the storage stays as it was.
\<close>

type_synonym storage = "jsstring \<rightharpoonup> jsstring"
type_synonym obj = "(jsstring \<times> json) list"

section \<open>Constants\<close>

definition STORAGE_CONFIG :: jsstring where "STORAGE_CONFIG = ''playground_config''"
definition STORAGE_MESSAGES :: jsstring where "STORAGE_MESSAGES = ''playground_messages''"
definition STORAGE_PARAMETER_ENABLED :: jsstring where
  "STORAGE_PARAMETER_ENABLED = ''playground_parameter_enabled''"

definition DEFAULT_CONFIG :: obj where
  "DEFAULT_CONFIG =
     [(''model'', JStr ''gpt-4o''), (''group'', JStr ''default''), (''temperature'', JNum (JDec 7 (-1))),
      (''top_p'', JNum (JDec 1 0)), (''max_tokens'', JNum (JDec 4096 0)),
      (''frequency_penalty'', JNum (JDec 0 0)), (''presence_penalty'', JNum (JDec 0 0)),
      (''seed'', JNull), (''stream'', JBool True)]"

definition DEFAULT_PARAMETER_ENABLED :: obj where
  "DEFAULT_PARAMETER_ENABLED =
     [(''temperature'', JBool True), (''top_p'', JBool True), (''max_tokens'', JBool False),
      (''frequency_penalty'', JBool True), (''presence_penalty'', JBool True), (''seed'', JBool False)]"

section \<open>Messages as JSON\<close>

text \<open>\<open>JSON.stringify\<close> leaves absent properties out. Readers look properties up by name, so the order
  of the declaration stands for every order.\<close>

fun role_text :: "message_role \<Rightarrow> jsstring" where
  "role_text USER = ''user''"
| "role_text ASSISTANT = ''assistant''"
| "role_text SYSTEM = ''system''"

fun status_text :: "message_status \<Rightarrow> jsstring" where
  "status_text LOADING = ''loading''"
| "status_text STREAMING = ''streaming''"
| "status_text COMPLETE = ''complete''"
| "status_text ERROR = ''error''"

definition opt_prop :: "jsstring \<Rightarrow> ('a \<Rightarrow> json) \<Rightarrow> 'a option \<Rightarrow> obj" where
  "opt_prop k f v = (case v of None \<Rightarrow> [] | Some x \<Rightarrow> [(k, f x)])"

definition version_json :: "message_version \<Rightarrow> json" where
  "version_json v = JObj (opt_prop ''id'' JStr (mv_id v) @ [(''content'', JStr (mv_content v))])"

definition source_json :: "jsstring \<times> jsstring \<Rightarrow> json" where
  "source_json x = JObj [(''href'', JStr (fst x)), (''title'', JStr (snd x))]"

definition reasoning_json :: "reasoning \<Rightarrow> json" where
  "reasoning_json r = JObj [(''content'', JStr (rs_content r)), (''duration'', JNum (num_of_int (rs_duration r)))]"

definition message_props :: "message \<Rightarrow> obj" where
  "message_props m =
     [(''key'', JStr (msg_key m)), (''from'', JStr (role_text (msg_from m))),
      (''versions'', JArr (map version_json (msg_versions m)))] @
     opt_prop ''sources'' (\<lambda>xs. JArr (map source_json xs)) (msg_sources m) @
     opt_prop ''reasoning'' reasoning_json (msg_reasoning m) @
     opt_prop ''isReasoningStreaming'' JBool (msg_isReasoningStreaming m) @
     opt_prop ''isReasoningComplete'' JBool (msg_isReasoningComplete m) @
     opt_prop ''isContentComplete'' JBool (msg_isContentComplete m) @
     opt_prop ''status'' (\<lambda>s. JStr (status_text s)) (msg_status m) @
     opt_prop ''errorCode'' id (msg_errorCode m)"

definition message_json :: "message \<Rightarrow> json" where
  "message_json m = JObj (message_props m)"

text \<open>Reading the record type back; \<^term>\<open>None\<close> for a value that does not have it.\<close>

fun as_text :: "json \<Rightarrow> jsstring option" where
  "as_text (JStr s) = Some s"
| "as_text _ = None"

fun as_bool :: "json \<Rightarrow> bool option" where
  "as_bool (JBool b) = Some b"
| "as_bool _ = None"

fun as_int :: "json \<Rightarrow> int option" where
  "as_int (JNum n) = int_value n"
| "as_int _ = None"

fun role_of :: "json \<Rightarrow> message_role option" where
  "role_of (JStr s) = (if s = ''user'' then Some USER else if s = ''assistant'' then Some ASSISTANT
     else if s = ''system'' then Some SYSTEM else None)"
| "role_of _ = None"

fun status_of :: "json \<Rightarrow> message_status option" where
  "status_of (JStr s) = (if s = ''loading'' then Some LOADING else if s = ''streaming'' then Some STREAMING
     else if s = ''complete'' then Some COMPLETE else if s = ''error'' then Some ERROR else None)"
| "status_of _ = None"

fun list_of :: "(json \<Rightarrow> 'a option) \<Rightarrow> json \<Rightarrow> 'a list option" where
  "list_of f (JArr xs) = those (map f xs)"
| "list_of f _ = None"

definition opt_of :: "(json \<Rightarrow> 'a option) \<Rightarrow> json option \<Rightarrow> 'a option option" where
  "opt_of f v = (case v of None \<Rightarrow> Some None | Some j \<Rightarrow> map_option Some (f j))"

definition version_of :: "json \<Rightarrow> message_version option" where
  "version_of j = do {
     i \<leftarrow> opt_of as_text (json_get j ''id'');
     c \<leftarrow> Option.bind (json_get j ''content'') as_text;
     Some \<lparr>mv_id = i, mv_content = c\<rparr> }"

definition source_of :: "json \<Rightarrow> (jsstring \<times> jsstring) option" where
  "source_of j = do {
     h \<leftarrow> Option.bind (json_get j ''href'') as_text;
     t \<leftarrow> Option.bind (json_get j ''title'') as_text;
     Some (h, t) }"

definition reasoning_of :: "json \<Rightarrow> reasoning option" where
  "reasoning_of j = do {
     c \<leftarrow> Option.bind (json_get j ''content'') as_text;
     d \<leftarrow> Option.bind (json_get j ''duration'') as_int;
     Some \<lparr>rs_content = c, rs_duration = d\<rparr> }"

definition message_of :: "json \<Rightarrow> message option" where
  "message_of j = do {
     k \<leftarrow> Option.bind (json_get j ''key'') as_text;
     f \<leftarrow> Option.bind (json_get j ''from'') role_of;
     vs \<leftarrow> Option.bind (json_get j ''versions'') (list_of version_of);
     src \<leftarrow> opt_of (list_of source_of) (json_get j ''sources'');
     r \<leftarrow> opt_of reasoning_of (json_get j ''reasoning'');
     rs \<leftarrow> opt_of as_bool (json_get j ''isReasoningStreaming'');
     rc \<leftarrow> opt_of as_bool (json_get j ''isReasoningComplete'');
     cc \<leftarrow> opt_of as_bool (json_get j ''isContentComplete'');
     st \<leftarrow> opt_of status_of (json_get j ''status'');
     Some \<lparr>msg_key = k, msg_from = f, msg_versions = vs, msg_sources = src, msg_reasoning = r,
           msg_isReasoningStreaming = rs, msg_isReasoningComplete = rc, msg_isContentComplete = cc,
           msg_status = st, msg_errorCode = json_get j ''errorCode''\<rparr> }"

section \<open>Storage operations\<close>

definition setItem :: "(jsstring \<Rightarrow> jsstring \<Rightarrow> bool) \<Rightarrow> storage \<Rightarrow> jsstring \<Rightarrow> jsstring \<Rightarrow> storage" where
  "setItem accepts st k v = (if accepts k v then st(k \<mapsto> v) else st)"

text \<open>An absent or empty item and a text that is no JSON give the empty object.\<close>

definition load_object :: "storage \<Rightarrow> jsstring \<Rightarrow> json" where
  "load_object st k =
     (case st k of
        None \<Rightarrow> JObj []
      | Some saved \<Rightarrow> if saved = [] then JObj []
                       else (case json_parse saved of Some j \<Rightarrow> j | None \<Rightarrow> JObj []))"

definition loadConfig :: "storage \<Rightarrow> json" where
  "loadConfig st = load_object st STORAGE_CONFIG"

definition saveConfig :: "(jsstring \<Rightarrow> jsstring \<Rightarrow> bool) \<Rightarrow> storage \<Rightarrow> obj \<Rightarrow> storage" where
  "saveConfig accepts st config = setItem accepts st STORAGE_CONFIG (json_stringify (JObj config))"

definition loadParameterEnabled :: "storage \<Rightarrow> json" where
  "loadParameterEnabled st = load_object st STORAGE_PARAMETER_ENABLED"

definition saveParameterEnabled :: "(jsstring \<Rightarrow> jsstring \<Rightarrow> bool) \<Rightarrow> storage \<Rightarrow> obj \<Rightarrow> storage" where
  "saveParameterEnabled accepts st parameterEnabled =
     setItem accepts st STORAGE_PARAMETER_ENABLED (json_stringify (JObj parameterEnabled))"

definition saveMessages :: "(jsstring \<Rightarrow> jsstring \<Rightarrow> bool) \<Rightarrow> storage \<Rightarrow> message list \<Rightarrow> storage" where
  "saveMessages accepts st messages =
     setItem accepts st STORAGE_MESSAGES (json_stringify (JArr (map message_json messages)))"

text \<open>\<open>NoMessages\<close> is the result \<open>null\<close>. An array whose elements do not have the type of a message is
  outside the typed model and is reported as \<open>IllTyped\<close>.\<close>

datatype loaded = NoMessages | Messages "message list" | IllTyped

text \<open>\<open>sanitized !== parsed\<close> compares references: the repair returns its argument itself exactly when
  no message is stuck.\<close>

definition loadMessages :: "(jsstring \<Rightarrow> jsstring \<Rightarrow> bool) \<Rightarrow> storage \<Rightarrow> loaded \<times> storage" where
  "loadMessages accepts st =
     (case st STORAGE_MESSAGES of
        None \<Rightarrow> (NoMessages, st)
      | Some saved \<Rightarrow>
          if saved = [] then (NoMessages, st)
          else (case json_parse saved of
                  Some (JArr xs) \<Rightarrow>
                    (case those (map message_of xs) of
                       None \<Rightarrow> (IllTyped, st)
                     | Some parsed \<Rightarrow>
                         let sanitized = sanitizeMessagesOnLoad parsed
                         in (Messages sanitized,
                             if list_ex is_stuck parsed then saveMessages accepts st sanitized else st))
                | _ \<Rightarrow> (NoMessages, st)))"

definition clearPlaygroundData :: "storage \<Rightarrow> storage" where
  "clearPlaygroundData st =
     st(STORAGE_CONFIG := None, STORAGE_PARAMETER_ENABLED := None, STORAGE_MESSAGES := None)"

section \<open>Payload\<close>

definition parameterKeys :: "jsstring list" where
  "parameterKeys = [''temperature'', ''top_p'', ''max_tokens'', ''frequency_penalty'', ''presence_penalty'', ''seed'']"

definition chat_message_json :: "chat_message \<Rightarrow> json" where
  "chat_message_json m = JObj [(''role'', JStr (role_text (cm_role m))), (''content'', JStr (cm_content m))]"

definition parameter_on :: "obj \<Rightarrow> jsstring \<Rightarrow> bool" where
  "parameter_on parameterEnabled key = js_or (map_of parameterEnabled key) False (\<lambda>_. True)"

definition add_parameter :: "obj \<Rightarrow> obj \<Rightarrow> obj \<Rightarrow> jsstring \<Rightarrow> obj" where
  "add_parameter config parameterEnabled payload key =
     (if parameter_on parameterEnabled key
      then (case map_of config key of
              Some v \<Rightarrow> if v \<noteq> JNull then obj_set payload key v else payload
            | None \<Rightarrow> payload)
      else payload)"

text \<open>Properties of the payload that are \<open>undefined\<close> are not sent.\<close>

definition buildChatCompletionPayload :: "message list \<Rightarrow> obj \<Rightarrow> obj \<Rightarrow> obj" where
  "buildChatCompletionPayload messages config parameterEnabled =
     (let processedMessages = map formatMessageForAPI (filter isValidMessage messages);
          payload = opt_prop ''model'' id (map_of config ''model'') @
                    opt_prop ''group'' id (map_of config ''group'') @
                    [(''messages'', JArr (map chat_message_json processedMessages))] @
                    opt_prop ''stream'' id (map_of config ''stream'')
      in foldl (add_parameter config parameterEnabled) payload parameterKeys)"

section \<open>Stored text\<close>

declare json_stringify.simps [simp del]

lemma opt_prop_get:
  "map_of (opt_prop k f v @ rest) k' =
    (if k' = k then (case v of Some x \<Rightarrow> Some (f x) | None \<Rightarrow> map_of rest k') else map_of rest k')"
  "map_of (opt_prop k f v) k' = (if k' = k then map_option f v else None)"
  by (auto simp: opt_prop_def split: option.splits)

lemma opt_prop_all:
  "list_all P (opt_prop k f v) \<longleftrightarrow> pred_option (\<lambda>x. P (k, f x)) v"
  by (simp add: opt_prop_def split: option.splits)

lemma opt_prop_keys: "fst ` set (opt_prop k f v) = {x. x = k \<and> v \<noteq> None}" "distinct (map fst (opt_prop k f v))"
  by (auto simp: opt_prop_def split: option.splits)

lemma role_of_text [simp]: "role_of (JStr (role_text r)) = Some r"
  by (cases r) simp_all

lemma status_of_text [simp]: "status_of (JStr (status_text s)) = Some s"
  by (cases s) simp_all

lemma those_map_Some: "list_all (\<lambda>x. f (g x) = Some x) xs \<Longrightarrow> those (map (f \<circ> g) xs) = Some xs"
  by (induction xs) simp_all

lemma list_of_back: "(\<And>x. f (g x) = Some x) \<Longrightarrow> list_of f (JArr (map g xs)) = Some xs"
  by (simp add: those_map_Some list_all_iff)

lemma opt_of_back:
  "(\<And>x. g (f x) = Some x) \<Longrightarrow> opt_of g (case v of None \<Rightarrow> None | Some x \<Rightarrow> Some (f x)) = Some v"
  "(\<And>x. g (f x) = Some x) \<Longrightarrow> opt_of g (map_option f v) = Some v"
  by (simp_all add: opt_of_def split: option.splits)

lemma version_back [simp]: "version_of (version_json v) = Some v"
  by (simp add: version_of_def version_json_def opt_prop_get opt_of_back del: map_of_append cong: option.case_cong)

lemma source_back [simp]: "source_of (source_json x) = Some x"
  by (simp add: source_of_def source_json_def)

lemma reasoning_back [simp]: "reasoning_of (reasoning_json r) = Some r"
  by (simp add: reasoning_of_def reasoning_json_def)

lemma message_back: "message_of (message_json m) = Some m"
  by (simp add: message_of_def message_json_def message_props_def opt_prop_get opt_of_back list_of_back option.map_id
      del: map_of_append list_of.simps role_of.simps status_of.simps cong: option.case_cong)

definition message_ok :: "message \<Rightarrow> bool" where
  "message_ok m \<longleftrightarrow> pred_option json_wf (msg_errorCode m)"

lemma no_index: "list_all (\<lambda>k. \<not> is_array_index k)
    [''key'', ''from'', ''versions'', ''sources'', ''reasoning'', ''isReasoningStreaming'', ''isReasoningComplete'',
     ''isContentComplete'', ''status'', ''errorCode'', ''id'', ''content'', ''href'', ''title'', ''duration'']"
  by (simp add: is_array_index_def is_digit_def)

lemma num_of_int_wf: "is_finite (num_of_int n)" "canonical_num (num_of_int n)"
  by (simp_all add: num_of_int_def dec_canonical dec_finite)

lemma parts_wf: "json_wf (version_json v)" "json_wf (source_json x)" "json_wf (reasoning_json r)"
  using no_index
  by (auto simp: version_json_def source_json_def reasoning_json_def obj_wf_def no_index_order num_of_int_wf
      opt_prop_def split: option.splits)

lemma parts_all_wf: "list_all (json_wf \<circ> version_json) vs" "list_all (json_wf \<circ> source_json) xs"
  by (simp_all add: list_all_iff parts_wf)

lemma message_props_keys: "distinct (map fst (message_props m))"
  unfolding message_props_def map_append distinct_append set_append set_map opt_prop_keys(1) by (auto simp: opt_prop_keys(2))

lemma message_props_order: "obj_order (message_props m) = message_props m"
  using no_index by (intro no_index_order) (simp add: message_props_def opt_prop_all option.pred_True)

lemma message_props_wf: "message_ok m \<Longrightarrow> list_all (\<lambda>(k, v). json_wf v) (message_props m)"
  by (simp add: message_props_def opt_prop_all message_ok_def parts_wf parts_all_wf list.pred_map option.pred_True)

lemma message_wf: "message_ok m \<Longrightarrow> json_wf (message_json m)"
  by (simp add: message_json_def obj_wf_def message_props_keys message_props_order message_props_wf)

lemma messages_wf: "list_all message_ok ms \<Longrightarrow> json_wf (JArr (map message_json ms))"
  by (auto simp: list_all_iff message_wf)

definition messages_of_text :: "jsstring \<Rightarrow> message list option" where
  "messages_of_text s = (case json_parse s of Some (JArr xs) \<Rightarrow> those (map message_of xs) | _ \<Rightarrow> None)"

interpretation stored: codec "\<lambda>ms. json_stringify (JArr (map message_json ms))" messages_of_text "list_all message_ok"
  by unfold_locales (simp add: messages_of_text_def json_parse_stringify [OF messages_wf] those_map_Some message_back list_all_iff)

section \<open>Saving and loading\<close>

text \<open>
  The contract of a stored value: loading after saving gives the value in the form loading brings it
  to, and saving touches no other key. The last of several saves is the one that counts.
\<close>

locale persisted =
  fixes key :: jsstring
    and save :: "storage \<Rightarrow> 'a \<Rightarrow> storage"
    and load :: "storage \<Rightarrow> 'b"
    and good :: "'a \<Rightarrow> bool"
    and view :: "'a \<Rightarrow> 'b"
  assumes load_save: "good x \<Longrightarrow> load (save st x) = view x"
    and save_frame: "k \<noteq> key \<Longrightarrow> save st x k = st k"
begin

lemma load_last: "good x \<Longrightarrow> load (save (foldl save st xs) x) = view x"
  by (rule load_save)

lemma saves_frame: "k \<noteq> key \<Longrightarrow> foldl save st xs k = st k"
  by (induction xs arbitrary: st) (simp_all add: save_frame)

end

abbreviation accept_all :: "jsstring \<Rightarrow> jsstring \<Rightarrow> bool" where
  "accept_all \<equiv> \<lambda>_ _. True"

lemma stringify_nonempty: "json_stringify j \<noteq> []"
  using json_stringify_head [of j] by auto

lemma load_object_saved: "json_wf j \<Longrightarrow> load_object (st(k \<mapsto> json_stringify j)) k = j"
  by (simp add: load_object_def stringify_nonempty json_parse_stringify)

interpretation config: persisted STORAGE_CONFIG "saveConfig accept_all" loadConfig "\<lambda>c. json_wf (JObj c)" JObj
  by unfold_locales (simp_all add: saveConfig_def loadConfig_def setItem_def load_object_saved del: json_wf.simps)

interpretation params: persisted STORAGE_PARAMETER_ENABLED "saveParameterEnabled accept_all" loadParameterEnabled
    "\<lambda>c. json_wf (JObj c)" JObj
  by unfold_locales
    (simp_all add: saveParameterEnabled_def loadParameterEnabled_def setItem_def load_object_saved del: json_wf.simps)

lemma load_messages_text:
  assumes "st STORAGE_MESSAGES = Some (json_stringify (JArr (map message_json ms)))" "list_all message_ok ms"
  shows "loadMessages accepts st =
    (Messages (sanitizeMessagesOnLoad ms),
     if list_ex is_stuck ms then saveMessages accepts st (sanitizeMessagesOnLoad ms) else st)"
proof -
  have "json_parse (json_stringify (JArr (map message_json ms))) = Some (JArr (map message_json ms))"
    by (rule json_parse_stringify [OF messages_wf [OF assms(2)]])
  moreover have "those (map message_of (map message_json ms)) = Some ms"
    by (simp add: those_map_Some message_back list_all_iff)
  ultimately show ?thesis
    by (simp add: loadMessages_def assms(1) stringify_nonempty Let_def)
qed

interpretation messages: persisted STORAGE_MESSAGES "saveMessages accept_all" "\<lambda>st. fst (loadMessages accept_all st)"
    "list_all message_ok" "\<lambda>ms. Messages (sanitizeMessagesOnLoad ms)"
proof unfold_locales
  show "fst (loadMessages accept_all (saveMessages accept_all st ms)) = Messages (sanitizeMessagesOnLoad ms)"
    if "list_all message_ok ms" for st ms
    using that by (subst load_messages_text) (simp_all add: saveMessages_def setItem_def)
qed (simp add: saveMessages_def setItem_def)

lemma finalize_error_code [simp]: "msg_errorCode (finalizeMessage m r) = msg_errorCode m"
  by (simp add: finalizeMessage_def updateCurrentVersionContent_def Let_def)



section \<open>Payload lemmas\<close>

definition sent_value :: "obj \<Rightarrow> obj \<Rightarrow> jsstring \<Rightarrow> json option" where
  "sent_value config parameterEnabled key =
     (if parameter_on parameterEnabled key
      then (case map_of config key of Some v \<Rightarrow> if v \<noteq> JNull then Some v else None | None \<Rightarrow> None) else None)"

lemma add_parameter_get:
  "map_of (add_parameter config en payload key) k =
    (if k = key \<and> sent_value config en key \<noteq> None then sent_value config en key else map_of payload k)"
  by (simp add: add_parameter_def sent_value_def map_of_obj_set split: option.split)

lemma add_parameters_get:
  "distinct keys \<Longrightarrow> map_of (foldl (add_parameter config en) payload keys) k =
    (if k \<in> set keys \<and> sent_value config en k \<noteq> None then sent_value config en k else map_of payload k)"
  by (induction keys arbitrary: payload) (auto simp: add_parameter_get)

lemma payload_get:
  "map_of (buildChatCompletionPayload messages config en) k =
    (if k \<in> set parameterKeys \<and> sent_value config en k \<noteq> None then sent_value config en k
     else if k \<in> {''model'', ''group'', ''stream''} then map_of config k
     else if k = ''messages''
     then Some (JArr (map (\<lambda>m. chat_message_json (formatMessageForAPI m)) (filter isValidMessage messages))) else None)"
  unfolding buildChatCompletionPayload_def Let_def
  by (subst add_parameters_get) (simp_all add: parameterKeys_def opt_prop_get comp_def option.map_id
      del: map_of_append split: option.split)

section \<open>Properties\<close>









text \<open>
  The request carries exactly the messages that may be sent, in order and with their current
  text, and of the sampling parameters exactly those that are enabled and have a value.
\<close>

theorem payload_exact:
  "map_of (buildChatCompletionPayload messages config parameterEnabled) ''messages'' =
     Some (JArr (map (\<lambda>m. chat_message_json (formatMessageForAPI m)) (filter isValidMessage messages))) \<and>
   list_all (\<lambda>k. map_of (buildChatCompletionPayload messages config parameterEnabled) k =
     sent_value config parameterEnabled k) parameterKeys \<and>
   list_all (\<lambda>k. map_of (buildChatCompletionPayload messages config parameterEnabled) k = map_of config k)
     [''model'', ''group'', ''stream'']"
  by (simp add: payload_get) (simp add: parameterKeys_def)

end
