(* ===== verification/PlaygroundChat.thy ===== *)
theory PlaygroundChat
  imports PlaygroundStorage
begin

text \<open>
  A session of the playground: the state hook (\<open>hooks/use-playground-state.ts\<close>), the stream hook
  (\<open>hooks/use-stream-request.ts\<close>), the chat hook (\<open>hooks/use-chat-handler.ts\<close>) and the handlers of the
  page (\<open>index.tsx\<close>) as functions on one state record.

  The event source is the package \<open>sse.js\<close>: the model has the handlers the hook registers on it, and
  the events it delivers are inputs. A source is identified by the number of sources created before
  it; \<open>close()\<close> puts it into the list of closed sources. Whether \<open>stream()\<close> throws is an input too.
  Each handler sees the state the handlers before it left.
\<close>

section \<open>State\<close>

record model_option =
  mo_label :: jsstring
  mo_value :: jsstring

record group_option =
  go_label :: jsstring
  go_value :: jsstring
  go_ratio :: "json option"
  go_desc :: "json option"

record playground =
  pg_config :: obj
  pg_parameterEnabled :: obj
  pg_messages :: "message list"
  pg_models :: "model_option list"
  pg_groups :: "group_option list"
  pg_editing :: "jsstring option"
  pg_storage :: storage
  pg_source :: "nat option"
  pg_complete :: bool
  pg_sources :: nat
  pg_closed :: "nat list"
  pg_requests :: "obj list"
  pg_toasts :: "jsstring list"
  pg_next_id :: nat

type_synonym quota = "jsstring \<Rightarrow> jsstring \<Rightarrow> bool"

section \<open>State hook\<close>

definition initial_config :: "storage \<Rightarrow> obj" where
  "initial_config st = obj_assign DEFAULT_CONFIG (spread_props (loadConfig st))"

definition initial_parameterEnabled :: "storage \<Rightarrow> obj" where
  "initial_parameterEnabled st = obj_assign DEFAULT_PARAMETER_ENABLED (spread_props (loadParameterEnabled st))"

definition initial_messages :: "loaded \<Rightarrow> message list" where
  "initial_messages l = (case l of Messages ms \<Rightarrow> ms | _ \<Rightarrow> [])"

definition usePlaygroundState :: "quota \<Rightarrow> storage \<Rightarrow> nat \<Rightarrow> playground" where
  "usePlaygroundState accepts st next_id =
     (case loadMessages accepts st of
        (l, st') \<Rightarrow>
          \<lparr>pg_config = initial_config st, pg_parameterEnabled = initial_parameterEnabled st,
           pg_messages = initial_messages l, pg_models = [], pg_groups = [], pg_editing = None,
           pg_storage = st', pg_source = None, pg_complete = False, pg_sources = 0, pg_closed = [],
           pg_requests = [], pg_toasts = [], pg_next_id = next_id\<rparr>)"

definition updateConfig :: "quota \<Rightarrow> jsstring \<Rightarrow> json \<Rightarrow> playground \<Rightarrow> playground" where
  "updateConfig accepts key value pg =
     (let updated = obj_assign (pg_config pg) [(key, value)]
      in pg\<lparr>pg_config := updated, pg_storage := saveConfig accepts (pg_storage pg) updated\<rparr>)"

definition updateParameterEnabled :: "quota \<Rightarrow> jsstring \<Rightarrow> bool \<Rightarrow> playground \<Rightarrow> playground" where
  "updateParameterEnabled accepts key value pg =
     (let updated = obj_assign (pg_parameterEnabled pg) [(key, JBool value)]
      in pg\<lparr>pg_parameterEnabled := updated,
            pg_storage := saveParameterEnabled accepts (pg_storage pg) updated\<rparr>)"

definition updateMessages :: "quota \<Rightarrow> (message list \<Rightarrow> message list) \<Rightarrow> playground \<Rightarrow> playground" where
  "updateMessages accepts updater pg =
     (let newMessages = updater (pg_messages pg)
      in pg\<lparr>pg_messages := newMessages, pg_storage := saveMessages accepts (pg_storage pg) newMessages\<rparr>)"

definition clearMessages :: "quota \<Rightarrow> playground \<Rightarrow> playground" where
  "clearMessages accepts = updateMessages accepts (\<lambda>_. [])"

definition resetConfig :: "quota \<Rightarrow> playground \<Rightarrow> playground" where
  "resetConfig accepts pg =
     pg\<lparr>pg_config := DEFAULT_CONFIG, pg_parameterEnabled := DEFAULT_PARAMETER_ENABLED,
        pg_storage := saveParameterEnabled accepts (saveConfig accepts (pg_storage pg) DEFAULT_CONFIG)
          DEFAULT_PARAMETER_ENABLED\<rparr>"

section \<open>Message updates of the chat hook\<close>

datatype stream_part = ReasoningPart jsstring | ContentPart jsstring

fun streamed :: "stream_part \<Rightarrow> message \<Rightarrow> message" where
  "streamed (ReasoningPart chunk) message =
     (if msg_status message = Some ERROR then message
      else message\<lparr>msg_reasoning := Some \<lparr>rs_content = (case msg_reasoning message of Some r \<Rightarrow> rs_content r | None \<Rightarrow> []) @ chunk,
                                           rs_duration = 0\<rparr>,
                   msg_isReasoningStreaming := Some True, msg_status := Some STREAMING\<rparr>)"
| "streamed (ContentPart chunk) message =
     (if msg_status message = Some ERROR then message
      else (processStreamingContent message chunk)\<lparr>msg_status := Some STREAMING\<rparr>)"

definition handleStreamUpdate :: "quota \<Rightarrow> stream_part \<Rightarrow> playground \<Rightarrow> playground" where
  "handleStreamUpdate accepts part = updateMessages accepts (\<lambda>prev. updateLastAssistantMessage prev (streamed part))"

definition completed :: "message \<Rightarrow> message" where
  "completed message =
     (if msg_status message = Some COMPLETE \<or> msg_status message = Some ERROR then message
      else (finalizeMessage message None)\<lparr>msg_status := Some COMPLETE\<rparr>)"

definition handleStreamComplete :: "quota \<Rightarrow> playground \<Rightarrow> playground" where
  "handleStreamComplete accepts = updateMessages accepts (\<lambda>prev. updateLastAssistantMessage prev completed)"

definition handleStreamError :: "quota \<Rightarrow> jsstring \<Rightarrow> json option \<Rightarrow> playground \<Rightarrow> playground" where
  "handleStreamError accepts error errorCode pg =
     updateMessages accepts (\<lambda>prev. updateAssistantMessageWithError prev error errorCode)
       (pg\<lparr>pg_toasts := pg_toasts pg @ [error]\<rparr>)"

definition stopped :: "message \<Rightarrow> message" where
  "stopped message =
     (if msg_status message = Some LOADING \<or> msg_status message = Some STREAMING
      then (finalizeMessage message None)\<lparr>msg_status := Some COMPLETE\<rparr> else message)"

section \<open>Stream hook\<close>

definition close_source :: "nat \<Rightarrow> playground \<Rightarrow> playground" where
  "close_source src pg = pg\<lparr>pg_closed := src # pg_closed pg, pg_source := None\<rparr>"

definition handleError :: "quota \<Rightarrow> nat \<Rightarrow> jsstring \<Rightarrow> json option \<Rightarrow> playground \<Rightarrow> playground" where
  "handleError accepts src errorMessage errorCode pg =
     (if \<not> pg_complete pg then close_source src (handleStreamError accepts errorMessage errorCode pg) else pg)"

definition start_stream :: "quota \<Rightarrow> bool \<Rightarrow> playground \<Rightarrow> playground" where
  "start_stream accepts stream_throws pg =
     (if stream_throws then (handleStreamError accepts STREAM_START_ERROR None pg)\<lparr>pg_source := None\<rparr> else pg)"

definition sendStreamRequest :: "quota \<Rightarrow> bool \<Rightarrow> obj \<Rightarrow> playground \<Rightarrow> playground" where
  "sendStreamRequest accepts stream_throws payload pg =
     start_stream accepts stream_throws
       (pg\<lparr>pg_source := Some (pg_sources pg), pg_complete := False, pg_sources := pg_sources pg + 1,
           pg_requests := pg_requests pg @ [payload]\<rparr>)"

text \<open>\<open>JSON.parse(e.data).choices?.[0]?.delta\<close>: reading \<open>choices\<close> of \<open>null\<close> throws as a syntax error
  does, and both are caught alike.\<close>

definition chunk_delta :: "jsstring \<Rightarrow> json option option" where
  "chunk_delta data =
     (case json_parse data of
        None \<Rightarrow> None
      | Some JNull \<Rightarrow> None
      | Some chunk \<Rightarrow> Some (Option.bind (Option.bind (json_get chunk ''choices'') json_first) (\<lambda>c. json_get c ''delta'')))"

definition delta_parts :: "json option \<Rightarrow> stream_part list" where
  "delta_parts delta =
     js_or delta [] (\<lambda>d. js_or (json_get d ''reasoning_content'') [] (\<lambda>r. [ReasoningPart (js_to_string r)]) @
                         js_or (json_get d ''content'') [] (\<lambda>c. [ContentPart (js_to_string c)]))"

definition onMessage :: "quota \<Rightarrow> nat \<Rightarrow> jsstring \<Rightarrow> playground \<Rightarrow> playground" where
  "onMessage accepts src data pg =
     (if data = ''[DONE]''
      then handleStreamComplete accepts (close_source src (pg\<lparr>pg_complete := True\<rparr>))
      else (case chunk_delta data of
              None \<Rightarrow> handleError accepts src PARSE_ERROR None pg
            | Some delta \<Rightarrow> fold (handleStreamUpdate accepts) (delta_parts delta) pg))"

text \<open>The text and the code of an error event; the data of the event is absent or a text.\<close>

definition error_details :: "jsstring option \<Rightarrow> jsstring \<times> json option" where
  "error_details data =
     (case data of
        None \<Rightarrow> (API_REQUEST_ERROR, None)
      | Some d \<Rightarrow>
          if d = [] then (API_REQUEST_ERROR, None)
          else (case Option.bind (json_parse d) (\<lambda>p. json_get p ''error'') of
                  None \<Rightarrow> (d, None)
                | Some e \<Rightarrow>
                    if truthy e
                    then (js_or (json_get e ''message'') d js_to_string, js_or (json_get e ''code'') None Some)
                    else (d, None)))"

definition onError :: "quota \<Rightarrow> nat \<Rightarrow> nat \<Rightarrow> jsstring option \<Rightarrow> playground \<Rightarrow> playground" where
  "onError accepts src readyState data pg =
     (if readyState \<noteq> 2
      then (case error_details data of (errorMessage, errorCode) \<Rightarrow> handleError accepts src errorMessage errorCode pg)
      else pg)"

definition onReadyStateChange :: "quota \<Rightarrow> nat \<Rightarrow> nat option \<Rightarrow> nat option \<Rightarrow> playground \<Rightarrow> playground" where
  "onReadyStateChange accepts src readyState status pg =
     (case (readyState, status) of
        (Some r, Some s) \<Rightarrow>
          if 2 \<le> r \<and> s \<noteq> 200
          then handleError accepts src (''HTTP '' @ show_nat s @ '': '' @ CONNECTION_CLOSED) None pg else pg
      | _ \<Rightarrow> pg)"

definition stopStream :: "playground \<Rightarrow> playground" where
  "stopStream pg = (case pg_source pg of Some src \<Rightarrow> close_source src pg | None \<Rightarrow> pg)"

definition isStreaming :: "playground \<Rightarrow> bool" where
  "isStreaming pg \<longleftrightarrow> pg_source pg \<noteq> None"

section \<open>Chat hook\<close>

definition sendStreamingChat :: "quota \<Rightarrow> bool \<Rightarrow> message list \<Rightarrow> playground \<Rightarrow> playground" where
  "sendStreamingChat accepts stream_throws messages pg =
     sendStreamRequest accepts stream_throws
       (buildChatCompletionPayload messages (pg_config pg) (pg_parameterEnabled pg)) pg"

text \<open>The part of \<open>sendNonStreamingChat\<close> before \<open>await\<close>, and the parts that run when the response
  or the failure arrives.\<close>

definition sendNonStreamingChat :: "message list \<Rightarrow> playground \<Rightarrow> playground" where
  "sendNonStreamingChat messages pg =
     pg\<lparr>pg_requests := pg_requests pg @
          [buildChatCompletionPayload messages (pg_config pg) (pg_parameterEnabled pg)]\<rparr>"

definition answered :: "jsstring \<Rightarrow> jsstring option \<Rightarrow> message \<Rightarrow> message" where
  "answered content reasoning_content message =
     (finalizeMessage
        (message\<lparr>msg_versions :=
           [case msg_versions message of v # _ \<Rightarrow> v\<lparr>mv_content := content\<rparr>
            | [] \<Rightarrow> \<lparr>mv_id = None, mv_content = content\<rparr>]\<rparr>)
        reasoning_content)\<lparr>msg_status := Some COMPLETE\<rparr>"

record failure =
  fl_data :: "json option"
  fl_message :: "jsstring option"

definition onRequestFailed :: "quota \<Rightarrow> failure \<Rightarrow> playground \<Rightarrow> playground" where
  "onRequestFailed accepts err pg =
     handleStreamError accepts
       (js_or (Option.bind (fl_data err) (\<lambda>d. json_get d ''message''))
          (case fl_message err of Some m \<Rightarrow> if m \<noteq> [] then m else API_REQUEST_ERROR | None \<Rightarrow> API_REQUEST_ERROR)
          js_to_string)
       (js_or (Option.bind (Option.bind (fl_data err) (\<lambda>d. json_get d ''error'')) (\<lambda>e. json_get e ''code'')) None Some)
       pg"

text \<open>A response without body (\<open>null\<close>) makes \<open>response.choices\<close> throw a type error with a message
  of the engine, here an argument.\<close>

definition onResponse :: "quota \<Rightarrow> jsstring \<Rightarrow> json \<Rightarrow> playground \<Rightarrow> playground" where
  "onResponse accepts type_error response pg =
     (if response = JNull then onRequestFailed accepts \<lparr>fl_data = None, fl_message = Some type_error\<rparr> pg
      else js_or (Option.bind (json_get response ''choices'') json_first) pg
        (\<lambda>choice.
           let message' = json_get choice ''message'';
               content = js_or (Option.bind message' (\<lambda>m. json_get m ''content'')) [] js_to_string;
               reasoning = js_or (Option.bind message' (\<lambda>m. json_get m ''reasoning_content'')) None (\<lambda>r. Some (js_to_string r))
           in updateMessages accepts (\<lambda>prev. updateLastAssistantMessage prev (answered content reasoning)) pg))"

definition sendChat :: "quota \<Rightarrow> bool \<Rightarrow> message list \<Rightarrow> playground \<Rightarrow> playground" where
  "sendChat accepts stream_throws messages pg =
     (if js_or (map_of (pg_config pg) ''stream'') False (\<lambda>_. True)
      then sendStreamingChat accepts stream_throws messages pg
      else sendNonStreamingChat messages pg)"

definition stopGeneration :: "quota \<Rightarrow> playground \<Rightarrow> playground" where
  "stopGeneration accepts pg =
     updateMessages accepts (\<lambda>prev. updateLastAssistantMessage prev stopped) (stopStream pg)"

section \<open>Page handlers\<close>

definition handleSendMessage :: "quota \<Rightarrow> (nat \<Rightarrow> jsstring) \<Rightarrow> bool \<Rightarrow> jsstring \<Rightarrow> playground \<Rightarrow> playground" where
  "handleSendMessage accepts nanoid stream_throws text pg =
     (case createUserMessage nanoid (pg_next_id pg) text of
        (userMessage, n) \<Rightarrow>
          (case createLoadingAssistantMessage nanoid n of
             (assistantMessage, n') \<Rightarrow>
               let newMessages = pg_messages pg @ [userMessage, assistantMessage]
               in sendChat accepts stream_throws newMessages
                    (updateMessages accepts (\<lambda>_. newMessages) (pg\<lparr>pg_next_id := n'\<rparr>))))"

fun find_key :: "jsstring \<Rightarrow> message list \<Rightarrow> nat option" where
  "find_key k [] = None"
| "find_key k (m # ms) = (if msg_key m = k then Some 0 else map_option Suc (find_key k ms))"

definition handleRegenerateMessage :: "quota \<Rightarrow> (nat \<Rightarrow> jsstring) \<Rightarrow> bool \<Rightarrow> jsstring \<Rightarrow> playground \<Rightarrow> playground" where
  "handleRegenerateMessage accepts nanoid stream_throws key pg =
     (case find_key key (pg_messages pg) of
        None \<Rightarrow> pg
      | Some messageIndex \<Rightarrow>
          (case createLoadingAssistantMessage nanoid (pg_next_id pg) of
             (loadingMessage, n) \<Rightarrow>
               let newMessages = take messageIndex (pg_messages pg) @ [loadingMessage]
               in sendChat accepts stream_throws newMessages
                    (updateMessages accepts (\<lambda>_. newMessages) (pg\<lparr>pg_next_id := n\<rparr>))))"

definition handleEditMessage :: "jsstring \<Rightarrow> playground \<Rightarrow> playground" where
  "handleEditMessage key pg = pg\<lparr>pg_editing := Some key\<rparr>"

definition handleEditOpenChange :: "bool \<Rightarrow> playground \<Rightarrow> playground" where
  "handleEditOpenChange open pg = (if \<not> open then pg\<lparr>pg_editing := None\<rparr> else pg)"

definition edited :: "jsstring \<Rightarrow> jsstring \<Rightarrow> message \<Rightarrow> message" where
  "edited key newContent m =
     (if msg_key m = key
      then m\<lparr>msg_versions := [case msg_versions m of v # _ \<Rightarrow> v\<lparr>mv_content := newContent\<rparr>
                                | [] \<Rightarrow> \<lparr>mv_id = None, mv_content = newContent\<rparr>]\<rparr>
      else m)"

definition applyEdit :: "quota \<Rightarrow> (nat \<Rightarrow> jsstring) \<Rightarrow> bool \<Rightarrow> jsstring \<Rightarrow> bool \<Rightarrow> playground \<Rightarrow> playground" where
  "applyEdit accepts nanoid stream_throws newContent submit pg =
     (case pg_editing pg of
        None \<Rightarrow> pg
      | Some key \<Rightarrow>
          if key = [] then pg
          else (case find_key key (pg_messages pg) of
                  None \<Rightarrow> pg
                | Some index \<Rightarrow>
                    let updated = map (edited key newContent) (pg_messages pg);
                        pg' = pg\<lparr>pg_editing := None\<rparr>
                    in if \<not> submit \<or> msg_from (updated ! index) \<noteq> USER
                       then updateMessages accepts (\<lambda>_. updated) pg'
                       else (case createLoadingAssistantMessage nanoid (pg_next_id pg) of
                               (loadingMessage, n) \<Rightarrow>
                                 let toSubmit = take (index + 1) updated @ [loadingMessage]
                                 in sendChat accepts stream_throws toSubmit
                                      (updateMessages accepts (\<lambda>_. toSubmit) (pg'\<lparr>pg_next_id := n\<rparr>)))))"

definition handleDeleteMessage :: "quota \<Rightarrow> jsstring \<Rightarrow> playground \<Rightarrow> playground" where
  "handleDeleteMessage accepts key pg =
     updateMessages accepts (\<lambda>_. filter (\<lambda>m. msg_key m \<noteq> key) (pg_messages pg)) pg"

text \<open>The effects that follow the models and the groups of the user.\<close>

definition onModels :: "quota \<Rightarrow> model_option list \<Rightarrow> playground \<Rightarrow> playground" where
  "onModels accepts models pg =
     (let pg' = pg\<lparr>pg_models := models\<rparr>
      in case models of
           [] \<Rightarrow> pg'
         | m # _ \<Rightarrow> if list_ex (\<lambda>m. map_of (pg_config pg) ''model'' = Some (JStr (mo_value m))) models then pg'
                     else updateConfig accepts ''model'' (JStr (mo_value m)) pg')"

definition onGroups :: "quota \<Rightarrow> group_option list \<Rightarrow> playground \<Rightarrow> playground" where
  "onGroups accepts groups pg =
     (let pg' = pg\<lparr>pg_groups := groups\<rparr>
      in case groups of
           [] \<Rightarrow> pg'
         | g # _ \<Rightarrow> if list_ex (\<lambda>g. map_of (pg_config pg) ''group'' = Some (JStr (go_value g))) groups then pg'
                     else updateConfig accepts ''group''
                            (JStr (if list_ex (\<lambda>g. go_value g = ''default'') groups then ''default'' else go_value g)) pg')"

section \<open>Service responses\<close>

text \<open>\<open>getUserModels\<close> and \<open>getUserGroups\<close> on the body of the response; \<^term>\<open>None\<close> when reading a
  property of \<open>null\<close> throws, and the query of the page then has no options. Model names are texts.\<close>

definition succeeded :: "json \<Rightarrow> bool" where
  "succeeded d = js_or (json_get d ''success'') False (\<lambda>_. True)"

definition getUserModels :: "json \<Rightarrow> model_option list option" where
  "getUserModels d =
     (if d = JNull then None
      else if \<not> succeeded d then Some []
      else (case json_get d ''data'' of
              Some (JArr xs) \<Rightarrow> Some (map (\<lambda>x. \<lparr>mo_label = js_to_string x, mo_value = js_to_string x\<rparr>) xs)
            | _ \<Rightarrow> Some []))"

definition getUserGroups :: "json \<Rightarrow> group_option list option" where
  "getUserGroups d =
     (if d = JNull then None
      else if \<not> succeeded d then Some []
      else js_or (json_get d ''data'') (Some [])
        (\<lambda>g. if list_ex (\<lambda>(k, info). info = JNull) (spread_props g) then None
             else Some (map (\<lambda>(k, info). \<lparr>go_label = k, go_value = k, go_ratio = json_get info ''ratio'',
                                         go_desc = json_get info ''desc''\<rparr>) (spread_props g))))"

definition query_options :: "'a list option \<Rightarrow> 'a list" where
  "query_options r = (case r of Some xs \<Rightarrow> xs | None \<Rightarrow> [])"

end
