(* ===== verification/PlaygroundProofs.thy ===== *)
theory PlaygroundProofs
  imports PlaygroundChat
begin

text \<open>
  Properties of playground sessions: a streamed answer equals the answer of the request that does not
  stream; every end of a stream settles the message; errors are final; messages keep distinct keys;
  and a reload of the page restores what the session shows.
\<close>

section \<open>Events of a stream\<close>

datatype sse_event = MessageEvent jsstring | ErrorEvent nat "jsstring option"
  | ReadyStateEvent "nat option" "nat option"

fun deliver :: "quota \<Rightarrow> nat \<Rightarrow> sse_event \<Rightarrow> playground \<Rightarrow> playground" where
  "deliver accepts src (MessageEvent data) = onMessage accepts src data"
| "deliver accepts src (ErrorEvent readyState data) = onError accepts src readyState data"
| "deliver accepts src (ReadyStateEvent readyState status) = onReadyStateChange accepts src readyState status"

lemma update_messages_fields [simp]:
  "pg_messages (updateMessages accepts f pg) = f (pg_messages pg)"
  "pg_source (updateMessages accepts f pg) = pg_source pg"
  "pg_complete (updateMessages accepts f pg) = pg_complete pg"
  "pg_next_id (updateMessages accepts f pg) = pg_next_id pg"
  "pg_config (updateMessages accepts f pg) = pg_config pg"
  "pg_parameterEnabled (updateMessages accepts f pg) = pg_parameterEnabled pg"
  by (simp_all add: updateMessages_def Let_def)

lemma close_source_fields [simp]:
  "pg_messages (close_source src pg) = pg_messages pg" "pg_source (close_source src pg) = None"
  "pg_complete (close_source src pg) = pg_complete pg"
  by (simp_all add: close_source_def)

lemma streamed_fields [simp]: "msg_key (streamed p m) = msg_key m" "msg_from (streamed p m) = msg_from m"
  by (cases p; simp add: processStreamingContent_def Let_def)+

lemma completed_fields [simp]: "msg_key (completed m) = msg_key m" "msg_from (completed m) = msg_from m"
  by (simp_all add: completed_def)

lemma stopped_fields [simp]: "msg_key (stopped m) = msg_key m" "msg_from (stopped m) = msg_from m"
  by (simp_all add: stopped_def)

lemma answered_fields [simp]: "msg_key (answered c r m) = msg_key m" "msg_from (answered c r m) = msg_from m"
  by (simp_all add: answered_def)

lemma edited_fields [simp]: "msg_key (edited k c m) = msg_key m" "msg_from (edited k c m) = msg_from m"
  by (simp_all add: edited_def)

definition error_message :: "jsstring \<Rightarrow> json option \<Rightarrow> message \<Rightarrow> message" where
  "error_message text code m =
     (updateCurrentVersionContent m (API_REQUEST_ERROR @ '': '' @ text))
       \<lparr>msg_status := Some ERROR, msg_isReasoningStreaming := Some False, msg_errorCode := Some (js_or code JNull id)\<rparr>"

lemma error_message_fields [simp]:
  "msg_key (error_message t c m) = msg_key m" "msg_from (error_message t c m) = msg_from m"
  "msg_status (error_message t c m) = Some ERROR"
  by (simp_all add: error_message_def)

lemma stream_error_messages [simp]:
  "pg_messages (handleStreamError accepts t c pg) = updateLastAssistantMessage (pg_messages pg) (error_message t c)"
  "pg_source (handleStreamError accepts t c pg) = pg_source pg"
  "pg_complete (handleStreamError accepts t c pg) = pg_complete pg"
  by (simp_all add: handleStreamError_def updateAssistantMessageWithError_def error_message_def [abs_def])

section \<open>The answer being generated\<close>

text \<open>Every event of a stream acts on the last message through one function and leaves the rest of
  the conversation alone.\<close>

definition acts_on_last :: "(message \<Rightarrow> message) \<Rightarrow> bool" where
  "acts_on_last f \<longleftrightarrow> (\<forall>m. msg_key (f m) = msg_key m \<and> msg_from (f m) = msg_from m)"

lemma acts_on_last_simps [simp]:
  "acts_on_last id" "acts_on_last (streamed p)" "acts_on_last completed" "acts_on_last stopped"
  "acts_on_last (answered c r)" "acts_on_last (error_message t e)"
  by (simp_all add: acts_on_last_def)

lemma update_last_id [simp]: "updateLastAssistantMessage ms id = ms" "updateLastAssistantMessage ms (\<lambda>m. m) = ms"
  by (cases ms rule: rev_cases; simp add: updateLastAssistantMessage_def)+

lemma update_last_comp:
  "acts_on_last f \<Longrightarrow> updateLastAssistantMessage (updateLastAssistantMessage ms f) g = updateLastAssistantMessage ms (g \<circ> f)"
  by (cases ms rule: rev_cases) (simp_all add: updateLastAssistantMessage_def acts_on_last_def)

lemma acts_on_last_comp: "acts_on_last f \<Longrightarrow> acts_on_last g \<Longrightarrow> acts_on_last (g \<circ> f)"
  by (simp add: acts_on_last_def)

lemma fold_updates:
  "pg_messages (fold (handleStreamUpdate accepts) ps pg) = updateLastAssistantMessage (pg_messages pg) (fold streamed ps)"
  "pg_source (fold (handleStreamUpdate accepts) ps pg) = pg_source pg"
  "pg_complete (fold (handleStreamUpdate accepts) ps pg) = pg_complete pg"
proof -
  show "pg_messages (fold (handleStreamUpdate accepts) ps pg) = updateLastAssistantMessage (pg_messages pg) (fold streamed ps)"
    by (induction ps arbitrary: pg) (simp_all add: handleStreamUpdate_def update_last_comp)
  show "pg_source (fold (handleStreamUpdate accepts) ps pg) = pg_source pg"
    "pg_complete (fold (handleStreamUpdate accepts) ps pg) = pg_complete pg"
    by (induction ps arbitrary: pg) (simp_all add: handleStreamUpdate_def)
qed

lemma fold_streamed_acts: "acts_on_last (fold streamed ps)"
proof -
  have "msg_key (fold streamed ps m) = msg_key m \<and> msg_from (fold streamed ps m) = msg_from m" for m
    by (induction ps arbitrary: m) simp_all
  then show ?thesis by (simp add: acts_on_last_def)
qed

lemma handle_error_acts:
  "\<exists>f. acts_on_last f \<and> pg_messages (handleError accepts src t c pg) = updateLastAssistantMessage (pg_messages pg) f"
  by (cases "pg_complete pg") (auto simp: handleError_def intro: exI [of _ id] exI [of _ "error_message t c"])

lemma deliver_acts:
  "\<exists>f. acts_on_last f \<and> pg_messages (deliver accepts src e pg) = updateLastAssistantMessage (pg_messages pg) f"
proof (cases e)
  case (MessageEvent data)
  consider "data = ''[DONE]''" | "data \<noteq> ''[DONE]''" "chunk_delta data = None"
    | d where "data \<noteq> ''[DONE]''" "chunk_delta data = Some d"
    by (cases "chunk_delta data") auto
  then show ?thesis
  proof cases
    case 1
    with MessageEvent show ?thesis
      by (intro exI [of _ completed]) (simp add: onMessage_def handleStreamComplete_def)
  next
    case 2
    with MessageEvent handle_error_acts show ?thesis by (simp add: onMessage_def)
  next
    case (3 d)
    with MessageEvent fold_streamed_acts show ?thesis
      by (intro exI [of _ "fold streamed (delta_parts d)"]) (simp add: onMessage_def fold_updates)
  qed
next
  case (ErrorEvent rs d)
  then show ?thesis
    using handle_error_acts [of accepts src] by (auto simp: onError_def split: prod.split intro: exI [of _ id])
next
  case (ReadyStateEvent rs s)
  then show ?thesis
    using handle_error_acts [of accepts src]
    by (auto simp: onReadyStateChange_def split: option.split intro: exI [of _ id])
qed

lemma delivered_shape:
  assumes "pg_messages pg = ms @ [m]" "msg_from m = ASSISTANT"
  shows "\<exists>m'. pg_messages (fold (deliver accepts src) es pg) = ms @ [m'] \<and> msg_key m' = msg_key m \<and> msg_from m' = ASSISTANT"
  using assms
proof (induction es arbitrary: pg m)
  case (Cons e es)
  obtain f where f: "acts_on_last f"
      "pg_messages (deliver accepts src e pg) = updateLastAssistantMessage (pg_messages pg) f"
    using deliver_acts by blast
  then have "pg_messages (deliver accepts src e pg) = ms @ [f m]" "msg_key (f m) = msg_key m" "msg_from (f m) = ASSISTANT"
    using Cons.prems by (simp_all add: update_last_snoc acts_on_last_def)
  with Cons.IH [of "deliver accepts src e pg" "f m"] show ?case by simp
qed simp

section \<open>Streamed and direct answers\<close>

definition content_of :: "stream_part list \<Rightarrow> jsstring" where
  "content_of ps = concat (map (\<lambda>p. case p of ContentPart c \<Rightarrow> c | ReasoningPart _ \<Rightarrow> []) ps)"

definition reasons_of :: "stream_part list \<Rightarrow> jsstring" where
  "reasons_of ps = concat (map (\<lambda>p. case p of ReasoningPart r \<Rightarrow> r | ContentPart _ \<Rightarrow> []) ps)"

lemma parts_of_snoc [simp]:
  "content_of (ps @ [ContentPart c]) = content_of ps @ c" "content_of (ps @ [ReasoningPart r]) = content_of ps"
  "reasons_of (ps @ [ContentPart c]) = reasons_of ps" "reasons_of (ps @ [ReasoningPart r]) = reasons_of ps @ r"
  "content_of [] = []" "reasons_of [] = []"
  by (simp_all add: content_of_def reasons_of_def)

text \<open>What a generated answer keeps of its message.\<close>

definition answer_frame :: "message \<Rightarrow> message" where
  "answer_frame m = m\<lparr>msg_versions := [], msg_reasoning := None, msg_isReasoningStreaming := None, msg_status := None\<rparr>"

abbreviation reasoning_content :: "message \<Rightarrow> jsstring" where
  "reasoning_content m \<equiv> (case msg_reasoning m of Some r \<Rightarrow> rs_content r | None \<Rightarrow> [])"

lemma streamed_frame:
  assumes "msg_status m \<noteq> Some ERROR"
  shows "answer_frame (fold streamed ps m) = answer_frame m \<and> msg_status (fold streamed ps m) \<noteq> Some ERROR \<and>
    getCurrentVersion (fold streamed ps m) =
      (getCurrentVersion m)\<lparr>mv_content := mv_content (getCurrentVersion m) @ content_of ps\<rparr>"
proof (induction ps rule: rev_induct)
  case (snoc p ps)
  then show ?case
    by (cases p) (auto simp: answer_frame_def processStreamingContent_def updateCurrentVersionContent_def
        getCurrentVersion_def Let_def split: list.splits)
qed (use assms in simp)

lemma untagged_parse:
  "find_first think_open s = None \<Longrightarrow> parseThinkTags s = \<lparr>visibleContent = s, reasoningText = [], hasUnclosedTag = False\<rparr>"
  by (simp add: parseThinkTags_def)

lemma untagged_prefix: "find_first think_open (s @ t) = None \<Longrightarrow> find_first think_open s = None"
  unfolding find_first_None by (auto simp: sublist_append)

lemma untagged_reasoning:
  assumes "msg_status m \<noteq> Some ERROR" "msg_reasoning m = None" "mv_content (getCurrentVersion m) = []"
    and "find_first think_open (content_of ps) = None"
  shows "reasoning_content (fold streamed ps m) = reasons_of ps \<and>
    pred_option (\<lambda>r. rs_duration r = 0) (msg_reasoning (fold streamed ps m))"
  using assms(4)
proof (induction ps rule: rev_induct)
  case (snoc p ps)
  have IH: "reasoning_content (fold streamed ps m) = reasons_of ps"
      "pred_option (\<lambda>r. rs_duration r = 0) (msg_reasoning (fold streamed ps m))"
    using snoc untagged_prefix by (cases p; auto)+
  have s: "msg_status (fold streamed ps m) \<noteq> Some ERROR"
      "mv_content (getCurrentVersion (fold streamed ps m)) = content_of ps"
    using streamed_frame [OF assms(1), of ps] assms(3) by auto
  show ?case
  proof (cases p)
    case (ContentPart c)
    with snoc.prems have "parseThinkTags (content_of ps @ c) = \<lparr>visibleContent = content_of ps @ c, reasoningText = [], hasUnclosedTag = False\<rparr>"
      by (simp add: untagged_parse)
    with IH s ContentPart show ?thesis by (simp add: processStreamingContent_def Let_def)
  qed (use IH s in simp)
qed (simp add: assms)

lemma tagged_reasoning:
  assumes "msg_status m \<noteq> Some ERROR" "mv_content (getCurrentVersion m) = []"
    and "list_all (\<lambda>p. case p of ContentPart _ \<Rightarrow> True | _ \<Rightarrow> False) ps"
    and "reasoningText (parseThinkTags (content_of ps)) \<noteq> []"
  shows "msg_reasoning (fold streamed ps m) = Some \<lparr>rs_content = reasoningText (parseThinkTags (content_of ps)), rs_duration = 0\<rparr>"
proof (cases ps rule: rev_cases)
  case Nil
  with assms(4) show ?thesis by (simp add: untagged_parse think_open_def)
next
  case (snoc qs p)
  then obtain c where "p = ContentPart c" using assms(3) by (cases p) auto
  with snoc assms streamed_frame [OF assms(1), of qs] show ?thesis
    by (simp add: processStreamingContent_def Let_def)
qed

lemma first_nonempty_simps [simp]:
  "first_nonempty [] = []" "first_nonempty ([] # xs) = first_nonempty xs"
  "first_nonempty (x # xs) = (if x = [] then first_nonempty xs else x)"
  by (simp_all add: first_nonempty_def)

lemma completed_is_answered:
  assumes frame: "answer_frame m' = answer_frame m"
    and version: "getCurrentVersion m' = (getCurrentVersion m)\<lparr>mv_content := c\<rparr>" "msg_versions m \<noteq> []"
    and status: "msg_status m' \<noteq> Some COMPLETE" "msg_status m' \<noteq> Some ERROR" "msg_reasoning m = None"
    and duration: "pred_option (\<lambda>r. rs_duration r = 0) (msg_reasoning m')"
    and reasons: "first_nonempty [reasoning_content m', reasoningText (parseThinkTags c)] =
      first_nonempty [case r of Some x \<Rightarrow> x | None \<Rightarrow> [], reasoningText (parseThinkTags c)]"
  shows "completed m' = answered c r m"
proof -
  obtain v vs where v: "msg_versions m = v # vs" using version(2) by (cases "msg_versions m") auto
  have fields: "msg_key m' = msg_key m" "msg_from m' = msg_from m" "msg_sources m' = msg_sources m"
      "msg_isReasoningComplete m' = msg_isReasoningComplete m" "msg_isContentComplete m' = msg_isContentComplete m"
      "msg_errorCode m' = msg_errorCode m"
    using frame by (cases m; cases m'; simp add: answer_frame_def)+
  have d: "(case msg_reasoning m' of Some r \<Rightarrow> rs_duration r | None \<Rightarrow> 0) = 0"
    using duration by (cases "msg_reasoning m'") auto
  show ?thesis
    by (rule message.equality)
      (use version(1) status fields d reasons v in
        \<open>simp_all add: completed_def answered_def finalizeMessage_def updateCurrentVersionContent_def
          getCurrentVersion_def [of m] getCurrentVersion_def [of "m\<lparr>msg_versions := _\<rparr>"] Let_def\<close>)
qed

definition readable :: "jsstring \<Rightarrow> bool" where
  "readable d \<longleftrightarrow> d \<noteq> ''[DONE]'' \<and> chunk_delta d \<noteq> None"

definition parts_of :: "jsstring list \<Rightarrow> stream_part list" where
  "parts_of ds = concat (map (\<lambda>d. delta_parts (the (chunk_delta d))) ds)"

lemma fold_messages:
  "list_all readable ds \<Longrightarrow> fold (onMessage accepts src) ds pg = fold (handleStreamUpdate accepts) (parts_of ds) pg"
  by (induction ds arbitrary: pg) (auto simp: readable_def onMessage_def parts_of_def)

definition response_json :: "jsstring \<Rightarrow> jsstring \<Rightarrow> json" where
  "response_json content reasoning =
     JObj [(''choices'', JArr [JObj [(''message'', JObj [(''content'', JStr content), (''reasoning_content'', JStr reasoning)])]])]"

lemma response_messages:
  "pg_messages (onResponse accepts te (response_json c r) pg) =
    updateLastAssistantMessage (pg_messages pg) (answered c (if r = [] then None else Some r))"
  by (cases "c = []"; cases "r = []") (simp_all add: onResponse_def response_json_def js_or_def)

text \<open>The streams whose reasoning has one origin: the field of the API, or tags that enclose a text.\<close>

definition one_origin :: "stream_part list \<Rightarrow> bool" where
  "one_origin ps \<longleftrightarrow> find_first think_open (content_of ps) = None \<or>
     list_all (\<lambda>p. case p of ContentPart _ \<Rightarrow> True | _ \<Rightarrow> False) ps \<and>
     reasoningText (parseThinkTags (content_of ps)) \<noteq> []"

lemma only_content: "list_all (\<lambda>p. case p of ContentPart _ \<Rightarrow> True | _ \<Rightarrow> False) ps \<Longrightarrow> reasons_of ps = []"
  by (induction ps) (auto simp: reasons_of_def split: stream_part.splits)

lemma streamed_not_complete:
  "msg_status m \<noteq> Some COMPLETE \<Longrightarrow> msg_status (fold streamed ps m) \<noteq> Some COMPLETE"
proof (induction ps rule: rev_induct)
  case (snoc p ps)
  then show ?case by (cases p) auto
qed simp

lemma streamed_answer:
  assumes "msg_status m = Some LOADING" "msg_reasoning m = None" "msg_versions m = [v]" "mv_content v = []" "one_origin ps"
  shows "completed (fold streamed ps m) = answered (content_of ps) (if reasons_of ps = [] then None else Some (reasons_of ps)) m"
proof (rule completed_is_answered)
  have m: "msg_status m \<noteq> Some ERROR" "mv_content (getCurrentVersion m) = []" "msg_status m \<noteq> Some COMPLETE"
    using assms by (simp_all add: getCurrentVersion_def)
  show "answer_frame (fold streamed ps m) = answer_frame m" "msg_status (fold streamed ps m) \<noteq> Some ERROR"
    "getCurrentVersion (fold streamed ps m) = (getCurrentVersion m)\<lparr>mv_content := content_of ps\<rparr>"
    using streamed_frame [OF m(1), of ps] m(2) by auto
  show "msg_status (fold streamed ps m) \<noteq> Some COMPLETE" by (rule streamed_not_complete [OF m(3)])
  show "msg_versions m \<noteq> []" "msg_reasoning m = None" using assms by simp_all
  have "pred_option (\<lambda>r. rs_duration r = 0) (msg_reasoning (fold streamed ps m)) \<and>
     first_nonempty [reasoning_content (fold streamed ps m), reasoningText (parseThinkTags (content_of ps))] =
     first_nonempty [reasons_of ps, reasoningText (parseThinkTags (content_of ps))]"
  proof (cases "find_first think_open (content_of ps) = None")
    case True
    with untagged_reasoning [OF m(1) assms(2) m(2) True] show ?thesis by simp
  next
    case False
    with assms(5) have *: "list_all (\<lambda>p. case p of ContentPart _ \<Rightarrow> True | _ \<Rightarrow> False) ps"
        "reasoningText (parseThinkTags (content_of ps)) \<noteq> []" by (auto simp: one_origin_def)
    with tagged_reasoning [OF m(1,2) *] only_content [OF *(1)] show ?thesis by simp
  qed
  then show "pred_option (\<lambda>r. rs_duration r = 0) (msg_reasoning (fold streamed ps m))"
    "first_nonempty [reasoning_content (fold streamed ps m), reasoningText (parseThinkTags (content_of ps))] =
     first_nonempty [case if reasons_of ps = [] then None else Some (reasons_of ps) of Some x \<Rightarrow> x | None \<Rightarrow> [],
       reasoningText (parseThinkTags (content_of ps))]" by simp_all
qed

section \<open>Properties of a stream\<close>

definition settled :: "message \<Rightarrow> bool" where
  "settled m \<longleftrightarrow> msg_status m = Some COMPLETE \<or> msg_status m = Some ERROR"

fun ends_stream :: "playground \<Rightarrow> sse_event \<Rightarrow> bool" where
  "ends_stream pg (MessageEvent d) \<longleftrightarrow> d = ''[DONE]'' \<or> \<not> pg_complete pg \<and> chunk_delta d = None"
| "ends_stream pg (ErrorEvent readyState d) \<longleftrightarrow> readyState \<noteq> 2 \<and> \<not> pg_complete pg"
| "ends_stream pg (ReadyStateEvent (Some r) (Some s)) \<longleftrightarrow> 2 \<le> r \<and> s \<noteq> 200 \<and> \<not> pg_complete pg"
| "ends_stream pg (ReadyStateEvent _ _) \<longleftrightarrow> False"

lemma handle_error_settles:
  "\<not> pg_complete pg \<Longrightarrow> pg_messages (handleError accepts src t c pg) =
     updateLastAssistantMessage (pg_messages pg) (error_message t c) \<and> \<not> isStreaming (handleError accepts src t c pg)"
  by (simp add: handleError_def isStreaming_def)

lemma completed_settled: "settled (completed m)"
  by (simp add: settled_def completed_def)

lemma error_settled: "settled (error_message t c m)"
  by (simp add: settled_def)

lemma end_event_settles:
  assumes "ends_stream pg e" "pg_messages pg = ms @ [m]" "msg_from m = ASSISTANT"
  shows "(\<exists>f. acts_on_last f \<and> settled (f m) \<and> pg_messages (deliver accepts src e pg) = ms @ [f m]) \<and>
    \<not> isStreaming (deliver accepts src e pg)"
proof -
  have err: "\<exists>f. acts_on_last f \<and> settled (f m) \<and> pg_messages (handleError accepts src t c pg) = ms @ [f m]"
    "\<not> isStreaming (handleError accepts src t c pg)" if "\<not> pg_complete pg" for t c
    using handle_error_settles [OF that] assms(2,3)
    by (auto simp: update_last_snoc error_settled intro!: exI [of _ "error_message t c"])
  have don: "\<exists>f. acts_on_last f \<and> settled (f m) \<and> pg_messages (onMessage accepts src ''[DONE]'' pg) = ms @ [f m]"
    "\<not> isStreaming (onMessage accepts src ''[DONE]'' pg)"
    using assms(2,3)
    by (auto simp: onMessage_def handleStreamComplete_def update_last_snoc completed_settled isStreaming_def
        intro!: exI [of _ completed])
  from assms(1) show ?thesis
    using err don by (cases rule: ends_stream.elims(2)) (auto simp: onMessage_def onError_def onReadyStateChange_def
      split: prod.split)
qed

text \<open>
  C1: Streaming an answer gives the answer the request without streaming gives: after the chunks of
  a stream and its end marker, the conversation is the one that a single response with the same text
  and the same reasoning produces, and the page no longer counts as generating, whenever the reasoning
  comes from one origin, the reasoning field of the API or non-empty tags in the text.
\<close>

theorem streaming_equals_direct:
  assumes "pg_messages pg = ms @ [m]" "msg_from m = ASSISTANT" "msg_status m = Some LOADING"
    and "msg_reasoning m = None" "msg_versions m = [v]" "mv_content v = []"
    and "list_all readable ds" "one_origin (parts_of ds)"
  shows "pg_messages (onMessage accepts src ''[DONE]'' (fold (onMessage accepts src) ds pg)) =
      pg_messages (onResponse accepts te (response_json (content_of (parts_of ds)) (reasons_of (parts_of ds))) pg) \<and>
    \<not> isStreaming (onMessage accepts src ''[DONE]'' (fold (onMessage accepts src) ds pg))"
proof -
  let ?ps = "parts_of ds"
  have "pg_messages (onMessage accepts src ''[DONE]'' (fold (onMessage accepts src) ds pg)) =
      ms @ [completed (fold streamed ?ps m)]"
    using assms(1,2,7) fold_streamed_acts [of ?ps]
    by (simp add: onMessage_def handleStreamComplete_def fold_messages fold_updates update_last_snoc acts_on_last_def)
  moreover have "completed (fold streamed ?ps m) =
      answered (content_of ?ps) (if reasons_of ?ps = [] then None else Some (reasons_of ?ps)) m"
    by (rule streamed_answer [OF assms(3-6,8)])
  ultimately show ?thesis
    using assms(1,2) by (simp add: response_messages update_last_snoc isStreaming_def onMessage_def handleStreamComplete_def)
qed

definition sample_session :: playground where
  "sample_session = handleSendMessage accept_all show_nat False ''hello'' (usePlaygroundState accept_all Map.empty 0)"

definition sample_chunk :: "jsstring \<Rightarrow> jsstring" where
  "sample_chunk text = ''{\"choices\":[{\"delta\":{\"content\":\"'' @ text @ ''\"}}]}''"

lemma sample_messages_shape:
  "pg_messages sample_session =
    [fst (createUserMessage show_nat 0 ''hello'')] @ [fst (createLoadingAssistantMessage show_nat 2)]"
  by (simp add: sample_session_def handleSendMessage_def createUserMessage_def createLoadingAssistantMessage_def
      usePlaygroundState_def loadMessages_def initial_messages_def sendChat_def sendStreamingChat_def
      sendStreamRequest_def start_stream_def sendNonStreamingChat_def Let_def numeral_eq_Suc)

theorem streaming_equals_direct_witness:
  "pg_messages (onMessage accept_all 0 ''[DONE]''
     (fold (onMessage accept_all 0) [sample_chunk ''<think>hm'', sample_chunk ''</think>hi''] sample_session)) =
   pg_messages (onResponse accept_all [] (response_json ''<think>hm</think>hi'' []) sample_session)"
proof -
  let ?ds = "[sample_chunk ''<think>hm'', sample_chunk ''</think>hi'']"
  have ps: "parts_of ?ds = [ContentPart ''<think>hm'', ContentPart ''</think>hi'']" "list_all readable ?ds"
    by code_simp+
  have "one_origin [ContentPart ''<think>hm'', ContentPart ''</think>hi'']" by code_simp
  then have "pg_messages (onMessage accept_all 0 ''[DONE]'' (fold (onMessage accept_all 0) ?ds sample_session)) =
      pg_messages (onResponse accept_all [] (response_json (content_of (parts_of ?ds)) (reasons_of (parts_of ?ds))) sample_session)"
    using streaming_equals_direct [OF sample_messages_shape _ _ _ _ _ ps(2), where accepts = accept_all and src = 0 and te = "[]"]
    unfolding ps(1) by (simp add: createLoadingAssistantMessage_def createMessageVersion_def)
  then show ?thesis unfolding ps(1) by (simp add: content_of_def reasons_of_def)
qed

text \<open>
  C15: A stream that ends, by its end marker, by a chunk that cannot be read, by an error or by a
  failed connection, leaves the answer complete or failed and the page ready for the next message,
  whatever was delivered before; the rest of the conversation is untouched.
\<close>

theorem stream_end_settles:
  assumes "pg_messages pg = ms @ [m]" "msg_from m = ASSISTANT" "ends_stream (fold (deliver accepts src) es pg) e"
  shows "\<not> isStreaming (fold (deliver accepts src) (es @ [e]) pg) \<and>
    (\<exists>m'. pg_messages (fold (deliver accepts src) (es @ [e]) pg) = ms @ [m'] \<and> msg_key m' = msg_key m \<and> settled m')"
proof -
  obtain m' where "pg_messages (fold (deliver accepts src) es pg) = ms @ [m']" "msg_key m' = msg_key m"
      "msg_from m' = ASSISTANT"
    using delivered_shape [OF assms(1,2)] by blast
  with end_event_settles [OF assms(3)] show ?thesis by (fastforce simp: acts_on_last_def)
qed

theorem stream_end_settles_witness:
  "\<exists>m'. pg_messages (fold (deliver accept_all 0) ([MessageEvent (sample_chunk ''h'')] @ [MessageEvent ''[DONE]'']) sample_session) =
     [fst (createUserMessage show_nat 0 ''hello''), m'] \<and> settled m'"
  using stream_end_settles [OF sample_messages_shape, of accept_all 0 "[MessageEvent (sample_chunk ''h'')]" "MessageEvent ''[DONE]''"]
  by (auto simp: createLoadingAssistantMessage_def)

text \<open>
  An error is final for its answer: no chunk, end marker or stop that arrives later changes the
  failed message.
\<close>

theorem error_is_final:
  assumes "pg_messages pg = ms @ [m]" "msg_status m = Some ERROR" "list_all readable ds"
  shows "pg_messages (onMessage accepts src ''[DONE]'' (fold (onMessage accepts src) ds pg)) = pg_messages pg \<and>
    pg_messages (stopGeneration accepts (fold (onMessage accepts src) ds pg)) = pg_messages pg"
proof -
  have "streamed p m = m" for p using assms(2) by (cases p) simp_all
  then have "fold streamed ps m = m" for ps by (induction ps) simp_all
  then show ?thesis
    using assms
    by (simp add: onMessage_def handleStreamComplete_def fold_messages fold_updates stopGeneration_def stopStream_def
        updateLastAssistantMessage_def completed_def stopped_def split: option.split)
qed

theorem error_is_final_witness:
  "pg_messages (onMessage accept_all 0 ''[DONE]''
     (fold (onMessage accept_all 0) [sample_chunk ''late''] (onError accept_all 0 1 None sample_session))) =
   pg_messages (onError accept_all 0 1 None sample_session)"
proof -
  have "pg_messages (onError accept_all 0 1 None sample_session) =
      [fst (createUserMessage show_nat 0 ''hello'')] @ [error_message API_REQUEST_ERROR None (fst (createLoadingAssistantMessage show_nat 2))]"
    using sample_messages_shape
    by (simp add: onError_def error_details_def handleError_def createLoadingAssistantMessage_def update_last_snoc
        updateLastAssistantMessage_def sample_session_def handleSendMessage_def createUserMessage_def sendChat_def
        sendStreamingChat_def sendStreamRequest_def start_stream_def sendNonStreamingChat_def usePlaygroundState_def loadMessages_def Let_def)
  moreover have "list_all readable [sample_chunk ''late'']" by code_simp
  ultimately show ?thesis using error_is_final by (metis error_message_fields(3))
qed

text \<open>
  When the close tag of an empty reasoning block is cut by a chunk boundary, the streamed answer
  keeps the cut tag as its reasoning, while the answer of a single response has none.
\<close>

theorem cut_close_tag_shown:
  "map_option rs_content (msg_reasoning (completed (fold streamed
     [ContentPart ''<think>'', ContentPart ''</th'', ContentPart ''ink>hi''] (fst (createLoadingAssistantMessage show_nat 0))))) =
     Some ''</th'' \<and>
   msg_reasoning (answered ''<think></think>hi'' None (fst (createLoadingAssistantMessage show_nat 0))) = None"
  by code_simp

text \<open>Events that neither end a stream nor report an error: chunks that can be read, and states of a connection
  whose status is 200 or not known.\<close>

fun quiet :: "sse_event \<Rightarrow> bool" where
  "quiet (MessageEvent d) \<longleftrightarrow> readable d"
| "quiet (ErrorEvent readyState d) \<longleftrightarrow> False"
| "quiet (ReadyStateEvent readyState status) \<longleftrightarrow> status = None \<or> status = Some 200"

lemma streamed_stuck: "is_stuck m \<Longrightarrow> is_stuck (streamed p m)"
  by (cases p) (auto simp: is_stuck_def processStreamingContent_def Let_def)

lemma updates_hang:
  assumes "pg_messages pg = ms @ [m]" "is_stuck m"
  shows "\<exists>m'. pg_messages (fold (handleStreamUpdate accepts) ps pg) = ms @ [m'] \<and> msg_key m' = msg_key m \<and> is_stuck m' \<and>
    pg_source (fold (handleStreamUpdate accepts) ps pg) = pg_source pg"
  using assms
proof (induction ps arbitrary: pg m)
  case (Cons p ps)
  have "pg_messages (handleStreamUpdate accepts p pg) = ms @ [streamed p m]"
    using Cons.prems by (simp add: handleStreamUpdate_def update_last_snoc is_stuck_def)
  from Cons.IH [OF this streamed_stuck [OF Cons.prems(2)]] show ?case by (simp add: handleStreamUpdate_def)
qed simp

lemma quiet_hangs:
  assumes "quiet e" "pg_messages pg = ms @ [m]" "is_stuck m"
  shows "\<exists>m'. pg_messages (deliver accepts src e pg) = ms @ [m'] \<and> msg_key m' = msg_key m \<and> is_stuck m' \<and>
    pg_source (deliver accepts src e pg) = pg_source pg"
proof (cases e)
  case (MessageEvent d)
  then obtain delta where "d \<noteq> ''[DONE]''" "chunk_delta d = Some delta" using assms(1) by (auto simp: readable_def)
  then show ?thesis using MessageEvent updates_hang [OF assms(2,3)] by (simp add: onMessage_def)
qed (use assms in \<open>auto simp: onReadyStateChange_def split: option.splits\<close>)

text \<open>
  C39: A stream without end marker is never finished. Whatever chunks have arrived for an answer that is still
  loading or streaming, when the connection then closes with status 200 the answer keeps a status of loading
  or streaming and the page stays generating; no event that follows without marker, error or another
  status changes that.
\<close>

theorem close_without_marker_hangs:
  assumes "pg_messages pg = ms @ [m]" "is_stuck m" "isStreaming pg" "list_all quiet es"
  shows "quiet (ReadyStateEvent (Some 2) (Some 200)) \<and> isStreaming (fold (deliver accepts src) es pg) \<and>
    (\<exists>m'. pg_messages (fold (deliver accepts src) es pg) = ms @ [m'] \<and> msg_key m' = msg_key m \<and> is_stuck m')"
proof -
  have "\<exists>m'. pg_messages (fold (deliver accepts src) es pg) = ms @ [m'] \<and> msg_key m' = msg_key m \<and> is_stuck m' \<and>
      pg_source (fold (deliver accepts src) es pg) = pg_source pg"
    using assms(1,2,4)
  proof (induction es arbitrary: pg m)
    case (Cons e es)
    then have q: "quiet e" "list_all quiet es" by simp_all
    obtain m' where m': "pg_messages (deliver accepts src e pg) = ms @ [m']" "msg_key m' = msg_key m" "is_stuck m'"
        "pg_source (deliver accepts src e pg) = pg_source pg" using quiet_hangs [OF q(1) Cons.prems(1,2)] by blast
    from Cons.IH [OF m'(1,3) q(2)] m'(2,4) show ?case by simp
  qed simp
  then show ?thesis using assms(3) by (auto simp: isStreaming_def)
qed

theorem close_without_marker_hangs_witness:
  "isStreaming (fold (deliver accept_all 0) [MessageEvent (sample_chunk ''hi''), ReadyStateEvent (Some 2) (Some 200)] sample_session)"
proof -
  have "isStreaming sample_session" "list_all quiet [MessageEvent (sample_chunk ''hi''), ReadyStateEvent (Some 2) (Some 200)]"
    "is_stuck (fst (createLoadingAssistantMessage show_nat 2))" by code_simp+
  then show ?thesis using close_without_marker_hangs [OF sample_messages_shape] by blast
qed

end
