(* ===== verification/PlaygroundSession.thy ===== *)
theory PlaygroundSession
  imports PlaygroundProofs
begin

text \<open>
  Whole sessions of the playground: the step relation has one rule for each thing the user, the
  network or the browser can do, in any order. Invariants of reachable states: the keys of the
  messages stay distinct, and a reload restores the configuration and the conversation.

  \<open>nanoid\<close> is assumed to return a new identifier at each call.
\<close>

section \<open>Steps\<close>

inductive pg_step :: "quota \<Rightarrow> (nat \<Rightarrow> jsstring) \<Rightarrow> playground \<Rightarrow> playground \<Rightarrow> bool"
  for accepts :: quota and nanoid :: "nat \<Rightarrow> jsstring" where
  Send: "pg_step accepts nanoid pg (handleSendMessage accepts nanoid throws text pg)"
| Regenerate: "pg_step accepts nanoid pg (handleRegenerateMessage accepts nanoid throws key pg)"
| OpenEdit: "pg_step accepts nanoid pg (handleEditMessage key pg)"
| CloseEdit: "pg_step accepts nanoid pg (handleEditOpenChange isOpen pg)"
| ApplyEdit: "pg_step accepts nanoid pg (applyEdit accepts nanoid throws text submit pg)"
| Delete: "pg_step accepts nanoid pg (handleDeleteMessage accepts key pg)"
| Clear: "pg_step accepts nanoid pg (clearMessages accepts pg)"
| Stop: "pg_step accepts nanoid pg (stopGeneration accepts pg)"
| Deliver: "pg_step accepts nanoid pg (deliver accepts src event pg)"
| Response: "pg_step accepts nanoid pg (onResponse accepts type_error response pg)"
| Failure: "pred_option json_wf (fl_data err) \<Longrightarrow> pg_step accepts nanoid pg (onRequestFailed accepts err pg)"
| SetConfig: "key \<in> set (map fst DEFAULT_CONFIG) \<Longrightarrow> json_wf v \<Longrightarrow> pg_step accepts nanoid pg (updateConfig accepts key v pg)"
| SetParameter: "key \<in> set (map fst DEFAULT_PARAMETER_ENABLED) \<Longrightarrow>
    pg_step accepts nanoid pg (updateParameterEnabled accepts key enabled pg)"
| Reset: "pg_step accepts nanoid pg (resetConfig accepts pg)"
| Models: "pg_step accepts nanoid pg (onModels accepts models pg)"
| Groups: "pg_step accepts nanoid pg (onGroups accepts groups pg)"

section \<open>Sending\<close>

lemma send_chat_shape:
  "\<exists>f. acts_on_last f \<and> pg_messages (sendChat accepts throws ms pg) = updateLastAssistantMessage (pg_messages pg) f"
  "pg_next_id (sendChat accepts throws ms pg) = pg_next_id pg"
proof -
  show "\<exists>f. acts_on_last f \<and> pg_messages (sendChat accepts throws ms pg) = updateLastAssistantMessage (pg_messages pg) f"
    by (auto simp: sendChat_def sendStreamingChat_def sendStreamRequest_def start_stream_def sendNonStreamingChat_def Let_def
        intro: exI [of _ id] exI [of _ "error_message STREAM_START_ERROR None"])
  show "pg_next_id (sendChat accepts throws ms pg) = pg_next_id pg"
    by (simp add: sendChat_def sendStreamingChat_def sendStreamRequest_def start_stream_def sendNonStreamingChat_def handleStreamError_def Let_def)
qed

lemma update_last_acts_keys: "acts_on_last f \<Longrightarrow> map msg_key (updateLastAssistantMessage ms f) = map msg_key ms"
  by (rule update_last_keys) (simp add: acts_on_last_def)

lemma send_chat_keys [simp]: "map msg_key (pg_messages (sendChat accepts throws ms pg)) = map msg_key (pg_messages pg)"
  using send_chat_shape(1) [of accepts throws ms pg] update_last_acts_keys by metis

section \<open>Keys\<close>

definition keys_ok :: "(nat \<Rightarrow> jsstring) \<Rightarrow> playground \<Rightarrow> bool" where
  "keys_ok nanoid pg \<longleftrightarrow> distinct (map msg_key (pg_messages pg)) \<and>
     (\<forall>n \<ge> pg_next_id pg. nanoid n \<notin> set (map msg_key (pg_messages pg)))"

lemma keys_ok_cong:
  "keys_ok nanoid pg \<Longrightarrow> map msg_key (pg_messages pg') = map msg_key (pg_messages pg) \<Longrightarrow>
   pg_next_id pg' = pg_next_id pg \<Longrightarrow> keys_ok nanoid pg'"
  unfolding keys_ok_def by metis

lemma keys_ok_shrink:
  "keys_ok nanoid pg \<Longrightarrow> distinct (map msg_key (pg_messages pg')) \<Longrightarrow>
   set (map msg_key (pg_messages pg')) \<subseteq> set (map msg_key (pg_messages pg)) \<Longrightarrow>
   pg_next_id pg' = pg_next_id pg \<Longrightarrow> keys_ok nanoid pg'"
  unfolding keys_ok_def by (metis subsetD)

text \<open>Appending new messages, with identifiers drawn after each other, to a part of the conversation.\<close>

lemma keys_ok_append:
  assumes "keys_ok nanoid pg" "inj nanoid"
    and "map msg_key (pg_messages pg') = take i (map msg_key (pg_messages pg)) @ map nanoid ns"
    and "distinct ns" "\<forall>n \<in> set ns. pg_next_id pg \<le> n \<and> n < pg_next_id pg'" "pg_next_id pg \<le> pg_next_id pg'"
  shows "keys_ok nanoid pg'"
proof -
  let ?ks = "map msg_key (pg_messages pg)"
  have fresh: "nanoid n \<notin> set ?ks" if "pg_next_id pg \<le> n" for n using assms(1) that by (simp add: keys_ok_def)
  have "set (take i ?ks) \<inter> set (map nanoid ns) = {}"
    using fresh assms(5) set_take_subset [of i ?ks] by fastforce
  moreover have "distinct (map nanoid ns)" using assms(2,4) inj_on_subset by (auto simp: distinct_map)
  moreover have "distinct (take i ?ks)" using assms(1) by (simp add: keys_ok_def)
  ultimately have "distinct (map msg_key (pg_messages pg'))" unfolding assms(3) by simp
  moreover have "nanoid n \<notin> set (map msg_key (pg_messages pg'))" if n: "pg_next_id pg' \<le> n" for n
  proof -
    have "nanoid n \<notin> set (take i ?ks)" using fresh [of n] n assms(6) set_take_subset [of i ?ks] by auto
    moreover have "nanoid n \<notin> nanoid ` set ns" using assms(2,5) n by (auto dest!: injD)
    ultimately show ?thesis unfolding assms(3) by simp
  qed
  ultimately show ?thesis unfolding keys_ok_def by blast
qed

lemma delivered_keys:
  "map msg_key (pg_messages (deliver accepts src e pg)) = map msg_key (pg_messages pg)"
  using deliver_acts [of accepts src e pg] update_last_acts_keys by metis

lemma other_next_id [simp]:
  "pg_next_id (handleStreamError accepts t c pg) = pg_next_id pg" "pg_next_id (close_source src pg) = pg_next_id pg"
  "pg_next_id (stopGeneration accepts pg) = pg_next_id pg" "pg_next_id (onRequestFailed accepts err pg) = pg_next_id pg"
  by (simp_all add: handleStreamError_def close_source_def stopGeneration_def stopStream_def onRequestFailed_def
      split: option.split)

lemma deliver_next_id [simp]: "pg_next_id (deliver accepts src e pg) = pg_next_id pg"
proof -
  have f: "pg_next_id (fold (handleStreamUpdate accepts) ps pg) = pg_next_id pg" for ps
    by (induction ps arbitrary: pg) (simp_all add: handleStreamUpdate_def)
  have h: "pg_next_id (handleError accepts src t c pg) = pg_next_id pg" for t c by (simp add: handleError_def)
  show ?thesis
    by (cases e) (simp_all add: onMessage_def onError_def onReadyStateChange_def handleStreamComplete_def f h
        split: option.split prod.split)
qed

lemma find_key_Some: "find_key k ms = Some i \<Longrightarrow> i < length ms \<and> msg_key (ms ! i) = k"
  by (induction k ms arbitrary: i rule: find_key.induct) (auto split: if_splits)

lemma distinct_filter_keys: "distinct (map msg_key ms) \<Longrightarrow> distinct (map msg_key (filter P ms))"
  by (rule distinct_map_filter)

lemma response_keys:
  "map msg_key (pg_messages (onResponse accepts te r pg)) = map msg_key (pg_messages pg)"
  "pg_next_id (onResponse accepts te r pg) = pg_next_id pg"
  by (simp_all add: onResponse_def onRequestFailed_def js_or_def Let_def update_last_acts_keys split: option.split)

lemma stop_keys: "map msg_key (pg_messages (stopGeneration accepts pg)) = map msg_key (pg_messages pg)"
  by (simp add: stopGeneration_def stopStream_def update_last_acts_keys split: option.split)

lemma failed_keys: "map msg_key (pg_messages (onRequestFailed accepts err pg)) = map msg_key (pg_messages pg)"
  by (simp add: onRequestFailed_def update_last_acts_keys)

lemma config_keys:
  "pg_messages (updateConfig accepts k v pg) = pg_messages pg" "pg_next_id (updateConfig accepts k v pg) = pg_next_id pg"
  "pg_messages (updateParameterEnabled accepts k b pg) = pg_messages pg"
  "pg_next_id (updateParameterEnabled accepts k b pg) = pg_next_id pg"
  by (simp_all add: updateConfig_def updateParameterEnabled_def Let_def)

lemma options_keys:
  "pg_messages (onModels accepts models pg) = pg_messages pg" "pg_next_id (onModels accepts models pg) = pg_next_id pg"
  "pg_messages (onGroups accepts groups pg) = pg_messages pg" "pg_next_id (onGroups accepts groups pg) = pg_next_id pg"
  by (simp_all add: onModels_def onGroups_def config_keys Let_def split: list.split)

lemma map_edited_keys: "map msg_key (map (edited k c) ms) = map msg_key ms"
  by simp

lemma send_keys_ok: "keys_ok nanoid pg \<Longrightarrow> inj nanoid \<Longrightarrow> keys_ok nanoid (handleSendMessage accepts nanoid throws text pg)"
  by (rule keys_ok_append [where i = "length (pg_messages pg)" and ns = "[pg_next_id pg, pg_next_id pg + 2]"])
    (auto simp: handleSendMessage_def createUserMessage_def createLoadingAssistantMessage_def send_chat_shape(2) Let_def)

lemma regenerate_keys_ok:
  "keys_ok nanoid pg \<Longrightarrow> inj nanoid \<Longrightarrow> keys_ok nanoid (handleRegenerateMessage accepts nanoid throws key pg)"
proof (cases "find_key key (pg_messages pg)")
  case (Some i)
  assume "keys_ok nanoid pg" "inj nanoid"
  then show ?thesis
    by (rule keys_ok_append [where i = i and ns = "[pg_next_id pg]"])
      (auto simp: handleRegenerateMessage_def Some createLoadingAssistantMessage_def send_chat_shape(2) Let_def take_map)
qed (simp add: handleRegenerateMessage_def)

lemma apply_edit_cases:
  obtains (same) "applyEdit accepts nanoid throws text submit pg = pg"
  | (saved) k where "applyEdit accepts nanoid throws text submit pg =
      updateMessages accepts (\<lambda>_. map (edited k text) (pg_messages pg)) (pg\<lparr>pg_editing := None\<rparr>)"
  | (sent) k i new where
      "new = take (i + 1) (map (edited k text) (pg_messages pg)) @ [fst (createLoadingAssistantMessage nanoid (pg_next_id pg))]"
      "applyEdit accepts nanoid throws text submit pg = sendChat accepts throws new
        (updateMessages accepts (\<lambda>_. new) (pg\<lparr>pg_editing := None, pg_next_id := pg_next_id pg + 2\<rparr>))"
proof (cases "pg_editing pg")
  case None
  with same show ?thesis by (simp add: applyEdit_def)
next
  case (Some k)
  show ?thesis
  proof (cases "k = [] \<or> find_key k (pg_messages pg) = None")
    case True
    with Some same show ?thesis by (auto simp: applyEdit_def)
  next
    case False
    then obtain i where i: "find_key k (pg_messages pg) = Some i" "k \<noteq> []" by auto
    show ?thesis
    proof (cases "submit \<and> msg_from (map (edited k text) (pg_messages pg) ! i) = USER")
      case True
      show ?thesis by (rule sent [OF refl, of i k]) (use Some i True in \<open>simp add: applyEdit_def createLoadingAssistantMessage_def Let_def\<close>)
    next
      case False
      show ?thesis by (rule saved [of k]) (use Some i False in \<open>simp add: applyEdit_def Let_def\<close>)
    qed
  qed
qed

lemma edit_keys_ok:
  assumes "keys_ok nanoid pg" "inj nanoid"
  shows "keys_ok nanoid (applyEdit accepts nanoid throws text submit pg)"
proof (cases rule: apply_edit_cases [of accepts nanoid throws "text" submit pg])
  case same
  with assms show ?thesis by simp
next
  case (saved k)
  with assms(1) show ?thesis by (auto intro: keys_ok_cong simp: comp_def)
next
  case (sent k i new)
  show ?thesis
    by (rule keys_ok_append [OF assms, where i = "i + 1" and ns = "[pg_next_id pg]"])
      (auto simp: sent send_chat_shape(2) createLoadingAssistantMessage_def take_map comp_def)
qed

lemma step_keys_ok:
  assumes "pg_step accepts nanoid pg pg'" "keys_ok nanoid pg" "inj nanoid"
  shows "keys_ok nanoid pg'"
  using assms(1)
proof cases
  case (Delete key)
  then show ?thesis
    using assms(2) by (intro keys_ok_shrink [OF assms(2)])
      (auto simp: handleDeleteMessage_def keys_ok_def distinct_filter_keys)
next
  case Clear
  then show ?thesis by (simp add: clearMessages_def keys_ok_def)
qed (use assms(2,3) in \<open>auto intro: send_keys_ok regenerate_keys_ok edit_keys_ok keys_ok_cong
      simp: handleEditMessage_def handleEditOpenChange_def stop_keys delivered_keys response_keys failed_keys
        config_keys options_keys resetConfig_def\<close>)

section \<open>What the storage holds\<close>

lemma json_get_wf: "json_wf j \<Longrightarrow> json_get j k = Some v \<Longrightarrow> json_wf v"
  by (cases j) (auto simp: list_all_iff dest!: map_of_SomeD)

lemma error_details_wf: "pred_option json_wf (snd (error_details d))"
proof (cases d)
  case (Some s)
  have "json_wf c" if "Option.bind (json_parse s) (\<lambda>p. json_get p ''error'') = Some e" "json_get e ''code'' = Some c" for e c
    using that json_parse_wf json_get_wf by (cases "json_parse s") (auto, blast)
  then show ?thesis
    unfolding Some error_details_def by (auto simp: js_or_def split: option.split)
qed (simp add: error_details_def)

lemma update_last_all:
  "list_all P ms \<Longrightarrow> (\<And>m. P m \<Longrightarrow> P (f m)) \<Longrightarrow> list_all P (updateLastAssistantMessage ms f)"
  by (cases ms rule: rev_cases) (auto simp: updateLastAssistantMessage_def)

lemma message_ok_fields [simp]:
  "message_ok (streamed p m) = message_ok m" "message_ok (completed m) = message_ok m"
  "message_ok (stopped m) = message_ok m" "message_ok (answered c r m) = message_ok m"
  "message_ok (edited k c m) = message_ok m" "message_ok (fst (createUserMessage nanoid n c))"
  "message_ok (fst (createLoadingAssistantMessage nanoid n))"
  by (cases p) (simp_all add: message_ok_def completed_def stopped_def answered_def edited_def processStreamingContent_def
      updateCurrentVersionContent_def createUserMessage_def createLoadingAssistantMessage_def Let_def)

lemma error_message_ok: "pred_option json_wf c \<Longrightarrow> message_ok (error_message t c m)"
  by (cases c) (simp_all add: message_ok_def error_message_def js_or_def)

definition holds_text :: "message list \<Rightarrow> jsstring option \<Rightarrow> bool" where
  "holds_text ms item \<longleftrightarrow>
     (case item of None \<Rightarrow> ms = [] | Some s \<Rightarrow> s = json_stringify (JArr (map message_json ms)))"

definition synced :: "playground \<Rightarrow> bool" where
  "synced pg \<longleftrightarrow>
     initial_config (pg_storage pg) = pg_config pg \<and> map fst (pg_config pg) = map fst DEFAULT_CONFIG \<and>
     json_wf (JObj (pg_config pg)) \<and>
     initial_parameterEnabled (pg_storage pg) = pg_parameterEnabled pg \<and>
     map fst (pg_parameterEnabled pg) = map fst DEFAULT_PARAMETER_ENABLED \<and> json_wf (JObj (pg_parameterEnabled pg)) \<and>
     list_all message_ok (pg_messages pg) \<and>
     holds_text (pg_messages pg) (pg_storage pg STORAGE_MESSAGES)"

lemma storage_keys_differ:
  "STORAGE_CONFIG \<noteq> STORAGE_MESSAGES" "STORAGE_CONFIG \<noteq> STORAGE_PARAMETER_ENABLED" "STORAGE_PARAMETER_ENABLED \<noteq> STORAGE_MESSAGES"
  by (simp_all add: STORAGE_CONFIG_def STORAGE_MESSAGES_def STORAGE_PARAMETER_ENABLED_def)

lemma initial_frame:
  "st STORAGE_CONFIG = st' STORAGE_CONFIG \<Longrightarrow> initial_config st = initial_config st'"
  "st STORAGE_PARAMETER_ENABLED = st' STORAGE_PARAMETER_ENABLED \<Longrightarrow> initial_parameterEnabled st = initial_parameterEnabled st'"
  by (simp_all add: initial_config_def initial_parameterEnabled_def loadConfig_def loadParameterEnabled_def load_object_def)

lemma synced_cong:
  "pg_storage pg' = pg_storage pg \<Longrightarrow> pg_config pg' = pg_config pg \<Longrightarrow>
   pg_parameterEnabled pg' = pg_parameterEnabled pg \<Longrightarrow> pg_messages pg' = pg_messages pg \<Longrightarrow> synced pg' = synced pg"
  by (simp only: synced_def)

lemma synced_messages:
  assumes "synced pg" "list_all message_ok (f (pg_messages pg))"
  shows "synced (updateMessages accept_all f pg)"
proof -
  let ?st = "saveMessages accept_all (pg_storage pg) (f (pg_messages pg))"
  have "initial_config ?st = initial_config (pg_storage pg)"
    "initial_parameterEnabled ?st = initial_parameterEnabled (pg_storage pg)"
    by (auto intro!: initial_frame messages.save_frame simp: storage_keys_differ)
  moreover have "?st STORAGE_MESSAGES = Some (json_stringify (JArr (map message_json (f (pg_messages pg)))))"
    by (simp add: saveMessages_def setItem_def)
  ultimately show ?thesis
    using assms by (simp add: synced_def updateMessages_def holds_text_def Let_def)
qed

lemma obj_set_order:
  assumes "obj_wf c" "list_all (\<lambda>k. \<not> is_array_index k) (map fst c)" "k \<in> set (map fst c)"
  shows "obj_assign c [(k, v)] = obj_set c k v" "map fst (obj_set c k v) = map fst c" "obj_wf (obj_set c k v)"
proof -
  show keys: "map fst (obj_set c k v) = map fst c" using assms(3) by (intro obj_set_known) simp
  have "list_all (\<lambda>kv. \<not> is_array_index (fst kv)) (obj_set c k v)"
    using assms(2) unfolding keys [symmetric] by (simp add: list.pred_map comp_def)
  then have ord: "obj_order (obj_set c k v) = obj_set c k v" by (rule no_index_order)
  then show "obj_assign c [(k, v)] = obj_set c k v" by (simp add: obj_assign_def)
  show "obj_wf (obj_set c k v)" using assms(1) ord keys by (simp add: obj_wf_def)
qed

lemma obj_set_wf:
  "json_wf (JObj c) \<Longrightarrow> list_all (\<lambda>k. \<not> is_array_index k) (map fst c) \<Longrightarrow> k \<in> set (map fst c) \<Longrightarrow> json_wf v \<Longrightarrow>
   json_wf (JObj (obj_set c k v))"
  using obj_set_order(3) [of c k v] snd_obj_set [of c k v] by (fastforce simp: list_all_iff)

lemma default_keys_no_index:
  "list_all (\<lambda>k. \<not> is_array_index k) (map fst DEFAULT_CONFIG)"
  "list_all (\<lambda>k. \<not> is_array_index k) (map fst DEFAULT_PARAMETER_ENABLED)"
  by (simp_all add: DEFAULT_CONFIG_def DEFAULT_PARAMETER_ENABLED_def is_array_index_def is_digit_def)

lemma default_wf: "json_wf (JObj DEFAULT_CONFIG)" "json_wf (JObj DEFAULT_PARAMETER_ENABLED)"
proof -
  have "obj_order DEFAULT_CONFIG = DEFAULT_CONFIG" "obj_order DEFAULT_PARAMETER_ENABLED = DEFAULT_PARAMETER_ENABLED"
    using default_keys_no_index by (auto intro!: no_index_order simp: list.pred_map comp_def)
  then show "json_wf (JObj DEFAULT_CONFIG)" "json_wf (JObj DEFAULT_PARAMETER_ENABLED)"
    by (simp_all add: obj_wf_def) (simp_all add: DEFAULT_CONFIG_def DEFAULT_PARAMETER_ENABLED_def)
qed

lemma initial_saved:
  "map fst c = map fst DEFAULT_CONFIG \<Longrightarrow> json_wf (JObj c) \<Longrightarrow> initial_config (saveConfig accept_all st c) = c"
  "map fst e = map fst DEFAULT_PARAMETER_ENABLED \<Longrightarrow> json_wf (JObj e) \<Longrightarrow>
   initial_parameterEnabled (saveParameterEnabled accept_all st e) = e"
proof -
  assume c: "map fst c = map fst DEFAULT_CONFIG" "json_wf (JObj c)"
  then show "initial_config (saveConfig accept_all st c) = c"
    by (simp add: initial_config_def config.load_save del: json_wf.simps) (rule obj_assign_same_keys, simp_all)
next
  assume e: "map fst e = map fst DEFAULT_PARAMETER_ENABLED" "json_wf (JObj e)"
  then show "initial_parameterEnabled (saveParameterEnabled accept_all st e) = e"
    by (simp add: initial_parameterEnabled_def params.load_save del: json_wf.simps) (rule obj_assign_same_keys, simp_all)
qed

lemma synced_config:
  assumes "synced pg" "map fst c = map fst DEFAULT_CONFIG" "json_wf (JObj c)"
  shows "synced (pg\<lparr>pg_config := c, pg_storage := saveConfig accept_all (pg_storage pg) c\<rparr>)"
  using assms initial_saved(1) [OF assms(2,3)] storage_keys_differ
    initial_frame(2) [of "saveConfig accept_all (pg_storage pg) c" "pg_storage pg"]
  by (simp add: synced_def config.save_frame del: json_wf.simps)

lemma synced_params:
  assumes "synced pg" "map fst e = map fst DEFAULT_PARAMETER_ENABLED" "json_wf (JObj e)"
  shows "synced (pg\<lparr>pg_parameterEnabled := e, pg_storage := saveParameterEnabled accept_all (pg_storage pg) e\<rparr>)"
  using assms initial_saved(2) [OF assms(2,3)] storage_keys_differ
    initial_frame(1) [of "saveParameterEnabled accept_all (pg_storage pg) e" "pg_storage pg"]
  by (simp add: synced_def params.save_frame del: json_wf.simps)

lemma synced_update_config:
  assumes "synced pg" "k \<in> set (map fst DEFAULT_CONFIG)" "json_wf v"
  shows "synced (updateConfig accept_all k v pg)"
proof -
  have c: "map fst (pg_config pg) = map fst DEFAULT_CONFIG" "json_wf (JObj (pg_config pg))"
    using assms(1) by (simp_all add: synced_def)
  have n: "list_all (\<lambda>k. \<not> is_array_index k) (map fst (pg_config pg))" "k \<in> set (map fst (pg_config pg))"
    unfolding c(1) by (rule default_keys_no_index(1), rule assms(2))
  have "obj_wf (pg_config pg)" using c(2) by simp
  note o = obj_set_order [OF this n, of v]
  show ?thesis
    unfolding updateConfig_def Let_def o(1)
    by (rule synced_config [OF assms(1)]) (simp_all only: o(2) c(1) obj_set_wf [OF c(2) n assms(3)])
qed

lemma synced_update_param:
  assumes "synced pg" "k \<in> set (map fst DEFAULT_PARAMETER_ENABLED)"
  shows "synced (updateParameterEnabled accept_all k b pg)"
proof -
  have c: "map fst (pg_parameterEnabled pg) = map fst DEFAULT_PARAMETER_ENABLED" "json_wf (JObj (pg_parameterEnabled pg))"
    using assms(1) by (simp_all add: synced_def)
  have n: "list_all (\<lambda>k. \<not> is_array_index k) (map fst (pg_parameterEnabled pg))" "k \<in> set (map fst (pg_parameterEnabled pg))"
    unfolding c(1) by (rule default_keys_no_index(2), rule assms(2))
  have "obj_wf (pg_parameterEnabled pg)" using c(2) by simp
  note o = obj_set_order [OF this n, of "JBool b"]
  have wf: "json_wf (JBool b)" by simp
  show ?thesis
    unfolding updateParameterEnabled_def Let_def o(1)
    by (rule synced_params [OF assms(1)]) (simp_all only: o(2) c(1) obj_set_wf [OF c(2) n wf])
qed

lemma synced_reset: "synced pg \<Longrightarrow> synced (resetConfig accept_all pg)"
  using synced_params [OF synced_config [OF _ refl default_wf(1)] refl default_wf(2), of pg]
  by (simp add: resetConfig_def)

lemma synced_last:
  "synced pg \<Longrightarrow> (\<And>m. message_ok m \<Longrightarrow> message_ok (f m)) \<Longrightarrow>
   synced (updateMessages accept_all (\<lambda>prev. updateLastAssistantMessage prev f) pg)"
  by (rule synced_messages) (auto simp: synced_def intro: update_last_all)

lemma stream_error_form:
  "handleStreamError accepts t c pg =
    updateMessages accepts (\<lambda>prev. updateLastAssistantMessage prev (error_message t c)) (pg\<lparr>pg_toasts := pg_toasts pg @ [t]\<rparr>)"
  by (simp add: handleStreamError_def updateAssistantMessageWithError_def error_message_def [abs_def])

lemma synced_stream_error: "synced pg \<Longrightarrow> pred_option json_wf c \<Longrightarrow> synced (handleStreamError accept_all t c pg)"
  unfolding stream_error_form
  by (rule synced_last) (simp_all add: error_message_ok synced_cong [of "pg\<lparr>pg_toasts := _\<rparr>" pg])

lemma synced_close: "synced (close_source src pg) = synced pg"
  by (rule synced_cong) (simp_all add: close_source_def)

lemma synced_handle_error: "synced pg \<Longrightarrow> pred_option json_wf c \<Longrightarrow> synced (handleError accept_all src t c pg)"
  by (simp add: handleError_def synced_close synced_stream_error)

lemma synced_updates: "synced pg \<Longrightarrow> synced (fold (handleStreamUpdate accept_all) ps pg)"
  by (induction ps arbitrary: pg) (simp_all add: handleStreamUpdate_def synced_last)

lemma synced_deliver: "synced pg \<Longrightarrow> synced (deliver accept_all src e pg)"
proof (cases e)
  case (MessageEvent d)
  assume s: "synced pg"
  then have "synced (close_source src (pg\<lparr>pg_complete := True\<rparr>))"
    unfolding synced_close by (simp add: synced_cong [of "pg\<lparr>pg_complete := _\<rparr>" pg])
  with s MessageEvent show ?thesis
    by (simp add: onMessage_def handleStreamComplete_def synced_last synced_handle_error synced_updates split: option.split)
next
  case (ErrorEvent r d)
  assume "synced pg"
  with ErrorEvent error_details_wf [of d] show ?thesis
    by (auto simp: onError_def synced_handle_error split: prod.split)
qed (simp add: onReadyStateChange_def synced_handle_error split: option.split)

lemma synced_source: "synced (pg\<lparr>pg_source := s\<rparr>) = synced pg"
  by (rule synced_cong) simp_all

lemma synced_send:
  assumes "synced pg" shows "synced (sendChat accept_all throws ms pg)"
proof -
  have "synced (pg\<lparr>pg_source := a, pg_complete := b, pg_sources := c, pg_requests := d\<rparr>)" for a b c d
    using assms by (subst synced_cong [of _ pg]) simp_all
  moreover from this have "synced ((handleStreamError accept_all STREAM_START_ERROR None
      (pg\<lparr>pg_source := a, pg_complete := b, pg_sources := c, pg_requests := d\<rparr>))\<lparr>pg_source := None\<rparr>)" for a b c d
    by (simp add: synced_source synced_stream_error)
  moreover have "synced (pg\<lparr>pg_requests := d\<rparr>)" for d
    using assms by (subst synced_cong [of _ pg]) simp_all
  ultimately show ?thesis
    by (simp add: sendChat_def sendStreamingChat_def sendStreamRequest_def start_stream_def sendNonStreamingChat_def Let_def)
qed

lemma synced_new_messages:
  "synced pg \<Longrightarrow> list_all message_ok ms \<Longrightarrow> synced (updateMessages accept_all (\<lambda>_. ms) (pg\<lparr>pg_next_id := n\<rparr>))"
  "synced pg \<Longrightarrow> list_all message_ok ms \<Longrightarrow> synced (updateMessages accept_all (\<lambda>_. ms) (pg\<lparr>pg_editing := k\<rparr>))"
  "synced pg \<Longrightarrow> list_all message_ok ms \<Longrightarrow> synced (updateMessages accept_all (\<lambda>_. ms) (pg\<lparr>pg_editing := k, pg_next_id := n\<rparr>))"
  by (rule synced_messages; simp add: synced_cong [of "pg\<lparr>pg_next_id := _\<rparr>" pg] synced_cong [of "pg\<lparr>pg_editing := _\<rparr>" pg]
      synced_cong [of "pg\<lparr>pg_editing := _, pg_next_id := _\<rparr>" pg])+

lemma list_all_take: "list_all P xs \<Longrightarrow> list_all P (take n xs)"
  by (auto simp: list_all_iff dest: in_set_takeD)

lemma synced_ok: "synced pg \<Longrightarrow> list_all message_ok (pg_messages pg)"
  by (simp add: synced_def)

lemma synced_page:
  assumes "synced pg"
  shows "synced (handleSendMessage accept_all nanoid throws text pg)"
    "synced (handleRegenerateMessage accept_all nanoid throws key pg)"
    "synced (handleDeleteMessage accept_all key pg)" "synced (clearMessages accept_all pg)"
proof -
  have ok: "list_all message_ok (pg_messages pg)" using assms by (rule synced_ok)
  have u: "message_ok (fst (createUserMessage nanoid n c))" "message_ok (fst (createLoadingAssistantMessage nanoid n))" for n c
    by simp_all
  show "synced (handleSendMessage accept_all nanoid throws text pg)"
    using ok u(1) [of "pg_next_id pg" "text"] u(2) [of "pg_next_id pg + 2"] unfolding handleSendMessage_def
    by (auto simp: Let_def createUserMessage_def createLoadingAssistantMessage_def intro!: synced_send synced_new_messages(1) assms)
  show "synced (handleRegenerateMessage accept_all nanoid throws key pg)"
    using ok assms u(2) [of "pg_next_id pg"] unfolding handleRegenerateMessage_def
    by (auto simp: Let_def createLoadingAssistantMessage_def list_all_take
        split: option.split intro!: synced_send synced_new_messages(1))
  show "synced (handleDeleteMessage accept_all key pg)"
    unfolding handleDeleteMessage_def using ok by (intro synced_messages [OF assms]) (auto simp: list_all_iff)
  show "synced (clearMessages accept_all pg)"
    unfolding clearMessages_def by (intro synced_messages [OF assms]) simp
qed

lemma synced_edit:
  assumes "synced pg" shows "synced (applyEdit accept_all nanoid throws text submit pg)"
proof (cases rule: apply_edit_cases [of accept_all nanoid throws "text" submit pg])
  case same
  with assms show ?thesis by simp
next
  case (saved k)
  then show ?thesis
    using synced_ok [OF assms] by (simp add: synced_new_messages(2) [OF assms] list_all_iff)
next
  case (sent k i new)
  have "list_all message_ok new"
    using synced_ok [OF assms] sent(1) by (auto simp: list_all_iff take_map dest: in_set_takeD)
  then show ?thesis unfolding sent(2) by (intro synced_send synced_new_messages(3) [OF assms])
qed

lemma synced_failed:
  "synced pg \<Longrightarrow> pred_option json_wf (fl_data err) \<Longrightarrow> synced (onRequestFailed accept_all err pg)"
proof -
  assume s: "synced pg" and d: "pred_option json_wf (fl_data err)"
  have "json_wf c" if "fl_data err = Some j" "json_get j ''error'' = Some e" "json_get e ''code'' = Some c" for j e c
    using that d json_get_wf by (metis option.pred_inject(2))
  then show ?thesis
    unfolding onRequestFailed_def
    by (intro synced_stream_error [OF s]) (auto simp: js_or_def Option.bind_eq_Some_conv split: option.split)
qed

lemma synced_response: "synced pg \<Longrightarrow> synced (onResponse accept_all te r pg)"
  by (auto simp: onResponse_def js_or_def Let_def synced_failed synced_last split: option.split)

lemma synced_stop: "synced pg \<Longrightarrow> synced (stopGeneration accept_all pg)"
  unfolding stopGeneration_def stopStream_def
  by (rule synced_last) (auto simp: synced_close split: option.split)

lemma synced_options:
  assumes "synced pg"
  shows "synced (onModels accept_all models pg)" "synced (onGroups accept_all groups pg)"
proof -
  have "synced (pg\<lparr>pg_models := models\<rparr>)" "synced (pg\<lparr>pg_groups := groups\<rparr>)"
    using assms by (simp_all add: synced_cong [of "pg\<lparr>pg_models := _\<rparr>" pg] synced_cong [of "pg\<lparr>pg_groups := _\<rparr>" pg])
  then show "synced (onModels accept_all models pg)" "synced (onGroups accept_all groups pg)"
    by (auto simp: onModels_def onGroups_def Let_def DEFAULT_CONFIG_def split: list.split intro!: synced_update_config)
qed

lemma step_synced:
  assumes "pg_step accept_all nanoid pg pg'" "synced pg"
  shows "synced pg'"
  using assms(1)
proof cases
  case (OpenEdit key)
  with assms(2) show ?thesis by (simp add: handleEditMessage_def synced_cong [of "pg\<lparr>pg_editing := _\<rparr>" pg])
next
  case (CloseEdit isOpen)
  with assms(2) show ?thesis by (simp add: handleEditOpenChange_def synced_cong [of "pg\<lparr>pg_editing := _\<rparr>" pg])
qed (use assms(2) in \<open>simp_all add: synced_page synced_edit synced_stop synced_deliver synced_response synced_failed
    synced_update_config synced_update_param synced_reset synced_options\<close>)

lemma fresh_synced: "synced (usePlaygroundState accept_all Map.empty n)"
proof -
  have "initial_config Map.empty = DEFAULT_CONFIG" "initial_parameterEnabled Map.empty = DEFAULT_PARAMETER_ENABLED"
    using default_wf
    by (simp_all add: initial_config_def initial_parameterEnabled_def loadConfig_def loadParameterEnabled_def
        load_object_def obj_assign_def obj_wf_def)
  with default_wf show ?thesis
    by (simp add: synced_def usePlaygroundState_def loadMessages_def initial_messages_def holds_text_def del: json_wf.simps)
qed

lemma reachable_synced:
  "(pg_step accept_all nanoid)\<^sup>*\<^sup>* pg pg' \<Longrightarrow> synced pg \<Longrightarrow> synced pg'"
  by (induction rule: rtranclp_induct) (auto intro: step_synced)

lemma reachable_keys:
  "(pg_step accepts nanoid)\<^sup>*\<^sup>* pg pg' \<Longrightarrow> inj nanoid \<Longrightarrow> keys_ok nanoid pg \<Longrightarrow> keys_ok nanoid pg'"
  by (induction rule: rtranclp_induct) (auto intro: step_keys_ok)

lemma reload_messages:
  "synced pg \<Longrightarrow> initial_messages (fst (loadMessages accept_all (pg_storage pg))) = sanitizeMessagesOnLoad (pg_messages pg)"
proof (cases "pg_storage pg STORAGE_MESSAGES")
  case None
  assume "synced pg"
  with None show ?thesis
    by (simp add: synced_def holds_text_def loadMessages_def initial_messages_def sanitizeMessagesOnLoad_def)
next
  case (Some s)
  assume "synced pg"
  with Some show ?thesis
    using load_messages_text [of "pg_storage pg" "pg_messages pg" accept_all]
    by (simp add: synced_def holds_text_def initial_messages_def del: json_wf.simps)
qed

section \<open>Properties\<close>

text \<open>
  C28: In every state a session can reach, by any interleaving of user actions and network events,
  the messages have distinct keys, provided \<open>nanoid\<close> never repeats an identifier: editing, deleting
  and regenerating always address one message.
\<close>

theorem session_keys_distinct:
  assumes "(pg_step accepts nanoid)\<^sup>*\<^sup>* (usePlaygroundState accepts Map.empty n) pg" "inj nanoid"
  shows "distinct (map msg_key (pg_messages pg))"
proof -
  have "keys_ok nanoid (usePlaygroundState accepts Map.empty n)"
    by (simp add: keys_ok_def usePlaygroundState_def loadMessages_def initial_messages_def)
  from reachable_keys [OF assms this] show ?thesis by (simp add: keys_ok_def)
qed

lemma show_nat_supply: "inj show_nat"
  by (rule injI) simp

theorem session_keys_distinct_witness: "distinct (map msg_key (pg_messages sample_session))"
proof (rule session_keys_distinct [OF _ show_nat_supply])
  show "(pg_step accept_all show_nat)\<^sup>*\<^sup>* (usePlaygroundState accept_all Map.empty 0) sample_session"
    unfolding sample_session_def by (rule r_into_rtranclp, rule pg_step.Send)
qed

text \<open>
  C6: Reloading the page restores the session: in every reachable state, with a storage that accepts
  its writes, a new page starts with the same configuration, the same enabled parameters and the same
  conversation, in which the last unfinished answer is settled.
\<close>

theorem reload_restores_session:
  assumes "(pg_step accept_all nanoid)\<^sup>*\<^sup>* (usePlaygroundState accept_all Map.empty n) pg"
  shows "pg_config (usePlaygroundState accept_all (pg_storage pg) n') = pg_config pg \<and>
    pg_parameterEnabled (usePlaygroundState accept_all (pg_storage pg) n') = pg_parameterEnabled pg \<and>
    pg_messages (usePlaygroundState accept_all (pg_storage pg) n') = sanitizeMessagesOnLoad (pg_messages pg)"
proof -
  have s: "synced pg" using reachable_synced [OF assms fresh_synced] .
  then have "initial_config (pg_storage pg) = pg_config pg"
      "initial_parameterEnabled (pg_storage pg) = pg_parameterEnabled pg"
    by (simp_all add: synced_def)
  with reload_messages [OF s] show ?thesis by (auto simp: usePlaygroundState_def split: prod.split)
qed

theorem reload_restores_session_witness:
  "map msg_key (pg_messages (usePlaygroundState accept_all (pg_storage sample_session) 9)) =
    map msg_key (pg_messages sample_session)"
proof -
  have "(pg_step accept_all show_nat)\<^sup>*\<^sup>* (usePlaygroundState accept_all Map.empty 0) sample_session"
    unfolding sample_session_def by (rule r_into_rtranclp, rule pg_step.Send)
  from reload_restores_session [OF this] show ?thesis by (simp add: sanitize_keys)
qed

end
