(* ===== verification/JsonPretty.thy ===== *)
theory JsonPretty
  imports JsValue
begin

text \<open>
  \<open>JSON.stringify(value, null, 2)\<close>: the indented form in which the settings pages write their JSON
  texts, and the proof that it parses back to the value.
\<close>

definition nl :: "nat \<Rightarrow> jsstring" where
  "nl k = CHR 0x0A # replicate (2 * k) (CHR '' '')"

fun json_indent :: "nat \<Rightarrow> json \<Rightarrow> jsstring" where
  "json_indent k (JArr []) = ''[]''"
| "json_indent k (JArr (x # xs)) =
     ''['' @ nl (k + 1) @ js_join ('','' @ nl (k + 1)) (map (json_indent (k + 1)) (x # xs)) @ nl k @ '']''"
| "json_indent k (JObj []) = ''{}''"
| "json_indent k (JObj (x # xs)) =
     ''{'' @ nl (k + 1) @
     js_join ('','' @ nl (k + 1)) (map (\<lambda>(key, v). json_quote key @ '': '' @ json_indent (k + 1) v) (x # xs)) @ nl k @ ''}''"
| "json_indent k j = json_stringify j"

definition json_pretty :: "json \<Rightarrow> jsstring" where
  "json_pretty j = json_indent 0 j"

section \<open>White space before a value\<close>

lemma nl_ws: "list_all is_json_ws (nl k)"
  by (simp add: nl_def is_json_ws_def list_all_iff)

lemma skip_ws_append: "list_all is_json_ws w \<Longrightarrow> skip_ws (w @ s) = skip_ws s"
  by (simp add: skip_ws_def list_all_iff)

lemma parse_value_ws: "list_all is_json_ws w \<Longrightarrow> parse_value n (w @ s) = parse_value n s"
  by (cases n) (simp_all add: skip_ws_append)

lemma parse_elements_ws: "list_all is_json_ws w \<Longrightarrow> parse_elements n (w @ s) = parse_elements n s"
  by (cases n) (simp_all add: parse_value_ws)

lemma parse_members_ws: "list_all is_json_ws w \<Longrightarrow> parse_members n (w @ s) = parse_members n s"
  by (cases n) (simp_all add: skip_ws_append)

lemma skip_nl: "\<not> is_json_ws d \<Longrightarrow> skip_ws (nl k @ d # s) = d # s"
  by (simp add: skip_ws_append nl_ws skip_ws_head)

section \<open>Parsing back\<close>

definition indent_stops :: "jsstring \<Rightarrow> bool" where
  "indent_stops r \<longleftrightarrow> value_stops r \<or> hd r = CHR 0x0A"

lemma indent_stops_number: "indent_stops r \<Longrightarrow> number_stops r"
  by (cases r) (auto simp: indent_stops_def value_stops_def number_stops_def is_digit_def)

lemma indent_stops_simps [simp]:
  "indent_stops []" "indent_stops (CHR '','' # s)" "indent_stops (nl k @ s)"
  by (simp_all add: indent_stops_def value_stops_def nl_def)

definition indents_back :: "json \<Rightarrow> bool" where
  "indents_back j \<longleftrightarrow> (\<forall>k n r. indent_stops r \<longrightarrow> 2 * length (json_indent k j) \<le> n \<longrightarrow>
     parse_value n (json_indent k j @ r) = Some (j, r))"

lemma indent_head: "\<exists>d s. json_indent k j = d # s \<and> value_head d"
proof (cases j)
  case (JArr xs)
  then show ?thesis by (cases xs) (auto simp: value_head_def is_json_ws_def)
next
  case (JObj xs)
  then show ?thesis by (cases xs) (auto simp: value_head_def is_json_ws_def)
qed (use json_stringify_head [of j] in auto)

lemma indent_elements:
  assumes "vs \<noteq> []" "\<forall>v \<in> set vs. indents_back v"
    and "2 * length (js_join (CHR '','' # nl k) (map (json_indent k) vs)) + 1 \<le> n"
  shows "parse_elements n (js_join (CHR '','' # nl k) (map (json_indent k) vs) @ nl l @ CHR '']'' # r) = Some (vs, r)"
  using assms
proof (induction vs arbitrary: n)
  case (Cons v vs)
  then obtain n' where n: "n = Suc n'" by (cases n) auto
  have v: "indent_stops s \<Longrightarrow> parse_value n' (json_indent k v @ s) = Some (v, s)" for s
    using Cons.prems(2,3) by (cases vs) (auto simp: indents_back_def n)
  show ?case
  proof (cases vs)
    case Nil
    then show ?thesis using v [of "nl l @ CHR '']'' # r"] by (simp add: n skip_nl is_json_ws_def)
  next
    case (Cons w ws)
    let ?t = "js_join (CHR '','' # nl k) (map (json_indent k) vs) @ nl l @ CHR '']'' # r"
    have "parse_elements n' (nl k @ ?t) = Some (vs, r)"
      unfolding parse_elements_ws [OF nl_ws]
      using Cons.IH Cons.prems Cons by (intro Cons.IH) (auto simp: n)
    moreover have "parse_value n' (json_indent k v @ CHR '','' # nl k @ ?t) = Some (v, CHR '','' # nl k @ ?t)"
      by (rule v) simp
    ultimately show ?thesis using Cons by (simp add: n skip_ws_head is_json_ws_def)
  qed
qed simp

abbreviation indent_member :: "nat \<Rightarrow> jsstring \<times> json \<Rightarrow> jsstring" where
  "indent_member k \<equiv> \<lambda>(key, v). json_quote key @ '': '' @ json_indent k v"

lemma space_value: "parse_value n (CHR '' '' # s) = parse_value n s"
  using parse_value_ws [of "'' ''" n s] by (simp add: is_json_ws_def)

lemma indent_members:
  assumes "ms \<noteq> []" "\<forall>v \<in> snd ` set ms. indents_back v"
    and "2 * length (js_join (CHR '','' # nl k) (map (indent_member k) ms)) + 1 \<le> n"
  shows "parse_members n (js_join (CHR '','' # nl k) (map (indent_member k) ms) @ nl l @ CHR ''}'' # r) = Some (ms, r)"
  using assms
proof (induction ms arbitrary: n)
  case (Cons m ms)
  obtain key v where m: "m = (key, v)" by (cases m)
  obtain n' where n: "n = Suc n'" using Cons.prems(3) by (cases n) auto
  have v: "indent_stops s \<Longrightarrow> parse_value n' (json_indent k v @ s) = Some (v, s)" for s
    using Cons.prems(2,3) by (cases ms) (auto simp: indents_back_def n m)
  show ?case
  proof (cases ms)
    case Nil
    then show ?thesis using v [of "nl l @ CHR ''}'' # r"]
      by (simp add: n m json_quote_append scan_string_quote skip_ws_head skip_nl is_json_ws_def space_value)
  next
    case (Cons w ws)
    let ?t = "js_join (CHR '','' # nl k) (map (indent_member k) ms) @ nl l @ CHR ''}'' # r"
    have "parse_members n' (nl k @ ?t) = Some (ms, r)"
      unfolding parse_members_ws [OF nl_ws]
      using Cons.IH Cons.prems Cons by (intro Cons.IH) (auto simp: n m)
    moreover have "parse_value n' (json_indent k v @ CHR '','' # nl k @ ?t) = Some (v, CHR '','' # nl k @ ?t)"
      by (rule v) simp
    ultimately show ?thesis
      using Cons by (simp add: n m json_quote_append scan_string_quote skip_ws_head is_json_ws_def space_value)
  qed
qed simp

lemma indents_backI:
  assumes "\<And>k n r. indent_stops r \<Longrightarrow> 2 * length (json_indent k j) \<le> Suc n \<Longrightarrow>
    parse_value (Suc n) (json_indent k j @ r) = Some (j, r)"
  shows "indents_back j"
  unfolding indents_back_def
proof (intro allI impI)
  fix k n r assume "indent_stops r" "2 * length (json_indent k j) \<le> n"
  moreover obtain n' where "n = Suc n'" using calculation(2) indent_head [of k j] by (cases n) auto
  ultimately show "parse_value n (json_indent k j @ r) = Some (j, r)" using assms by simp
qed

lemma indents_back_num: "json_wf (JNum x) \<Longrightarrow> indents_back (JNum x)"
proof (rule indents_backI)
  fix k n r assume wf: "json_wf (JNum x)" and r: "indent_stops r"
  obtain d s where d: "num_to_string x = d # s" "is_digit d \<or> d = CHR ''-''"
    using wf num_to_string_head [of x] by auto
  have "d \<noteq> dquote" "d \<noteq> CHR ''[''" "d \<noteq> CHR ''{''" "d \<noteq> CHR ''n''" "d \<noteq> CHR ''t''" "d \<noteq> CHR ''f''"
    "\<not> is_json_ws d" using d(2) by (auto simp: is_digit_def is_json_ws_def)
  moreover have "scan_json_number (num_to_string x @ r) = Some (x, r)"
    using wf r by (simp add: scan_json_number_print indent_stops_number)
  ultimately show "parse_value (Suc n) (json_indent k (JNum x) @ r) = Some (JNum x, r)"
    using wf d by (simp add: skip_ws_head)
qed

lemma indents_back_arr: "\<forall>v \<in> set vs. indents_back v \<Longrightarrow> indents_back (JArr vs)"
proof (rule indents_backI)
  fix k n r assume vs: "\<forall>v \<in> set vs. indents_back v" and n: "2 * length (json_indent k (JArr vs)) \<le> Suc n"
  show "parse_value (Suc n) (json_indent k (JArr vs) @ r) = Some (JArr vs, r)"
  proof (cases vs)
    case Nil
    then show ?thesis by (simp add: skip_ws_head is_json_ws_def)
  next
    case (Cons w ws)
    let ?t = "js_join (CHR '','' # nl (k + 1)) (map (json_indent (k + 1)) vs) @ nl k @ CHR '']'' # r"
    have "parse_elements n ?t = Some (vs, r)"
      using n vs Cons by (intro indent_elements) auto
    moreover obtain d s where "?t = d # s" "value_head d"
      using indent_head [of "k + 1" w] Cons by (cases ws) auto
    ultimately show ?thesis
      using Cons by (simp add: skip_ws_head skip_nl value_head_def is_json_ws_def [of "CHR ''[''"])
  qed
qed

lemma indents_back_obj: "\<forall>v \<in> snd ` set ms. indents_back v \<Longrightarrow> obj_wf ms \<Longrightarrow> indents_back (JObj ms)"
proof (rule indents_backI)
  fix k n r assume ms: "\<forall>v \<in> snd ` set ms. indents_back v" "obj_wf ms" and n: "2 * length (json_indent k (JObj ms)) \<le> Suc n"
  show "parse_value (Suc n) (json_indent k (JObj ms) @ r) = Some (JObj ms, r)"
  proof (cases ms)
    case Nil
    then show ?thesis by (simp add: skip_ws_head is_json_ws_def)
  next
    case (Cons w ws)
    let ?t = "js_join (CHR '','' # nl (k + 1)) (map (indent_member (k + 1)) ms) @ nl k @ CHR ''}'' # r"
    have "parse_members n ?t = Some (ms, r)"
      using n Cons ms(1) by (intro indent_members) auto
    moreover obtain s where "?t = dquote # s"
      using Cons by (cases ws; cases w) (auto simp: json_quote_def)
    ultimately show ?thesis
      using ms(2) Cons by (simp add: skip_ws_head skip_nl is_json_ws_def mk_obj_wf)
  qed
qed

lemma indents_back_wf: "json_wf j \<Longrightarrow> indents_back j"
proof (induction j)
  case (JArr vs)
  then show ?case by (intro indents_back_arr) (auto simp: list_all_iff)
next
  case (JObj ms)
  then show ?case by (intro indents_back_obj) (fastforce simp: list_all_iff)+
qed (auto intro: indents_back_num indents_backI
    simp: skip_ws_head is_json_ws_def json_quote_append scan_string_quote)

interpretation pretty: codec json_pretty json_parse json_wf
proof unfold_locales
  fix j assume "json_wf j"
  then have b: "indents_back j" by (rule indents_back_wf)
  have "parse_value (2 * length (json_pretty j) + 2) (json_indent 0 j @ []) = Some (j, [])"
    by (rule b [unfolded indents_back_def, rule_format]) (simp_all add: json_pretty_def)
  then have "parse_value (2 * length (json_pretty j) + 2) (json_pretty j) = Some (j, [])"
    by (simp only: json_pretty_def append_Nil2)
  then show "json_parse (json_pretty j) = Some j" by (simp add: json_parse_def skip_ws_def del: parse_value.simps)
qed

text \<open>The text of an object needs no trimming.\<close>

lemma pretty_obj_trim: "js_trim (json_pretty (JObj kvs)) = json_pretty (JObj kvs)"
  by (rule js_trim_trimmed) (cases kvs; simp add: trimmed_def json_pretty_def is_ws_def)

lemma pretty_obj_nonempty: "json_pretty (JObj kvs) \<noteq> []"
  by (cases kvs) (simp_all add: json_pretty_def)

end
