(* ===== verification/PricingFormat.thy ===== *)
theory PricingFormat
  imports Complex_Main JsonPretty
begin

text \<open>
  Numbers and texts of the pricing settings (\<open>system-settings/models/pricing-format.ts\<close> and
  \<open>system-settings/utils/json-parser.ts\<close>). A finite number is its exact value, a rational: the model
  has no rounding error, and \<open>snapFloatDrift\<close>, which the source needs against it, is translated as it
  is. \<open>formatPricingNumber\<close> prints a price with at most twelve decimals.
\<close>

section \<open>Values\<close>

definition pow10 :: "int \<Rightarrow> rat" where
  "pow10 e = (if 0 \<le> e then 10 ^ nat e else 1 / 10 ^ nat (- e))"

fun num_value :: "jsnum \<Rightarrow> rat option" where
  "num_value (JDec m e) = Some (of_int m * pow10 e)"
| "num_value _ = None"

text \<open>\<open>parseFloat\<close>: the longest prefix that is a decimal literal.\<close>

definition float_literal :: "bool \<Rightarrow> jsstring \<Rightarrow> jsnum" where
  "float_literal neg r =
     (if take 8 r = ''Infinity'' then JInf neg
      else
        (let (ds, s1) = span_digits r;
             (fs, s2) = (case s1 of c # q \<Rightarrow> if c = CHR ''.'' then span_digits q else ([], s1) | [] \<Rightarrow> ([], s1));
             x = (case scan_exponent s2 of Some (x, _) \<Rightarrow> x | None \<Rightarrow> 0);
             m = int (parse_digits (ds @ fs))
         in if ds = [] \<and> fs = [] then JNaN else dec (if neg then - m else m) (x - int (length fs))))"

definition parse_float :: "jsstring \<Rightarrow> jsnum" where
  "parse_float text =
     (case dropWhile is_ws text of
        [] \<Rightarrow> JNaN
      | c # q \<Rightarrow> if c = CHR ''-'' then float_literal True q
                 else if c = CHR ''+'' then float_literal False q
                 else float_literal False (c # q))"

section \<open>Formatting\<close>

definition DISPLAY_DECIMALS :: nat where "DISPLAY_DECIMALS = 12"
definition SNAP_DECIMALS :: nat where "SNAP_DECIMALS = 8"
definition SNAP_EPSILON :: rat where "SNAP_EPSILON = 1 / 10 ^ 12"

text \<open>\<open>Math.round\<close> rounds halves up; \<open>Number.EPSILON\<close> is \<open>2 ** -52\<close>.\<close>

definition math_round :: "rat \<Rightarrow> int" where
  "math_round x = \<lfloor>x + 1 / 2\<rfloor>"

definition roundToDecimals :: "rat \<Rightarrow> nat \<Rightarrow> rat" where
  "roundToDecimals value decimals = of_int (math_round (value * 10 ^ decimals)) / 10 ^ decimals"

definition snap_tolerance :: "rat \<Rightarrow> rat" where
  "snap_tolerance value = max SNAP_EPSILON (\<bar>value\<bar> * (1 / 2 ^ 52) * 8)"

fun snap_loop :: "rat \<Rightarrow> nat list \<Rightarrow> rat" where
  "snap_loop value [] = value"
| "snap_loop value (decimals # ds) =
     (if \<bar>value - roundToDecimals value decimals\<bar> \<le> snap_tolerance value then roundToDecimals value decimals
      else snap_loop value ds)"

definition snapFloatDrift :: "rat \<Rightarrow> rat" where
  "snapFloatDrift value = snap_loop value [0..<SNAP_DECIMALS + 1]"

text \<open>\<open>Number.parseFloat(x.toFixed(12))\<close>: the nearest number with twelve decimals, halves away from
  zero; from \<open>10 ** 21\<close> on \<open>toFixed\<close> prints the number itself, which the snap has made an integer.\<close>

definition to_fixed :: "rat \<Rightarrow> jsnum" where
  "to_fixed x =
     (if \<bar>x\<bar> \<ge> 10 ^ 21 then dec \<lfloor>x\<rfloor> 0
      else let n = math_round (\<bar>x\<bar> * 10 ^ DISPLAY_DECIMALS)
           in dec (if x < 0 then - n else n) (- int DISPLAY_DECIMALS))"

definition formatPricingNumber :: "rat \<Rightarrow> jsstring" where
  "formatPricingNumber num = num_to_string (to_fixed (snapFloatDrift num))"

section \<open>Texts as JSON\<close>

text \<open>\<open>safeJsonParse\<close> with a fallback; the log entry of development builds is left out.\<close>

definition safeJsonParse :: "jsstring \<Rightarrow> json \<Rightarrow> json" where
  "safeJsonParse value fallback =
     (if js_trim value = [] then fallback
      else (case json_parse (js_trim value) of Some j \<Rightarrow> j | None \<Rightarrow> fallback))"

definition safeJsonParseWithValidation :: "jsstring \<Rightarrow> (json \<Rightarrow> bool) \<Rightarrow> json \<Rightarrow> json" where
  "safeJsonParseWithValidation value validator fallback =
     (let parsed = safeJsonParse value fallback in if \<not> validator parsed then fallback else parsed)"

datatype parse_result = ParseSuccess json | EmptyValue | ParseFailure

definition tryJsonParse :: "jsstring \<Rightarrow> parse_result" where
  "tryJsonParse value =
     (if js_trim value = [] then EmptyValue
      else (case json_parse (js_trim value) of Some j \<Rightarrow> ParseSuccess j | None \<Rightarrow> ParseFailure))"

record text_position =
  tp_line :: nat
  tp_column :: nat

definition getLineAndColumn :: "jsstring \<Rightarrow> nat \<Rightarrow> text_position" where
  "getLineAndColumn text position =
     (let lines = split_on (CHR 0x0A) (take position text)
      in \<lparr>tp_line = length lines, tp_column = length (last lines) + 1\<rparr>)"

section \<open>Lemmas\<close>

lemma float_literal_scan:
  assumes "scan_unsigned q = Some ((m, e), [])" "list_all number_char q"
  shows "float_literal neg q = dec (if neg then - int m else int m) e"
proof -
  have "take 8 q \<noteq> ''Infinity''"
    using assms(2) by (cases q) (auto simp: number_char_def is_digit_def)
  then show ?thesis
    using scan_decimal_unsigned [OF assms(1)]
    by (auto simp: float_literal_def scan_decimal_def Let_def split: prod.splits if_splits option.splits)
qed

lemma parse_float_print:
  assumes "is_finite n" "canonical_num n"
  shows "parse_float (num_to_string n) = n"
proof -
  let ?s = "num_to_string n"
  note ch = num_to_string_chars [OF assms(1)]
  obtain c r where s: "?s = c # r" using ch by (cases ?s) auto
  have sc: "scan_json_number (c # r) = Some (n, [])"
    using scan_json_number_print [OF assms, of "[]"] s by (simp add: number_stops_def)
  have ws: "\<not> is_ws c" "c \<noteq> CHR ''+''"
    using ch s sc by (auto simp: number_char_def is_ws_def is_digit_def scan_json_number_def scan_unsigned_def span_digits_def)
  show ?thesis
  proof (cases "c = CHR ''-''")
    case True
    then obtain m e where "scan_unsigned r = Some ((m, e), [])" "n = dec (- int m) e"
      using sc by (auto simp: scan_json_number_def split: option.splits)
    with ws ch s True float_literal_scan [of r m e True] show ?thesis by (simp add: parse_float_def)
  next
    case False
    then obtain m e where "scan_unsigned (c # r) = Some ((m, e), [])" "n = dec (int m) e"
      using sc by (auto simp: scan_json_number_def split: option.splits if_splits)
    with ws ch s False float_literal_scan [of "c # r" m e False] show ?thesis by (simp add: parse_float_def)
  qed
qed

lemma pow10_shift: "- int k \<le> e \<Longrightarrow> pow10 e * 10 ^ k = 10 ^ nat (e + int k)"
proof (cases "0 \<le> e")
  case True
  then show ?thesis by (simp add: pow10_def nat_add_distrib power_add)
next
  case False
  assume "- int k \<le> e"
  then obtain d where d: "k = nat (- e) + d" using False by (intro that [of "k - nat (- e)"]) linarith
  then have "nat (e + int k) = d" using False by simp
  with False d show ?thesis by (simp add: pow10_def power_add)
qed

lemma snap_loop_exact:
  "\<forall>d \<in> set ds. roundToDecimals v d = v \<or> snap_tolerance v < \<bar>v - roundToDecimals v d\<bar> \<Longrightarrow> snap_loop v ds = v"
  by (induction ds) auto

lemma small_tolerance: "\<bar>v\<bar> \<le> 5000000 \<Longrightarrow> snap_tolerance v < 1 / 10 ^ 8"
  by (auto simp: snap_tolerance_def SNAP_EPSILON_def max_def)

lemma rounded_apart:
  assumes "v * 10 ^ 8 = of_int N" "d \<le> 8" "\<bar>v\<bar> \<le> 5000000"
  shows "roundToDecimals v d = v \<or> snap_tolerance v < \<bar>v - roundToDecimals v d\<bar>"
proof (rule disjCI)
  let ?M = "math_round (v * 10 ^ d)"
  obtain k where k: "8 = d + k" using assms(2) le_Suc_ex by blast
  have "roundToDecimals v d * 10 ^ 8 = of_int (?M * 10 ^ k)"
    unfolding k power_add by (simp add: roundToDecimals_def)
  with assms(1) have diff: "(v - roundToDecimals v d) * 10 ^ 8 = of_int (N - ?M * 10 ^ k)"
    by (simp add: left_diff_distrib)
  assume "\<not> snap_tolerance v < \<bar>v - roundToDecimals v d\<bar>"
  with small_tolerance [OF assms(3)] have "\<bar>v - roundToDecimals v d\<bar> < 1 / 10 ^ 8" by simp
  then have "\<bar>v - roundToDecimals v d\<bar> * 10 ^ 8 < 1" by simp
  then have "\<bar>(v - roundToDecimals v d) * 10 ^ 8\<bar> < 1" by (simp only: abs_mult) simp
  then have "\<bar>of_int (N - ?M * 10 ^ k) :: rat\<bar> < 1" unfolding diff .
  then have "N - ?M * 10 ^ k = 0" by linarith
  with diff show "roundToDecimals v d = v" by simp
qed

lemma snap_exact: "v * 10 ^ 8 = of_int N \<Longrightarrow> \<bar>v\<bar> \<le> 5000000 \<Longrightarrow> snapFloatDrift v = v"
proof -
  assume v: "v * 10 ^ 8 = of_int N" "\<bar>v\<bar> \<le> 5000000"
  have "roundToDecimals v d = v \<or> snap_tolerance v < \<bar>v - roundToDecimals v d\<bar>"
    if "d \<in> set [0..<SNAP_DECIMALS + 1]" for d
    using that by (intro rounded_apart [OF v(1) _ v(2)]) (simp add: SNAP_DECIMALS_def)
  then show ?thesis unfolding snapFloatDrift_def by (intro snap_loop_exact ballI)
qed

text \<open>A number that a computation with rounding errors may give for the exact value \<open>v\<close>: it is off by at most four
  units in the last place of a double, or by a millionth of a millionth.\<close>

definition drifted :: "rat \<Rightarrow> rat \<Rightarrow> bool" where
  "drifted v x \<longleftrightarrow> \<bar>v\<bar> \<le> 1000000 \<and> \<bar>x - v\<bar> \<le> max SNAP_EPSILON (\<bar>v\<bar> / 2 ^ 50)"

lemma snap_loop_near:
  assumes "\<And>d. d \<in> set ds \<Longrightarrow> roundToDecimals x d = v \<or> snap_tolerance x < \<bar>x - roundToDecimals x d\<bar>"
    and "\<exists>d \<in> set ds. roundToDecimals x d = v" "\<bar>x - v\<bar> \<le> snap_tolerance x"
  shows "snap_loop x ds = v"
  using assms
proof (induction ds)
  case (Cons d ds)
  show ?case
  proof (cases "roundToDecimals x d = v")
    case False
    with Cons.prems(1) [of d] have "snap_tolerance x < \<bar>x - roundToDecimals x d\<bar>" by simp
    moreover have "snap_loop x ds = v" using Cons.prems False by (intro Cons.IH) auto
    ultimately show ?thesis by simp
  qed (use Cons.prems(3) in simp)
qed simp

lemma drifted_bounds:
  assumes "drifted v x"
  shows "\<bar>x - v\<bar> \<le> 1 / 10 ^ 9" "snap_tolerance x < 1 / 10 ^ 8 - 1 / 10 ^ 9" "\<bar>x - v\<bar> \<le> snap_tolerance x"
proof -
  have v: "\<bar>v\<bar> \<le> 1000000" "\<bar>x - v\<bar> \<le> 1 / 10 ^ 12 \<or> \<bar>x - v\<bar> \<le> \<bar>v\<bar> / 2 ^ 50"
    using assms by (auto simp: drifted_def SNAP_EPSILON_def max_def split: if_splits)
  then show b: "\<bar>x - v\<bar> \<le> 1 / 10 ^ 9" by auto
  then have "\<bar>x\<bar> \<le> 1000001" using v(1) by (auto simp: abs_if split: if_splits)
  then show "snap_tolerance x < 1 / 10 ^ 8 - 1 / 10 ^ 9" by (auto simp: snap_tolerance_def SNAP_EPSILON_def max_def)
  from v(2) show "\<bar>x - v\<bar> \<le> snap_tolerance x"
  proof
    assume n: "\<bar>x - v\<bar> \<le> \<bar>v\<bar> / 2 ^ 50"
    then have "\<bar>x\<bar> \<ge> \<bar>v\<bar> / 2" by (auto simp: abs_if split: if_splits)
    then have "\<bar>v\<bar> / 2 ^ 50 \<le> \<bar>x\<bar> * (1 / 2 ^ 52) * 8" by simp
    with n have "\<bar>x - v\<bar> \<le> \<bar>x\<bar> * (1 / 2 ^ 52) * 8" by (rule order_trans)
    then show ?thesis unfolding snap_tolerance_def by (rule max.coboundedI2)
  next
    assume "\<bar>x - v\<bar> \<le> 1 / 10 ^ 12"
    then show ?thesis unfolding snap_tolerance_def SNAP_EPSILON_def by (rule max.coboundedI1)
  qed
qed

lemma drifted_rounds:
  assumes "v * 10 ^ 8 = of_int N" "drifted v x" "d \<le> 8"
  shows "roundToDecimals x d = v \<or> snap_tolerance x < \<bar>x - roundToDecimals x d\<bar>"
proof (rule disjCI)
  let ?M = "math_round (x * 10 ^ d)"
  obtain k where k: "8 = d + k" using assms(3) le_Suc_ex by blast
  have "roundToDecimals x d * 10 ^ 8 = of_int (?M * 10 ^ k)"
    unfolding k power_add by (simp add: roundToDecimals_def)
  with assms(1) have diff: "(v - roundToDecimals x d) * 10 ^ 8 = of_int (N - ?M * 10 ^ k)"
    by (simp add: left_diff_distrib)
  assume "\<not> snap_tolerance x < \<bar>x - roundToDecimals x d\<bar>"
  with drifted_bounds [OF assms(2)] have "\<bar>v - roundToDecimals x d\<bar> < 1 / 10 ^ 8" by (auto simp: abs_if split: if_splits)
  then have "\<bar>v - roundToDecimals x d\<bar> * 10 ^ 8 < 1" by simp
  then have "\<bar>(v - roundToDecimals x d) * 10 ^ 8\<bar> < 1" by (simp only: abs_mult) simp
  then have "\<bar>of_int (N - ?M * 10 ^ k) :: rat\<bar> < 1" unfolding diff .
  then have "N - ?M * 10 ^ k = 0" by linarith
  with diff show "roundToDecimals x d = v" by simp
qed

lemma drift_snapped:
  assumes "v * 10 ^ 8 = of_int N" "drifted v x"
  shows "snapFloatDrift x = v"
proof -
  have "\<bar>x * 10 ^ 8 - of_int N\<bar> \<le> 1 / 10"
  proof -
    have "\<bar>(x - v) * 10 ^ 8\<bar> \<le> 1 / 10" using drifted_bounds(1) [OF assms(2)] by (simp only: abs_mult) simp
    then show ?thesis using assms(1) by (simp add: left_diff_distrib)
  qed
  then have "math_round (x * 10 ^ 8) = N" unfolding math_round_def by (intro floor_unique) (auto simp: abs_if split: if_splits)
  then have "roundToDecimals x 8 = v" using assms(1) [symmetric] by (simp add: roundToDecimals_def)
  moreover have "8 \<in> set [0..<SNAP_DECIMALS + 1]" by (simp add: SNAP_DECIMALS_def)
  ultimately have "\<exists>d \<in> set [0..<SNAP_DECIMALS + 1]. roundToDecimals x d = v" by blast
  moreover have "roundToDecimals x d = v \<or> snap_tolerance x < \<bar>x - roundToDecimals x d\<bar>" if "d \<in> set [0..<SNAP_DECIMALS + 1]" for d
    using that by (intro drifted_rounds [OF assms]) (simp add: SNAP_DECIMALS_def)
  ultimately show ?thesis unfolding snapFloatDrift_def by (intro snap_loop_near drifted_bounds(3) [OF assms(2)])
qed

lemma math_round_int: "math_round (of_int k) = k"
  unfolding math_round_def by (rule floor_unique) simp_all

lemma to_fixed_exact:
  assumes "canonical_num (JDec m e)" "- 12 \<le> e" "\<bar>of_int m * pow10 e\<bar> \<le> 5000000"
  shows "to_fixed (of_int m * pow10 e) = JDec m e"
proof -
  let ?v = "of_int m * pow10 e"
  have "pow10 e > 0" by (simp add: pow10_def)
  then have neg: "?v < 0 \<longleftrightarrow> m < 0" by (simp add: mult_less_0_iff)
  have "\<bar>?v\<bar> * 10 ^ 12 = of_int (\<bar>m\<bar> * 10 ^ nat (e + 12))"
    using pow10_shift [of 12 e] assms(2) \<open>pow10 e > 0\<close> by (simp add: abs_mult)
  then have "math_round (\<bar>?v\<bar> * 10 ^ DISPLAY_DECIMALS) = \<bar>m\<bar> * 10 ^ nat (e + 12)"
    by (simp only: DISPLAY_DECIMALS_def math_round_int)
  moreover have "dec (m * 10 ^ nat (e + 12)) (- 12) = JDec m e"
    using assms by (simp add: dec_shift dec_of_canonical)
  moreover have "\<not> 10 ^ 21 \<le> \<bar>?v\<bar>" using assms(3) by simp
  ultimately show ?thesis
    using neg by (simp add: to_fixed_def Let_def DISPLAY_DECIMALS_def)
qed

text \<open>Formatting does not change a price of at most eight decimals and at most five million.\<close>

lemma price_text_exact:
  assumes "canonical_num (JDec m e)" "- 8 \<le> e" "\<bar>of_int m * pow10 e\<bar> \<le> 5000000"
  shows "formatPricingNumber (of_int m * pow10 e) = num_to_string (JDec m e) \<and>
    parse_float (formatPricingNumber (of_int m * pow10 e)) = JDec m e"
proof -
  have "of_int m * pow10 e * 10 ^ 8 = of_int (m * 10 ^ nat (e + 8))"
    using pow10_shift [of 8 e] assms(2) by simp
  from snap_exact [OF this assms(3)] have "formatPricingNumber (of_int m * pow10 e) = num_to_string (JDec m e)"
    using to_fixed_exact [OF assms(1) _ assms(3)] assms(2) by (simp add: formatPricingNumber_def)
  with parse_float_print [OF _ assms(1)] show ?thesis by simp
qed

end
