(* ===== verification/ModelPricing.thy ===== *)
theory ModelPricing
  imports PricingFormat RequestRules
begin

text \<open>
  The pricing settings of the administrator (\<open>system-settings/models\<close>): the prices of all models are
  ten JSON texts, one per kind of price, each an object from model names to values.
  \<open>model-pricing-snapshots.ts\<close> reads them into one row per model, \<open>model-ratio-visual-editor.tsx\<close>
  deletes and writes models, and \<open>model-pricing-core.ts\<close> with \<open>model-pricing-sheet.tsx\<close> is the panel
  that edits one model.

  The texts are a function from the field to its text. A text that is JSON but no object is outside
  the type of the source and is reported as the error \<open>NotAMap\<close>; \<open>null\<close> makes \<open>Object.keys\<close> throw a
  type error. Names that every JavaScript object inherits, such as \<open>constructor\<close>, are not used as
  names of models.
\<close>

section \<open>Fields\<close>

datatype pricing_field = ModelPrice | ModelRatio | CacheRatio | CreateCacheRatio | CompletionRatio
  | ImageRatio | AudioRatio | AudioCompletionRatio | BillingMode | BillingExpr

definition pricing_fields :: "pricing_field list" where
  "pricing_fields = [ModelPrice, ModelRatio, CacheRatio, CreateCacheRatio, CompletionRatio, ImageRatio,
     AudioRatio, AudioCompletionRatio, BillingMode, BillingExpr]"

type_synonym pricing_texts = "pricing_field \<Rightarrow> jsstring"
type_synonym price_map = "(jsstring \<times> json) list"
type_synonym pricing_maps = "pricing_field \<Rightarrow> price_map"

datatype pricing_error = TypeError | NotAMap | RuleError js_error

record snapshot =
  sn_name :: jsstring
  sn_price :: jsstring
  sn_ratio :: jsstring
  sn_cacheRatio :: jsstring
  sn_createCacheRatio :: jsstring
  sn_completionRatio :: jsstring
  sn_imageRatio :: jsstring
  sn_audioRatio :: jsstring
  sn_audioCompletionRatio :: jsstring
  sn_billingMode :: jsstring
  sn_billingExpr :: "jsstring option"
  sn_requestRuleExpr :: "jsstring option"
  sn_hasConflict :: bool

record model_row =
  mr_displayed :: snapshot
  mr_saved :: "snapshot option"
  mr_draft :: "snapshot option"
  mr_isDraftChanged :: bool
  mr_isDraftDeleted :: bool
  mr_isDraftNew :: bool

record model_ratio_data =
  md_name :: jsstring
  md_price :: jsstring
  md_ratio :: jsstring
  md_cacheRatio :: jsstring
  md_createCacheRatio :: jsstring
  md_completionRatio :: jsstring
  md_imageRatio :: jsstring
  md_audioRatio :: jsstring
  md_audioCompletionRatio :: jsstring
  md_billingMode :: jsstring
  md_billingExpr :: "jsstring option"
  md_requestRuleExpr :: "jsstring option"

section \<open>Reading the texts\<close>

definition read_map :: "jsstring \<Rightarrow> pricing_error + price_map" where
  "read_map text =
     (case safeJsonParse text (JObj []) of
        JObj kvs \<Rightarrow> Inr kvs
      | JNull \<Rightarrow> Inl TypeError
      | _ \<Rightarrow> Inl NotAMap)"

fun read_maps :: "pricing_texts \<Rightarrow> pricing_field list \<Rightarrow> pricing_error + pricing_maps" where
  "read_maps texts [] = Inr (\<lambda>_. [])"
| "read_maps texts (f # fs) =
     (case read_map (texts f) of
        Inl e \<Rightarrow> Inl e
      | Inr m \<Rightarrow> (case read_maps texts fs of Inl e \<Rightarrow> Inl e | Inr maps \<Rightarrow> Inr (maps(f := m))))"

text \<open>\<open>map[name]?.toString() || ''\<close>.\<close>

definition value_text :: "price_map \<Rightarrow> jsstring \<Rightarrow> jsstring" where
  "value_text m name = (case map_of m name of None \<Rightarrow> [] | Some JNull \<Rightarrow> [] | Some j \<Rightarrow> js_to_string j)"

text \<open>\<open>billingExprMap[name] || ''\<close>; \<open>trim\<close> of a value that is no text throws.\<close>

definition expr_text :: "price_map \<Rightarrow> jsstring \<Rightarrow> pricing_error + jsstring" where
  "expr_text m name =
     js_or (map_of m name) (Inr []) (\<lambda>j. case j of JStr s \<Rightarrow> Inr s | _ \<Rightarrow> Inl TypeError)"

definition snapshot_of :: "pricing_maps \<Rightarrow> jsstring \<Rightarrow> pricing_error + snapshot" where
  "snapshot_of maps name =
     (let price = value_text (maps ModelPrice) name;
          ratio = value_text (maps ModelRatio) name;
          cache = value_text (maps CacheRatio) name;
          createCache = value_text (maps CreateCacheRatio) name;
          completion = value_text (maps CompletionRatio) name;
          image = value_text (maps ImageRatio) name;
          audio = value_text (maps AudioRatio) name;
          audioCompletion = value_text (maps AudioCompletionRatio) name;
          row = \<lparr>sn_name = name, sn_price = price, sn_ratio = ratio, sn_cacheRatio = cache,
                 sn_createCacheRatio = createCache, sn_completionRatio = completion, sn_imageRatio = image,
                 sn_audioRatio = audio, sn_audioCompletionRatio = audioCompletion,
                 sn_billingMode = (if price \<noteq> [] then ''per-request'' else ''per-token''),
                 sn_billingExpr = None, sn_requestRuleExpr = None,
                 sn_hasConflict = (price \<noteq> [] \<and> (ratio \<noteq> [] \<or> completion \<noteq> [] \<or> cache \<noteq> [] \<or>
                   createCache \<noteq> [] \<or> image \<noteq> [] \<or> audio \<noteq> [] \<or> audioCompletion \<noteq> []))\<rparr>
      in if map_of (maps BillingMode) name = Some (JStr ''tiered_expr'')
         then (case expr_text (maps BillingExpr) name of
                 Inl e \<Rightarrow> Inl e
               | Inr fullExpr \<Rightarrow>
                   (case splitBillingExprAndRequestRules fullExpr of
                      Inl e \<Rightarrow> Inl (RuleError e)
                    | Inr s \<Rightarrow> Inr (row\<lparr>sn_billingMode := ''tiered_expr'', sn_billingExpr := Some (billingExpr s),
                                        sn_requestRuleExpr := Some (requestRuleExpr s), sn_hasConflict := False\<rparr>)))
         else Inr row)"

definition model_names :: "pricing_maps \<Rightarrow> jsstring list" where
  "model_names maps = uniq (concat (map (\<lambda>f. map fst (maps f)) pricing_fields))"

fun all_results :: "('e + 'a) list \<Rightarrow> 'e + 'a list" where
  "all_results [] = Inr []"
| "all_results (Inl e # rs) = Inl e"
| "all_results (Inr x # rs) = (case all_results rs of Inl e \<Rightarrow> Inl e | Inr xs \<Rightarrow> Inr (x # xs))"

definition snapshots_of :: "pricing_maps \<Rightarrow> pricing_error + snapshot list" where
  "snapshots_of maps = all_results (map (snapshot_of maps) (model_names maps))"

definition buildModelSnapshots :: "pricing_texts \<Rightarrow> pricing_error + snapshot list" where
  "buildModelSnapshots texts =
     (case read_maps texts pricing_fields of Inl e \<Rightarrow> Inl e | Inr maps \<Rightarrow> snapshots_of maps)"

section \<open>Labels and summaries of a row\<close>

definition hasPricingValue :: "jsstring \<Rightarrow> bool" where
  "hasPricingValue value \<longleftrightarrow> value \<noteq> []"

definition pricing_number :: "jsstring \<Rightarrow> rat option" where
  "pricing_number value = (if \<not> hasPricingValue value then None else num_value (to_number value))"

definition ratioToPrice :: "jsstring \<Rightarrow> jsstring option \<Rightarrow> jsstring" where
  "ratioToPrice ratio denominator =
     (case (pricing_number ratio,
            case denominator of None \<Rightarrow> Some 2 | Some d \<Rightarrow> if d = [] then Some 2 else pricing_number d) of
        (Some r, Some d) \<Rightarrow> formatPricingNumber (r * d)
      | _ \<Rightarrow> [])"

definition getModeLabel :: "jsstring \<Rightarrow> jsstring" where
  "getModeLabel mode = (if mode = ''per-request'' then ''Per-request''
     else if mode = ''tiered_expr'' then ''Expression'' else ''Per-token'')"

definition getModeVariant :: "jsstring \<Rightarrow> jsstring" where
  "getModeVariant mode = (if mode = ''per-request'' then ''warning''
     else if mode = ''tiered_expr'' then ''info'' else ''success'')"

definition getExpressionSummary :: "snapshot \<Rightarrow> (jsstring \<Rightarrow> jsstring) \<Rightarrow> jsstring" where
  "getExpressionSummary row t =
     (let tierCount = length (rx_exec_all (rlit ''tier('') [] (case sn_billingExpr row of Some s \<Rightarrow> s | None \<Rightarrow> []))
      in if tierCount > 0 then t ''Tiered pricing'' @ middle_dot @ show_nat tierCount @ '' '' @ t ''tiers''
         else t ''Expression pricing'')"

definition extra_ratios :: "snapshot \<Rightarrow> jsstring list" where
  "extra_ratios row = [sn_completionRatio row, sn_cacheRatio row, sn_createCacheRatio row, sn_imageRatio row,
     sn_audioRatio row, sn_audioCompletionRatio row]"

definition getPriceSummary :: "snapshot \<Rightarrow> (jsstring \<Rightarrow> jsstring) \<Rightarrow> jsstring" where
  "getPriceSummary row t =
     (if sn_billingMode row = ''tiered_expr'' then getExpressionSummary row t
      else if sn_billingMode row = ''per-request''
      then (if sn_price row \<noteq> [] then ''$'' @ sn_price row @ '' / '' @ t ''request'' else t ''Unset price'')
      else
        (let inputPrice = ratioToPrice (sn_ratio row) None
         in if inputPrice = [] then t ''Unset price''
            else (let extraCount = length (filter hasPricingValue (extra_ratios row))
                  in if extraCount > 0
                     then t ''Input'' @ '' $'' @ inputPrice @ middle_dot @ show_nat extraCount @ '' '' @ t ''extras''
                     else t ''Input'' @ '' $'' @ inputPrice)))"

definition detail_entry :: "(jsstring \<Rightarrow> jsstring) \<Rightarrow> jsstring \<Rightarrow> jsstring \<Rightarrow> jsstring \<Rightarrow> jsstring list" where
  "detail_entry t label ratio inputPrice =
     (if ratio = [] then [] else [t label @ '' $'' @ ratioToPrice ratio (Some inputPrice)])"

definition getPriceDetail :: "snapshot \<Rightarrow> (jsstring \<Rightarrow> jsstring) \<Rightarrow> jsstring" where
  "getPriceDetail row t =
     (if sn_billingMode row = ''tiered_expr''
      then (case sn_requestRuleExpr row of
              Some r \<Rightarrow> if r \<noteq> [] then t ''Includes request rules'' else t ''Expression based''
            | None \<Rightarrow> t ''Expression based'')
      else if sn_billingMode row = ''per-request'' then t ''Fixed request price''
      else
        (let inputPrice = ratioToPrice (sn_ratio row) None
         in if inputPrice = [] then t ''No base input price''
            else (let details = take 2 (detail_entry t ''Output'' (sn_completionRatio row) inputPrice @
                                        detail_entry t ''Cache'' (sn_cacheRatio row) inputPrice @
                                        detail_entry t ''Cache write'' (sn_createCacheRatio row) inputPrice)
                  in if details \<noteq> [] then js_join middle_dot details else t ''Base input price only'')))"

text \<open>The text two rows are compared by.\<close>

definition signature_json :: "snapshot \<Rightarrow> json" where
  "signature_json s =
     JObj [(''price'', JStr (sn_price s)), (''ratio'', JStr (sn_ratio s)), (''cacheRatio'', JStr (sn_cacheRatio s)),
       (''createCacheRatio'', JStr (sn_createCacheRatio s)), (''completionRatio'', JStr (sn_completionRatio s)),
       (''imageRatio'', JStr (sn_imageRatio s)), (''audioRatio'', JStr (sn_audioRatio s)),
       (''audioCompletionRatio'', JStr (sn_audioCompletionRatio s)),
       (''billingMode'', JStr (if sn_billingMode s = [] then ''per-token'' else sn_billingMode s)),
       (''billingExpr'', JStr (case sn_billingExpr s of Some e \<Rightarrow> e | None \<Rightarrow> [])),
       (''requestRuleExpr'', JStr (case sn_requestRuleExpr s of Some e \<Rightarrow> e | None \<Rightarrow> []))]"

definition getSnapshotSignature :: "snapshot option \<Rightarrow> jsstring" where
  "getSnapshotSignature s = (case s of None \<Rightarrow> [] | Some s \<Rightarrow> json_stringify (signature_json s))"

section \<open>Visual editor\<close>

text \<open>The rows of the table: saved and drafted prices side by side. \<open>new Map\<close> keeps the last row of a
  name; the collation of \<open>localeCompare\<close> is the parameter \<open>le\<close>.\<close>

definition row_named :: "snapshot list \<Rightarrow> jsstring \<Rightarrow> snapshot option" where
  "row_named rows name = map_of (rev (map (\<lambda>r. (sn_name r, r)) rows)) name"

definition merged_row :: "snapshot list \<Rightarrow> snapshot list \<Rightarrow> jsstring \<Rightarrow> model_row option" where
  "merged_row savedRows draftRows name =
     (let saved = row_named savedRows name; draft = row_named draftRows name
      in map_option (\<lambda>displayed.
           \<lparr>mr_displayed = displayed, mr_saved = saved, mr_draft = draft,
            mr_isDraftChanged = (getSnapshotSignature saved \<noteq> getSnapshotSignature draft),
            mr_isDraftDeleted = (saved \<noteq> None \<and> draft = None),
            mr_isDraftNew = (saved = None \<and> draft \<noteq> None)\<rparr>)
         (case saved of Some s \<Rightarrow> Some s | None \<Rightarrow> draft))"

definition merge_rows :: "(jsstring \<Rightarrow> jsstring \<Rightarrow> bool) \<Rightarrow> snapshot list \<Rightarrow> snapshot list \<Rightarrow> model_row list" where
  "merge_rows le savedRows draftRows =
     js_sort (\<lambda>a b. le (sn_name (mr_displayed a)) (sn_name (mr_displayed b)))
       (List.map_filter (merged_row savedRows draftRows) (uniq (map sn_name savedRows @ map sn_name draftRows)))"

definition mode_of :: "snapshot \<Rightarrow> jsstring" where
  "mode_of s = (if sn_billingMode s = ''per-request'' \<or> sn_billingMode s = ''tiered_expr'' then sn_billingMode s else ''per-token'')"

definition modeCounts :: "model_row list \<Rightarrow> jsstring \<Rightarrow> nat" where
  "modeCounts rows mode = length (filter (\<lambda>r. mode_of (mr_displayed r) = mode) rows)"

definition handleEdit :: "model_row \<Rightarrow> model_ratio_data" where
  "handleEdit row =
     (let e = (case mr_draft row of Some d \<Rightarrow> d | None \<Rightarrow> (case mr_saved row of Some s \<Rightarrow> s | None \<Rightarrow> mr_displayed row))
      in \<lparr>md_name = sn_name e, md_price = sn_price e, md_ratio = sn_ratio e, md_cacheRatio = sn_cacheRatio e,
          md_createCacheRatio = sn_createCacheRatio e, md_completionRatio = sn_completionRatio e,
          md_imageRatio = sn_imageRatio e, md_audioRatio = sn_audioRatio e,
          md_audioCompletionRatio = sn_audioCompletionRatio e,
          md_billingMode = (if sn_billingMode e = ''tiered_expr'' then ''tiered_expr''
            else if sn_price e \<noteq> [] then ''per-request'' else ''per-token''),
          md_billingExpr = sn_billingExpr e, md_requestRuleExpr = sn_requestRuleExpr e\<rparr>)"

definition write_maps :: "pricing_maps \<Rightarrow> pricing_texts" where
  "write_maps maps f = json_pretty (JObj (maps f))"

definition handleDelete :: "jsstring \<Rightarrow> pricing_texts \<Rightarrow> pricing_error + pricing_texts" where
  "handleDelete name texts =
     (case read_maps texts pricing_fields of
        Inl e \<Rightarrow> Inl e
      | Inr maps \<Rightarrow> Inr (write_maps (\<lambda>f. obj_delete (maps f) name)))"

definition setIfPresent :: "jsstring \<Rightarrow> jsstring \<Rightarrow> price_map \<Rightarrow> price_map" where
  "setIfPresent name value target =
     (if value = [] then target
      else (let parsed = parse_float value
            in if is_finite parsed then obj_assign target [(name, JNum parsed)] else target))"

definition set_ratios :: "model_ratio_data \<Rightarrow> jsstring \<Rightarrow> pricing_maps \<Rightarrow> pricing_maps" where
  "set_ratios data name maps =
     maps(ModelRatio := setIfPresent name (md_ratio data) (maps ModelRatio),
          CacheRatio := setIfPresent name (md_cacheRatio data) (maps CacheRatio),
          CreateCacheRatio := setIfPresent name (md_createCacheRatio data) (maps CreateCacheRatio),
          CompletionRatio := setIfPresent name (md_completionRatio data) (maps CompletionRatio),
          ImageRatio := setIfPresent name (md_imageRatio data) (maps ImageRatio),
          AudioRatio := setIfPresent name (md_audioRatio data) (maps AudioRatio),
          AudioCompletionRatio := setIfPresent name (md_audioCompletionRatio data) (maps AudioCompletionRatio))"

definition set_price :: "model_ratio_data \<Rightarrow> jsstring \<Rightarrow> pricing_maps \<Rightarrow> pricing_maps" where
  "set_price data name maps = maps(ModelPrice := setIfPresent name (md_price data) (maps ModelPrice))"

definition set_expr :: "model_ratio_data \<Rightarrow> jsstring \<Rightarrow> pricing_maps \<Rightarrow> pricing_maps" where
  "set_expr data name maps =
     (let combined = combineBillingExpr (case md_billingExpr data of Some e \<Rightarrow> e | None \<Rightarrow> [])
                       (case md_requestRuleExpr data of Some e \<Rightarrow> e | None \<Rightarrow> [])
      in if combined = [] then maps
         else maps(BillingMode := obj_assign (maps BillingMode) [(name, JStr ''tiered_expr'')],
                   BillingExpr := obj_assign (maps BillingExpr) [(name, JStr combined)]))"

definition persist_model :: "model_ratio_data \<Rightarrow> jsstring \<Rightarrow> pricing_maps \<Rightarrow> pricing_maps" where
  "persist_model data name maps =
     (let cleared = (\<lambda>f. obj_delete (maps f) name)
      in if md_billingMode data = ''tiered_expr''
         then set_ratios data name (set_price data name (set_expr data name cleared))
         else if md_price data \<noteq> [] then set_price data name cleared
         else set_ratios data name cleared)"

definition persistPricingData :: "model_ratio_data \<Rightarrow> jsstring list \<Rightarrow> pricing_texts \<Rightarrow> pricing_error + pricing_texts" where
  "persistPricingData data targetNames texts =
     (case read_maps texts pricing_fields of
        Inl e \<Rightarrow> Inl e
      | Inr maps \<Rightarrow> Inr (write_maps (fold (persist_model data) targetNames maps)))"

end
