(* ===== verification/ModelPricingProofs.thy ===== *)
theory ModelPricingProofs
  imports ModelPricing
begin

text \<open>
  Properties of the pricing settings: deleting and saving models change exactly those models in the
  table that is read back from the texts, and the table of drafts marks exactly the models whose
  prices differ.
\<close>

section \<open>Lists and objects\<close>

lemma uniq_filter: "uniq (filter P xs) = filter P (uniq xs)"
  by (simp add: uniq_def rev_filter remdups_filter)

lemma obj_set_filter: "\<not> P (k, v) \<Longrightarrow> \<forall>w. P (k, w) = P (k, v) \<Longrightarrow> filter P (obj_set kvs k v) = filter P kvs"
  by (induction kvs k v rule: obj_set.induct) auto

lemma obj_assign_filter:
  "k \<in> N \<Longrightarrow> filter (\<lambda>kv. fst kv \<notin> N) (obj_assign kvs [(k, v)]) = obj_order (filter (\<lambda>kv. fst kv \<notin> N) kvs)"
  by (simp add: obj_assign_def obj_order_filter [symmetric] obj_set_filter)

lemma obj_assign_wf: "obj_wf kvs \<Longrightarrow> obj_wf (obj_assign kvs [(k, v)])"
  by (simp add: obj_wf_def obj_assign_def distinct_obj_order distinct_obj_set obj_order_idem)

lemma map_of_obj_assign:
  "distinct (map fst kvs) \<Longrightarrow> map_of (obj_assign kvs [(k, v)]) = (map_of kvs)(k \<mapsto> v)"
  by (simp add: obj_assign_def map_of_obj_order distinct_obj_set map_of_obj_set)

lemma all_results_map [simp]: "all_results (map Inr xs) = Inr xs"
  by (induction xs) simp_all

lemma all_results_Inr: "all_results rs = Inr xs \<longleftrightarrow> rs = map Inr xs"
proof
  show "all_results rs = Inr xs \<Longrightarrow> rs = map Inr xs"
    by (induction rs arbitrary: xs rule: all_results.induct) (auto split: sum.splits)
qed simp

section \<open>Reading back what was written\<close>

definition maps_wf :: "pricing_maps \<Rightarrow> bool" where
  "maps_wf maps \<longleftrightarrow> (\<forall>f. json_wf (JObj (maps f)))"

lemma read_map_pretty:
  assumes "json_wf (JObj kvs)"
  shows "read_map (json_pretty (JObj kvs)) = Inr kvs"
  using pretty_obj_nonempty
  by (simp add: read_map_def safeJsonParse_def pretty_obj_trim pretty.decode_encode [OF assms])

lemma read_map_wf: "read_map s = Inr kvs \<Longrightarrow> json_wf (JObj kvs)"
  by (auto simp: read_map_def safeJsonParse_def obj_wf_def obj_order_def dest: json_parse_wf
      split: json.splits option.splits if_splits)

lemma read_maps_wf: "read_maps texts fs = Inr maps \<Longrightarrow> maps_wf maps"
proof (induction fs arbitrary: maps)
  case (Cons f fs)
  then show ?case by (auto simp: maps_wf_def dest: read_map_wf split: sum.splits)
qed (auto simp: maps_wf_def obj_wf_def obj_order_def)

lemma read_maps_write:
  assumes "maps_wf maps"
  shows "read_maps (write_maps maps) fs = Inr (\<lambda>f. if f \<in> set fs then maps f else [])"
proof (induction fs)
  case (Cons f fs)
  have "read_map (write_maps maps f) = Inr (maps f)"
    unfolding write_maps_def using assms by (intro read_map_pretty) (simp only: maps_wf_def)
  with Cons show ?case by (auto simp: fun_eq_iff)
qed simp

lemma all_fields [simp]: "f \<in> set pricing_fields"
  by (cases f) (simp_all add: pricing_fields_def)

lemma model_names_iff: "name \<in> set (model_names maps) \<longleftrightarrow> (\<exists>f. map_of (maps f) name \<noteq> None)"
  by (simp add: model_names_def map_of_eq_None_iff) (meson all_fields)

lemma build_written: "maps_wf maps \<Longrightarrow> buildModelSnapshots (write_maps maps) = snapshots_of maps"
  by (simp add: buildModelSnapshots_def read_maps_write)

lemma read_table:
  assumes "buildModelSnapshots texts = Inr rows"
  obtains maps where "read_maps texts pricing_fields = Inr maps" "maps_wf maps" "snapshots_of maps = Inr rows"
  using assms read_maps_wf by (auto simp: buildModelSnapshots_def split: sum.splits)

section \<open>Rows of the table\<close>

definition row_at :: "pricing_maps \<Rightarrow> jsstring \<Rightarrow> snapshot" where
  "row_at maps name = projr (snapshot_of maps name)"

lemma snapshot_name: "snapshot_of maps name = Inr r \<Longrightarrow> sn_name r = name"
  by (auto simp: snapshot_of_def Let_def split: if_splits sum.splits)

lemma snapshots_of_rows:
  "snapshots_of maps = Inr rows \<longleftrightarrow>
   rows = map (row_at maps) (model_names maps) \<and> (\<forall>n \<in> set (model_names maps). \<not> isl (snapshot_of maps n))"
proof -
  have "map f ns = map Inr rows \<longleftrightarrow> rows = map (projr \<circ> f) ns \<and> (\<forall>n \<in> set ns. \<not> isl (f n))"
    for f :: "jsstring \<Rightarrow> pricing_error + snapshot" and ns
  proof (induction ns arbitrary: rows)
    case (Cons n ns)
    then show ?case by (cases rows; cases "f n") auto
  qed auto
  then show ?thesis by (simp add: snapshots_of_def all_results_Inr row_at_def [abs_def] comp_def)
qed

lemma row_at_name: "\<not> isl (snapshot_of maps n) \<Longrightarrow> sn_name (row_at maps n) = n"
  by (cases "snapshot_of maps n") (auto simp: row_at_def snapshot_name)

lemma table_filter:
  assumes "snapshots_of maps = Inr rows"
  shows "filter (\<lambda>r. P (sn_name r)) rows = map (row_at maps) (filter P (model_names maps))"
  using assms by (auto simp: snapshots_of_rows filter_map comp_def row_at_name intro!: arg_cong [of _ _ "map _"] filter_cong)

lemma table_names: "snapshots_of maps = Inr rows \<Longrightarrow> map sn_name rows = model_names maps"
  by (auto simp: snapshots_of_rows row_at_name map_idI)

lemma row_named_table:
  assumes "snapshots_of maps = Inr rows"
  shows "row_named rows name = (if name \<in> set (model_names maps) then Some (row_at maps name) else None)"
proof -
  have "rev (map (\<lambda>r. (sn_name r, r)) rows) = rev (map (\<lambda>n. (n, row_at maps n)) (model_names maps))"
    using assms by (simp add: snapshots_of_rows row_at_name)
  then show ?thesis
    by (simp add: row_named_def rev_map map_of_map_restrict restrict_map_def)
qed

section \<open>Changing some models\<close>

text \<open>
  The contract of an operation on the texts: it keeps the objects well-formed and does not touch the
  entries of the models outside \<open>touched\<close>. Whatever it does to the others, the rows of the untouched
  models are the same, in the same order.
\<close>

locale pricing_update =
  fixes update :: "pricing_maps \<Rightarrow> pricing_maps"
    and touched :: "jsstring set"
  assumes update_wf: "maps_wf maps \<Longrightarrow> maps_wf (update maps)"
    and untouched: "maps_wf maps \<Longrightarrow>
      filter (\<lambda>kv. fst kv \<notin> touched) (update maps f) = filter (\<lambda>kv. fst kv \<notin> touched) (maps f)"
begin

lemma lookup: "maps_wf maps \<Longrightarrow> n \<notin> touched \<Longrightarrow> map_of (update maps f) n = map_of (maps f) n"
  using map_of_filter_key [of "\<lambda>k. k \<notin> touched" "update maps f" n]
    map_of_filter_key [of "\<lambda>k. k \<notin> touched" "maps f" n] untouched [of maps f] by simp

lemma snapshot:
  assumes "maps_wf maps" "n \<notin> touched"
  shows "snapshot_of (update maps) n = snapshot_of maps n"
proof -
  have "value_text (update maps f) n = value_text (maps f) n" "expr_text (update maps f) n = expr_text (maps f) n" for f
    by (simp_all add: value_text_def expr_text_def lookup [OF assms])
  then show ?thesis by (simp only: snapshot_of_def lookup [OF assms])
qed

lemma names:
  assumes "maps_wf maps"
  shows "filter (\<lambda>n. n \<notin> touched) (model_names (update maps)) = filter (\<lambda>n. n \<notin> touched) (model_names maps)"
proof -
  have "filter (\<lambda>n. n \<notin> touched) (map fst (update maps f)) = filter (\<lambda>n. n \<notin> touched) (map fst (maps f))" for f
    using arg_cong [OF untouched [OF assms, of f], of "map fst"] by (simp add: filter_map comp_def)
  then show ?thesis by (simp add: model_names_def uniq_filter [symmetric] filter_concat comp_def)
qed

lemma rows_kept:
  assumes wf: "maps_wf maps" and rows: "snapshots_of maps = Inr rows"
    and ok: "\<And>n. n \<in> touched \<Longrightarrow> n \<in> set (model_names (update maps)) \<Longrightarrow> \<not> isl (snapshot_of (update maps) n)"
  obtains rows' where "buildModelSnapshots (write_maps (update maps)) = Inr rows'"
    "snapshots_of (update maps) = Inr rows'"
    "filter (\<lambda>r. sn_name r \<notin> touched) rows' = filter (\<lambda>r. sn_name r \<notin> touched) rows"
proof
  have "\<not> isl (snapshot_of (update maps) n)" if "n \<in> set (model_names (update maps))" for n
  proof (cases "n \<in> touched")
    case False
    then have "n \<in> set (filter (\<lambda>n. n \<notin> touched) (model_names (update maps)))" using that by simp
    then have "n \<in> set (model_names maps)" unfolding names [OF wf] by simp
    with rows snapshot [OF wf False] show ?thesis by (simp add: snapshots_of_rows)
  qed (use ok that in blast)
  then show t: "snapshots_of (update maps) = Inr (map (row_at (update maps)) (model_names (update maps)))"
    by (simp add: snapshots_of_rows)
  then show "buildModelSnapshots (write_maps (update maps)) = Inr (map (row_at (update maps)) (model_names (update maps)))"
    by (simp add: build_written update_wf wf)
  have "row_at (update maps) n = row_at maps n" if "n \<notin> touched" for n
    by (simp add: row_at_def snapshot [OF wf that])
  then show "filter (\<lambda>r. sn_name r \<notin> touched) (map (row_at (update maps)) (model_names (update maps))) =
      filter (\<lambda>r. sn_name r \<notin> touched) rows"
    using table_filter [OF t, of "\<lambda>n. n \<notin> touched"] table_filter [OF rows, of "\<lambda>n. n \<notin> touched"] names [OF wf] by simp
qed

end

section \<open>Deleting\<close>

lemma obj_delete_wf: "json_wf (JObj kvs) \<Longrightarrow> json_wf (JObj (obj_delete kvs name))"
  by (auto simp: obj_delete_def obj_wf_filter list_all_iff)

lemma obj_delete_untouched:
  "n \<in> N \<Longrightarrow> filter (\<lambda>kv. fst kv \<notin> N) (obj_delete kvs n) = filter (\<lambda>kv. fst kv \<notin> N) kvs"
  by (auto simp: obj_delete_def intro!: filter_cong)

text \<open>An operation that treats every field on its own.\<close>

lemma fieldwise_update:
  assumes "\<And>f kvs. json_wf (JObj kvs) \<Longrightarrow> json_wf (JObj (op f kvs))"
    and "\<And>f kvs. json_wf (JObj kvs) \<Longrightarrow>
      filter (\<lambda>kv. fst kv \<notin> N) (op f kvs) = filter (\<lambda>kv. fst kv \<notin> N) kvs"
  shows "pricing_update (\<lambda>maps f. op f (maps f)) N"
  by unfold_locales (use assms in \<open>unfold maps_wf_def, blast+\<close>)

interpretation deleting: pricing_update "\<lambda>maps f. obj_delete (maps f) name" "{name}" for name
  by (rule fieldwise_update [of "\<lambda>_ kvs. obj_delete kvs name"]) (rule obj_delete_wf, assumption, rule obj_delete_untouched, simp)

lemma deleted_name: "name \<notin> set (model_names (\<lambda>f. obj_delete (maps f) name))"
  by (auto simp: model_names_def obj_delete_def)

section \<open>Saving\<close>

text \<open>What saving the values of the panel leaves in each field of a model.\<close>

definition number_entry :: "jsstring \<Rightarrow> json option" where
  "number_entry v = (if v \<noteq> [] \<and> is_finite (parse_float v) then Some (JNum (parse_float v)) else None)"

fun field_value :: "model_ratio_data \<Rightarrow> pricing_field \<Rightarrow> jsstring" where
  "field_value data ModelPrice = md_price data"
| "field_value data ModelRatio = md_ratio data"
| "field_value data CacheRatio = md_cacheRatio data"
| "field_value data CreateCacheRatio = md_createCacheRatio data"
| "field_value data CompletionRatio = md_completionRatio data"
| "field_value data ImageRatio = md_imageRatio data"
| "field_value data AudioRatio = md_audioRatio data"
| "field_value data AudioCompletionRatio = md_audioCompletionRatio data"
| "field_value data _ = []"

definition combined_expr :: "model_ratio_data \<Rightarrow> jsstring" where
  "combined_expr data = combineBillingExpr (case md_billingExpr data of Some e \<Rightarrow> e | None \<Rightarrow> [])
     (case md_requestRuleExpr data of Some e \<Rightarrow> e | None \<Rightarrow> [])"

definition stored :: "model_ratio_data \<Rightarrow> pricing_field \<Rightarrow> json option" where
  "stored data f =
     (if md_billingMode data = ''tiered_expr''
      then (if f = BillingMode then if combined_expr data = [] then None else Some (JStr ''tiered_expr'')
            else if f = BillingExpr then if combined_expr data = [] then None else Some (JStr (combined_expr data))
            else number_entry (field_value data f))
      else if md_price data \<noteq> [] then (if f = ModelPrice then number_entry (md_price data) else None)
      else if f = ModelPrice then None else number_entry (field_value data f))"

definition put :: "jsstring \<Rightarrow> json option \<Rightarrow> price_map \<Rightarrow> price_map" where
  "put name v kvs = (case v of None \<Rightarrow> kvs | Some v \<Rightarrow> obj_assign kvs [(name, v)])"

lemma setIfPresent_put: "setIfPresent name v kvs = put name (number_entry v) kvs"
  by (simp add: setIfPresent_def put_def number_entry_def Let_def)

lemma persist_model_fields:
  "persist_model data name maps = (\<lambda>f. put name (stored data f) (obj_delete (maps f) name))"
proof
  fix f
  have "put name (number_entry []) kvs = kvs" for kvs by (simp add: put_def number_entry_def)
  then show "persist_model data name maps f = put name (stored data f) (obj_delete (maps f) name)"
    by (cases f) (simp_all add: persist_model_def stored_def set_expr_def set_price_def set_ratios_def
      combined_expr_def [symmetric] Let_def setIfPresent_put, simp_all add: put_def)
qed

lemma parse_float_canonical: "canonical_num (parse_float v)"
  by (simp add: parse_float_def float_literal_def Let_def dec_canonical split: list.split prod.split)

lemma stored_wf: "stored data f = Some v \<Longrightarrow> json_wf v"
  by (auto simp: stored_def number_entry_def parse_float_canonical split: if_splits)

lemma put_wf:
  assumes "json_wf (JObj kvs)" "\<And>w. v = Some w \<Longrightarrow> json_wf w"
  shows "json_wf (JObj (put name v kvs))"
proof (cases v)
  case (Some w)
  have "snd ` set (obj_assign kvs [(name, w)]) \<subseteq> insert w (snd ` set kvs)"
    using snd_obj_set [of kvs name w] by (simp add: obj_assign_def)
  moreover have "\<forall>x \<in> insert w (snd ` set kvs). json_wf x" using assms Some by (auto simp: list_all_iff)
  ultimately have "\<forall>x \<in> snd ` set (obj_assign kvs [(name, w)]). json_wf x" by blast
  then show ?thesis using assms(1) Some by (auto simp: put_def obj_assign_wf list_all_iff)
qed (simp add: put_def assms(1) del: json_wf.simps)

lemma put_untouched:
  assumes "json_wf (JObj kvs)" "name \<in> N"
  shows "filter (\<lambda>kv. fst kv \<notin> N) (put name v kvs) = filter (\<lambda>kv. fst kv \<notin> N) kvs"
proof -
  have "obj_order (filter (\<lambda>kv. fst kv \<notin> N) kvs) = filter (\<lambda>kv. fst kv \<notin> N) kvs"
    using assms(1) by (simp add: obj_order_filter obj_wf_def)
  then show ?thesis using assms(2) by (simp add: put_def obj_assign_filter split: option.split)
qed

lemma persist_update: "name \<in> N \<Longrightarrow> pricing_update (persist_model data name) N"
  unfolding persist_model_fields
proof (rule fieldwise_update [of "\<lambda>f kvs. put name (stored data f) (obj_delete kvs name)"])
  fix f kvs
  assume "json_wf (JObj kvs)"
  then have d: "json_wf (JObj (obj_delete kvs name))" by (rule obj_delete_wf)
  then show "json_wf (JObj (put name (stored data f) (obj_delete kvs name)))" by (rule put_wf) (rule stored_wf)
  assume "name \<in> N"
  with d show "filter (\<lambda>kv. fst kv \<notin> N) (put name (stored data f) (obj_delete kvs name)) = filter (\<lambda>kv. fst kv \<notin> N) kvs"
    by (simp add: put_untouched obj_delete_untouched del: json_wf.simps)
qed

lemma update_comp: "pricing_update u N \<Longrightarrow> pricing_update v N \<Longrightarrow> pricing_update (v \<circ> u) N"
  by (simp add: pricing_update_def)

lemma persist_fold_update: "set names \<subseteq> N \<Longrightarrow> pricing_update (fold (persist_model data) names) N"
proof (induction names)
  case Nil
  show ?case by unfold_locales simp_all
next
  case (Cons n ns)
  then have "pricing_update (fold (persist_model data) ns \<circ> persist_model data n) N"
    by (intro update_comp persist_update) simp_all
  then show ?case by (simp add: comp_def)
qed

interpretation saving: pricing_update "fold (persist_model data) names" "set names" for data names
  by (rule persist_fold_update) simp

lemma put_deleted:
  "json_wf (JObj kvs) \<Longrightarrow>
   map_of (put name v (obj_delete kvs name)) n = (if n = name then v else map_of kvs n)"
  using obj_delete_wf [of kvs name] map_of_filter_key [of "\<lambda>k. k \<noteq> name" kvs]
  by (auto simp: put_def map_of_obj_assign obj_wf_def obj_delete_def split: option.split)

lemma saved_entry:
  "maps_wf maps \<Longrightarrow>
   map_of (fold (persist_model data) names maps f) n = (if n \<in> set names then stored data f else map_of (maps f) n)"
proof (induction names arbitrary: maps)
  case (Cons a names)
  have "maps_wf (persist_model data a maps)"
    using persist_update [of a "{a}" data] Cons.prems by (simp add: pricing_update_def)
  moreover have "map_of (persist_model data a maps f) n = (if n = a then stored data f else map_of (maps f) n)"
    using Cons.prems put_deleted by (simp add: persist_model_fields maps_wf_def del: json_wf.simps)
  ultimately show ?case using Cons.IH by auto
qed simp

text \<open>The table of prices the texts denote, and its two operations.\<close>

definition price_table :: "pricing_texts \<Rightarrow> jsstring \<Rightarrow> pricing_field \<Rightarrow> json option" where
  "price_table texts name f =
     (case read_maps texts pricing_fields of Inr maps \<Rightarrow> map_of (maps f) name | Inl _ \<Rightarrow> None)"

lemma price_table_written: "maps_wf maps \<Longrightarrow> price_table (write_maps maps) name f = map_of (maps f) name"
  by (simp add: price_table_def read_maps_write)

lemma price_table_read: "read_maps texts pricing_fields = Inr maps \<Longrightarrow> price_table texts name f = map_of (maps f) name"
  by (simp add: price_table_def)

lemma saved_table:
  assumes "read_maps texts pricing_fields = Inr maps"
  shows "persistPricingData data names texts = Inr (write_maps (fold (persist_model data) names maps))"
    and "price_table (write_maps (fold (persist_model data) names maps)) =
      (\<lambda>name. if name \<in> set names then stored data else price_table texts name)"
proof -
  have wf: "maps_wf maps" using assms by (rule read_maps_wf)
  show "persistPricingData data names texts = Inr (write_maps (fold (persist_model data) names maps))"
    by (simp add: persistPricingData_def assms)
  show "price_table (write_maps (fold (persist_model data) names maps)) =
      (\<lambda>name. if name \<in> set names then stored data else price_table texts name)"
    by (simp add: fun_eq_iff price_table_written saving.update_wf wf saved_entry price_table_read [OF assms])
qed

section \<open>Reopening\<close>

definition number_field :: "pricing_field \<Rightarrow> bool" where
  "number_field f \<longleftrightarrow> f \<noteq> BillingMode \<and> f \<noteq> BillingExpr"

lemma number_entry_text:
  assumes "json_wf (JObj kvs)" "\<And>v. map_of kvs name = Some v \<Longrightarrow> \<exists>n. v = JNum n"
  shows "number_entry (value_text kvs name) = map_of kvs name"
    and "value_text kvs name = [] \<longleftrightarrow> map_of kvs name = None"
proof -
  have "is_finite n \<and> canonical_num n" if "map_of kvs name = Some (JNum n)" for n
    using assms(1) map_of_SomeD [OF that] by (auto simp: list_all_iff)
  then have "parse_float (num_to_string n) = n" "is_finite n" "num_to_string n \<noteq> []"
    if "map_of kvs name = Some (JNum n)" for n
    using that parse_float_print num_to_string_chars by blast+
  with assms(2) show "number_entry (value_text kvs name) = map_of kvs name"
    "value_text kvs name = [] \<longleftrightarrow> map_of kvs name = None"
    by (cases "map_of kvs name"; auto simp: value_text_def number_entry_def)+
qed

lemma reopened_data:
  assumes "merged_row saved rows name = Some mr" "mr_draft mr = Some r" "snapshots_of maps = Inr rows"
    "sn_billingMode r \<noteq> ''tiered_expr''" "number_field f"
  shows "field_value (handleEdit mr) f = value_text (maps f) name" "md_billingMode (handleEdit mr) \<noteq> ''tiered_expr''"
    "map_of (maps BillingMode) name \<noteq> Some (JStr ''tiered_expr'')" "snapshot_of maps name = Inr r"
    "name \<in> set (model_names maps)" "row_named rows name = Some r"
proof -
  show rn: "row_named rows name = Some r" using assms(1,2) by (auto simp: merged_row_def Let_def)
  then show n: "name \<in> set (model_names maps)" and "snapshot_of maps name = Inr r"
    using assms(3) row_named_table [OF assms(3), of name]
    by (auto simp: snapshots_of_rows row_at_def split: if_splits)
  then have s: "snapshot_of maps name = Inr r" by simp
  then show "map_of (maps BillingMode) name \<noteq> Some (JStr ''tiered_expr'')"
    using assms(4) by (auto simp: snapshot_of_def Let_def split: sum.splits)
  with s \<open>map_of (maps BillingMode) name \<noteq> Some (JStr ''tiered_expr'')\<close> show "field_value (handleEdit mr) f = value_text (maps f) name"
    using assms(2,5) by (cases f) (auto simp: handleEdit_def snapshot_of_def Let_def number_field_def)
  show "md_billingMode (handleEdit mr) \<noteq> ''tiered_expr''"
    using assms(2,4) by (simp add: handleEdit_def Let_def)
qed

lemma reopened_stored:
  assumes "maps_wf maps" "snapshot_of maps name = Inr r" "\<not> sn_hasConflict r"
    "map_of (maps BillingMode) name \<noteq> Some (JStr ''tiered_expr'')" "md_billingMode data \<noteq> ''tiered_expr''"
    "\<And>f. number_field f \<Longrightarrow> field_value data f = value_text (maps f) name"
    "\<And>f v. number_field f \<Longrightarrow> map_of (maps f) name = Some v \<Longrightarrow> \<exists>n. v = JNum n"
  shows "stored data f = (if number_field f then map_of (maps f) name else None)"
proof -
  have n: "number_entry (value_text (maps f) name) = map_of (maps f) name"
    "value_text (maps f) name = [] \<longleftrightarrow> map_of (maps f) name = None" if "number_field f" for f
    using number_entry_text [of "maps f" name] assms(1) assms(7) [OF that] by (auto simp: maps_wf_def)
  have price: "md_price data = value_text (maps ModelPrice) name" using assms(6) [of ModelPrice] by (simp add: number_field_def)
  have conflict: "value_text (maps f) name = []"
    if "value_text (maps ModelPrice) name \<noteq> []" "number_field f" "f \<noteq> ModelPrice" for f
    using assms(2,3,4) that by (cases f) (auto simp: snapshot_of_def Let_def number_field_def)
  have out: "field_value data f = []" "number_entry [] = None" if "\<not> number_field f"
    using that by (auto simp: number_field_def number_entry_def)
  show ?thesis
    using assms(5) assms(6) [of f] n [of f] n [of ModelPrice] price conflict [of f] out
    by (auto simp: stored_def number_field_def)
qed

section \<open>An example\<close>

definition sample_maps :: pricing_maps where
  "sample_maps f = (if f = ModelPrice then [(''a'', JNum (JDec 1 0))] else if f = ModelRatio then [(''b'', JNum (JDec 2 0))] else [])"

definition sample_row :: "jsstring \<Rightarrow> jsstring \<Rightarrow> jsstring \<Rightarrow> snapshot" where
  "sample_row name price ratio =
     \<lparr>sn_name = name, sn_price = price, sn_ratio = ratio, sn_cacheRatio = [], sn_createCacheRatio = [],
      sn_completionRatio = [], sn_imageRatio = [], sn_audioRatio = [], sn_audioCompletionRatio = [],
      sn_billingMode = (if price \<noteq> [] then ''per-request'' else ''per-token''),
      sn_billingExpr = None, sn_requestRuleExpr = None, sn_hasConflict = False\<rparr>"

lemma sample_wf: "maps_wf sample_maps"
  by (simp add: maps_wf_def sample_maps_def obj_wf_def no_index_order is_array_index_def is_digit_def)

lemma sample_rows: "buildModelSnapshots (write_maps sample_maps) = Inr [sample_row ''a'' ''1'' [], sample_row ''b'' [] ''2'']"
proof -
  have "model_names sample_maps = [''a'', ''b'']"
    by (simp add: model_names_def pricing_fields_def sample_maps_def uniq_def)
  moreover have "num_to_string (JDec 1 0) = ''1''" "num_to_string (JDec 2 0) = ''2''" by code_simp+
  then have "snapshot_of sample_maps ''a'' = Inr (sample_row ''a'' ''1'' [])"
    "snapshot_of sample_maps ''b'' = Inr (sample_row ''b'' [] ''2'')"
    by (simp_all add: snapshot_of_def sample_maps_def value_text_def sample_row_def del: num_to_string.simps)
  ultimately show ?thesis by (simp add: build_written sample_wf snapshots_of_def)
qed

lemma sample_read: "read_maps (write_maps sample_maps) pricing_fields = Inr sample_maps"
  by (simp add: read_maps_write sample_wf)

section \<open>Properties\<close>

text \<open>
  Deleting a model from a readable table takes exactly its row out: the texts the editor writes
  are read back as the other rows, unchanged and in their order.
\<close>

theorem delete_removes_row:
  assumes "buildModelSnapshots texts = Inr rows"
  shows "\<exists>texts'. handleDelete name texts = Inr texts' \<and>
    buildModelSnapshots texts' = Inr (filter (\<lambda>r. sn_name r \<noteq> name) rows)"
proof -
  obtain maps where maps: "read_maps texts pricing_fields = Inr maps" "maps_wf maps" "snapshots_of maps = Inr rows"
    using read_table [OF assms] .
  let ?u = "\<lambda>f. obj_delete (maps f) name"
  obtain rows' where r: "buildModelSnapshots (write_maps ?u) = Inr rows'" "snapshots_of ?u = Inr rows'"
      "filter (\<lambda>r. sn_name r \<notin> {name}) rows' = filter (\<lambda>r. sn_name r \<notin> {name}) rows"
    using deleting.rows_kept [OF maps(2,3), of name] deleted_name by blast
  have "filter (\<lambda>r. sn_name r \<notin> {name}) rows' = rows'"
    using deleted_name [of name maps] table_names [OF r(2)] by (auto simp: filter_id_conv) (metis imageI list.set_map)
  with r maps(1) show ?thesis by (simp add: handleDelete_def)
qed

theorem delete_removes_row_witness:
  "\<exists>texts'. handleDelete ''a'' (write_maps sample_maps) = Inr texts' \<and>
    buildModelSnapshots texts' = Inr [sample_row ''b'' [] ''2'']"
  using delete_removes_row [OF sample_rows, of "''a''"] by (simp add: sample_row_def)

text \<open>
  C4: Saving the panel for a list of models is the update of the table of prices: every target has
  exactly the stored values of the panel, every other model keeps its values, and the rows of the
  other models stay the same and in the same order.
\<close>

theorem save_refines_update:
  assumes "read_maps texts pricing_fields = Inr maps"
  shows "\<exists>texts'. persistPricingData data names texts = Inr texts' \<and>
    price_table texts' = (\<lambda>name. if name \<in> set names then stored data else price_table texts name) \<and>
    (\<forall>rows rows'. buildModelSnapshots texts = Inr rows \<longrightarrow> buildModelSnapshots texts' = Inr rows' \<longrightarrow>
      filter (\<lambda>r. sn_name r \<notin> set names) rows' = filter (\<lambda>r. sn_name r \<notin> set names) rows)"
proof -
  let ?u = "fold (persist_model data) names maps"
  have wf: "maps_wf maps" using assms by (rule read_maps_wf)
  have "filter (\<lambda>r. sn_name r \<notin> set names) rows' = filter (\<lambda>r. sn_name r \<notin> set names) rows"
    if "buildModelSnapshots texts = Inr rows" "buildModelSnapshots (write_maps ?u) = Inr rows'" for rows rows'
  proof -
    have "snapshots_of maps = Inr rows" using that(1) assms by (simp add: buildModelSnapshots_def)
    moreover have "snapshots_of ?u = Inr rows'" using that(2) by (simp add: build_written saving.update_wf wf)
    ultimately show ?thesis
      using saving.rows_kept [OF wf, of rows names data] by (simp add: snapshots_of_rows) blast
  qed
  with saved_table [OF assms, of data names] show ?thesis by blast
qed

theorem save_refines_update_witness:
  "\<exists>texts'. persistPricingData (handleEdit \<lparr>mr_displayed = sample_row ''b'' [] ''2'', mr_saved = None, mr_draft = None,
      mr_isDraftChanged = False, mr_isDraftDeleted = False, mr_isDraftNew = False\<rparr>) [''c''] (write_maps sample_maps) = Inr texts' \<and>
    price_table texts' ''a'' ModelPrice = Some (JNum (JDec 1 0)) \<and> price_table texts' ''c'' ModelPrice = None"
  (is "\<exists>t. persistPricingData ?d _ _ = _ \<and> _")
proof -
  obtain t where "persistPricingData ?d [''c''] (write_maps sample_maps) = Inr t"
      "price_table t = (\<lambda>name. if name \<in> set [''c''] then stored ?d else price_table (write_maps sample_maps) name)"
    using save_refines_update [OF sample_read, of ?d "[''c'']"] by blast
  then show ?thesis
    by (auto simp: price_table_read [OF sample_read] sample_maps_def stored_def handleEdit_def sample_row_def Let_def)
qed

text \<open>
  Opening a model in the panel and saving it unchanged does not change its row, if it is priced
  by numbers and not both per request and per token.
\<close>

theorem reopen_save_keeps_row:
  assumes "buildModelSnapshots texts = Inr rows"
    "merged_row saved rows name = Some mr" "mr_draft mr = Some r"
    "sn_billingMode r \<noteq> ''tiered_expr''" "\<not> sn_hasConflict r"
    "\<And>f v. number_field f \<Longrightarrow> price_table texts name f = Some v \<Longrightarrow> \<exists>n. v = JNum n"
    "number_field g" "price_table texts name g \<noteq> None"
  shows "\<exists>texts' rows'. persistPricingData (handleEdit mr) [name] texts = Inr texts' \<and>
    buildModelSnapshots texts' = Inr rows' \<and> row_named rows' name = Some r"
proof -
  obtain maps where maps: "read_maps texts pricing_fields = Inr maps" "maps_wf maps" "snapshots_of maps = Inr rows"
    using read_table [OF assms(1)] .
  note pt = price_table_read [OF maps(1)]
  let ?u = "fold (persist_model (handleEdit mr)) [name] maps"
  note re = reopened_data [OF assms(2,3) maps(3) assms(4)]
  have g: "map_of (?u f) name = (if number_field f then map_of (maps f) name else None)" for f
    using reopened_stored [OF maps(2) re(4) [OF assms(7)] assms(5) re(3) [OF assms(7)] re(2) [OF assms(7)] re(1)]
      assms(6) by (simp only: saved_entry [OF maps(2)] pt) simp
  then have s: "snapshot_of ?u name = Inr r"
    using re(3,4) [OF assms(7)] by (simp add: snapshot_of_def value_text_def number_field_def Let_def)
  obtain rows' where r: "buildModelSnapshots (write_maps ?u) = Inr rows'" "snapshots_of ?u = Inr rows'"
    using saving.rows_kept [OF maps(2,3), of "[name]" "handleEdit mr"] s by auto
  have "name \<in> set (model_names ?u)"
    using g [of g] assms(7,8) by (metis model_names_iff pt)
  then have "row_named rows' name = Some r"
    using row_named_table [OF r(2), of name] s by (simp add: row_at_def)
  with r saved_table(1) [OF maps(1)] show ?thesis by blast
qed

theorem reopen_save_keeps_row_witness:
  "\<exists>mr texts' rows'. merged_row [] [sample_row ''a'' ''1'' [], sample_row ''b'' [] ''2''] ''b'' = Some mr \<and>
    persistPricingData (handleEdit mr) [''b''] (write_maps sample_maps) = Inr texts' \<and>
    buildModelSnapshots texts' = Inr rows' \<and> row_named rows' ''b'' = Some (sample_row ''b'' [] ''2'')"
proof -
  obtain mr where mr: "merged_row [] [sample_row ''a'' ''1'' [], sample_row ''b'' [] ''2''] ''b'' = Some mr"
      "mr_draft mr = Some (sample_row ''b'' [] ''2'')"
    by (simp add: merged_row_def row_named_def sample_row_def Let_def)
  have "\<exists>n. v = JNum n" if "price_table (write_maps sample_maps) ''b'' f = Some v" for f v
    using that by (auto simp: price_table_read [OF sample_read] sample_maps_def split: if_splits)
  moreover have "price_table (write_maps sample_maps) ''b'' ModelRatio \<noteq> None"
    by (simp add: price_table_read [OF sample_read] sample_maps_def)
  ultimately show ?thesis
    using reopen_save_keeps_row [OF sample_rows mr, of ModelRatio] mr(1)
    by (simp add: sample_row_def number_field_def)
qed

section \<open>Drafts\<close>

lemma signature_wf: "json_wf (signature_json s)"
proof -
  have "obj_wf (map (\<lambda>k. (k, v k)) [''price'', ''ratio'', ''cacheRatio'', ''createCacheRatio'', ''completionRatio'', ''imageRatio'',
      ''audioRatio'', ''audioCompletionRatio'', ''billingMode'', ''billingExpr'', ''requestRuleExpr''])" for v :: "jsstring \<Rightarrow> json"
    by (simp add: obj_wf_def no_index_order is_array_index_def is_digit_def)
  then show ?thesis by (simp add: signature_json_def obj_wf_def no_index_order is_array_index_def is_digit_def)
qed

text \<open>The fields of a row that is read from the texts depend on the compared ones.\<close>

definition row_consistent :: "snapshot \<Rightarrow> bool" where
  "row_consistent r \<longleftrightarrow>
     (if sn_billingMode r = ''tiered_expr''
      then sn_billingExpr r \<noteq> None \<and> sn_requestRuleExpr r \<noteq> None \<and> \<not> sn_hasConflict r
      else sn_billingExpr r = None \<and> sn_requestRuleExpr r = None \<and> sn_billingMode r \<noteq> [] \<and>
        sn_hasConflict r = (sn_price r \<noteq> [] \<and> list_ex hasPricingValue (sn_ratio r # extra_ratios r)))"

lemma snapshot_consistent: "snapshot_of maps n = Inr r \<Longrightarrow> row_consistent r"
  by (auto simp: row_consistent_def snapshot_of_def Let_def extra_ratios_def hasPricingValue_def
      split: if_splits sum.splits)

lemma row_of_signature:
  assumes "snapshot_of maps n = Inr r" "snapshot_of maps' n = Inr r'" "signature_json r = signature_json r'"
  shows "r = r'"
proof -
  have c: "row_consistent r" "row_consistent r'" and n: "sn_name r = sn_name r'"
    using assms(1,2) snapshot_consistent snapshot_name by metis+
  have m: "sn_billingMode r \<noteq> []" "sn_billingMode r' \<noteq> []"
    using c by (auto simp: row_consistent_def split: if_splits)
  then have "sn_billingMode r = sn_billingMode r'" using assms(3) by (simp add: signature_json_def)
  then show ?thesis
    using c n m assms(3) by (cases r; cases r') (auto simp: signature_json_def row_consistent_def extra_ratios_def split: if_splits)
qed

lemma signature_row:
  assumes "snapshots_of maps = Inr rows" "snapshots_of maps' = Inr rows'"
  shows "getSnapshotSignature (row_named rows n) = getSnapshotSignature (row_named rows' n) \<longleftrightarrow>
    row_named rows n = row_named rows' n"
proof -
  have j: "json_stringify (signature_json a) \<noteq> []" for a
    using json_stringify_head [of "signature_json a"] by auto
  have "snapshot_of m n = Inr (row_at m n)" if "snapshots_of m = Inr t" "n \<in> set (model_names m)" for m t
    using that by (simp add: snapshots_of_rows row_at_def)
  with assms show ?thesis
    unfolding row_named_table [OF assms(1)] row_named_table [OF assms(2)]
    by (auto simp: getSnapshotSignature_def j j [symmetric] json.encode_inj signature_wf intro: row_of_signature)
qed

lemma row_named_iff: "row_named rows n = None \<longleftrightarrow> n \<notin> sn_name ` set rows"
  by (force simp: row_named_def map_of_eq_None_iff)

lemma row_named_name: "row_named rows n = Some r \<Longrightarrow> sn_name r = n"
  by (auto simp: row_named_def dest!: map_of_SomeD)

lemma merged_row_name: "merged_row saved draft n = Some mr \<Longrightarrow> sn_name (mr_displayed mr) = n"
  by (auto simp: merged_row_def Let_def row_named_name split: option.splits)

lemma merged_row_None: "merged_row saved draft n = None \<longleftrightarrow> row_named saved n = None \<and> row_named draft n = None"
  by (auto simp: merged_row_def Let_def split: option.splits)

lemma merged_names:
  "map (\<lambda>mr. sn_name (mr_displayed mr)) (List.map_filter (merged_row saved draft) ns) =
   filter (\<lambda>n. n \<in> sn_name ` (set saved \<union> set draft)) ns"
proof (induction ns)
  case (Cons n ns)
  have "merged_row saved draft n \<noteq> None \<longleftrightarrow> n \<in> sn_name ` (set saved \<union> set draft)"
    by (simp add: merged_row_None row_named_iff image_Un)
  with Cons show ?case
    by (cases "merged_row saved draft n") (simp_all add: List.map_filter_simps merged_row_name)
qed (simp add: List.map_filter_simps)

lemma merge_rows_names:
  "mset (map (\<lambda>mr. sn_name (mr_displayed mr)) (merge_rows le saved draft)) =
   mset (uniq (map sn_name saved @ map sn_name draft))"
proof -
  have "filter (\<lambda>n. n \<in> sn_name ` (set saved \<union> set draft)) (uniq (map sn_name saved @ map sn_name draft)) =
      uniq (map sn_name saved @ map sn_name draft)"
    by (rule filter_True) auto
  with arg_cong [OF merged_names, of mset] show ?thesis by (simp only: merge_rows_def mset_js_sort mset_map)
qed

lemma merged_row_flags:
  assumes "snapshots_of ms = Inr saved" "snapshots_of md = Inr draft" "merged_row saved draft n = Some mr"
  shows "mr_isDraftChanged mr = (row_named saved n \<noteq> row_named draft n)"
    "mr_isDraftNew mr = (n \<notin> sn_name ` set saved)" "mr_isDraftDeleted mr = (n \<notin> sn_name ` set draft)"
  using assms(3) signature_row [OF assms(1,2), of n]
  by (auto simp: merged_row_def Let_def row_named_iff [symmetric] split: option.splits)

text \<open>
  C21: The table of the editor has one line per model that is saved or drafted, in the order of the
  collation, and marks exactly the models whose drafted prices differ from the saved ones, those that
  are new and those that are to be deleted.
\<close>

theorem draft_table_exact:
  assumes "buildModelSnapshots savedTexts = Inr saved" "buildModelSnapshots draftTexts = Inr draft"
    and "\<And>a b. le a b \<or> le b a" "\<And>a b c. le a b \<Longrightarrow> le b c \<Longrightarrow> le a c"
  defines "name \<equiv> \<lambda>mr. sn_name (mr_displayed mr)"
  shows "distinct (map name (merge_rows le saved draft)) \<and>
    set (map name (merge_rows le saved draft)) = sn_name ` (set saved \<union> set draft) \<and>
    sorted_wrt (\<lambda>a b. le (name a) (name b)) (merge_rows le saved draft) \<and>
    (\<forall>mr \<in> set (merge_rows le saved draft).
      mr_isDraftChanged mr = (row_named saved (name mr) \<noteq> row_named draft (name mr)) \<and>
      mr_isDraftNew mr = (name mr \<notin> sn_name ` set saved) \<and>
      mr_isDraftDeleted mr = (name mr \<notin> sn_name ` set draft))"
proof -
  obtain ms where ms: "snapshots_of ms = Inr saved" using read_table [OF assms(1)] .
  obtain md where md: "snapshots_of md = Inr draft" using read_table [OF assms(2)] .
  note mn = merge_rows_names [of le saved draft, folded assms(5)]
  have "sorted_wrt (\<lambda>a b. le (name a) (name b)) (merge_rows le saved draft)"
    unfolding merge_rows_def assms(5) by (rule sorted_js_sort) (use assms(3,4) in blast)+
  moreover have "mr_isDraftChanged mr = (row_named saved (name mr) \<noteq> row_named draft (name mr)) \<and>
      mr_isDraftNew mr = (name mr \<notin> sn_name ` set saved) \<and>
      mr_isDraftDeleted mr = (name mr \<notin> sn_name ` set draft)" if m: "mr \<in> set (merge_rows le saved draft)" for mr
  proof -
    obtain n where n: "merged_row saved draft n = Some mr" using m by (auto simp: merge_rows_def in_map_filter)
    with merged_row_name [OF n] merged_row_flags [OF ms md n] show ?thesis by (simp add: assms(5))
  qed
  ultimately show ?thesis
    using mset_eq_imp_distinct_iff [OF mn] mset_eq_setD [OF mn] by (simp add: image_Un)
qed

theorem draft_table_exact_witness:
  "map (\<lambda>mr. (sn_name (mr_displayed mr), mr_isDraftChanged mr)) (merge_rows (\<lambda>a b. length a \<le> length b)
     [sample_row ''a'' ''1'' [], sample_row ''b'' [] ''2''] [sample_row ''a'' ''1'' [], sample_row ''b'' [] ''2'']) =
   [(''a'', False), (''b'', False)]"
proof -
  let ?rows = "[sample_row ''a'' ''1'' [], sample_row ''b'' [] ''2'']"
  have "\<forall>mr \<in> set (merge_rows (\<lambda>a b. length a \<le> length b) ?rows ?rows). \<not> mr_isDraftChanged mr"
    using draft_table_exact [of _ _ _ _ "\<lambda>a b. length a \<le> length b", OF sample_rows sample_rows nat_le_linear le_trans]
    by simp
  moreover have "map (\<lambda>mr. sn_name (mr_displayed mr)) (merge_rows (\<lambda>a b. length a \<le> length b) ?rows ?rows) = [''a'', ''b'']"
    by (simp add: merge_rows_def js_sort_def uniq_def List.map_filter_simps merged_row_def row_named_def sample_row_def Let_def)
  ultimately show ?thesis by (auto simp: map_eq_Cons_conv)
qed

end
