(* ===== verification/PricingPanel.thy ===== *)
theory PricingPanel
  imports ModelPricingProofs
begin

text \<open>
  The panel that edits the prices of one model (\<open>model-pricing-core.ts\<close>, \<open>model-pricing-sheet.tsx\<close>)
  and the editor around it (\<open>model-ratio-visual-editor.tsx\<close>). The panel shows prices and keeps ratios
  in its form: the input price is twice the ratio of the model, the price of a lane is its ratio times
  the input price (for audio output: times the price of audio input). The form is a function from
  its fields, the lanes are a function from \<open>LaneKey\<close>.
\<close>

section \<open>Lanes and form\<close>

datatype lane_key = LaneCompletion | LaneCache | LaneCreateCache | LaneImage | LaneAudioInput | LaneAudioOutput

datatype form_field = NameField | PriceField | RatioField | CacheRatioField | CreateCacheRatioField
  | CompletionRatioField | ImageRatioField | AudioRatioField | AudioCompletionRatioField

type_synonym form_values = "form_field \<Rightarrow> jsstring"

fun ratioFieldByLane :: "lane_key \<Rightarrow> form_field" where
  "ratioFieldByLane LaneCompletion = CompletionRatioField"
| "ratioFieldByLane LaneCache = CacheRatioField"
| "ratioFieldByLane LaneCreateCache = CreateCacheRatioField"
| "ratioFieldByLane LaneImage = ImageRatioField"
| "ratioFieldByLane LaneAudioInput = AudioRatioField"
| "ratioFieldByLane LaneAudioOutput = AudioCompletionRatioField"

text \<open>The keys of \<open>laneConfigs\<close> in order; its titles and placeholders are texts of the view.\<close>

definition laneConfigs :: "lane_key list" where
  "laneConfigs = [LaneCompletion, LaneCache, LaneCreateCache, LaneImage, LaneAudioInput, LaneAudioOutput]"

text \<open>\<open>/^(\\d+(\\.\\d*)?|\\.\\d*)?$/\<close>: digits with an optional point, possibly nothing.\<close>

definition numericDraftRegex :: "jsstring \<Rightarrow> bool" where
  "numericDraftRegex s \<longleftrightarrow>
     (case snd (span_digits s) of [] \<Rightarrow> True | c # q \<Rightarrow> c = CHR ''.'' \<and> list_all is_digit q)"

text \<open>\<open>hasValue\<close> and \<open>toNumberOrNull\<close> on texts.\<close>

definition hasValue :: "jsstring \<Rightarrow> bool" where
  "hasValue value \<longleftrightarrow> value \<noteq> []"

definition toNumberOrNull :: "jsstring \<Rightarrow> rat option" where
  "toNumberOrNull value = (if \<not> hasValue value then None else num_value (to_number value))"

definition ratioToBasePrice :: "jsstring \<Rightarrow> jsstring" where
  "ratioToBasePrice ratio =
     (case toNumberOrNull ratio of None \<Rightarrow> [] | Some num \<Rightarrow> formatPricingNumber (num * 2))"

definition deriveLanePrice :: "jsstring \<Rightarrow> jsstring \<Rightarrow> jsstring" where
  "deriveLanePrice ratio denominator =
     (case (toNumberOrNull ratio, toNumberOrNull denominator) of
        (Some r, Some d) \<Rightarrow> formatPricingNumber (r * d)
      | _ \<Rightarrow> [])"

record lane_state =
  ls_promptPrice :: jsstring
  ls_prices :: "lane_key \<Rightarrow> jsstring"
  ls_enabled :: "lane_key \<Rightarrow> bool"

definition EMPTY_LANE_PRICES :: "lane_key \<Rightarrow> jsstring" where "EMPTY_LANE_PRICES = (\<lambda>_. [])"
definition EMPTY_LANE_ENABLED :: "lane_key \<Rightarrow> bool" where "EMPTY_LANE_ENABLED = (\<lambda>_. False)"

fun lane_ratio :: "model_ratio_data \<Rightarrow> lane_key \<Rightarrow> jsstring" where
  "lane_ratio data LaneCompletion = md_completionRatio data"
| "lane_ratio data LaneCache = md_cacheRatio data"
| "lane_ratio data LaneCreateCache = md_createCacheRatio data"
| "lane_ratio data LaneImage = md_imageRatio data"
| "lane_ratio data LaneAudioInput = md_audioRatio data"
| "lane_ratio data LaneAudioOutput = md_audioCompletionRatio data"

definition createInitialLaneState :: "model_ratio_data option \<Rightarrow> lane_state" where
  "createInitialLaneState data =
     (case data of
        None \<Rightarrow> \<lparr>ls_promptPrice = [], ls_prices = EMPTY_LANE_PRICES, ls_enabled = EMPTY_LANE_ENABLED\<rparr>
      | Some d \<Rightarrow>
          let promptPrice = ratioToBasePrice (md_ratio d);
              audioInputPrice = deriveLanePrice (md_audioRatio d) promptPrice
          in \<lparr>ls_promptPrice = promptPrice,
              ls_prices = (\<lambda>lane. if lane = LaneAudioOutput
                then deriveLanePrice (md_audioCompletionRatio d) audioInputPrice
                else deriveLanePrice (lane_ratio d lane) promptPrice),
              ls_enabled = (\<lambda>lane. hasValue (lane_ratio d lane))\<rparr>)"

section \<open>Panel\<close>

record panel =
  pn_mode :: jsstring
  pn_promptPrice :: jsstring
  pn_lanePrices :: "lane_key \<Rightarrow> jsstring"
  pn_laneEnabled :: "lane_key \<Rightarrow> bool"
  pn_billingExpr :: jsstring
  pn_requestRuleExpr :: jsstring
  pn_form :: form_values

fun data_form :: "model_ratio_data \<Rightarrow> form_values" where
  "data_form d NameField = md_name d"
| "data_form d PriceField = md_price d"
| "data_form d RatioField = md_ratio d"
| "data_form d CacheRatioField = md_cacheRatio d"
| "data_form d CreateCacheRatioField = md_createCacheRatio d"
| "data_form d CompletionRatioField = md_completionRatio d"
| "data_form d ImageRatioField = md_imageRatio d"
| "data_form d AudioRatioField = md_audioRatio d"
| "data_form d AudioCompletionRatioField = md_audioCompletionRatio d"

text \<open>The effect that fills the panel when the edited model changes.\<close>

definition openPanel :: "model_ratio_data option \<Rightarrow> panel" where
  "openPanel data =
     (let lanes = createInitialLaneState data
      in case data of
           Some d \<Rightarrow>
             \<lparr>pn_mode = (if md_billingMode d = ''tiered_expr'' then ''tiered_expr''
                else if md_price d \<noteq> [] then ''per-request'' else ''per-token''),
              pn_promptPrice = ls_promptPrice lanes, pn_lanePrices = ls_prices lanes, pn_laneEnabled = ls_enabled lanes,
              pn_billingExpr = (case md_billingExpr d of Some e \<Rightarrow> e | None \<Rightarrow> []),
              pn_requestRuleExpr = (case md_requestRuleExpr d of Some e \<Rightarrow> e | None \<Rightarrow> []),
              pn_form = data_form d\<rparr>
         | None \<Rightarrow>
             \<lparr>pn_mode = ''per-token'', pn_promptPrice = ls_promptPrice lanes, pn_lanePrices = ls_prices lanes,
              pn_laneEnabled = ls_enabled lanes, pn_billingExpr = [], pn_requestRuleExpr = [], pn_form = (\<lambda>_. [])\<rparr>)"

definition setFormValue :: "form_field \<Rightarrow> jsstring \<Rightarrow> panel \<Rightarrow> panel" where
  "setFormValue field value p = p\<lparr>pn_form := (pn_form p)(field := value)\<rparr>"

definition deriveLaneRatio :: "lane_key \<Rightarrow> jsstring \<Rightarrow> jsstring \<Rightarrow> (lane_key \<Rightarrow> jsstring) \<Rightarrow> jsstring" where
  "deriveLaneRatio lane price promptPrice lanePrices =
     (case toNumberOrNull price of
        None \<Rightarrow> []
      | Some priceNumber \<Rightarrow>
          if lane = LaneAudioOutput
          then (case toNumberOrNull (lanePrices LaneAudioInput) of
                  None \<Rightarrow> []
                | Some audioInputPrice \<Rightarrow>
                    if audioInputPrice = 0 then [] else formatPricingNumber (priceNumber / audioInputPrice))
          else (case toNumberOrNull promptPrice of
                  None \<Rightarrow> []
                | Some inputPrice \<Rightarrow> if inputPrice = 0 then [] else formatPricingNumber (priceNumber / inputPrice)))"

definition base_ratio :: "jsstring \<Rightarrow> jsstring" where
  "base_ratio promptPrice =
     (case toNumberOrNull promptPrice of Some inputPrice \<Rightarrow> formatPricingNumber (inputPrice / 2) | None \<Rightarrow> [])"

definition syncLaneRatios :: "jsstring \<Rightarrow> (lane_key \<Rightarrow> jsstring) \<Rightarrow> (lane_key \<Rightarrow> bool) \<Rightarrow> panel \<Rightarrow> panel" where
  "syncLaneRatios nextPromptPrice nextLanePrices nextLaneEnabled p =
     foldl (\<lambda>p key.
         if \<not> nextLaneEnabled key then setFormValue (ratioFieldByLane key) [] p
         else setFormValue (ratioFieldByLane key) (deriveLaneRatio key (nextLanePrices key) nextPromptPrice nextLanePrices) p)
       (setFormValue RatioField (base_ratio nextPromptPrice) p) laneConfigs"

definition handlePromptPriceChange :: "jsstring \<Rightarrow> panel \<Rightarrow> panel" where
  "handlePromptPriceChange value p =
     (if \<not> numericDraftRegex value then p
      else syncLaneRatios value (pn_lanePrices p) (pn_laneEnabled p) (p\<lparr>pn_promptPrice := value\<rparr>))"

definition handleLanePriceChange :: "lane_key \<Rightarrow> jsstring \<Rightarrow> panel \<Rightarrow> panel" where
  "handleLanePriceChange lane value p =
     (if \<not> numericDraftRegex value then p
      else
        (let nextLanePrices = (pn_lanePrices p)(lane := value);
             p1 = p\<lparr>pn_lanePrices := nextLanePrices\<rparr>;
             p2 = (if pn_laneEnabled p lane
                   then setFormValue (ratioFieldByLane lane) (deriveLaneRatio lane value (pn_promptPrice p) nextLanePrices) p1
                   else p1)
         in if lane = LaneAudioInput \<and> pn_laneEnabled p LaneAudioOutput
            then setFormValue AudioCompletionRatioField
                   (deriveLaneRatio LaneAudioOutput (nextLanePrices LaneAudioOutput) (pn_promptPrice p) nextLanePrices) p2
            else p2))"

definition handleLaneToggle :: "lane_key \<Rightarrow> bool \<Rightarrow> panel \<Rightarrow> panel" where
  "handleLaneToggle lane checked p =
     (if checked
      then setFormValue (ratioFieldByLane lane)
             (deriveLaneRatio lane (pn_lanePrices p lane) (pn_promptPrice p) (pn_lanePrices p))
             (p\<lparr>pn_laneEnabled := (pn_laneEnabled p)(lane := True)\<rparr>)
      else
        (let p1 = setFormValue (ratioFieldByLane lane) []
                    (p\<lparr>pn_laneEnabled := (pn_laneEnabled p)(lane := False), pn_lanePrices := (pn_lanePrices p)(lane := [])\<rparr>)
         in if lane = LaneAudioInput
            then setFormValue AudioCompletionRatioField []
                   (p1\<lparr>pn_laneEnabled := (pn_laneEnabled p1)(LaneAudioOutput := False),
                       pn_lanePrices := (pn_lanePrices p1)(LaneAudioOutput := [])\<rparr>)
            else p1))"

definition handleModeChange :: "jsstring \<Rightarrow> panel \<Rightarrow> panel" where
  "handleModeChange value p =
     (let p1 = p\<lparr>pn_mode := value\<rparr>
      in if value = ''tiered_expr'' \<and> pn_billingExpr p = []
         then p1\<lparr>pn_billingExpr := ''tier('' @ [dquote] @ ''base'' @ [dquote] @ '', p * 0 + c * 0)''\<rparr> else p1)"

text \<open>The fields of the form that are bound to an input.\<close>

definition handlePriceChange :: "jsstring \<Rightarrow> panel \<Rightarrow> panel" where
  "handlePriceChange value p = (if numericDraftRegex value then setFormValue PriceField value p else p)"

definition handleNameChange :: "jsstring \<Rightarrow> panel \<Rightarrow> panel" where
  "handleNameChange value p = setFormValue NameField value p"

section \<open>Preview and warnings\<close>

record preview_row =
  pr_key :: jsstring
  pr_label :: jsstring
  pr_value :: jsstring
  pr_multiline :: bool

definition preview_row_of :: "jsstring \<Rightarrow> jsstring \<Rightarrow> jsstring \<Rightarrow> preview_row" where
  "preview_row_of key label value = \<lparr>pr_key = key, pr_label = label, pr_value = value, pr_multiline = False\<rparr>"

definition lane_preview :: "(jsstring \<Rightarrow> jsstring) \<Rightarrow> panel \<Rightarrow> lane_key \<Rightarrow> jsstring" where
  "lane_preview t p lane =
     (if pn_laneEnabled p lane \<and> pn_lanePrices p lane \<noteq> [] then CHR ''$'' # pn_lanePrices p lane else t ''Empty'')"

definition buildPreviewRows :: "(jsstring \<Rightarrow> jsstring) \<Rightarrow> panel \<Rightarrow> preview_row list" where
  "buildPreviewRows t p =
     (if pn_mode p = ''tiered_expr''
      then (let effectiveExpr = combineBillingExpr (pn_billingExpr p) (pn_requestRuleExpr p)
            in [preview_row_of ''mode'' ''BillingMode'' ''tiered_expr'',
                (preview_row_of ''expr'' (t ''Expression'') (if effectiveExpr = [] then t ''Empty'' else effectiveExpr))
                  \<lparr>pr_multiline := True\<rparr>])
      else if pn_mode p = ''per-request''
      then [preview_row_of ''price'' ''ModelPrice''
              (if pn_form p PriceField = [] then t ''Empty'' else pn_form p PriceField)]
      else
        [preview_row_of ''inputPrice'' (t ''Input price'')
           (if pn_promptPrice p = [] then t ''Empty'' else CHR ''$'' # pn_promptPrice p),
         preview_row_of ''completion'' (t ''Completion price'') (lane_preview t p LaneCompletion),
         preview_row_of ''cache'' (t ''Cache read price'') (lane_preview t p LaneCache),
         preview_row_of ''createCache'' (t ''Cache write price'') (lane_preview t p LaneCreateCache),
         preview_row_of ''image'' (t ''Image input price'') (lane_preview t p LaneImage),
         preview_row_of ''audio'' (t ''Audio input price'') (lane_preview t p LaneAudioInput),
         preview_row_of ''audioCompletion'' (t ''Audio output price'') (lane_preview t p LaneAudioOutput)])"

definition input_price_missing :: "panel \<Rightarrow> bool" where
  "input_price_missing p \<longleftrightarrow> pn_mode p = ''per-token'' \<and> toNumberOrNull (pn_promptPrice p) = None \<and>
     list_ex (\<lambda>key. pn_laneEnabled p key \<and> hasValue (pn_lanePrices p key)) laneConfigs"

definition audio_input_missing :: "panel \<Rightarrow> bool" where
  "audio_input_missing p \<longleftrightarrow> pn_mode p = ''per-token'' \<and> pn_laneEnabled p LaneAudioOutput \<and>
     \<not> hasValue (pn_lanePrices p LaneAudioInput)"

datatype pricing_warning = ConflictWarning | InputPriceRequired | AudioInputRequired

definition panel_warnings :: "model_ratio_data option \<Rightarrow> panel \<Rightarrow> pricing_warning list" where
  "panel_warnings editData p =
     (case editData of
        Some d \<Rightarrow>
          if md_price d \<noteq> [] \<and> list_ex hasValue [md_ratio d, md_completionRatio d, md_cacheRatio d,
               md_createCacheRatio d, md_imageRatio d, md_audioRatio d, md_audioCompletionRatio d]
          then [ConflictWarning] else []
      | None \<Rightarrow> []) @
     (if input_price_missing p then [InputPriceRequired] else []) @
     (if audio_input_missing p then [AudioInputRequired] else [])"

section \<open>Committing\<close>

definition validatePricingValues :: "panel \<Rightarrow> bool" where
  "validatePricingValues p \<longleftrightarrow> \<not> input_price_missing p \<and> \<not> audio_input_missing p"

definition buildSubmitData :: "panel \<Rightarrow> model_ratio_data" where
  "buildSubmitData p =
     \<lparr>md_name = js_trim (pn_form p NameField), md_price = pn_form p PriceField, md_ratio = pn_form p RatioField,
      md_cacheRatio = pn_form p CacheRatioField, md_createCacheRatio = pn_form p CreateCacheRatioField,
      md_completionRatio = pn_form p CompletionRatioField, md_imageRatio = pn_form p ImageRatioField,
      md_audioRatio = pn_form p AudioRatioField, md_audioCompletionRatio = pn_form p AudioCompletionRatioField,
      md_billingMode = pn_mode p,
      md_billingExpr = (if pn_mode p = ''tiered_expr'' then Some (pn_billingExpr p) else None),
      md_requestRuleExpr = (if pn_mode p = ''tiered_expr'' then Some (pn_requestRuleExpr p) else None)\<rparr>"

text \<open>The schema of the form only requires a name.\<close>

definition commitDraft :: "panel \<Rightarrow> model_ratio_data option" where
  "commitDraft p =
     (if pn_form p NameField = [] \<or> \<not> validatePricingValues p then None else Some (buildSubmitData p))"

section \<open>Editor\<close>

record pricing_editor =
  ed_texts :: pricing_texts
  ed_open :: bool
  ed_editData :: "model_ratio_data option"
  ed_panel :: panel

text \<open>Setting the edited model fills the panel again.\<close>

definition setEditData :: "model_ratio_data option \<Rightarrow> pricing_editor \<Rightarrow> pricing_editor" where
  "setEditData data e = e\<lparr>ed_editData := data, ed_panel := openPanel data\<rparr>"

datatype commit_result = Committed | Invalid

definition commitOpenEditor :: "pricing_editor \<Rightarrow> pricing_error + (commit_result \<times> pricing_editor)" where
  "commitOpenEditor e =
     (if \<not> ed_open e then Inr (Committed, e)
      else (case commitDraft (ed_panel e) of
              None \<Rightarrow> Inr (Invalid, e)
            | Some data \<Rightarrow>
                (case persistPricingData data [md_name data] (ed_texts e) of
                   Inl err \<Rightarrow> Inl err
                 | Inr texts \<Rightarrow> Inr (Committed, setEditData (Some data) (e\<lparr>ed_texts := texts\<rparr>)))))"

datatype copy_result = NoSource | NoTarget | Applied nat

definition handleBatchCopy :: "jsstring list \<Rightarrow> pricing_editor \<Rightarrow> pricing_error + (copy_result \<times> pricing_editor)" where
  "handleBatchCopy targetNames e =
     (case ed_editData e of
        None \<Rightarrow> Inr (NoSource, e)
      | Some data \<Rightarrow>
          if targetNames = [] then Inr (NoTarget, e)
          else (case persistPricingData data targetNames (ed_texts e) of
                  Inl err \<Rightarrow> Inl err
                | Inr texts \<Rightarrow> Inr (Applied (length targetNames), e\<lparr>ed_texts := texts\<rparr>)))"

section \<open>Edits\<close>

text \<open>What the administrator can do in the panel. The view disables some inputs; the relation allows
  them all.\<close>

inductive panel_edit :: "panel \<Rightarrow> panel \<Rightarrow> bool" where
  edit_name: "panel_edit p (handleNameChange v p)"
| edit_mode: "panel_edit p (handleModeChange m p)"
| edit_prompt: "panel_edit p (handlePromptPriceChange v p)"
| edit_lane: "panel_edit p (handleLanePriceChange lane v p)"
| edit_toggle: "panel_edit p (handleLaneToggle lane checked p)"
| edit_price: "panel_edit p (handlePriceChange v p)"
| edit_expr: "panel_edit p (p\<lparr>pn_billingExpr := v\<rparr>)"
| edit_rules: "panel_edit p (p\<lparr>pn_requestRuleExpr := v\<rparr>)"

definition lane_synced :: "panel \<Rightarrow> lane_key \<Rightarrow> bool" where
  "lane_synced p lane \<longleftrightarrow>
     pn_form p (ratioFieldByLane lane) =
       (if pn_laneEnabled p lane then deriveLaneRatio lane (pn_lanePrices p lane) (pn_promptPrice p) (pn_lanePrices p)
        else [])"

definition panel_synced :: "panel \<Rightarrow> bool" where
  "panel_synced p \<longleftrightarrow> pn_form p RatioField = base_ratio (pn_promptPrice p) \<and> (\<forall>lane. lane_synced p lane)"

lemma laneFields:
  "ratioFieldByLane a = ratioFieldByLane b \<longleftrightarrow> a = b"
  "ratioFieldByLane a \<noteq> RatioField" "ratioFieldByLane a \<noteq> NameField" "ratioFieldByLane a \<noteq> PriceField"
  "ratioFieldByLane a = AudioCompletionRatioField \<longleftrightarrow> a = LaneAudioOutput"
  "ratioFieldByLane a = AudioRatioField \<longleftrightarrow> a = LaneAudioInput"
  by (cases a; cases b; simp)+

lemma derive_other:
  "lane \<noteq> LaneAudioOutput \<or> a \<noteq> LaneAudioInput \<Longrightarrow>
   deriveLaneRatio lane price pp (prices(a := v)) = deriveLaneRatio lane price pp prices"
  by (auto simp: deriveLaneRatio_def split: option.split)

lemma sync_form:
  "pn_form (syncLaneRatios pp prices enabled p) RatioField = base_ratio pp"
  "pn_form (syncLaneRatios pp prices enabled p) (ratioFieldByLane lane) =
     (if enabled lane then deriveLaneRatio lane (prices lane) pp prices else [])"
  by (cases lane; simp add: syncLaneRatios_def laneConfigs_def setFormValue_def)+

lemma sync_rest:
  "pn_laneEnabled (syncLaneRatios pp prices enabled p) = pn_laneEnabled p"
  "pn_lanePrices (syncLaneRatios pp prices enabled p) = pn_lanePrices p"
  "pn_promptPrice (syncLaneRatios pp prices enabled p) = pn_promptPrice p"
  "pn_mode (syncLaneRatios pp prices enabled p) = pn_mode p"
  "pn_form (syncLaneRatios pp prices enabled p) PriceField = pn_form p PriceField"
  "pn_form (syncLaneRatios pp prices enabled p) NameField = pn_form p NameField"
  by (simp_all add: syncLaneRatios_def laneConfigs_def setFormValue_def)

lemma prompt_change_synced: "numericDraftRegex v \<Longrightarrow> panel_synced (handlePromptPriceChange v p)"
  by (simp add: panel_synced_def lane_synced_def handlePromptPriceChange_def sync_form sync_rest)

lemma lane_change_synced: "panel_synced p \<Longrightarrow> panel_synced (handleLanePriceChange lane v p)"
  by (auto simp: panel_synced_def lane_synced_def handleLanePriceChange_def setFormValue_def laneFields laneFields(2-4) [THEN not_sym] Let_def derive_other)
    (metis derive_other)

lemma toggle_synced: "panel_synced p \<Longrightarrow> panel_synced (handleLaneToggle lane checked p)"
  by (auto simp: panel_synced_def lane_synced_def handleLaneToggle_def setFormValue_def laneFields laneFields(2-4) [THEN not_sym] Let_def derive_other)

lemma panel_edit_synced: "panel_edit p q \<Longrightarrow> panel_synced p \<Longrightarrow> panel_synced q"
proof (induction rule: panel_edit.induct)
  case (edit_prompt p v)
  then show ?case using prompt_change_synced by (cases "numericDraftRegex v") (simp_all add: handlePromptPriceChange_def)
qed (simp_all add: lane_change_synced toggle_synced, simp_all add: panel_synced_def lane_synced_def handleNameChange_def
    handleModeChange_def handlePriceChange_def setFormValue_def laneFields Let_def)

lemma new_panel_synced: "panel_synced (openPanel None)"
  by (simp add: panel_synced_def lane_synced_def openPanel_def createInitialLaneState_def EMPTY_LANE_ENABLED_def
      base_ratio_def toNumberOrNull_def hasValue_def)

lemma panel_edits_synced: "panel_edit\<^sup>*\<^sup>* p q \<Longrightarrow> panel_synced p \<Longrightarrow> panel_synced q"
  by (induction rule: rtranclp_induct) (auto dest: panel_edit_synced)

section \<open>Exact prices\<close>






text \<open>The price a lane's ratio refers to.\<close>

definition denominator :: "panel \<Rightarrow> lane_key \<Rightarrow> jsstring" where
  "denominator p lane = (if lane = LaneAudioOutput then pn_lanePrices p LaneAudioInput else pn_promptPrice p)"





section \<open>An example\<close>

text \<open>A new model with the input price 2 and the completion price 6.\<close>

definition sample_panel :: panel where
  "sample_panel =
     handleLanePriceChange LaneCompletion ''6'' (handleLaneToggle LaneCompletion True
       (handlePromptPriceChange ''2'' (handleNameChange ''m'' (openPanel None))))"

lemma sample_numbers: "toNumberOrNull ''2'' = Some 2" "toNumberOrNull ''6'' = Some 6"
  "numericDraftRegex ''2''" "numericDraftRegex ''6''"
proof -
  have "to_number ''2'' = JDec 2 0" "to_number ''6'' = JDec 6 0" by code_simp+
  then show "toNumberOrNull ''2'' = Some 2" "toNumberOrNull ''6'' = Some 6"
    by (simp_all add: toNumberOrNull_def hasValue_def pow10_def)
  show "numericDraftRegex ''2''" "numericDraftRegex ''6''" by code_simp+
qed

lemma sample_panel_edits: "panel_edit\<^sup>*\<^sup>* (openPanel None) sample_panel"
  unfolding sample_panel_def by (meson panel_edit.intros rtranclp.rtrancl_into_rtrancl rtranclp.rtrancl_refl)

lemma sample_panel_fields:
  "pn_promptPrice sample_panel = ''2''" "pn_lanePrices sample_panel LaneCompletion = ''6''"
  "pn_laneEnabled sample_panel lane \<longleftrightarrow> lane = LaneCompletion" "pn_mode sample_panel = ''per-token''"
  "pn_form sample_panel PriceField = []" "pn_form sample_panel NameField = ''m''"
  by (auto simp: sample_panel_def handleLanePriceChange_def handleLaneToggle_def handlePromptPriceChange_def
      handleNameChange_def setFormValue_def openPanel_def createInitialLaneState_def EMPTY_LANE_ENABLED_def
      sync_rest sample_numbers Let_def)


section \<open>Properties\<close>



text \<open>What the panel shows, as entries of the table.\<close>

definition shown_entry :: "panel \<Rightarrow> pricing_field \<Rightarrow> json option" where
  "shown_entry p f =
     (let lane = (\<lambda>k. number_entry (if pn_laneEnabled p k
            then deriveLaneRatio k (pn_lanePrices p k) (pn_promptPrice p) (pn_lanePrices p) else []))
      in case f of
           ModelRatio \<Rightarrow> number_entry (base_ratio (pn_promptPrice p))
         | CompletionRatio \<Rightarrow> lane LaneCompletion
         | CacheRatio \<Rightarrow> lane LaneCache
         | CreateCacheRatio \<Rightarrow> lane LaneCreateCache
         | ImageRatio \<Rightarrow> lane LaneImage
         | AudioRatio \<Rightarrow> lane LaneAudioInput
         | AudioCompletionRatio \<Rightarrow> lane LaneAudioOutput
         | _ \<Rightarrow> None)"

text \<open>
  C12: Committing a panel priced per token saves what it shows: after edits that started from an empty
  panel or included an accepted input price, the table of prices gets the ratio of the shown input
  price, the ratio of every enabled lane and nothing for the disabled ones; other models keep theirs.
\<close>

theorem panel_saves_shown_prices:
  assumes "panel_edit\<^sup>*\<^sup>* (if numericDraftRegex v then handlePromptPriceChange v p0 else openPanel None) (ed_panel e)"
    "ed_open e" "read_maps (ed_texts e) pricing_fields = Inr maps"
    "pn_mode (ed_panel e) = ''per-token''" "pn_form (ed_panel e) PriceField = []" "commitDraft (ed_panel e) = Some data"
  shows "\<exists>e'. commitOpenEditor e = Inr (Committed, e') \<and>
    price_table (ed_texts e') = (price_table (ed_texts e))(js_trim (pn_form (ed_panel e) NameField) := shown_entry (ed_panel e))"
proof -
  have data: "data = buildSubmitData (ed_panel e)" using assms(6) by (simp add: commitDraft_def split: if_splits)
  have "panel_synced (ed_panel e)"
    using assms(1) by (rule panel_edits_synced) (simp add: prompt_change_synced new_panel_synced)
  then have form: "pn_form (ed_panel e) RatioField = base_ratio (pn_promptPrice (ed_panel e))" "lane_synced (ed_panel e) k" for k
    by (simp_all add: panel_synced_def)
  have "stored data = shown_entry (ed_panel e)"
  proof
    fix f
    show "stored data f = shown_entry (ed_panel e) f"
      using form(1) form(2) [of LaneCompletion] form(2) [of LaneCache] form(2) [of LaneCreateCache] form(2) [of LaneImage]
        form(2) [of LaneAudioInput] form(2) [of LaneAudioOutput] assms(4,5)
      by (cases f) (simp_all add: data stored_def shown_entry_def buildSubmitData_def lane_synced_def number_entry_def)
  qed
  then show ?thesis
    using saved_table [OF assms(3), of data "[md_name data]"] assms(2,6)
    by (auto simp: commitOpenEditor_def setEditData_def data buildSubmitData_def fun_eq_iff)
qed

theorem panel_saves_shown_prices_witness:
  "\<exists>e'. commitOpenEditor \<lparr>ed_texts = write_maps sample_maps, ed_open = True, ed_editData = None, ed_panel = sample_panel\<rparr> =
      Inr (Committed, e') \<and>
    price_table (ed_texts e') ''m'' = shown_entry sample_panel"
proof -
  let ?e = "\<lparr>ed_texts = write_maps sample_maps, ed_open = True, ed_editData = None, ed_panel = sample_panel\<rparr>"
  have "panel_edit\<^sup>*\<^sup>* (if numericDraftRegex ''x'' then handlePromptPriceChange ''x'' sample_panel else openPanel None) (ed_panel ?e)"
    using sample_panel_edits by (simp add: numericDraftRegex_def span_digits_def is_digit_def)
  moreover have "commitDraft (ed_panel ?e) = Some (buildSubmitData sample_panel)"
    by (simp add: commitDraft_def sample_panel_fields validatePricingValues_def input_price_missing_def
        audio_input_missing_def sample_numbers)
  moreover have "js_trim ''m'' = ''m''" by code_simp
  ultimately show ?thesis
    using panel_saves_shown_prices [of "''x''" sample_panel ?e sample_maps] sample_read
    by (auto simp: sample_panel_fields)
qed

text \<open>
  C40: The price per request outlives a change of the mode: a model priced per request that is switched
  to per token and given an input price is saved with its old price and without the new one, although
  the panel shows the new one.
\<close>

theorem request_price_outlives_mode:
  assumes "md_price d \<noteq> []" "numericDraftRegex v" "v \<noteq> []"
  defines "p \<equiv> handlePromptPriceChange v (handleModeChange ''per-token'' (openPanel (Some d)))"
  shows "hd (buildPreviewRows t p) = preview_row_of ''inputPrice'' (t ''Input price'') (CHR ''$'' # v) \<and>
    stored (buildSubmitData p) = (\<lambda>f. if f = ModelPrice then number_entry (md_price d) else None)"
proof -
  have "pn_mode p = ''per-token''" "pn_promptPrice p = v" "pn_form p PriceField = md_price d"
    using assms(2) by (simp_all add: p_def handlePromptPriceChange_def handleModeChange_def openPanel_def sync_rest Let_def)
  with assms(1,3) show ?thesis
    by (auto simp: buildPreviewRows_def stored_def buildSubmitData_def fun_eq_iff)
qed

theorem request_price_outlives_mode_witness:
  "\<exists>d. md_price d = ''1'' \<and>
    stored (buildSubmitData (handlePromptPriceChange ''2'' (handleModeChange ''per-token'' (openPanel (Some d))))) ModelRatio = None"
proof -
  let ?d = "buildSubmitData (handlePriceChange ''2'' sample_panel)\<lparr>md_price := ''1''\<rparr>"
  have "md_price ?d = ''1''" by simp
  with request_price_outlives_mode [of ?d "''2''" "\<lambda>s. s"] sample_numbers(3) show ?thesis
    by (intro exI [of _ ?d]) simp
qed

end
