(* ===== verification/ParamOverride.thy ===== *)
theory ParamOverride
  imports JsonPretty JsValue
begin

text \<open>
  The editor of parameter overrides (\<open>channels/components/dialogs/param-override-editor-dialog.tsx\<close>). An
  override is a JSON text: either an object of fixed parameters (the legacy format) or an object
  with a list \<open>operations\<close>. The editor shows the operations as rules with conditions and prints them
  again.

  Every rule and condition gets a local identifier \<open>po_<time>_<counter>\<close>; the counter is part of the
  state, the clock is a parameter that gives the time of each call. A JSON value that is no object has none
  of the properties the editor reads; \<open>null\<close> makes the read throw a type error. \<open>toUpperCase\<close> and
  \<open>toLowerCase\<close> are compared with ASCII words only, for which the ASCII letters are enough.
\<close>

section \<open>Data\<close>

record override_condition =
  oc_id :: jsstring
  oc_path :: jsstring
  oc_mode :: jsstring
  oc_value_text :: jsstring
  oc_invert :: bool
  oc_pass_missing_key :: bool

record override_operation =
  oo_id :: jsstring
  oo_description :: jsstring
  oo_path :: jsstring
  oo_mode :: jsstring
  oo_from :: jsstring
  oo_to :: jsstring
  oo_value_text :: jsstring
  oo_keep_origin :: bool
  oo_logic :: jsstring
  oo_conditions :: "override_condition list"

datatype override_error = NullItem

section \<open>Modes\<close>

definition OPERATION_MODE_OPTIONS :: "(jsstring \<times> jsstring) list" where
  "OPERATION_MODE_OPTIONS =
     [(''set'', ''Set Field''), (''delete'', ''Delete Field''), (''append'', ''Append to End''),
      (''prepend'', ''Prepend to Start''), (''copy'', ''Copy Field''), (''move'', ''Move Field''),
      (''replace'', ''String Replace''), (''regex_replace'', ''Regex Replace''), (''trim_prefix'', ''Trim Prefix''),
      (''trim_suffix'', ''Trim Suffix''), (''ensure_prefix'', ''Ensure Prefix''), (''ensure_suffix'', ''Ensure Suffix''),
      (''trim_space'', ''Trim Space''), (''to_lower'', ''To Lowercase''), (''to_upper'', ''To Uppercase''),
      (''return_error'', ''Return Custom Error''), (''prune_objects'', ''Prune Object Items''),
      (''pass_headers'', ''Pass Through Headers''), (''sync_fields'', ''Sync Fields''),
      (''set_header'', ''Set Request Header''), (''delete_header'', ''Delete Request Header''),
      (''copy_header'', ''Copy Request Header''), (''move_header'', ''Move Request Header'')]"

definition OPERATION_MODE_VALUES :: "jsstring list" where
  "OPERATION_MODE_VALUES = map fst OPERATION_MODE_OPTIONS"

definition CONDITION_MODE_OPTIONS :: "(jsstring \<times> jsstring) list" where
  "CONDITION_MODE_OPTIONS =
     [(''full'', ''Exact Match''), (''prefix'', ''Prefix''), (''suffix'', ''Suffix''), (''contains'', ''Contains''),
      (''gt'', ''Greater Than''), (''gte'', ''Greater Than or Equal''), (''lt'', ''Less Than''),
      (''lte'', ''Less Than or Equal'')]"

definition CONDITION_MODE_VALUES :: "jsstring list" where
  "CONDITION_MODE_VALUES = map fst CONDITION_MODE_OPTIONS"

text \<open>The entries of \<open>MODE_META\<close>: a missing flag and \<open>false\<close> are both falsy.\<close>

record mode_meta =
  mm_path :: bool
  mm_pathOptional :: bool
  mm_value :: bool
  mm_from :: bool
  mm_to :: bool
  mm_keepOrigin :: bool
  mm_pathAlias :: bool

definition no_meta :: mode_meta where
  "no_meta = \<lparr>mm_path = False, mm_pathOptional = False, mm_value = False, mm_from = False, mm_to = False,
     mm_keepOrigin = False, mm_pathAlias = False\<rparr>"

definition MODE_META :: "(jsstring \<times> mode_meta) list" where
  "MODE_META =
     (let path = no_meta\<lparr>mm_path := True\<rparr>;
          path_value = no_meta\<lparr>mm_path := True, mm_value := True\<rparr>;
          path_value_keep = no_meta\<lparr>mm_path := True, mm_value := True, mm_keepOrigin := True\<rparr>;
          from_to = no_meta\<lparr>mm_from := True, mm_to := True\<rparr>;
          path_from = no_meta\<lparr>mm_path := True, mm_from := True\<rparr>;
          alias = no_meta\<lparr>mm_from := True, mm_to := True, mm_keepOrigin := True, mm_pathAlias := True\<rparr>
      in [(''delete'', path), (''set'', path_value_keep), (''append'', path_value_keep), (''prepend'', path_value_keep),
          (''copy'', from_to), (''move'', from_to), (''replace'', path_from), (''regex_replace'', path_from),
          (''trim_prefix'', path_value), (''trim_suffix'', path_value), (''ensure_prefix'', path_value),
          (''ensure_suffix'', path_value), (''trim_space'', path), (''to_lower'', path), (''to_upper'', path),
          (''return_error'', no_meta\<lparr>mm_value := True\<rparr>),
          (''prune_objects'', no_meta\<lparr>mm_pathOptional := True, mm_value := True\<rparr>),
          (''pass_headers'', no_meta\<lparr>mm_value := True, mm_keepOrigin := True\<rparr>), (''sync_fields'', from_to),
          (''set_header'', path_value_keep), (''delete_header'', path), (''copy_header'', alias), (''move_header'', alias)])"

definition meta_of :: "jsstring \<Rightarrow> mode_meta" where
  "meta_of mode = (case map_of MODE_META mode of Some m \<Rightarrow> m | None \<Rightarrow> the (map_of MODE_META ''set''))"

definition VALUE_REQUIRED_MODES :: "jsstring list" where
  "VALUE_REQUIRED_MODES = [''trim_prefix'', ''trim_suffix'', ''ensure_prefix'', ''ensure_suffix'', ''set_header'',
     ''return_error'', ''prune_objects'', ''pass_headers'']"

definition FROM_REQUIRED_MODES :: "jsstring list" where
  "FROM_REQUIRED_MODES = [''copy'', ''move'', ''replace'', ''regex_replace'', ''copy_header'', ''move_header'', ''sync_fields'']"

definition TO_REQUIRED_MODES :: "jsstring list" where
  "TO_REQUIRED_MODES = [''copy'', ''move'', ''copy_header'', ''move_header'', ''sync_fields'']"

text \<open>\<open>operation.mode || 'set'\<close>.\<close>

definition mode_or_set :: "override_operation \<Rightarrow> jsstring" where
  "mode_or_set op = (if oo_mode op = [] then ''set'' else oo_mode op)"

section \<open>Helpers\<close>

definition nextLocalId :: "(nat \<Rightarrow> nat) \<Rightarrow> nat \<Rightarrow> jsstring" where
  "nextLocalId clock seed = ''po_'' @ show_nat (clock seed) @ ''_'' @ show_nat seed"

definition toValueText :: "json option \<Rightarrow> jsstring" where
  "toValueText value = (case value of None \<Rightarrow> [] | Some (JStr s) \<Rightarrow> s | Some j \<Rightarrow> json_stringify j)"

definition parseLooseValue :: "jsstring \<Rightarrow> json" where
  "parseLooseValue valueText =
     (let raw = js_trim valueText
      in if raw = [] then JStr [] else (case json_parse raw of Some j \<Rightarrow> j | None \<Rightarrow> JStr raw))"

definition verifyJSON :: "jsstring \<Rightarrow> bool" where
  "verifyJSON s \<longleftrightarrow> json_parse s \<noteq> None"

text \<open>\<open>typeof value === 'string' ? value : ''\<close>, \<open>value === true\<close>, and a mode of a set with its default.\<close>

definition string_or_empty :: "json option \<Rightarrow> jsstring" where
  "string_or_empty v = (case v of Some (JStr s) \<Rightarrow> s | _ \<Rightarrow> [])"

definition is_true :: "json option \<Rightarrow> bool" where
  "is_true v \<longleftrightarrow> v = Some (JBool True)"

definition known_mode :: "jsstring list \<Rightarrow> jsstring \<Rightarrow> json option \<Rightarrow> jsstring" where
  "known_mode modes fallback v = (case v of Some (JStr s) \<Rightarrow> if s \<in> set modes then s else fallback | _ \<Rightarrow> fallback)"

definition normalizeParamCondition :: "(nat \<Rightarrow> nat) \<Rightarrow> nat \<Rightarrow> json \<Rightarrow> override_error + override_condition" where
  "normalizeParamCondition clock seed condition =
     (if condition = JNull then Inl NullItem
      else Inr \<lparr>oc_id = nextLocalId clock seed,
                oc_path = string_or_empty (json_get condition ''path''),
                oc_mode = known_mode CONDITION_MODE_VALUES ''full'' (json_get condition ''mode''),
                oc_value_text = toValueText (json_get condition ''value''),
                oc_invert = is_true (json_get condition ''invert''),
                oc_pass_missing_key = is_true (json_get condition ''pass_missing_key'')\<rparr>)"

definition createDefaultCondition :: "(nat \<Rightarrow> nat) \<Rightarrow> nat \<Rightarrow> override_condition" where
  "createDefaultCondition clock seed = projr (normalizeParamCondition clock seed (JObj []))"

text \<open>\<open>items.map(normalize)\<close> with the counter threaded through; the first \<open>null\<close> throws.\<close>

fun normalize_conditions :: "(nat \<Rightarrow> nat) \<Rightarrow> nat \<Rightarrow> json list \<Rightarrow> override_error + override_condition list" where
  "normalize_conditions clock seed [] = Inr []"
| "normalize_conditions clock seed (c # cs) =
     (case normalizeParamCondition clock seed c of
        Inl e \<Rightarrow> Inl e
      | Inr x \<Rightarrow> (case normalize_conditions clock (Suc seed) cs of Inl e \<Rightarrow> Inl e | Inr xs \<Rightarrow> Inr (x # xs)))"

definition normalizeOperation :: "(nat \<Rightarrow> nat) \<Rightarrow> nat \<Rightarrow> json \<Rightarrow> override_error + override_operation" where
  "normalizeOperation clock seed operation =
     (if operation = JNull then Inl NullItem
      else (case (case json_get operation ''conditions'' of
                    Some (JArr cs) \<Rightarrow> normalize_conditions clock (Suc seed) cs
                  | _ \<Rightarrow> Inr []) of
              Inl e \<Rightarrow> Inl e
            | Inr conditions \<Rightarrow>
                Inr \<lparr>oo_id = nextLocalId clock seed,
                     oo_description = string_or_empty (json_get operation ''description''),
                     oo_path = string_or_empty (json_get operation ''path''),
                     oo_mode = known_mode OPERATION_MODE_VALUES ''set'' (json_get operation ''mode''),
                     oo_from = string_or_empty (json_get operation ''from''),
                     oo_to = string_or_empty (json_get operation ''to''),
                     oo_value_text = toValueText (json_get operation ''value''),
                     oo_keep_origin = is_true (json_get operation ''keep_origin''),
                     oo_logic = (if map to_upper (js_or (json_get operation ''logic'') ''OR'' js_to_string) = ''AND''
                                 then ''AND'' else ''OR''),
                     oo_conditions = conditions\<rparr>))"

text \<open>The counter after a rule has been made: one identifier for it and one for each condition.\<close>

definition ids_used :: "override_operation \<Rightarrow> nat" where
  "ids_used op = Suc (length (oo_conditions op))"

fun normalize_operations :: "(nat \<Rightarrow> nat) \<Rightarrow> nat \<Rightarrow> json list \<Rightarrow> override_error + override_operation list \<times> nat" where
  "normalize_operations clock seed [] = Inr ([], seed)"
| "normalize_operations clock seed (j # js) =
     (case normalizeOperation clock seed j of
        Inl e \<Rightarrow> Inl e
      | Inr op \<Rightarrow> (case normalize_operations clock (seed + ids_used op) js of
                     Inl e \<Rightarrow> Inl e | Inr (ops, seed') \<Rightarrow> Inr (op # ops, seed')))"

definition createDefaultOperation :: "(nat \<Rightarrow> nat) \<Rightarrow> nat \<Rightarrow> override_operation" where
  "createDefaultOperation clock seed = projr (normalizeOperation clock seed (JObj [(''mode'', JStr ''set'')]))"

section \<open>Lists of operations\<close>

datatype drop_position = Before | After

fun find_index :: "('a \<Rightarrow> bool) \<Rightarrow> 'a list \<Rightarrow> nat option" where
  "find_index P [] = None"
| "find_index P (x # xs) = (if P x then Some 0 else map_option Suc (find_index P xs))"

definition reorderOperations ::
  "override_operation list \<Rightarrow> jsstring \<Rightarrow> jsstring \<Rightarrow> drop_position \<Rightarrow> override_operation list" where
  "reorderOperations ops sourceId targetId position =
     (if sourceId = [] \<or> targetId = [] \<or> sourceId = targetId then ops
      else (case find_index (\<lambda>o'. oo_id o' = sourceId) ops of
              None \<Rightarrow> ops
            | Some srcIdx \<Rightarrow>
                (let next = take srcIdx ops @ drop (Suc srcIdx) ops; moved = ops ! srcIdx
                 in case find_index (\<lambda>o'. oo_id o' = targetId) next of
                      None \<Rightarrow> ops
                    | Some i \<Rightarrow>
                        let insertIdx = (if position = After then i + 1 else i)
                        in take insertIdx next @ moved # drop insertIdx next)))"

definition condition_filled :: "override_condition \<Rightarrow> bool" where
  "condition_filled c \<longleftrightarrow> js_trim (oc_path c) \<noteq> [] \<or> js_trim (oc_value_text c) \<noteq> [] \<or> oc_mode c \<noteq> ''full'' \<or>
     oc_invert c \<or> oc_pass_missing_key c"

definition isOperationBlank :: "override_operation \<Rightarrow> bool" where
  "isOperationBlank op \<longleftrightarrow>
     oo_mode op = ''set'' \<and> js_trim (oo_path op) = [] \<and> js_trim (oo_from op) = [] \<and> js_trim (oo_to op) = [] \<and>
     js_trim (oo_value_text op) = [] \<and> \<not> oo_keep_origin op \<and> \<not> list_ex condition_filled (oo_conditions op)"

text \<open>The first text that is not empty, as \<open>a || b || c\<close>.\<close>

fun first_text_of :: "jsstring list \<Rightarrow> jsstring" where
  "first_text_of [] = []"
| "first_text_of [x] = x"
| "first_text_of (x # xs) = (if x \<noteq> [] then x else first_text_of xs)"

definition getOperationSummary :: "override_operation \<Rightarrow> nat \<Rightarrow> jsstring" where
  "getOperationSummary op index =
     (let mode = mode_or_set op;
          modeLabel = (case map_of OPERATION_MODE_OPTIONS mode of Some l \<Rightarrow> l | None \<Rightarrow> mode);
          path = js_trim (oo_path op); from = js_trim (oo_from op); to = js_trim (oo_to op)
      in show_nat (index + 1) @ ''. '' @ modeLabel @ middle_dot @
         (if mode = ''sync_fields'' then first_text_of [from, to, ''-''] else first_text_of [path, from, to, ''-'']))"

section \<open>Structured values\<close>

record sync_target =
  sy_type :: jsstring
  sy_key :: jsstring

definition parseSyncTargetSpec :: "jsstring \<Rightarrow> sync_target" where
  "parseSyncTargetSpec spec =
     (let raw = js_trim spec
      in if raw = [] then \<lparr>sy_type = ''json'', sy_key = []\<rparr>
         else if CHR '':'' \<notin> set raw then \<lparr>sy_type = ''json'', sy_key = raw\<rparr>
         else (let prefix = map to_lower (js_trim (takeWhile (\<lambda>c. c \<noteq> CHR '':'') raw));
                   key = js_trim (tl (dropWhile (\<lambda>c. c \<noteq> CHR '':'') raw))
               in if prefix = ''header'' then \<lparr>sy_type = ''header'', sy_key = key\<rparr> else \<lparr>sy_type = ''json'', sy_key = key\<rparr>))"

definition buildSyncTargetSpec :: "jsstring \<Rightarrow> jsstring \<Rightarrow> jsstring" where
  "buildSyncTargetSpec type key =
     (let normalizedType = (if type = ''header'' then ''header'' else ''json''); normalizedKey = js_trim key
      in if normalizedKey = [] then [] else normalizedType @ '':'' @ normalizedKey)"

record return_error_draft =
  re_message :: jsstring
  re_statusCode :: jsnum
  re_code :: jsstring
  re_type :: jsstring
  re_skipRetry :: bool
  re_simpleMode :: bool

definition status_or_400 :: "jsnum \<Rightarrow> jsnum" where
  "status_or_400 n = (case int_value n of Some i \<Rightarrow> if 100 \<le> i \<and> i \<le> 599 then n else num_of_int 400 | None \<Rightarrow> num_of_int 400)"

definition return_error_defaults :: return_error_draft where
  "return_error_defaults = \<lparr>re_message = [], re_statusCode = num_of_int 400, re_code = [], re_type = [],
     re_skipRetry = True, re_simpleMode = True\<rparr>"

definition parseReturnErrorDraft :: "jsstring \<Rightarrow> return_error_draft" where
  "parseReturnErrorDraft valueText =
     (let raw = js_trim valueText
      in if raw = [] then return_error_defaults
         else (case json_parse raw of
                 Some (JObj kvs) \<Rightarrow>
                   return_error_defaults\<lparr>
                     re_message := js_trim (js_or (map_of kvs ''message'') (js_or (map_of kvs ''msg'') [] js_to_string) js_to_string),
                     re_statusCode := status_or_400 (js_number
                       (case map_of kvs ''status_code'' of Some v \<Rightarrow> Some v | None \<Rightarrow> map_of kvs ''status'')),
                     re_code := js_trim (js_or (map_of kvs ''code'') [] js_to_string),
                     re_type := js_trim (js_or (map_of kvs ''type'') [] js_to_string),
                     re_skipRetry := (map_of kvs ''skip_retry'' \<noteq> Some (JBool False)),
                     re_simpleMode := False\<rparr>
               | _ \<Rightarrow> return_error_defaults\<lparr>re_message := raw, re_simpleMode := True\<rparr>))"

definition buildReturnErrorValueText :: "return_error_draft \<Rightarrow> jsstring" where
  "buildReturnErrorValueText draft =
     (let message = js_trim (re_message draft); code = js_trim (re_code draft); type = js_trim (re_type draft)
      in if re_simpleMode draft then message
         else json_stringify (JObj (
           [(''message'', JStr message), (''status_code'', JNum (status_or_400 (re_statusCode draft)))] @
           (if code \<noteq> [] then [(''code'', JStr code)] else []) @
           (if type \<noteq> [] then [(''type'', JStr type)] else []) @
           (if \<not> re_skipRetry draft then [(''skip_retry'', JBool False)] else []))))"

text \<open>Rules of \<open>prune_objects\<close> have the fields of a condition; \<open>normalizePruneRule\<close> is applied to
  objects only.\<close>

type_synonym prune_rule = override_condition

record prune_draft =
  pd_simpleMode :: bool
  pd_typeText :: jsstring
  pd_logic :: jsstring
  pd_recursive :: bool
  pd_rules :: "prune_rule list"

definition normalizePruneRule :: "(nat \<Rightarrow> nat) \<Rightarrow> nat \<Rightarrow> json \<Rightarrow> prune_rule" where
  "normalizePruneRule clock seed rule =
     \<lparr>oc_id = nextLocalId clock seed,
      oc_path = string_or_empty (json_get rule ''path''),
      oc_mode = known_mode CONDITION_MODE_VALUES ''full'' (json_get rule ''mode''),
      oc_value_text = toValueText (json_get rule ''value''),
      oc_invert = is_true (json_get rule ''invert''),
      oc_pass_missing_key = is_true (json_get rule ''pass_missing_key'')\<rparr>"

fun normalize_rules :: "(nat \<Rightarrow> nat) \<Rightarrow> nat \<Rightarrow> json list \<Rightarrow> prune_rule list" where
  "normalize_rules clock seed [] = []"
| "normalize_rules clock seed (j # js) = normalizePruneRule clock seed j # normalize_rules clock (Suc seed) js"

text \<open>The entries of \<open>where\<close> or of an object of conditions, as rules for an exact match.\<close>

definition entry_rules :: "(jsstring \<times> json) list \<Rightarrow> json list" where
  "entry_rules kvs = map (\<lambda>(path, value). JObj [(''path'', JStr path), (''mode'', JStr ''full''), (''value'', value)]) kvs"

fun is_objectlike :: "json \<Rightarrow> bool" where
  "is_objectlike (JObj _) \<longleftrightarrow> True"
| "is_objectlike (JArr _) \<longleftrightarrow> True"
| "is_objectlike _ \<longleftrightarrow> False"

definition prune_items :: "(jsstring \<times> json) list \<Rightarrow> json list" where
  "prune_items kvs =
     (case map_of kvs ''where'' of Some (JObj ws) \<Rightarrow> entry_rules ws | _ \<Rightarrow> []) @
     (case map_of kvs ''conditions'' of
        Some (JArr items) \<Rightarrow> filter is_objectlike items
      | Some (JObj cs) \<Rightarrow> entry_rules cs
      | _ \<Rightarrow> [])"

definition prune_defaults :: prune_draft where
  "prune_defaults = \<lparr>pd_simpleMode = True, pd_typeText = [], pd_logic = ''AND'', pd_recursive = True, pd_rules = []\<rparr>"

definition parsePruneObjectsDraft :: "(nat \<Rightarrow> nat) \<Rightarrow> nat \<Rightarrow> jsstring \<Rightarrow> prune_draft" where
  "parsePruneObjectsDraft clock seed valueText =
     (let raw = js_trim valueText
      in if raw = [] then prune_defaults
         else (case json_parse raw of
                 None \<Rightarrow> prune_defaults\<lparr>pd_typeText := raw\<rparr>
               | Some (JStr s) \<Rightarrow> prune_defaults\<lparr>pd_typeText := js_trim s\<rparr>
               | Some (JObj kvs) \<Rightarrow>
                   \<lparr>pd_simpleMode = (map_of kvs ''logic'' = None \<and> map_of kvs ''recursive'' = None \<and>
                      map_of kvs ''where'' = None \<and> map_of kvs ''conditions'' = None),
                    pd_typeText = (case map_of kvs ''type'' of None \<Rightarrow> [] | Some v \<Rightarrow> js_trim (js_to_string v)),
                    pd_logic = (if map to_upper (js_or (map_of kvs ''logic'') ''AND'' js_to_string) = ''OR'' then ''OR'' else ''AND''),
                    pd_recursive = (map_of kvs ''recursive'' \<noteq> Some (JBool False)),
                    pd_rules = normalize_rules clock seed (prune_items kvs)\<rparr>
               | Some JNull \<Rightarrow> prune_defaults
               | Some j \<Rightarrow> prune_defaults\<lparr>pd_typeText := js_trim (js_to_string j)\<rparr>))"

definition prune_condition :: "prune_rule \<Rightarrow> json" where
  "prune_condition rule =
     (let valueRaw = js_trim (oc_value_text rule)
      in JObj ([(''path'', JStr (js_trim (oc_path rule))),
                (''mode'', JStr (if oc_mode rule \<in> set CONDITION_MODE_VALUES then oc_mode rule else ''full''))] @
               (if valueRaw \<noteq> [] then [(''value'', parseLooseValue valueRaw)] else []) @
               (if oc_invert rule then [(''invert'', JBool True)] else []) @
               (if oc_pass_missing_key rule then [(''pass_missing_key'', JBool True)] else [])))"

definition buildPruneObjectsValueText :: "prune_draft \<Rightarrow> jsstring" where
  "buildPruneObjectsValueText draft =
     (let typeText = js_trim (pd_typeText draft)
      in if pd_simpleMode draft then typeText
         else (let conditions = map prune_condition (filter (\<lambda>rule. js_trim (oc_path rule) \<noteq> []) (pd_rules draft));
                   logic = map to_upper (if pd_logic draft = [] then ''AND'' else pd_logic draft)
               in if typeText = [] \<and> conditions = [] then json_stringify (JObj [(''logic'', JStr ''AND'')])
                  else json_stringify (JObj (
                    (if typeText \<noteq> [] then [(''type'', JStr typeText)] else []) @
                    (if logic = ''OR'' then [(''logic'', JStr ''OR'')] else []) @
                    (if \<not> pd_recursive draft then [(''recursive'', JBool False)] else []) @
                    (if conditions \<noteq> [] then [(''conditions'', JArr conditions)] else [])))))"

text \<open>\<open>String(i ?? '').trim()\<close>.\<close>

definition item_text :: "json \<Rightarrow> jsstring" where
  "item_text i = (if i = JNull then [] else js_trim (js_to_string i))"

fun parsePassHeaderNames :: "json \<Rightarrow> jsstring list" where
  "parsePassHeaderNames (JArr items) = filter (\<lambda>h. h \<noteq> []) (map item_text items)"
| "parsePassHeaderNames (JObj kvs) =
     (case map_of kvs ''headers'' of
        Some (JArr items) \<Rightarrow> filter (\<lambda>h. h \<noteq> []) (map item_text items)
      | _ \<Rightarrow> (case map_of kvs ''header'' of
               Some v \<Rightarrow> if item_text v \<noteq> [] then [item_text v] else []
             | None \<Rightarrow> []))"
| "parsePassHeaderNames (JStr s) = filter (\<lambda>h. h \<noteq> []) (map js_trim (split_on (CHR '','') s))"
| "parsePassHeaderNames _ = []"

section \<open>Validation\<close>

datatype rule_problem = MissingTargetPath nat | MissingSourceField nat | MissingTargetField nat | MissingValue nat
  | MessageRequired nat | PruneConditionsMissing nat | HeaderNamesMissing nat | HeaderFormatInvalid nat

definition message_missing :: "jsstring \<Rightarrow> bool" where
  "message_missing raw \<longleftrightarrow>
     (case json_parse raw of
        Some (JObj kvs) \<Rightarrow> js_trim (js_or (map_of kvs ''message'') [] js_to_string) = []
      | _ \<Rightarrow> False)"

definition validate_operation :: "nat \<Rightarrow> override_operation \<Rightarrow> rule_problem option" where
  "validate_operation line op =
     (let mode = mode_or_set op; meta = meta_of mode; raw = js_trim (oo_value_text op);
          pathValue = js_trim (oo_path op); fromValue = js_trim (oo_from op); toValue = js_trim (oo_to op)
      in if mm_path meta \<and> pathValue = [] then Some (MissingTargetPath line)
         else if mode \<in> set FROM_REQUIRED_MODES \<and> fromValue = [] \<and> \<not> (mm_pathAlias meta \<and> pathValue \<noteq> [])
         then Some (MissingSourceField line)
         else if mode \<in> set TO_REQUIRED_MODES \<and> toValue = [] \<and> \<not> (mm_pathAlias meta \<and> pathValue \<noteq> [])
         then Some (MissingTargetField line)
         else if mode \<in> set VALUE_REQUIRED_MODES \<and> raw = [] then Some (MissingValue line)
         else if mode = ''return_error'' \<and> raw = [] then Some (MissingValue line)
         else if mode = ''return_error'' \<and> message_missing raw then Some (MessageRequired line)
         else if mode = ''prune_objects'' \<and> raw = [] then Some (PruneConditionsMissing line)
         else if mode = ''pass_headers'' \<and> raw = [] then Some (HeaderNamesMissing line)
         else if mode = ''pass_headers'' \<and> parsePassHeaderNames (parseLooseValue raw) = []
         then Some (HeaderFormatInvalid line)
         else None)"

fun validate_from :: "nat \<Rightarrow> override_operation list \<Rightarrow> rule_problem option" where
  "validate_from line [] = None"
| "validate_from line (op # ops) =
     (case validate_operation line op of Some p \<Rightarrow> Some p | None \<Rightarrow> validate_from (Suc line) ops)"

definition validateOperations :: "override_operation list \<Rightarrow> rule_problem option" where
  "validateOperations ops = validate_from 1 ops"

section \<open>Printing\<close>

definition buildConditionPayload :: "override_condition \<Rightarrow> json option" where
  "buildConditionPayload c =
     (let path = js_trim (oc_path c)
      in if path = [] then None
         else Some (JObj ([(''path'', JStr path), (''mode'', JStr (if oc_mode c = [] then ''full'' else oc_mode c)),
                           (''value'', parseLooseValue (oc_value_text c))] @
                          (if oc_invert c then [(''invert'', JBool True)] else []) @
                          (if oc_pass_missing_key c then [(''pass_missing_key'', JBool True)] else []))))"

text \<open>\<open>if (b) payload[key] = v\<close>, and \<open>if (!payload[key] && pathValue) payload[key] = pathValue\<close> under a condition.\<close>

definition put_if :: "bool \<Rightarrow> jsstring \<Rightarrow> json \<Rightarrow> (jsstring \<times> json) list \<Rightarrow> (jsstring \<times> json) list" where
  "put_if b key v payload = (if b then obj_set payload key v else payload)"

definition fill_alias :: "bool \<Rightarrow> jsstring \<Rightarrow> jsstring \<Rightarrow> (jsstring \<times> json) list \<Rightarrow> (jsstring \<times> json) list" where
  "fill_alias b key pathValue payload =
     put_if (b \<and> js_or (map_of payload key) True (\<lambda>_. False) \<and> pathValue \<noteq> []) key (JStr pathValue) payload"

definition operation_payload :: "override_operation \<Rightarrow> json" where
  "operation_payload op =
     (let mode = mode_or_set op; meta = meta_of mode;
          descriptionValue = js_trim (oo_description op); pathValue = js_trim (oo_path op);
          fromValue = js_trim (oo_from op); toValue = js_trim (oo_to op);
          p1 = put_if (descriptionValue \<noteq> []) ''description'' (JStr descriptionValue) [(''mode'', JStr mode)];
          p2 = put_if (mm_pathOptional meta \<and> pathValue \<noteq> []) ''path'' (JStr pathValue)
                 (put_if (mm_path meta) ''path'' (JStr pathValue) p1);
          p3 = put_if (mm_value meta) ''value'' (parseLooseValue (oo_value_text op)) p2;
          p4 = put_if (mm_keepOrigin meta \<and> oo_keep_origin op) ''keep_origin'' (JBool True) p3;
          p5 = put_if (mm_from meta) ''from'' (JStr fromValue) p4;
          p6 = put_if (mm_to meta) ''to'' (JStr toValue) (put_if (\<not> mm_to meta \<and> toValue \<noteq> []) ''to'' (JStr toValue) p5);
          p7 = fill_alias (mm_pathAlias meta) ''to'' pathValue (fill_alias (mm_pathAlias meta) ''from'' pathValue p6);
          conditions = List.map_filter buildConditionPayload (oo_conditions op)
      in JObj (put_if (conditions \<noteq> []) ''logic'' (JStr (if oo_logic op = ''AND'' then ''AND'' else ''OR''))
                 (put_if (conditions \<noteq> []) ''conditions'' (JArr conditions) p7)))"

definition operations_json :: "override_operation list \<Rightarrow> json" where
  "operations_json ops = JObj [(''operations'', JArr (map operation_payload ops))]"

definition buildOperationsJson :: "override_operation list \<Rightarrow> bool \<Rightarrow> rule_problem + jsstring" where
  "buildOperationsJson sourceOperations validate =
     (let filteredOps = filter (\<lambda>op. \<not> isOperationBlank op) sourceOperations
      in if filteredOps = [] then Inr []
         else (case (if validate then validateOperations filteredOps else None) of
                 Some p \<Rightarrow> Inl p
               | None \<Rightarrow> Inr (json_pretty (operations_json filteredOps))))"

end
