(* ===== verification/ParamOverrideEditor.thy ===== *)
theory ParamOverrideEditor
  imports ParamOverride
begin

text \<open>
  The dialog around the rules of a parameter override: its state, the templates and every handler.
  A message of the dialog is a value of \<open>override_message\<close>. The handlers that read rules from JSON
  return \<open>NullItem\<close> where the source throws a type error. The effect that keeps the selection valid runs
  after every change and is the function \<open>keepSelected\<close>.
\<close>

section \<open>Templates\<close>

definition LEGACY_TEMPLATE :: "(jsstring \<times> json) list" where
  "LEGACY_TEMPLATE = [(''temperature'', JNum (JDec 0 0)), (''max_tokens'', JNum (JDec 1 3))]"

definition OPERATION_TEMPLATE :: "json list" where
  "OPERATION_TEMPLATE =
     [JObj [(''description'', JStr ''Set default temperature for openai/* models.''), (''path'', JStr ''temperature''),
            (''mode'', JStr ''set''), (''value'', JNum (JDec 7 (- 1))),
            (''conditions'', JArr [JObj [(''path'', JStr ''model''), (''mode'', JStr ''prefix''), (''value'', JStr ''openai/'')]]),
            (''logic'', JStr ''AND'')]]"

definition HEADER_PASSTHROUGH_TEMPLATE :: "json list" where
  "HEADER_PASSTHROUGH_TEMPLATE =
     [JObj [(''description'', JStr ''Pass through X-Request-Id header to upstream.''), (''mode'', JStr ''pass_headers''),
            (''value'', JArr [JStr ''X-Request-Id'']), (''keep_origin'', JBool True)]]"

definition model_condition :: "jsstring \<Rightarrow> jsstring \<Rightarrow> json" where
  "model_condition mode value = JObj [(''path'', JStr ''original_model''), (''mode'', JStr mode), (''value'', JStr value)]"

definition GEMINI_IMAGE_4K_TEMPLATE :: "json list" where
  "GEMINI_IMAGE_4K_TEMPLATE =
     [JObj [(''description'', JStr ''Set imageSize to 4K when model contains gemini/image and ends with 4k.''),
            (''mode'', JStr ''set''), (''path'', JStr ''generationConfig.imageConfig.imageSize''), (''value'', JStr ''4K''),
            (''conditions'', JArr [model_condition ''contains'' ''gemini'', model_condition ''contains'' ''image'',
               model_condition ''suffix'' ''4k'']),
            (''logic'', JStr ''AND'')]]"

definition CODEX_CLI_HEADER_PASSTHROUGH_HEADERS :: "jsstring list" where
  "CODEX_CLI_HEADER_PASSTHROUGH_HEADERS = [''Originator'', ''Session_id'', ''User-Agent'', ''X-Codex-Beta-Features'',
     ''X-Codex-Turn-Metadata'']"

definition CLAUDE_CLI_HEADER_PASSTHROUGH_HEADERS :: "jsstring list" where
  "CLAUDE_CLI_HEADER_PASSTHROUGH_HEADERS = [''X-Stainless-Arch'', ''X-Stainless-Lang'', ''X-Stainless-Os'',
     ''X-Stainless-Package-Version'', ''X-Stainless-Retry-Count'', ''X-Stainless-Runtime'', ''X-Stainless-Runtime-Version'',
     ''X-Stainless-Timeout'', ''User-Agent'', ''X-App'', ''Anthropic-Beta'', ''Anthropic-Dangerous-Direct-Browser-Access'',
     ''Anthropic-Version'']"

definition buildPassHeadersTemplate :: "jsstring list \<Rightarrow> json list" where
  "buildPassHeadersTemplate headers =
     [JObj [(''mode'', JStr ''pass_headers''), (''value'', JArr (map JStr headers)), (''keep_origin'', JBool True)]]"

definition bedrock_beta_tokens :: "(jsstring \<times> json) list" where
  "bedrock_beta_tokens =
      [(''advanced-tool-use-2025-11-20'', JStr ''tool-search-tool-2025-10-19''), (''bash_20241022'', JNull),
       (''bash_20250124'', JNull), (''code-execution-2025-08-25'', JNull),
       (''compact-2026-01-12'', JStr ''compact-2026-01-12''),
       (''computer-use-2025-01-24'', JStr ''computer-use-2025-01-24''),
       (''computer-use-2025-11-24'', JStr ''computer-use-2025-11-24''),
       (''context-1m-2025-08-07'', JStr ''context-1m-2025-08-07''),
       (''context-management-2025-06-27'', JStr ''context-management-2025-06-27''), (''effort-2025-11-24'', JNull),
       (''fast-mode-2026-02-01'', JNull), (''files-api-2025-04-14'', JNull),
       (''fine-grained-tool-streaming-2025-05-14'', JNull),
       (''interleaved-thinking-2025-05-14'', JStr ''interleaved-thinking-2025-05-14''),
       (''mcp-client-2025-11-20'', JNull), (''mcp-client-2025-04-04'', JNull), (''mcp-servers-2025-12-04'', JNull),
       (''output-128k-2025-02-19'', JNull), (''structured-output-2024-03-01'', JNull),
       (''prompt-caching-scope-2026-01-05'', JNull), (''skills-2025-10-02'', JNull),
       (''structured-outputs-2025-11-13'', JNull), (''text_editor_20241022'', JNull),
       (''text_editor_20250124'', JNull), (''token-efficient-tools-2025-02-19'', JNull),
       (''tool-search-tool-2025-10-19'', JStr ''tool-search-tool-2025-10-19''), (''web-fetch-2025-09-10'', JNull),
       (''web-search-2025-03-05'', JNull), (''oauth-2025-04-20'', JNull)]"

definition AWS_BEDROCK_ANTHROPIC_COMPAT_TEMPLATE :: "json list" where
  "AWS_BEDROCK_ANTHROPIC_COMPAT_TEMPLATE =
     [JObj [(''description'', JStr ''Normalize anthropic-beta header tokens for Bedrock compatibility.''),
            (''mode'', JStr ''set_header''), (''path'', JStr ''anthropic-beta''), (''value'', JObj bedrock_beta_tokens)],
      JObj [(''description'', JStr ''Remove all tools[*].custom.input_examples before upstream relay.''),
            (''mode'', JStr ''delete''), (''path'', JStr ''tools.*.custom.input_examples'')]]"

datatype template_payload = LegacyTemplate "(jsstring \<times> json) list" | OperationsTemplate "json list"

definition TEMPLATE_PRESET_CONFIG :: "(jsstring \<times> jsstring \<times> template_payload) list" where
  "TEMPLATE_PRESET_CONFIG =
     [(''operations_default'', ''New Format Template'', OperationsTemplate OPERATION_TEMPLATE),
      (''legacy_default'', ''Legacy Format Template'', LegacyTemplate LEGACY_TEMPLATE),
      (''pass_headers_auth'', ''Header Passthrough (X-Request-Id)'', OperationsTemplate HEADER_PASSTHROUGH_TEMPLATE),
      (''gemini_image_4k'', ''Gemini Image 4K'', OperationsTemplate GEMINI_IMAGE_4K_TEMPLATE),
      (''claude_cli_headers_passthrough'', ''Claude CLI Header Passthrough'',
       OperationsTemplate (buildPassHeadersTemplate CLAUDE_CLI_HEADER_PASSTHROUGH_HEADERS)),
      (''codex_cli_headers_passthrough'', ''Codex CLI Header Passthrough'',
       OperationsTemplate (buildPassHeadersTemplate CODEX_CLI_HEADER_PASSTHROUGH_HEADERS)),
      (''aws_bedrock_anthropic_beta_override'', ''AWS Bedrock Claude Compat'',
       OperationsTemplate AWS_BEDROCK_ANTHROPIC_COMPAT_TEMPLATE)]"

definition preset_payload :: "jsstring \<Rightarrow> template_payload" where
  "preset_payload key = (case map_of TEMPLATE_PRESET_CONFIG key of
     Some (_, p) \<Rightarrow> p | None \<Rightarrow> OperationsTemplate OPERATION_TEMPLATE)"

section \<open>Initial state\<close>

datatype edit_mode = VisualEdit | JsonEdit
datatype visual_mode = OperationsView | LegacyView

datatype override_message = InvalidJsonFormat | MustBeValidJson | LegacyMustBeObject | MustBeJsonObject
  | LegacyJsonInvalid | JsonFormatError | RuleProblem rule_problem

record editor_state =
  es_editMode :: edit_mode
  es_visualMode :: visual_mode
  es_legacyValue :: jsstring
  es_operations :: "override_operation list"
  es_jsonText :: jsstring
  es_jsonError :: "override_message option"

definition default_state :: "(nat \<Rightarrow> nat) \<Rightarrow> nat \<Rightarrow> editor_state" where
  "default_state clock seed = \<lparr>es_editMode = VisualEdit, es_visualMode = OperationsView, es_legacyValue = [],
     es_operations = [createDefaultOperation clock seed], es_jsonText = [], es_jsonError = None\<rparr>"

text \<open>The rules of an object with a list \<open>operations\<close>; an empty list gives the default rule.\<close>

definition rules_or_default :: "(nat \<Rightarrow> nat) \<Rightarrow> nat \<Rightarrow> json list \<Rightarrow> override_error + override_operation list \<times> nat" where
  "rules_or_default clock seed items =
     (if items = [] then Inr ([createDefaultOperation clock seed], Suc seed) else normalize_operations clock seed items)"

definition parseInitialState :: "(nat \<Rightarrow> nat) \<Rightarrow> nat \<Rightarrow> jsstring \<Rightarrow> override_error + editor_state \<times> nat" where
  "parseInitialState clock seed rawValue =
     (let trimmed = js_trim rawValue; base = default_state clock seed
      in if trimmed = [] then Inr (base, Suc seed)
         else (case json_parse trimmed of
                 None \<Rightarrow> Inr (base\<lparr>es_editMode := JsonEdit, es_jsonText := rawValue, es_jsonError := Some InvalidJsonFormat\<rparr>, Suc seed)
               | Some parsed \<Rightarrow>
                   (let pretty = json_pretty parsed
                    in case parsed of
                         JObj kvs \<Rightarrow>
                           (case map_of kvs ''operations'' of
                              Some (JArr items) \<Rightarrow>
                                (case rules_or_default clock seed items of
                                   Inl e \<Rightarrow> Inl e
                                 | Inr (ops, seed') \<Rightarrow> Inr (base\<lparr>es_operations := ops, es_jsonText := pretty\<rparr>, seed'))
                            | _ \<Rightarrow> Inr (base\<lparr>es_visualMode := LegacyView, es_legacyValue := pretty, es_jsonText := pretty\<rparr>, Suc seed))
                       | _ \<Rightarrow> Inr (base\<lparr>es_editMode := JsonEdit, es_jsonText := pretty\<rparr>, Suc seed))))"

section \<open>Dialog\<close>

record override_editor = editor_state +
  ov_search :: jsstring
  ov_selected :: jsstring
  ov_expanded :: "jsstring \<Rightarrow> bool"
  ov_dragged :: jsstring
  ov_dragOver :: jsstring
  ov_dragPosition :: drop_position
  ov_template :: jsstring
  ov_seed :: nat

definition first_id :: "override_operation list \<Rightarrow> jsstring" where
  "first_id ops = (case ops of [] \<Rightarrow> [] | op # _ \<Rightarrow> oo_id op)"

text \<open>The effect that fills the dialog when it opens.\<close>

definition openDialog :: "(nat \<Rightarrow> nat) \<Rightarrow> nat \<Rightarrow> jsstring \<Rightarrow> override_error + override_editor" where
  "openDialog clock seed value =
     (case parseInitialState clock seed value of
        Inl e \<Rightarrow> Inl e
      | Inr (s, seed') \<Rightarrow>
          Inr \<lparr>es_editMode = es_editMode s, es_visualMode = es_visualMode s, es_legacyValue = es_legacyValue s,
               es_operations = es_operations s, es_jsonText = es_jsonText s, es_jsonError = es_jsonError s,
               ov_search = [], ov_selected = first_id (es_operations s), ov_expanded = (\<lambda>_. False), ov_dragged = [],
               ov_dragOver = [], ov_dragPosition = Before,
               ov_template = (if es_visualMode s = LegacyView then ''legacy_default'' else ''operations_default''),
               ov_seed = seed'\<rparr>)"

definition keepSelected :: "override_editor \<Rightarrow> override_editor" where
  "keepSelected ed =
     (if es_operations ed = [] then ed\<lparr>ov_selected := []\<rparr>
      else if \<not> list_ex (\<lambda>op. oo_id op = ov_selected ed) (es_operations ed)
      then ed\<lparr>ov_selected := first_id (es_operations ed)\<rparr> else ed)"

definition operationCount :: "override_editor \<Rightarrow> nat" where
  "operationCount ed = length (filter (\<lambda>op. \<not> isOperationBlank op) (es_operations ed))"

definition searchable_text :: "override_operation \<Rightarrow> jsstring" where
  "searchable_text op = map to_lower (js_join '' '' (filter (\<lambda>s. s \<noteq> [])
     [oo_description op, oo_mode op, oo_path op, oo_from op, oo_to op, oo_value_text op]))"

definition filteredOperations :: "override_editor \<Rightarrow> override_operation list" where
  "filteredOperations ed =
     (let keyword = map to_lower (js_trim (ov_search ed))
      in if keyword = [] then es_operations ed
         else filter (\<lambda>op. js_includes (searchable_text op) keyword) (es_operations ed))"

definition selectedOperation :: "override_editor \<Rightarrow> override_operation option" where
  "selectedOperation ed = find (\<lambda>op. oo_id op = ov_selected ed) (es_operations ed)"

definition selectedOperationIndex :: "override_editor \<Rightarrow> nat option" where
  "selectedOperationIndex ed = find_index (\<lambda>op. oo_id op = ov_selected ed) (es_operations ed)"

definition topOperationModes :: "override_editor \<Rightarrow> (jsstring \<times> nat) list" where
  "topOperationModes ed =
     (let modes = map mode_or_set (es_operations ed);
          counts = map (\<lambda>m. (m, count_list modes m)) (uniq modes)
      in take 4 (js_sort (\<lambda>a b. snd b \<le> snd a) counts))"

subsection \<open>Rules\<close>

definition setOperations :: "(override_operation list \<Rightarrow> override_operation list) \<Rightarrow> override_editor \<Rightarrow> override_editor" where
  "setOperations f ed = ed\<lparr>es_operations := f (es_operations ed)\<rparr>"

text \<open>The patches the view sends to \<open>updateOperation\<close>.\<close>

datatype operation_patch = PatchMode jsstring | PatchDescription jsstring | PatchPath jsstring | PatchFrom jsstring
  | PatchTo jsstring | PatchValueText jsstring | PatchKeepOrigin bool | PatchLogic jsstring | PatchEnds jsstring jsstring

fun patch_operation :: "operation_patch \<Rightarrow> override_operation \<Rightarrow> override_operation" where
  "patch_operation (PatchMode v) op = op\<lparr>oo_mode := v\<rparr>"
| "patch_operation (PatchDescription v) op = op\<lparr>oo_description := v\<rparr>"
| "patch_operation (PatchPath v) op = op\<lparr>oo_path := v\<rparr>"
| "patch_operation (PatchFrom v) op = op\<lparr>oo_from := v\<rparr>"
| "patch_operation (PatchTo v) op = op\<lparr>oo_to := v\<rparr>"
| "patch_operation (PatchValueText v) op = op\<lparr>oo_value_text := v\<rparr>"
| "patch_operation (PatchKeepOrigin b) op = op\<lparr>oo_keep_origin := b\<rparr>"
| "patch_operation (PatchLogic v) op = op\<lparr>oo_logic := v\<rparr>"
| "patch_operation (PatchEnds f t) op = op\<lparr>oo_from := f, oo_to := t\<rparr>"

definition update_by_id :: "jsstring \<Rightarrow> (override_operation \<Rightarrow> override_operation) \<Rightarrow> override_operation list \<Rightarrow> override_operation list" where
  "update_by_id operationId f ops = map (\<lambda>op. if oo_id op = operationId then f op else op) ops"

definition updateOperation :: "jsstring \<Rightarrow> operation_patch \<Rightarrow> override_editor \<Rightarrow> override_editor" where
  "updateOperation operationId patch = setOperations (update_by_id operationId (patch_operation patch))"

definition addOperation :: "(nat \<Rightarrow> nat) \<Rightarrow> override_editor \<Rightarrow> override_editor" where
  "addOperation clock ed =
     (let created = createDefaultOperation clock (ov_seed ed)
      in ed\<lparr>es_operations := es_operations ed @ [created], ov_selected := oo_id created, ov_seed := Suc (ov_seed ed)\<rparr>)"

definition clone_json :: "override_operation \<Rightarrow> json" where
  "clone_json source =
     JObj [(''description'', JStr (oo_description source)), (''path'', JStr (oo_path source)), (''mode'', JStr (oo_mode source)),
       (''value'', parseLooseValue (oo_value_text source)), (''keep_origin'', JBool (oo_keep_origin source)),
       (''from'', JStr (oo_from source)), (''to'', JStr (oo_to source)), (''logic'', JStr (oo_logic source)),
       (''conditions'', JArr (map (\<lambda>c. JObj [(''path'', JStr (oc_path c)), (''mode'', JStr (oc_mode c)),
          (''value'', parseLooseValue (oc_value_text c)), (''invert'', JBool (oc_invert c)),
          (''pass_missing_key'', JBool (oc_pass_missing_key c))]) (oo_conditions source)))]"

text \<open>The inserted rule is selected if the update ran before the handler looked at its identifier
  (\<open>eager\<close>); React leaves that open.\<close>

definition duplicateOperation :: "bool \<Rightarrow> (nat \<Rightarrow> nat) \<Rightarrow> jsstring \<Rightarrow> override_editor \<Rightarrow> override_editor" where
  "duplicateOperation eager clock operationId ed =
     (case find_index (\<lambda>op. oo_id op = operationId) (es_operations ed) of
        None \<Rightarrow> ed
      | Some idx \<Rightarrow>
          (let cloned = projr (normalizeOperation clock (ov_seed ed) (clone_json (es_operations ed ! idx)));
               ed1 = ed\<lparr>es_operations := take (Suc idx) (es_operations ed) @ cloned # drop (Suc idx) (es_operations ed),
                        ov_seed := ov_seed ed + ids_used cloned\<rparr>
           in if eager then ed1\<lparr>ov_selected := oo_id cloned\<rparr> else ed1))"

definition removeOperation :: "(nat \<Rightarrow> nat) \<Rightarrow> jsstring \<Rightarrow> override_editor \<Rightarrow> override_editor" where
  "removeOperation clock operationId ed =
     (if length (es_operations ed) \<le> 1
      then ed\<lparr>es_operations := [createDefaultOperation clock (ov_seed ed)], ov_seed := Suc (ov_seed ed)\<rparr>
      else ed\<lparr>es_operations := filter (\<lambda>op. oo_id op \<noteq> operationId) (es_operations ed)\<rparr>)"

subsection \<open>Conditions\<close>

definition addCondition :: "(nat \<Rightarrow> nat) \<Rightarrow> jsstring \<Rightarrow> override_editor \<Rightarrow> override_editor" where
  "addCondition clock operationId ed =
     (let created = createDefaultCondition clock (ov_seed ed)
      in (setOperations (update_by_id operationId (\<lambda>op. op\<lparr>oo_conditions := oo_conditions op @ [created]\<rparr>)) ed)
           \<lparr>ov_expanded := (ov_expanded ed)(oc_id created := True), ov_seed := Suc (ov_seed ed)\<rparr>)"

datatype condition_patch = ConditionPath jsstring | ConditionMode jsstring | ConditionValue jsstring
  | ConditionInvert bool | ConditionPassMissing bool

fun patch_condition :: "condition_patch \<Rightarrow> override_condition \<Rightarrow> override_condition" where
  "patch_condition (ConditionPath v) c = c\<lparr>oc_path := v\<rparr>"
| "patch_condition (ConditionMode v) c = c\<lparr>oc_mode := v\<rparr>"
| "patch_condition (ConditionValue v) c = c\<lparr>oc_value_text := v\<rparr>"
| "patch_condition (ConditionInvert b) c = c\<lparr>oc_invert := b\<rparr>"
| "patch_condition (ConditionPassMissing b) c = c\<lparr>oc_pass_missing_key := b\<rparr>"

definition updateCondition :: "jsstring \<Rightarrow> jsstring \<Rightarrow> condition_patch \<Rightarrow> override_editor \<Rightarrow> override_editor" where
  "updateCondition operationId conditionId patch = setOperations (update_by_id operationId (\<lambda>op.
     op\<lparr>oo_conditions := map (\<lambda>c. if oc_id c = conditionId then patch_condition patch c else c) (oo_conditions op)\<rparr>))"

definition removeCondition :: "jsstring \<Rightarrow> jsstring \<Rightarrow> override_editor \<Rightarrow> override_editor" where
  "removeCondition operationId conditionId = setOperations (update_by_id operationId (\<lambda>op.
     op\<lparr>oo_conditions := filter (\<lambda>c. oc_id c \<noteq> conditionId) (oo_conditions op)\<rparr>))"

subsection \<open>Structured values\<close>

text \<open>The drafts are not kept: every update reads the text of the rule again. A patch of a draft is a
  function on it.\<close>

definition returnErrorDraft :: "override_editor \<Rightarrow> return_error_draft option" where
  "returnErrorDraft ed =
     (case selectedOperation ed of
        Some op \<Rightarrow> if oo_mode op = ''return_error'' then Some (parseReturnErrorDraft (oo_value_text op)) else None
      | None \<Rightarrow> None)"

text \<open>Reading the rules of \<open>prune_objects\<close> for the view makes new identifiers.\<close>

definition pruneObjectsDraft :: "(nat \<Rightarrow> nat) \<Rightarrow> override_editor \<Rightarrow> prune_draft option \<times> override_editor" where
  "pruneObjectsDraft clock ed =
     (case selectedOperation ed of
        Some op \<Rightarrow>
          if oo_mode op = ''prune_objects''
          then (let draft = parsePruneObjectsDraft clock (ov_seed ed) (oo_value_text op)
                in (Some draft, ed\<lparr>ov_seed := ov_seed ed + length (pd_rules draft)\<rparr>))
          else (None, ed)
      | None \<Rightarrow> (None, ed))"

definition updateReturnErrorDraft :: "jsstring \<Rightarrow> (return_error_draft \<Rightarrow> return_error_draft) \<Rightarrow> override_editor \<Rightarrow> override_editor" where
  "updateReturnErrorDraft operationId patch = setOperations (update_by_id operationId (\<lambda>op.
     op\<lparr>oo_value_text := buildReturnErrorValueText (patch (parseReturnErrorDraft (oo_value_text op)))\<rparr>))"

text \<open>The rule the updater of \<open>addPruneRule\<close> creates gets the identifier after those of the draft.\<close>

definition prune_ids :: "(nat \<Rightarrow> nat) \<Rightarrow> nat \<Rightarrow> jsstring \<Rightarrow> nat" where
  "prune_ids clock seed valueText = seed + length (pd_rules (parsePruneObjectsDraft clock seed valueText))"

definition updatePruneObjectsDraft ::
  "(nat \<Rightarrow> nat) \<Rightarrow> jsstring \<Rightarrow> (nat \<Rightarrow> prune_draft \<Rightarrow> prune_draft) \<Rightarrow> override_editor \<Rightarrow> override_editor" where
  "updatePruneObjectsDraft clock operationId updater ed =
     (case find (\<lambda>op. oo_id op = operationId) (es_operations ed) of
        None \<Rightarrow> ed
      | Some op0 \<Rightarrow>
          (setOperations (update_by_id operationId (\<lambda>op.
             op\<lparr>oo_value_text := buildPruneObjectsValueText (updater (prune_ids clock (ov_seed ed) (oo_value_text op))
                  (parsePruneObjectsDraft clock (ov_seed ed) (oo_value_text op)))\<rparr>)) ed)
            \<lparr>ov_seed := Suc (prune_ids clock (ov_seed ed) (oo_value_text op0))\<rparr>)"

definition addPruneRule :: "(nat \<Rightarrow> nat) \<Rightarrow> jsstring \<Rightarrow> override_editor \<Rightarrow> override_editor" where
  "addPruneRule clock operationId = updatePruneObjectsDraft clock operationId (\<lambda>seed draft.
     draft\<lparr>pd_simpleMode := False, pd_rules := pd_rules draft @ [normalizePruneRule clock seed (JObj [])]\<rparr>)"

definition updatePruneRule :: "(nat \<Rightarrow> nat) \<Rightarrow> jsstring \<Rightarrow> jsstring \<Rightarrow> condition_patch \<Rightarrow> override_editor \<Rightarrow> override_editor" where
  "updatePruneRule clock operationId ruleId patch = updatePruneObjectsDraft clock operationId (\<lambda>_ draft.
     draft\<lparr>pd_rules := map (\<lambda>r. if oc_id r = ruleId then patch_condition patch r else r) (pd_rules draft)\<rparr>)"

definition removePruneRule :: "(nat \<Rightarrow> nat) \<Rightarrow> jsstring \<Rightarrow> jsstring \<Rightarrow> override_editor \<Rightarrow> override_editor" where
  "removePruneRule clock operationId ruleId = updatePruneObjectsDraft clock operationId (\<lambda>_ draft.
     draft\<lparr>pd_rules := filter (\<lambda>r. oc_id r \<noteq> ruleId) (pd_rules draft)\<rparr>)"

subsection \<open>Drag and drop\<close>

definition resetDragState :: "override_editor \<Rightarrow> override_editor" where
  "resetDragState ed = ed\<lparr>ov_dragged := [], ov_dragOver := [], ov_dragPosition := Before\<rparr>"

definition handleDragStart :: "jsstring \<Rightarrow> override_editor \<Rightarrow> override_editor" where
  "handleDragStart operationId ed = ed\<lparr>ov_dragged := operationId, ov_selected := operationId\<rparr>"

definition handleDragOver :: "jsstring \<Rightarrow> drop_position \<Rightarrow> override_editor \<Rightarrow> override_editor" where
  "handleDragOver operationId position ed =
     (if ov_dragged ed = [] \<or> ov_dragged ed = operationId then ed
      else ed\<lparr>ov_dragOver := operationId, ov_dragPosition := position\<rparr>)"

text \<open>\<open>transferred\<close> is the text of the drag event.\<close>

definition handleDrop :: "jsstring \<Rightarrow> jsstring \<Rightarrow> override_editor \<Rightarrow> override_editor" where
  "handleDrop transferred operationId ed =
     (let sourceId = (if ov_dragged ed = [] then transferred else ov_dragged ed);
          position = (if ov_dragOver ed = operationId then ov_dragPosition ed else Before)
      in resetDragState
           (if sourceId \<noteq> [] \<and> operationId \<noteq> [] \<and> sourceId \<noteq> operationId
            then (setOperations (\<lambda>ops. reorderOperations ops sourceId operationId position) ed)\<lparr>ov_selected := sourceId\<rparr>
            else ed))"

subsection \<open>Modes of the dialog\<close>

definition buildVisualJson :: "override_editor \<Rightarrow> override_message + jsstring" where
  "buildVisualJson ed =
     (if es_visualMode ed = LegacyView
      then (let trimmed = js_trim (es_legacyValue ed)
            in if trimmed = [] then Inr []
               else (case json_parse trimmed of
                       None \<Rightarrow> Inl MustBeValidJson
                     | Some (JObj kvs) \<Rightarrow> Inr (json_pretty (JObj kvs))
                     | Some _ \<Rightarrow> Inl LegacyMustBeObject))
      else (case buildOperationsJson (es_operations ed) True of Inl p \<Rightarrow> Inl (RuleProblem p) | Inr s \<Rightarrow> Inr s))"

definition switchToJsonMode :: "override_editor \<Rightarrow> override_editor" where
  "switchToJsonMode ed =
     (if es_editMode ed = JsonEdit then ed
      else (case buildVisualJson ed of
              Inr s \<Rightarrow> ed\<lparr>es_jsonText := s, es_jsonError := None, es_editMode := JsonEdit\<rparr>
            | Inl e \<Rightarrow>
                ed\<lparr>es_jsonText := (if es_visualMode ed = LegacyView then es_legacyValue ed
                                   else projr (buildOperationsJson (es_operations ed) False)),
                   es_jsonError := Some e, es_editMode := JsonEdit\<rparr>))"

datatype switch_result = Switched override_editor | Refused override_message | Thrown override_error

definition switchToVisualMode :: "(nat \<Rightarrow> nat) \<Rightarrow> override_editor \<Rightarrow> switch_result" where
  "switchToVisualMode clock ed =
     (let trimmed = js_trim (es_jsonText ed);
          fallback = createDefaultOperation clock (ov_seed ed);
          shown = (\<lambda>v legacy ops seed'. ed\<lparr>es_visualMode := v, es_legacyValue := legacy, es_operations := ops,
             ov_selected := first_id ops, es_jsonError := None, es_editMode := VisualEdit, ov_seed := seed'\<rparr>)
      in if es_editMode ed = VisualEdit then Switched ed
         else if trimmed = [] then Switched (shown OperationsView [] [fallback] (Suc (ov_seed ed)))
         else (case json_parse trimmed of
                 None \<Rightarrow> Refused MustBeValidJson
               | Some (JObj kvs) \<Rightarrow>
                   (case map_of kvs ''operations'' of
                      Some (JArr items) \<Rightarrow>
                        (case rules_or_default clock (ov_seed ed) items of
                           Inl e \<Rightarrow> Thrown e
                         | Inr (ops, seed') \<Rightarrow> Switched ((shown OperationsView [] ops seed')\<lparr>ov_template := ''operations_default''\<rparr>))
                    | _ \<Rightarrow> Switched ((shown LegacyView (json_pretty (JObj kvs)) [fallback] (Suc (ov_seed ed)))
                             \<lparr>ov_template := ''legacy_default''\<rparr>))
               | Some _ \<Rightarrow> Refused MustBeJsonObject))"

datatype fill_mode = Fill | Append

definition show_legacy :: "(nat \<Rightarrow> nat) \<Rightarrow> jsstring \<Rightarrow> override_editor \<Rightarrow> override_editor" where
  "show_legacy clock s ed = ed\<lparr>es_visualMode := LegacyView, es_legacyValue := s,
     es_operations := [createDefaultOperation clock (ov_seed ed)], es_jsonText := s, es_jsonError := None,
     es_editMode := VisualEdit, ov_seed := Suc (ov_seed ed)\<rparr>"

definition fillTemplate :: "(nat \<Rightarrow> nat) \<Rightarrow> fill_mode \<Rightarrow> override_editor \<Rightarrow> switch_result" where
  "fillTemplate clock mode ed =
     (case preset_payload (ov_template ed) of
        LegacyTemplate payload \<Rightarrow>
          if mode = Append \<and> es_visualMode ed = LegacyView
          then (let trimmed = js_trim (es_legacyValue ed)
                in if trimmed = [] then Switched (show_legacy clock (json_pretty (JObj payload)) ed)
                   else (case json_parse trimmed of
                           None \<Rightarrow> Refused LegacyJsonInvalid
                         | Some current \<Rightarrow>
                             Switched (show_legacy clock (json_pretty (JObj (obj_assign payload (spread_props current)))) ed)))
          else Switched (show_legacy clock (json_pretty (JObj payload)) ed)
      | OperationsTemplate items \<Rightarrow>
          (case normalize_operations clock (ov_seed ed) items of
             Inl e \<Rightarrow> Thrown e
           | Inr (made, seed') \<Rightarrow>
               if mode = Append
               then (let existing = (if es_visualMode ed = OperationsView
                           then filter (\<lambda>op. \<not> isOperationBlank op) (es_operations ed) else []);
                         nextOps = existing @ made
                     in Switched (ed\<lparr>es_visualMode := OperationsView, es_operations := nextOps, ov_selected := first_id nextOps,
                          es_legacyValue := [], es_jsonError := None, es_editMode := VisualEdit, es_jsonText := [], ov_seed := seed'\<rparr>))
               else (let finalOps = (if made = [] then [createDefaultOperation clock seed'] else made)
                     in Switched (ed\<lparr>es_visualMode := OperationsView, es_operations := finalOps, ov_selected := first_id finalOps,
                          es_jsonText := json_pretty (JObj [(''operations'', JArr items)]), es_jsonError := None,
                          es_editMode := VisualEdit, ov_seed := (if made = [] then Suc seed' else seed')\<rparr>))))"

definition resetEditorState :: "(nat \<Rightarrow> nat) \<Rightarrow> override_editor \<Rightarrow> override_editor" where
  "resetEditorState clock ed =
     (let fallback = createDefaultOperation clock (ov_seed ed)
      in ed\<lparr>es_visualMode := OperationsView, es_legacyValue := [], es_operations := [fallback], ov_selected := oo_id fallback,
            es_jsonText := [], es_jsonError := None, ov_template := ''operations_default'', es_editMode := VisualEdit,
            ov_seed := Suc (ov_seed ed)\<rparr>)"

subsection \<open>JSON text and saving\<close>

definition handleJsonChange :: "jsstring \<Rightarrow> override_editor \<Rightarrow> override_editor" where
  "handleJsonChange nextValue ed =
     ed\<lparr>es_jsonText := nextValue,
        es_jsonError := (let trimmed = js_trim nextValue
          in if trimmed = [] \<or> verifyJSON trimmed then None else Some JsonFormatError)\<rparr>"

definition formatJson :: "override_editor \<Rightarrow> switch_result" where
  "formatJson ed =
     (let trimmed = js_trim (es_jsonText ed)
      in if trimmed = [] then Switched ed
         else (case json_parse trimmed of
                 None \<Rightarrow> Refused MustBeValidJson
               | Some j \<Rightarrow> Switched (ed\<lparr>es_jsonText := json_pretty j, es_jsonError := None\<rparr>)))"

definition visualValidationError :: "override_editor \<Rightarrow> override_message option" where
  "visualValidationError ed =
     (if es_editMode ed \<noteq> VisualEdit then None else (case buildVisualJson ed of Inl e \<Rightarrow> Some e | Inr _ \<Rightarrow> None))"

definition handleSave :: "override_editor \<Rightarrow> override_message + jsstring" where
  "handleSave ed =
     (if es_editMode ed = JsonEdit
      then (let trimmed = js_trim (es_jsonText ed)
            in if trimmed = [] then Inr []
               else (case json_parse trimmed of None \<Rightarrow> Inl MustBeValidJson | Some j \<Rightarrow> Inr (json_pretty j)))
      else buildVisualJson ed)"

definition set_expanded :: "bool \<Rightarrow> override_editor \<Rightarrow> override_editor" where
  "set_expanded b ed =
     (case selectedOperation ed of
        None \<Rightarrow> ed
      | Some op \<Rightarrow> ed\<lparr>ov_expanded := (\<lambda>i. if i \<in> oc_id ` set (oo_conditions op) then b else ov_expanded ed i)\<rparr>)"

definition expandAllConditions :: "override_editor \<Rightarrow> override_editor" where
  "expandAllConditions = set_expanded True"

definition collapseAllConditions :: "override_editor \<Rightarrow> override_editor" where
  "collapseAllConditions = set_expanded False"

end
