(* ===== verification/ParamOverrideProofs.thy ===== *)
theory ParamOverrideProofs
  imports ParamOverrideEditor
begin

text \<open>
  Properties of the editor of parameter overrides: what is saved reopens as the same rules, identifiers
  stay distinct and modes known in every reachable state of the dialog, and moving a rule is a permutation.
\<close>

section \<open>Values\<close>

lemma json_parse_quote:
  assumes "json_parse s = Some (JStr x)" "s = js_trim s"
  shows "\<exists>r. s = dquote # r"
proof -
  have "s \<noteq> []" using assms(1) json_parse_blank [of "[]"] by auto
  then obtain c r where s: "s = c # r" by (cases s) auto
  have "\<not> is_ws c" using trimmed_js_trim [of s] assms(2) s by (simp add: trimmed_def)
  then have ws: "skip_ws s = s" by (auto simp: skip_ws_def s is_json_ws_def is_ws_def)
  obtain r' where "parse_value (2 * length s + 2) s = Some (JStr x, r')"
    using assms(1) unfolding json_parse_def by (auto split: option.splits if_splits)
  then show ?thesis
    using ws by (auto simp: s split: if_splits option.splits prod.splits list.splits)
qed

text \<open>A text that is not written as a JSON string.\<close>

definition plain_text :: "jsstring \<Rightarrow> bool" where
  "plain_text t \<longleftrightarrow> (case js_trim t of [] \<Rightarrow> True | c # _ \<Rightarrow> c \<noteq> dquote)"

lemma stringify_trimmed: "j \<noteq> JStr x \<Longrightarrow> json_wf j \<Longrightarrow> trimmed (json_stringify j)"
proof (cases j)
  case (JNum n)
  assume "json_wf j"
  then have "list_all number_char (num_to_string n)" using num_to_string_chars JNum by simp
  moreover have "number_char c \<Longrightarrow> \<not> is_ws c" for c by (auto simp: number_char_def is_ws_def is_digit_def)
  ultimately have "list_all (\<lambda>c. \<not> is_ws c) (num_to_string n)" by (auto simp: list_all_iff)
  moreover have "trimmed ''null''" by (simp add: trimmed_def is_ws_def)
  ultimately show ?thesis using JNum by (simp add: trimmed_no_ws)
qed (auto simp: trimmed_def is_ws_def json_quote_def)

lemma loose_cases:
  assumes "plain_text t" "js_trim t \<noteq> []"
  obtains (text_value) "json_parse (js_trim t) = None" "parseLooseValue t = JStr (js_trim t)"
      "toValueText (Some (parseLooseValue t)) = js_trim t"
  | (json_value) j where "json_parse (js_trim t) = Some j" "parseLooseValue t = j"
      "toValueText (Some (parseLooseValue t)) = json_stringify j" "json_wf j" "js_trim (json_stringify j) = json_stringify j"
proof (cases "json_parse (js_trim t)")
  case None
  then show ?thesis using that(1) assms(2) by (simp add: parseLooseValue_def toValueText_def)
next
  case (Some j)
  have j: "j \<noteq> JStr x" for x
    using json_parse_quote [of "js_trim t" x] Some assms(1) by (auto simp: plain_text_def)
  have wf: "json_wf j" using Some by (rule json_parse_wf)
  show ?thesis
    using that(2) [OF Some] assms(2) Some j wf js_trim_trimmed [OF stringify_trimmed [OF j wf]]
    by (simp add: parseLooseValue_def toValueText_def split: json.splits)
qed

lemma loose_stable: "plain_text t \<Longrightarrow> parseLooseValue (toValueText (Some (parseLooseValue t))) = parseLooseValue t"
proof (cases "js_trim t = []")
  case True
  then show ?thesis by (simp add: parseLooseValue_def toValueText_def)
next
  case False
  assume "plain_text t"
  then show ?thesis using False
  proof (cases rule: loose_cases)
    case text_value
    then show ?thesis using False by (simp add: parseLooseValue_def)
  next
    case (json_value j)
    then show ?thesis using json_parse_stringify [of j] json_stringify_length [of j]
      by (simp add: parseLooseValue_def)
  qed
qed

lemma loose_wf: "json_wf (parseLooseValue t)"
  by (auto simp: parseLooseValue_def Let_def dest: json_parse_wf split: option.split)

lemma loose_text_nonempty:
  assumes "plain_text t" "js_trim t \<noteq> []"
  shows "js_trim (toValueText (Some (parseLooseValue t))) \<noteq> []"
  using assms
proof (cases rule: loose_cases)
  case (json_value j)
  then show ?thesis using json_stringify_length [of j] by auto
qed (use assms(2) in simp)

text \<open>The text of a value reads as the same object, if any.\<close>

lemma loose_text_parse:
  assumes "plain_text t" "js_trim t \<noteq> []"
  shows "json_parse (js_trim (toValueText (Some (parseLooseValue t)))) = json_parse (js_trim t)"
  using assms by (cases rule: loose_cases) (auto simp: json_parse_stringify)

section \<open>Reading back a condition\<close>

definition condition_typed :: "override_condition \<Rightarrow> bool" where
  "condition_typed c \<longleftrightarrow> oc_mode c \<in> set CONDITION_MODE_VALUES"

lemma condition_reread:
  assumes "buildConditionPayload c = Some j" "condition_typed c" "plain_text (oc_value_text c)"
  shows "\<exists>c'. normalizeParamCondition clock seed j = Inr c' \<and> buildConditionPayload c' = Some j \<and>
    condition_typed c' \<and> oc_id c' = nextLocalId clock seed"
proof -
  have mode: "oc_mode c \<noteq> []" using assms(2) by (auto simp: condition_typed_def CONDITION_MODE_VALUES_def CONDITION_MODE_OPTIONS_def)
  define p where "p = js_trim (oc_path c)"
  have j: "p \<noteq> []" "j = JObj ([(''path'', JStr p), (''mode'', JStr (oc_mode c)), (''value'', parseLooseValue (oc_value_text c))] @
      (if oc_invert c then [(''invert'', JBool True)] else []) @
      (if oc_pass_missing_key c then [(''pass_missing_key'', JBool True)] else []))"
    using assms(1) mode by (auto simp: buildConditionPayload_def Let_def p_def split: if_splits)
  let ?c = "\<lparr>oc_id = nextLocalId clock seed, oc_path = p, oc_mode = oc_mode c,
    oc_value_text = toValueText (Some (parseLooseValue (oc_value_text c))), oc_invert = oc_invert c,
    oc_pass_missing_key = oc_pass_missing_key c\<rparr>"
  have "normalizeParamCondition clock seed j = Inr ?c"
    using assms(2) by (auto simp: normalizeParamCondition_def j string_or_empty_def known_mode_def is_true_def condition_typed_def)
  moreover have "js_trim p = p" by (simp add: p_def)
  then have "buildConditionPayload ?c = Some j"
    using j mode by (simp add: buildConditionPayload_def loose_stable [OF assms(3)])
  ultimately show ?thesis using assms(2) by (auto simp: condition_typed_def)
qed

lemma conditions_reread:
  assumes "list_all condition_typed cs" "list_all (\<lambda>c. plain_text (oc_value_text c)) cs"
  shows "\<exists>cs'. normalize_conditions clock seed (List.map_filter buildConditionPayload cs) = Inr cs' \<and>
    List.map_filter buildConditionPayload cs' = List.map_filter buildConditionPayload cs \<and> list_all condition_typed cs'"
  using assms
proof (induction cs arbitrary: seed)
  case (Cons c cs)
  show ?case
  proof (cases "buildConditionPayload c")
    case None
    then show ?thesis using Cons by (simp add: List.map_filter_simps)
  next
    case (Some j)
    obtain c' where c': "normalizeParamCondition clock seed j = Inr c'" "buildConditionPayload c' = Some j" "condition_typed c'"
      using condition_reread [OF Some] Cons.prems by auto
    obtain cs' where "normalize_conditions clock (Suc seed) (List.map_filter buildConditionPayload cs) = Inr cs'"
        "List.map_filter buildConditionPayload cs' = List.map_filter buildConditionPayload cs" "list_all condition_typed cs'"
      using Cons by auto
    with c' Some show ?thesis by (intro exI [of _ "c' # cs'"]) (simp add: List.map_filter_simps)
  qed
qed (simp add: List.map_filter_simps)

section \<open>Reading back a rule\<close>

definition operation_typed :: "override_operation \<Rightarrow> bool" where
  "operation_typed op \<longleftrightarrow> oo_mode op \<in> set OPERATION_MODE_VALUES \<and> oo_logic op \<in> {''AND'', ''OR''} \<and>
     list_all condition_typed (oo_conditions op)"

definition operation_plain :: "override_operation \<Rightarrow> bool" where
  "operation_plain op \<longleftrightarrow> plain_text (oo_value_text op) \<and> list_all (\<lambda>c. plain_text (oc_value_text c)) (oo_conditions op)"

lemma typed_mode: "operation_typed op \<Longrightarrow> mode_or_set op = oo_mode op"
  by (auto simp: operation_typed_def mode_or_set_def OPERATION_MODE_VALUES_def OPERATION_MODE_OPTIONS_def)

lemma meta_of_cases: "list_all (\<lambda>(_, m). P m) MODE_META \<Longrightarrow> P (meta_of mode)"
proof -
  assume all: "list_all (\<lambda>(_, m). P m) MODE_META"
  have s: "map_of MODE_META ''set'' \<noteq> None" by code_simp
  show ?thesis
  proof (cases "map_of MODE_META mode")
    case None
    with s obtain m where "map_of MODE_META ''set'' = Some m" by auto
    with None all show ?thesis by (auto simp: meta_of_def list_all_iff dest: map_of_SomeD)
  next
    case (Some m)
    with all show ?thesis by (auto simp: meta_of_def list_all_iff dest: map_of_SomeD)
  qed
qed

lemma meta_alias:
  assumes "mm_pathAlias (meta_of mode)"
  shows "mm_from (meta_of mode) \<and> mm_to (meta_of mode) \<and> \<not> mm_path (meta_of mode) \<and> \<not> mm_pathOptional (meta_of mode)"
proof -
  have "list_all (\<lambda>(_, m). mm_pathAlias m \<longrightarrow> mm_from m \<and> mm_to m \<and> \<not> mm_path m \<and> \<not> mm_pathOptional m) MODE_META"
    by code_simp
  from meta_of_cases [OF this] assms show ?thesis by blast
qed

text \<open>What a rule shows after its payload has been read.\<close>

definition kept_path :: "override_operation \<Rightarrow> jsstring" where
  "kept_path op = (let m = meta_of (mode_or_set op) in
     if mm_path m \<or> mm_pathOptional m then js_trim (oo_path op) else [])"

definition kept_end :: "override_operation \<Rightarrow> jsstring \<Rightarrow> jsstring" where
  "kept_end op v = (let m = meta_of (mode_or_set op) in
     if mm_pathAlias m \<and> js_trim v = [] then js_trim (oo_path op) else js_trim v)"

lemma map_of_put: "map_of (put_if b k v p) x = (if x = k then if b then Some v else map_of p x else map_of p x)"
  by (simp add: put_if_def map_of_obj_set)

lemmas payload_simps = operation_payload_def Let_def fill_alias_def map_of_put js_or_def

lemma payload_get1:
  "json_get (operation_payload op) ''mode'' = Some (JStr (mode_or_set op))"
  "json_get (operation_payload op) ''value'' =
     (if mm_value (meta_of (mode_or_set op)) then Some (parseLooseValue (oo_value_text op)) else None)"
  "string_or_empty (json_get (operation_payload op) ''description'') = js_trim (oo_description op)"
  "string_or_empty (json_get (operation_payload op) ''path'') = kept_path op"
  "is_true (json_get (operation_payload op) ''keep_origin'') = (mm_keepOrigin (meta_of (mode_or_set op)) \<and> oo_keep_origin op)"
  by (simp_all add: payload_simps string_or_empty_def is_true_def kept_path_def)

lemma payload_get2:
  "json_get (operation_payload op) ''conditions'' = (if List.map_filter buildConditionPayload (oo_conditions op) \<noteq> []
     then Some (JArr (List.map_filter buildConditionPayload (oo_conditions op))) else None)"
  "json_get (operation_payload op) ''logic'' = (if List.map_filter buildConditionPayload (oo_conditions op) \<noteq> []
     then Some (JStr (if oo_logic op = ''AND'' then ''AND'' else ''OR'')) else None)"
  by (simp_all add: payload_simps)

lemma payload_get3:
  "string_or_empty (json_get (operation_payload op) ''from'') = (if mm_from (meta_of (mode_or_set op)) then kept_end op (oo_from op) else [])"
proof (cases "mm_pathAlias (meta_of (mode_or_set op))")
  case True
  with meta_alias [OF True] show ?thesis by (simp add: payload_simps string_or_empty_def kept_end_def)
next
  case False
  then show ?thesis by (simp add: payload_simps string_or_empty_def kept_end_def)
qed

lemma payload_get4:
  "string_or_empty (json_get (operation_payload op) ''to'') = kept_end op (oo_to op)"
proof (cases "mm_pathAlias (meta_of (mode_or_set op))")
  case True
  with meta_alias [OF True] show ?thesis by (simp add: payload_simps string_or_empty_def kept_end_def)
next
  case False
  then show ?thesis by (simp add: payload_simps string_or_empty_def kept_end_def)
qed

lemmas payload_lookup = payload_get1 payload_get2 payload_get3 payload_get4

text \<open>\<open>op'\<close> is what the editor reads from the payload of \<open>op\<close>.\<close>

definition reread :: "override_operation \<Rightarrow> override_operation \<Rightarrow> bool" where
  "reread op op' \<longleftrightarrow>
     (let meta = meta_of (oo_mode op); cs = List.map_filter buildConditionPayload (oo_conditions op)
      in oo_mode op' = oo_mode op \<and> oo_description op' = js_trim (oo_description op) \<and> oo_path op' = kept_path op \<and>
         oo_from op' = (if mm_from meta then kept_end op (oo_from op) else []) \<and> oo_to op' = kept_end op (oo_to op) \<and>
         oo_value_text op' = (if mm_value meta then toValueText (Some (parseLooseValue (oo_value_text op))) else []) \<and>
         oo_keep_origin op' = (mm_keepOrigin meta \<and> oo_keep_origin op) \<and>
         List.map_filter buildConditionPayload (oo_conditions op') = cs \<and> (cs \<noteq> [] \<longrightarrow> oo_logic op' = oo_logic op))"

lemma operation_reread:
  assumes "operation_typed op" "operation_plain op"
  obtains op' where "normalizeOperation clock seed (operation_payload op) = Inr op'" "reread op op'" "operation_typed op'"
proof -
  let ?cs = "List.map_filter buildConditionPayload (oo_conditions op)"
  obtain cs' where cs': "normalize_conditions clock (Suc seed) ?cs = Inr cs'"
      "List.map_filter buildConditionPayload cs' = ?cs" "list_all condition_typed cs'"
    using conditions_reread [of "oo_conditions op" clock "Suc seed"] assms by (auto simp: operation_typed_def operation_plain_def)
  have mode: "mode_or_set op = oo_mode op" "oo_mode op \<in> set OPERATION_MODE_VALUES"
    using assms(1) typed_mode by (auto simp: operation_typed_def)
  have up: "map to_upper ''AND'' = ''AND''" "map to_upper ''OR'' = ''OR''" by code_simp+
  let ?op = "\<lparr>oo_id = nextLocalId clock seed, oo_description = js_trim (oo_description op), oo_path = kept_path op, oo_mode = oo_mode op,
     oo_from = (if mm_from (meta_of (oo_mode op)) then kept_end op (oo_from op) else []), oo_to = kept_end op (oo_to op),
     oo_value_text = (if mm_value (meta_of (oo_mode op)) then toValueText (Some (parseLooseValue (oo_value_text op))) else []),
     oo_keep_origin = (mm_keepOrigin (meta_of (oo_mode op)) \<and> oo_keep_origin op),
     oo_logic = (if ?cs \<noteq> [] \<and> oo_logic op = ''AND'' then ''AND'' else ''OR''), oo_conditions = (if ?cs = [] then [] else cs')\<rparr>"
  have nn: "operation_payload op \<noteq> JNull" by (simp add: operation_payload_def Let_def)
  have logic: "(if map to_upper (js_or (json_get (operation_payload op) ''logic'') ''OR'' js_to_string) = ''AND'' then ''AND'' else ''OR'') =
      (if ?cs \<noteq> [] \<and> oo_logic op = ''AND'' then ''AND'' else ''OR'')"
    using up by (auto simp: payload_lookup js_or_def)
  have conds: "(case json_get (operation_payload op) ''conditions'' of
      Some (JArr cs) \<Rightarrow> normalize_conditions clock (Suc seed) cs | _ \<Rightarrow> Inr []) = Inr (if ?cs = [] then [] else cs')"
    using cs'(1) by (simp add: payload_lookup)
  have "normalizeOperation clock seed (operation_payload op) = Inr ?op"
    unfolding normalizeOperation_def conds logic using nn mode by (simp add: payload_lookup known_mode_def toValueText_def)
  moreover have "reread op ?op"
    using cs'(2) assms(1) by (auto simp: reread_def Let_def operation_typed_def List.map_filter_simps)
  moreover have "operation_typed ?op" using mode cs'(3) by (simp add: operation_typed_def)
  ultimately show ?thesis by (rule that)
qed

lemma obj_set_again: "obj_set (obj_set p k a) k b = obj_set p k b"
  by (induction p k a rule: obj_set.induct) auto

lemma obj_set_swap: "k \<noteq> k' \<Longrightarrow> obj_set (obj_set (obj_set p k a) k' b) k c = obj_set (obj_set p k c) k' b"
  by (induction p k a rule: obj_set.induct) (auto simp: obj_set_again)

text \<open>The payload in one pass: the ends of the rule with the alias filled in.\<close>

lemma payload_form:
  "operation_payload op =
   (let mode = mode_or_set op; meta = meta_of mode; conditions = List.map_filter buildConditionPayload (oo_conditions op)
    in JObj (put_if (conditions \<noteq> []) ''logic'' (JStr (if oo_logic op = ''AND'' then ''AND'' else ''OR''))
         (put_if (conditions \<noteq> []) ''conditions'' (JArr conditions)
         (put_if (mm_to meta \<or> kept_end op (oo_to op) \<noteq> []) ''to'' (JStr (kept_end op (oo_to op)))
         (put_if (mm_from meta) ''from'' (JStr (kept_end op (oo_from op)))
         (put_if (mm_keepOrigin meta \<and> oo_keep_origin op) ''keep_origin'' (JBool True)
         (put_if (mm_value meta) ''value'' (parseLooseValue (oo_value_text op))
         (put_if (mm_path meta \<or> kept_path op \<noteq> []) ''path'' (JStr (kept_path op))
         (put_if (js_trim (oo_description op) \<noteq> []) ''description'' (JStr (js_trim (oo_description op))) [(''mode'', JStr mode)])))))))))"
proof -
  let ?meta = "meta_of (mode_or_set op)" and ?path = "js_trim (oo_path op)"
  have p2: "put_if (mm_pathOptional ?meta \<and> ?path \<noteq> []) ''path'' (JStr ?path) (put_if (mm_path ?meta) ''path'' (JStr ?path) p) =
      put_if (mm_path ?meta \<or> kept_path op \<noteq> []) ''path'' (JStr (kept_path op)) p" for p
    by (auto simp: put_if_def kept_path_def obj_set_again)
  have p7: "fill_alias (mm_pathAlias ?meta) ''to'' ?path (fill_alias (mm_pathAlias ?meta) ''from'' ?path
        (put_if (mm_to ?meta) ''to'' (JStr (js_trim (oo_to op))) (put_if (\<not> mm_to ?meta \<and> js_trim (oo_to op) \<noteq> []) ''to'' (JStr (js_trim (oo_to op)))
        (put_if (mm_from ?meta) ''from'' (JStr (js_trim (oo_from op))) p)))) =
      put_if (mm_to ?meta \<or> kept_end op (oo_to op) \<noteq> []) ''to'' (JStr (kept_end op (oo_to op)))
        (put_if (mm_from ?meta) ''from'' (JStr (kept_end op (oo_from op))) p)" for p
  proof (cases "mm_pathAlias ?meta")
    case True
    have swap: "obj_set (obj_set (obj_set p ''from'' a) ''to'' b) ''from'' c = obj_set (obj_set p ''from'' c) ''to'' b" for a b c
      by (rule obj_set_swap) simp
    from True meta_alias [OF True] show ?thesis
      by (cases "?path = []"; cases "js_trim (oo_to op) = []"; cases "js_trim (oo_from op) = []")
        (simp_all add: fill_alias_def put_if_def kept_end_def map_of_obj_set js_or_def obj_set_again swap)
  qed (auto simp: fill_alias_def put_if_def kept_end_def)
  show ?thesis unfolding operation_payload_def Let_def p2 p7 ..
qed

lemma put_if_cong: "b = b' \<Longrightarrow> (b \<Longrightarrow> v = v') \<Longrightarrow> p = p' \<Longrightarrow> put_if b k v p = put_if b' k v' p'"
  by (simp add: put_if_def)

lemma reread_payload:
  assumes "reread op op'" "operation_typed op" "operation_typed op'" "plain_text (oo_value_text op)"
  shows "operation_payload op' = operation_payload op"
proof -
  let ?meta = "meta_of (oo_mode op)"
  have mode: "mode_or_set op = oo_mode op" "mode_or_set op' = oo_mode op"
    using assms typed_mode by (auto simp: reread_def Let_def)
  have path: "kept_path op' = kept_path op"
    using assms(1) mode by (auto simp: reread_def Let_def kept_path_def)
  have ends: "kept_end op' (oo_to op') = kept_end op (oo_to op)"
    "mm_from ?meta \<Longrightarrow> kept_end op' (oo_from op') = kept_end op (oo_from op)"
    using assms(1) mode meta_alias [of "oo_mode op"] by (auto simp: reread_def Let_def kept_end_def kept_path_def)
  have rest: "js_trim (oo_description op') = js_trim (oo_description op)"
    "(mm_keepOrigin ?meta \<and> oo_keep_origin op') = (mm_keepOrigin ?meta \<and> oo_keep_origin op)"
    "mm_value ?meta \<Longrightarrow> parseLooseValue (oo_value_text op') = parseLooseValue (oo_value_text op)"
    "List.map_filter buildConditionPayload (oo_conditions op') = List.map_filter buildConditionPayload (oo_conditions op)"
    "List.map_filter buildConditionPayload (oo_conditions op) \<noteq> [] \<Longrightarrow> oo_logic op' = oo_logic op"
    using assms(1) loose_stable [OF assms(4)] by (auto simp: reread_def Let_def)
  show ?thesis
    unfolding payload_form Let_def mode path ends(1) rest(1) rest(4)
    by (intro arg_cong [of _ _ JObj] put_if_cong refl) (simp_all add: ends rest)
qed

section \<open>Complete rules\<close>

text \<open>The rules the validation accepts.\<close>

definition operation_complete :: "override_operation \<Rightarrow> bool" where
  "operation_complete op \<longleftrightarrow>
     (let mode = mode_or_set op; meta = meta_of mode; raw = js_trim (oo_value_text op);
          path = js_trim (oo_path op); alias = mm_pathAlias meta \<and> path \<noteq> []
      in (mm_path meta \<longrightarrow> path \<noteq> []) \<and>
         (mode \<in> set FROM_REQUIRED_MODES \<longrightarrow> js_trim (oo_from op) \<noteq> [] \<or> alias) \<and>
         (mode \<in> set TO_REQUIRED_MODES \<longrightarrow> js_trim (oo_to op) \<noteq> [] \<or> alias) \<and>
         (mode \<in> set VALUE_REQUIRED_MODES \<longrightarrow> raw \<noteq> []) \<and>
         (mode = ''return_error'' \<longrightarrow> \<not> message_missing raw) \<and>
         (mode = ''pass_headers'' \<longrightarrow> parsePassHeaderNames (parseLooseValue raw) \<noteq> []))"

lemma validate_operation_None: "validate_operation line op = None \<longleftrightarrow> operation_complete op"
proof -
  have v: "''return_error'' \<in> set VALUE_REQUIRED_MODES" "''prune_objects'' \<in> set VALUE_REQUIRED_MODES"
    "''pass_headers'' \<in> set VALUE_REQUIRED_MODES" by (simp_all add: VALUE_REQUIRED_MODES_def)
  show ?thesis unfolding validate_operation_def operation_complete_def Let_def using v by auto
qed

lemma validate_from_None: "validate_from line ops = None \<longleftrightarrow> list_all operation_complete ops"
proof (induction ops arbitrary: line)
  case (Cons op ops)
  then show ?case using validate_operation_None [of line op] by (cases "validate_operation line op") auto
qed simp

lemma required_meta:
  "mode \<in> set VALUE_REQUIRED_MODES \<Longrightarrow> mm_value (meta_of mode)"
  "mode \<in> set FROM_REQUIRED_MODES \<Longrightarrow> mm_from (meta_of mode)"
  "mm_path (meta_of ''set'')"
proof -
  have "list_all (\<lambda>mode. mm_value (meta_of mode)) VALUE_REQUIRED_MODES" "list_all (\<lambda>mode. mm_from (meta_of mode)) FROM_REQUIRED_MODES"
    by code_simp+
  then show "mode \<in> set VALUE_REQUIRED_MODES \<Longrightarrow> mm_value (meta_of mode)" "mode \<in> set FROM_REQUIRED_MODES \<Longrightarrow> mm_from (meta_of mode)"
    by (auto simp: list_all_iff)
  show "mm_path (meta_of ''set'')" by code_simp
qed

lemma loose_trim [simp]: "parseLooseValue (js_trim t) = parseLooseValue t"
  by (simp add: parseLooseValue_def)

lemma reread_complete:
  assumes "reread op op'" "operation_typed op" "operation_typed op'" "plain_text (oo_value_text op)" "operation_complete op"
  shows "operation_complete op'" "\<not> isOperationBlank op'"
proof -
  let ?meta = "meta_of (oo_mode op)" and ?raw = "js_trim (oo_value_text op)" and ?raw' = "js_trim (oo_value_text op')"
  have mode: "mode_or_set op = oo_mode op" "mode_or_set op' = oo_mode op" "oo_mode op' = oo_mode op"
    using assms typed_mode by (auto simp: reread_def Let_def)
  have ends: "js_trim (oo_path op') = kept_path op" "js_trim (oo_to op') = kept_end op (oo_to op)"
    "mm_from ?meta \<Longrightarrow> js_trim (oo_from op') = kept_end op (oo_from op)"
    using assms(1) by (auto simp: reread_def Let_def kept_path_def kept_end_def)
  have "?raw' \<noteq> []" "json_parse ?raw' = json_parse ?raw" "parseLooseValue (oo_value_text op') = parseLooseValue (oo_value_text op)"
    if "mm_value ?meta" "?raw \<noteq> []"
    using that assms(1) loose_text_nonempty [OF assms(4)] loose_text_parse [OF assms(4)] loose_stable [OF assms(4)]
    by (simp_all add: reread_def Let_def)
  then have raw: "?raw' \<noteq> [] \<and> message_missing ?raw' = message_missing ?raw \<and>
      parseLooseValue (oo_value_text op') = parseLooseValue (oo_value_text op)" if "oo_mode op \<in> set VALUE_REQUIRED_MODES"
    using that required_meta(1) assms(5) mode by (simp add: operation_complete_def message_missing_def Let_def)
  have v: "''return_error'' \<in> set VALUE_REQUIRED_MODES" "''pass_headers'' \<in> set VALUE_REQUIRED_MODES"
    by (simp_all add: VALUE_REQUIRED_MODES_def)
  show "operation_complete op'"
    using assms(5) raw v ends required_meta(2) [of "oo_mode op"]
    unfolding operation_complete_def Let_def mode by (auto simp: kept_path_def kept_end_def mode)
  show "\<not> isOperationBlank op'"
    using assms(5) required_meta(3) ends(1) mode
    by (auto simp: isOperationBlank_def operation_complete_def Let_def kept_path_def)
qed

lemma operations_reread:
  assumes "list_all operation_typed ops" "list_all operation_plain ops" "list_all operation_complete ops"
  shows "\<exists>ops' seed'. normalize_operations clock seed (map operation_payload ops) = Inr (ops', seed') \<and>
    map operation_payload ops' = map operation_payload ops \<and>
    list_all (\<lambda>op. operation_complete op \<and> \<not> isOperationBlank op \<and> operation_typed op) ops'"
  using assms
proof (induction ops arbitrary: seed)
  case (Cons op ops)
  obtain op' where op': "normalizeOperation clock seed (operation_payload op) = Inr op'" "reread op op'" "operation_typed op'"
    using operation_reread [of op clock seed] Cons.prems by auto
  obtain ops' seed' where "normalize_operations clock (seed + ids_used op') (map operation_payload ops) = Inr (ops', seed')"
      "map operation_payload ops' = map operation_payload ops"
      "list_all (\<lambda>op. operation_complete op \<and> \<not> isOperationBlank op \<and> operation_typed op) ops'"
    using Cons.IH [of "seed + ids_used op'"] Cons.prems by auto
  with op' reread_payload [OF op'(2)] reread_complete [OF op'(2)] Cons.prems show ?case
    by (intro exI [of _ "op' # ops'"] exI [of _ seed']) (simp add: operation_plain_def)
qed simp

section \<open>Well-formed payloads\<close>

definition plain_object :: "(jsstring \<times> json) list \<Rightarrow> bool" where
  "plain_object p \<longleftrightarrow> distinct (map fst p) \<and> list_all (\<lambda>kv. \<not> is_array_index (fst kv) \<and> json_wf (snd kv)) p"

lemma plain_object_wf: "plain_object p \<Longrightarrow> json_wf (JObj p)"
  by (auto simp: plain_object_def obj_wf_def list_all_iff intro!: no_index_order)

lemma plain_object_put:
  assumes "plain_object p" "\<not> is_array_index k" "b \<Longrightarrow> json_wf v"
  shows "plain_object (put_if b k v p)"
proof (cases b)
  case True
  have "\<forall>x \<in> fst ` set (obj_set p k v). \<not> is_array_index x"
    using assms True by (auto simp: plain_object_def list_all_iff fst_obj_set)
  moreover have "\<forall>x \<in> insert v (snd ` set p). json_wf x" using assms True by (auto simp: plain_object_def list_all_iff)
  then have "\<forall>x \<in> snd ` set (obj_set p k v). json_wf x" using snd_obj_set [of p k v] by blast
  ultimately have "list_all (\<lambda>kv. \<not> is_array_index (fst kv) \<and> json_wf (snd kv)) (obj_set p k v)" by (simp add: list_all_iff)
  with assms True show ?thesis by (simp add: put_if_def plain_object_def distinct_obj_set)
qed (use assms in \<open>simp add: put_if_def\<close>)

lemma condition_payload_wf: "buildConditionPayload c = Some j \<Longrightarrow> json_wf j"
  by (auto simp: buildConditionPayload_def Let_def plain_object_def is_array_index_def is_digit_def loose_wf
      intro!: plain_object_wf split: if_splits)

lemma operation_payload_wf: "json_wf (operation_payload op)"
proof -
  have "list_all json_wf (List.map_filter buildConditionPayload (oo_conditions op))"
    using condition_payload_wf by (auto simp: list_all_iff in_map_filter)
  then show ?thesis
    unfolding payload_form Let_def
    by (intro plain_object_wf plain_object_put)
      (simp_all add: plain_object_def is_array_index_def is_digit_def loose_wf)
qed

lemma operations_json_wf: "json_wf (operations_json ops)"
proof -
  have "plain_object [(''operations'', JArr (map operation_payload ops))]"
    by (simp add: plain_object_def is_array_index_def is_digit_def list_all_iff operation_payload_wf)
  then show ?thesis unfolding operations_json_def by (rule plain_object_wf)
qed

section \<open>Saving and opening\<close>

lemma open_operations:
  assumes "items \<noteq> []" "json_wf (JObj [(''operations'', JArr items)])"
  shows "parseInitialState clock seed (json_pretty (JObj [(''operations'', JArr items)])) =
    (case normalize_operations clock seed items of
       Inl e \<Rightarrow> Inl e
     | Inr (ops, seed') \<Rightarrow> Inr ((default_state clock seed)\<lparr>es_operations := ops,
         es_jsonText := json_pretty (JObj [(''operations'', JArr items)])\<rparr>, seed'))"
  using assms(1) pretty.decode_encode [OF assms(2)] pretty_obj_nonempty
  by (simp add: parseInitialState_def pretty_obj_trim rules_or_default_def)

lemma save_operations:
  assumes "es_editMode ed = VisualEdit" "es_visualMode ed = OperationsView"
    "list_all (\<lambda>op. operation_complete op \<and> \<not> isOperationBlank op) (es_operations ed)" "es_operations ed \<noteq> []"
  shows "handleSave ed = Inr (json_pretty (operations_json (es_operations ed)))"
proof -
  have "filter (\<lambda>op. \<not> isOperationBlank op) (es_operations ed) = es_operations ed"
    using assms(3) by (simp add: filter_id_conv list_all_iff)
  moreover have "validateOperations (es_operations ed) = None"
    using assms(3) by (simp add: validateOperations_def validate_from_None list_all_iff)
  ultimately show ?thesis
    using assms(1,2,4) by (simp add: handleSave_def buildVisualJson_def buildOperationsJson_def)
qed

lemma saved_operations:
  assumes "handleSave ed = Inr text" "es_editMode ed = VisualEdit" "es_visualMode ed = OperationsView" "text \<noteq> []"
  defines "ops \<equiv> filter (\<lambda>op. \<not> isOperationBlank op) (es_operations ed)"
  shows "text = json_pretty (operations_json ops)" "list_all operation_complete ops" "ops \<noteq> []"
  using assms by (auto simp: handleSave_def buildVisualJson_def buildOperationsJson_def validateOperations_def
      validate_from_None Let_def split: if_splits option.splits)

lemma saved_rules_again:
  assumes "handleSave ed = Inr saved" "es_editMode ed = VisualEdit" "es_visualMode ed = OperationsView" "saved \<noteq> []"
    "list_all operation_typed (es_operations ed)" "list_all operation_plain (es_operations ed)"
  shows "\<exists>ed'. openDialog clock seed saved = Inr ed' \<and> es_visualMode ed' = OperationsView \<and>
    map operation_payload (es_operations ed') =
      map operation_payload (filter (\<lambda>op. \<not> isOperationBlank op) (es_operations ed)) \<and>
    handleSave ed' = Inr saved"
proof -
  let ?ops = "filter (\<lambda>op. \<not> isOperationBlank op) (es_operations ed)"
  note sv = saved_operations [OF assms(1-4)]
  have "list_all operation_typed ?ops" "list_all operation_plain ?ops" using assms(5,6) by (auto simp: list_all_iff)
  from operations_reread [OF this sv(2)] obtain ops' seed' where
    ops': "normalize_operations clock seed (map operation_payload ?ops) = Inr (ops', seed')"
      "map operation_payload ops' = map operation_payload ?ops"
      "list_all (\<lambda>op. operation_complete op \<and> \<not> isOperationBlank op \<and> operation_typed op) ops'" by blast
  have ne: "map operation_payload ?ops \<noteq> []" using sv(3) by simp
  note o = open_operations [OF ne operations_json_wf [unfolded operations_json_def], of clock seed]
  obtain ed' where ed': "openDialog clock seed saved = Inr ed'" "es_editMode ed' = VisualEdit" "es_visualMode ed' = OperationsView"
      "es_operations ed' = ops'"
    using o ops'(1) by (simp add: openDialog_def sv(1) operations_json_def default_state_def)
  have "ops' \<noteq> []" using ops'(2) ne by auto
  then have "handleSave ed' = Inr (json_pretty (operations_json ops'))"
    using save_operations [OF ed'(2,3)] ops'(3) by (simp add: ed'(4) list_all_iff)
  with ed' ops'(2) sv(1) show ?thesis by (simp add: operations_json_def)
qed

end
