(* ===== verification/ParamOverrideSession.thy ===== *)
theory ParamOverrideSession
  imports ParamOverrideProofs
begin

text \<open>
  Sessions of the editor of parameter overrides: the dialog as a step relation, its invariant, moving
  rules by drag and drop, and the edits of prune rules.
\<close>

section \<open>Identifiers\<close>

text \<open>The contract of the identifiers: different calls give different identifiers.\<close>

locale id_supply =
  fixes fresh :: "nat \<Rightarrow> 'i"
  assumes fresh_inj: "fresh m = fresh n \<Longrightarrow> m = n"
begin

definition below :: "nat \<Rightarrow> 'i list \<Rightarrow> bool" where
  "below seed xs \<longleftrightarrow> distinct xs \<and> set xs \<subseteq> fresh ` {..<seed}"

definition batch :: "nat \<Rightarrow> nat \<Rightarrow> 'i list" where
  "batch seed seed' = map fresh [seed..<seed']"

lemma batch_below: "seed \<le> seed' \<Longrightarrow> below seed' (batch seed seed')"
  by (auto simp: below_def batch_def distinct_map inj_on_def dest: fresh_inj)

lemma below_mono: "below seed xs \<Longrightarrow> seed \<le> seed' \<Longrightarrow> below seed' xs"
  by (fastforce simp: below_def)

lemma below_mset:
  assumes "below seed xs" "mset ys \<subseteq># mset xs"
  shows "below seed ys"
proof -
  obtain zs where "mset xs = mset (ys @ zs)" by (metis assms(2) ex_mset mset_append subset_mset.le_iff_add)
  then have "distinct xs = distinct (ys @ zs)" "set xs = set (ys @ zs)"
    by (rule mset_eq_imp_distinct_iff, rule mset_eq_setD)
  with assms(1) show ?thesis by (auto simp: below_def)
qed

lemma batch_Cons: "seed < seed' \<Longrightarrow> batch seed seed' = fresh seed # batch (Suc seed) seed'"
  by (simp add: batch_def upt_conv_Cons)

lemma batch_append: "a \<le> b \<Longrightarrow> b \<le> c \<Longrightarrow> batch a b @ batch b c = batch a c"
  using upt_add_eq_append [of a b "c - b"] by (simp add: batch_def flip: map_append)

lemma below_add: "below seed xs \<Longrightarrow> seed \<le> seed' \<Longrightarrow> below seed' (xs @ batch seed seed')"
  by (fastforce simp: below_def batch_def distinct_map inj_on_def dest: fresh_inj)

end

lemma digits_sep:
  "list_all is_digit x \<Longrightarrow> list_all is_digit y \<Longrightarrow> \<not> is_digit c \<Longrightarrow> x @ c # u = y @ c # v \<longleftrightarrow> x = y \<and> u = v"
proof (induction x arbitrary: y)
  case Nil
  then show ?case by (cases y) auto
next
  case (Cons a x)
  then show ?case by (cases y) auto
qed

interpretation local_ids: id_supply "nextLocalId clock" for clock
proof unfold_locales
  fix m n
  assume "nextLocalId clock m = nextLocalId clock n"
  then show "m = n" using digits_sep [of "show_nat (clock m)" "show_nat (clock n)" "CHR ''_''" "show_nat m" "show_nat n"]
    by (simp add: nextLocalId_def show_nat_props is_digit_def)
qed

section \<open>Rules\<close>

definition op_ids :: "override_operation \<Rightarrow> jsstring list" where
  "op_ids op = oo_id op # map oc_id (oo_conditions op)"

definition all_ids :: "override_operation list \<Rightarrow> jsstring list" where
  "all_ids ops = concat (map op_ids ops)"

definition rules_ok :: "(nat \<Rightarrow> nat) \<Rightarrow> nat \<Rightarrow> override_operation list \<Rightarrow> bool" where
  "rules_ok clock seed ops \<longleftrightarrow> ops \<noteq> [] \<and> list_all operation_typed ops \<and> local_ids.below clock seed (all_ids ops)"

lemma known_mode_in: "d \<in> set modes \<Longrightarrow> known_mode modes d v \<in> set modes"
  by (auto simp: known_mode_def split: option.split json.split)

lemma default_modes: "''full'' \<in> set CONDITION_MODE_VALUES" "''set'' \<in> set OPERATION_MODE_VALUES"
  by (simp_all add: CONDITION_MODE_VALUES_def CONDITION_MODE_OPTIONS_def OPERATION_MODE_VALUES_def OPERATION_MODE_OPTIONS_def)

lemma normalize_condition_ok:
  "normalizeParamCondition clock seed j = Inr c \<Longrightarrow> condition_typed c \<and> oc_id c = nextLocalId clock seed"
  by (auto simp: normalizeParamCondition_def condition_typed_def known_mode_in default_modes split: if_splits)

lemma normalize_conditions_ok:
  "normalize_conditions clock seed js = Inr cs \<Longrightarrow>
   list_all condition_typed cs \<and> map oc_id cs = local_ids.batch clock seed (seed + length cs)"
proof (induction js arbitrary: seed cs)
  case (Cons j js)
  then obtain c cs' where c: "normalizeParamCondition clock seed j = Inr c" "normalize_conditions clock (Suc seed) js = Inr cs'" "cs = c # cs'"
    by (auto split: sum.splits)
  with Cons.IH [OF c(2)] normalize_condition_ok [OF c(1)] show ?case
    by (simp add: local_ids.batch_Cons)
qed (simp add: local_ids.batch_def)

lemma normalize_operation_ok:
  assumes "normalizeOperation clock seed j = Inr op"
  shows "operation_typed op" "op_ids op = local_ids.batch clock seed (seed + ids_used op)"
proof -
  obtain cs where cs: "oo_conditions op = cs" "list_all condition_typed cs \<and> map oc_id cs = local_ids.batch clock (Suc seed) (Suc seed + length cs)"
      "oo_id op = nextLocalId clock seed" "oo_mode op \<in> set OPERATION_MODE_VALUES" "oo_logic op \<in> {''AND'', ''OR''}"
    using assms by (auto simp: normalizeOperation_def known_mode_in default_modes local_ids.batch_def dest: normalize_conditions_ok
        split: if_splits sum.splits option.splits json.splits)
  then show "operation_typed op" by (simp add: operation_typed_def)
  show "op_ids op = local_ids.batch clock seed (seed + ids_used op)"
    using cs by (simp add: op_ids_def ids_used_def local_ids.batch_Cons)
qed

lemma normalize_operations_ok:
  "normalize_operations clock seed js = Inr (ops, seed') \<Longrightarrow>
   list_all operation_typed ops \<and> seed \<le> seed' \<and> all_ids ops = local_ids.batch clock seed seed' \<and> length ops = length js"
proof (induction js arbitrary: seed ops)
  case (Cons j js)
  then obtain op ops' where op: "normalizeOperation clock seed j = Inr op" "ops = op # ops'"
      "normalize_operations clock (seed + ids_used op) js = Inr (ops', seed')"
    by (auto split: sum.splits)
  with Cons.IH [OF op(3)] normalize_operation_ok [OF op(1)] show ?case
    by (simp add: all_ids_def local_ids.batch_append)
qed (simp add: all_ids_def local_ids.batch_def)

lemma created_operation:
  "\<exists>op. normalizeOperation clock seed (JObj [(''mode'', JStr ''set'')]) = Inr op \<and> createDefaultOperation clock seed = op \<and> ids_used op = 1"
  by (simp add: createDefaultOperation_def normalizeOperation_def ids_used_def)

lemma created_ok:
  "operation_typed (createDefaultOperation clock seed)"
  "op_ids (createDefaultOperation clock seed) = local_ids.batch clock seed (Suc seed)"
  using created_operation [of clock seed] normalize_operation_ok by fastforce+

lemma created_rules: "rules_ok clock (Suc seed) [createDefaultOperation clock seed]"
  using local_ids.batch_below [of seed "Suc seed" clock] by (simp add: rules_ok_def all_ids_def created_ok)

lemma created_condition_ok:
  "condition_typed (createDefaultCondition clock seed)" "oc_id (createDefaultCondition clock seed) = nextLocalId clock seed"
  by (simp_all add: createDefaultCondition_def normalizeParamCondition_def condition_typed_def known_mode_def default_modes)

lemma rules_or_default_ok: "rules_or_default clock seed items = Inr (ops, seed') \<Longrightarrow> rules_ok clock seed' ops \<and> seed \<le> seed'"
proof (cases "items = []")
  case False
  assume "rules_or_default clock seed items = Inr (ops, seed')"
  with False normalize_operations_ok [of clock seed items ops seed'] show ?thesis
    by (auto simp: rules_or_default_def rules_ok_def local_ids.batch_below)
qed (auto simp: rules_or_default_def created_rules)

lemma clone_condition_list:
  "\<forall>j \<in> set js. j \<noteq> JNull \<Longrightarrow> \<exists>cs. normalize_conditions clock seed js = Inr cs"
proof (induction js arbitrary: seed)
  case (Cons j js)
  then obtain cs where "normalize_conditions clock (Suc seed) js = Inr cs" by (metis list.set_intros(2))
  with Cons.prems show ?case by (simp add: normalizeParamCondition_def)
qed simp

lemma clone_operation: "\<exists>op. normalizeOperation clock seed (clone_json source) = Inr op"
proof -
  let ?js = "map (\<lambda>c. JObj [(''path'', JStr (oc_path c)), (''mode'', JStr (oc_mode c)),
          (''value'', parseLooseValue (oc_value_text c)), (''invert'', JBool (oc_invert c)),
          (''pass_missing_key'', JBool (oc_pass_missing_key c))]) (oo_conditions source)"
  have "\<forall>j \<in> set ?js. j \<noteq> JNull" by auto
  from clone_condition_list [OF this, of clock "Suc seed"] obtain cs where "normalize_conditions clock (Suc seed) ?js = Inr cs" ..
  then show ?thesis by (simp add: normalizeOperation_def clone_json_def)
qed

section \<open>Changes of the rules\<close>

lemma rules_ok_mono: "rules_ok clock seed ops \<Longrightarrow> seed \<le> seed' \<Longrightarrow> rules_ok clock seed' ops"
  by (auto simp: rules_ok_def intro: local_ids.below_mono)

lemma rules_ok_insert:
  assumes "rules_ok clock seed (xs @ ys)" "operation_typed op" "op_ids op = local_ids.batch clock seed (seed + ids_used op)"
  shows "rules_ok clock (seed + ids_used op) (xs @ op # ys)"
proof -
  have "local_ids.below clock (seed + ids_used op) (all_ids (xs @ ys) @ op_ids op)"
    using assms local_ids.below_add [of clock seed "all_ids (xs @ ys)" "seed + ids_used op"] by (simp add: rules_ok_def)
  then have "local_ids.below clock (seed + ids_used op) (all_ids (xs @ op # ys))"
    by (rule local_ids.below_mset) (simp add: all_ids_def)
  with assms show ?thesis by (simp add: rules_ok_def)
qed

lemma rules_ok_subset:
  assumes "rules_ok clock seed ops" "mset ops' \<subseteq># mset ops" "ops' \<noteq> []"
  shows "rules_ok clock seed ops'"
proof -
  obtain zs where z: "mset ops = mset (ops' @ zs)" by (metis assms(2) ex_mset mset_append subset_mset.le_iff_add)
  have m: "mset (all_ids xs) = \<Sum>\<^sub># (image_mset (\<lambda>op. mset (op_ids op)) (mset xs))" for xs
    by (induction xs) (simp_all add: all_ids_def)
  have "mset (all_ids ops) = mset (all_ids (ops' @ zs))" by (simp only: m z)
  then have "mset (all_ids ops') \<subseteq># mset (all_ids ops)" by (simp add: all_ids_def)
  moreover have "set ops' \<subseteq> set ops" using mset_eq_setD [OF z] by auto
  ultimately show ?thesis
    using assms local_ids.below_mset [of clock seed "all_ids ops" "all_ids ops'"] by (auto simp: rules_ok_def list_all_iff)
qed

lemma rules_ok_update:
  assumes "rules_ok clock seed ops" "\<And>op. operation_typed op \<Longrightarrow> operation_typed (f op)"
    "\<And>op. mset (op_ids (f op)) \<subseteq># mset (op_ids op)"
  shows "rules_ok clock seed (update_by_id i f ops)"
proof -
  have "mset (all_ids (update_by_id i f ops)) \<subseteq># mset (all_ids ops)"
    by (induction ops) (auto simp: all_ids_def update_by_id_def assms(3) intro: subset_mset.add_mono)
  then show ?thesis using assms(1,2) local_ids.below_mset [of clock seed "all_ids ops"]
    by (auto simp: rules_ok_def update_by_id_def list_all_iff)
qed

lemma rules_ok_condition:
  assumes "rules_ok clock seed ops"
  defines "c \<equiv> createDefaultCondition clock seed"
  shows "rules_ok clock (Suc seed) (update_by_id i (\<lambda>op. op\<lparr>oo_conditions := oo_conditions op @ [c]\<rparr>) ops)"
proof -
  let ?f = "\<lambda>op. op\<lparr>oo_conditions := oo_conditions op @ [c]\<rparr>"
  have id: "oc_id c = nextLocalId clock seed" "condition_typed c" by (simp_all add: c_def created_condition_ok)
  have sub: "distinct (all_ids ops) \<Longrightarrow> mset (all_ids (update_by_id i ?f ops)) \<subseteq># mset (all_ids ops @ [oc_id c])"
  proof (induction ops)
    case (Cons op ops)
    show ?case
    proof (cases "oo_id op = i")
      case True
      then have "i \<notin> set (all_ids ops)" using Cons.prems by (auto simp: all_ids_def op_ids_def)
      then have "\<forall>o' \<in> set ops. oo_id o' \<noteq> i" by (auto simp: all_ids_def op_ids_def)
      then have "update_by_id i ?f ops = ops" by (simp add: update_by_id_def map_idI)
      with True show ?thesis by (simp add: update_by_id_def all_ids_def op_ids_def)
    next
      case False
      with Cons show ?thesis by (simp add: update_by_id_def all_ids_def)
    qed
  qed (simp add: update_by_id_def)
  have "local_ids.below clock (Suc seed) (all_ids ops @ [oc_id c])"
    using local_ids.below_add [of clock seed "all_ids ops" "Suc seed"] assms(1)
    by (simp add: rules_ok_def local_ids.batch_def id)
  moreover have "distinct (all_ids ops)" using assms(1) by (simp add: rules_ok_def local_ids.below_def)
  ultimately have "local_ids.below clock (Suc seed) (all_ids (update_by_id i ?f ops))"
    using sub local_ids.below_mset by blast
  then show ?thesis using assms(1) id by (auto simp: rules_ok_def update_by_id_def list_all_iff operation_typed_def)
qed

section \<open>Moving a rule\<close>

lemma find_index_Some:
  "find_index P xs = Some i \<Longrightarrow> \<exists>a x b. xs = a @ x # b \<and> length a = i \<and> P x \<and> (\<forall>y \<in> set a. \<not> P y)"
proof (induction xs arbitrary: i)
  case (Cons x xs)
  show ?case
  proof (cases "P x")
    case True
    with Cons.prems show ?thesis by (intro exI [of _ "[]"]) auto
  next
    case False
    with Cons obtain j a y b where "i = Suc j" "xs = a @ y # b" "length a = j" "P y" "\<forall>z \<in> set a. \<not> P z" by fastforce
    with False show ?thesis by (intro exI [of _ "x # a"]) auto
  qed
qed simp

lemma find_index_None: "find_index P xs = None \<longleftrightarrow> (\<forall>x \<in> set xs. \<not> P x)"
  by (induction xs) auto

lemma reorder_parts:
  assumes "sourceId \<noteq> []" "targetId \<noteq> []" "sourceId \<noteq> targetId" "sourceId \<in> oo_id ` set ops" "targetId \<in> oo_id ` set ops"
  obtains a s b c t d where "ops = a @ s # b" "oo_id s = sourceId" "a @ b = c @ t # d" "oo_id t = targetId"
    "reorderOperations ops sourceId targetId position = c @ (case position of Before \<Rightarrow> [s, t] | After \<Rightarrow> [t, s]) @ d"
proof -
  obtain i where i: "find_index (\<lambda>o'. oo_id o' = sourceId) ops = Some i"
    using assms(4) by (cases "find_index (\<lambda>o'. oo_id o' = sourceId) ops") (auto simp: find_index_None)
  then obtain a s b where s: "ops = a @ s # b" "length a = i" "oo_id s = sourceId" using find_index_Some by blast
  have "targetId \<in> oo_id ` set (a @ b)" using assms(3,5) s by auto
  then obtain k where k: "find_index (\<lambda>o'. oo_id o' = targetId) (a @ b) = Some k"
    by (cases "find_index (\<lambda>o'. oo_id o' = targetId) (a @ b)") (auto simp: find_index_None)
  then obtain c t d where t: "a @ b = c @ t # d" "length c = k" "oo_id t = targetId" using find_index_Some by blast
  have nx: "take i ops @ drop (Suc i) ops = a @ b" "ops ! i = s" using s by auto
  have "reorderOperations ops sourceId targetId position = c @ (case position of Before \<Rightarrow> [s, t] | After \<Rightarrow> [t, s]) @ d"
    using assms(1-3) i k t by (simp add: reorderOperations_def nx Let_def split: drop_position.split)
  with s t show ?thesis by (intro that)
qed

lemma reorder_mset: "mset (reorderOperations ops sourceId targetId position) = mset ops"
proof (cases "sourceId \<noteq> [] \<and> targetId \<noteq> [] \<and> sourceId \<noteq> targetId \<and> sourceId \<in> oo_id ` set ops \<and> targetId \<in> oo_id ` set ops")
  case True
  then obtain a s b c t d where p: "ops = a @ s # b" "a @ b = c @ t # d"
      "reorderOperations ops sourceId targetId position = c @ (case position of Before \<Rightarrow> [s, t] | After \<Rightarrow> [t, s]) @ d"
    using reorder_parts [of sourceId targetId ops position] by metis
  have "mset a + mset b = mset c + mset d + {#t#}" using arg_cong [OF p(2), of mset] by simp
  then show ?thesis unfolding p(3) by (simp add: p(1) split: drop_position.split)
next
  case False
  have "find_index (\<lambda>o'. oo_id o' = targetId) (take i ops @ drop (Suc i) ops) = None" if "targetId \<notin> oo_id ` set ops" for i
    using that by (auto simp: find_index_None dest: in_set_takeD in_set_dropD)
  moreover have "find_index (\<lambda>o'. oo_id o' = sourceId) ops = None" if "sourceId \<notin> oo_id ` set ops"
    using that by (auto simp: find_index_None)
  ultimately show ?thesis using False by (auto simp: reorderOperations_def Let_def split: option.split)
qed

text \<open>
  Dropping a rule on another one moves exactly that rule: the list is a permutation, the other rules keep
  their order, and the moved rule stands directly before or after the target.
\<close>

theorem drop_moves_one_rule:
  fixes position :: drop_position
  assumes "sourceId \<noteq> []" "targetId \<noteq> []" "sourceId \<noteq> targetId"
    "sourceId \<in> oo_id ` set ops" "targetId \<in> oo_id ` set ops"
  defines "r \<equiv> reorderOperations ops sourceId targetId position"
  shows "mset r = mset ops \<and> filter (\<lambda>op. oo_id op \<noteq> sourceId) r = filter (\<lambda>op. oo_id op \<noteq> sourceId) ops \<and>
    (\<exists>a s t b. oo_id s = sourceId \<and> oo_id t = targetId \<and> r = a @ (case position of Before \<Rightarrow> [s, t] | After \<Rightarrow> [t, s]) @ b)"
proof -
  obtain a s b c t d where p: "ops = a @ s # b" "oo_id s = sourceId" "a @ b = c @ t # d" "oo_id t = targetId"
      "r = c @ (case position of Before \<Rightarrow> [s, t] | After \<Rightarrow> [t, s]) @ d"
    using reorder_parts [OF assms(1-5)] unfolding r_def by metis
  let ?P = "\<lambda>op. oo_id op \<noteq> sourceId"
  have "filter ?P r = filter ?P (c @ t # d)"
    unfolding p(5) using p(2) by (simp split: drop_position.split)
  also have "\<dots> = filter ?P (a @ b)" by (simp only: p(3))
  also have "\<dots> = filter ?P ops" using p(1,2) by simp
  finally show ?thesis using reorder_mset [of ops sourceId targetId position] p(2,4,5) unfolding r_def by blast
qed

section \<open>Sessions\<close>

text \<open>The values the selections of the view offer.\<close>

fun patch_offered :: "operation_patch \<Rightarrow> bool" where
  "patch_offered (PatchMode v) \<longleftrightarrow> v \<in> set OPERATION_MODE_VALUES"
| "patch_offered (PatchLogic v) \<longleftrightarrow> v \<in> {''AND'', ''OR''}"
| "patch_offered _ \<longleftrightarrow> True"

fun condition_patch_offered :: "condition_patch \<Rightarrow> bool" where
  "condition_patch_offered (ConditionMode v) \<longleftrightarrow> v \<in> set CONDITION_MODE_VALUES"
| "condition_patch_offered _ \<longleftrightarrow> True"

inductive ov_action :: "(nat \<Rightarrow> nat) \<Rightarrow> override_editor \<Rightarrow> override_editor \<Rightarrow> bool" for clock where
  act_update: "patch_offered patch \<Longrightarrow> ov_action clock ed (updateOperation i patch ed)"
| act_add: "ov_action clock ed (addOperation clock ed)"
| act_duplicate: "ov_action clock ed (duplicateOperation eager clock i ed)"
| act_remove: "ov_action clock ed (removeOperation clock i ed)"
| act_add_condition: "ov_action clock ed (addCondition clock i ed)"
| act_update_condition: "condition_patch_offered cpatch \<Longrightarrow> ov_action clock ed (updateCondition i k cpatch ed)"
| act_remove_condition: "ov_action clock ed (removeCondition i k ed)"
| act_return_error: "ov_action clock ed (updateReturnErrorDraft i draft_patch ed)"
| act_prune: "ov_action clock ed (updatePruneObjectsDraft clock i updater ed)"
| act_show_prune: "ov_action clock ed (snd (pruneObjectsDraft clock ed))"
| act_drag: "ov_action clock ed (handleDragStart i ed)"
| act_drag_over: "ov_action clock ed (handleDragOver i pos ed)"
| act_drop: "ov_action clock ed (handleDrop transferred i ed)"
| act_json: "ov_action clock ed (switchToJsonMode ed)"
| act_visual: "switchToVisualMode clock ed = Switched ed' \<Longrightarrow> ov_action clock ed ed'"
| act_template: "ov_action clock ed (ed\<lparr>ov_template := key\<rparr>)"
| act_fill: "fillTemplate clock fill ed = Switched ed' \<Longrightarrow> ov_action clock ed ed'"
| act_reset: "ov_action clock ed (resetEditorState clock ed)"
| act_type: "ov_action clock ed (handleJsonChange v ed)"
| act_format: "formatJson ed = Switched ed' \<Longrightarrow> ov_action clock ed ed'"
| act_expand: "ov_action clock ed (set_expanded b ed)"
| act_search: "ov_action clock ed (ed\<lparr>ov_search := v\<rparr>)"
| act_select: "ov_action clock ed (ed\<lparr>ov_selected := i\<rparr>)"

text \<open>A session: the dialog opens on a text, then every action is followed by the effect that keeps the
  selection.\<close>

inductive ov_reachable :: "(nat \<Rightarrow> nat) \<Rightarrow> override_editor \<Rightarrow> bool" for clock where
  session_open: "openDialog clock seed value = Inr ed \<Longrightarrow> ov_reachable clock (keepSelected ed)"
| session_act: "ov_reachable clock ed \<Longrightarrow> ov_action clock ed ed' \<Longrightarrow> ov_reachable clock (keepSelected ed')"

definition editor_ok :: "(nat \<Rightarrow> nat) \<Rightarrow> override_editor \<Rightarrow> bool" where
  "editor_ok clock ed \<longleftrightarrow> rules_ok clock (ov_seed ed) (es_operations ed)"

lemma keep_selected: "es_operations (keepSelected ed) = es_operations ed" "ov_seed (keepSelected ed) = ov_seed ed"
  "es_operations ed \<noteq> [] \<Longrightarrow> ov_selected (keepSelected ed) \<in> oo_id ` set (es_operations ed)"
  by (auto simp: keepSelected_def first_id_def list_ex_iff intro: rev_image_eqI split: list.splits)

lemma open_ok: "openDialog clock seed value = Inr ed \<Longrightarrow> editor_ok clock ed"
  by (auto simp: openDialog_def parseInitialState_def default_state_def editor_ok_def Let_def created_rules
      dest!: rules_or_default_ok split: sum.splits if_splits option.splits json.splits)

lemma patch_ok:
  "patch_offered patch \<Longrightarrow> operation_typed op \<Longrightarrow> operation_typed (patch_operation patch op)" "op_ids (patch_operation patch op) = op_ids op"
  by (cases patch; auto simp: operation_typed_def op_ids_def)+

lemma condition_patch_ok:
  "condition_patch_offered p \<Longrightarrow> condition_typed c \<Longrightarrow> condition_typed (patch_condition p c)" "oc_id (patch_condition p c) = oc_id c"
  by (cases p; auto simp: condition_typed_def)+

lemma update_ok:
  assumes "editor_ok clock ed" "patch_offered patch"
  shows "editor_ok clock (updateOperation i patch ed)"
  using assms rules_ok_update [of clock "ov_seed ed" "es_operations ed" "patch_operation patch" i]
  by (simp add: editor_ok_def updateOperation_def setOperations_def patch_ok)

lemma add_ok: "editor_ok clock ed \<Longrightarrow> editor_ok clock (addOperation clock ed)"
  using rules_ok_insert [of clock "ov_seed ed" "es_operations ed" "[]" "createDefaultOperation clock (ov_seed ed)"]
    created_operation [of clock "ov_seed ed"]
  by (auto simp: editor_ok_def addOperation_def Let_def created_ok)

lemma duplicate_ok: "editor_ok clock ed \<Longrightarrow> editor_ok clock (duplicateOperation eager clock i ed)"
proof (cases "find_index (\<lambda>op. oo_id op = i) (es_operations ed)")
  case (Some idx)
  assume ok: "editor_ok clock ed"
  obtain op where op: "normalizeOperation clock (ov_seed ed) (clone_json (es_operations ed ! idx)) = Inr op"
    using clone_operation by blast
  have "rules_ok clock (ov_seed ed + ids_used op) (take (Suc idx) (es_operations ed) @ op # drop (Suc idx) (es_operations ed))"
    using ok normalize_operation_ok [OF op] by (intro rules_ok_insert) (simp_all add: editor_ok_def)
  with Some op show ?thesis by (simp add: editor_ok_def duplicateOperation_def Let_def)
qed (simp add: duplicateOperation_def)

lemma remove_ok: "editor_ok clock ed \<Longrightarrow> editor_ok clock (removeOperation clock i ed)"
proof (cases "length (es_operations ed) \<le> 1")
  case False
  assume ok: "editor_ok clock ed"
  let ?rest = "filter (\<lambda>op. oo_id op \<noteq> i) (es_operations ed)"
  obtain a b ops where ops: "es_operations ed = a # b # ops"
    using False by (cases "es_operations ed"; cases "tl (es_operations ed)") auto
  have "oo_id a \<noteq> oo_id b" using ok by (simp add: ops editor_ok_def rules_ok_def local_ids.below_def all_ids_def op_ids_def)
  then have "?rest \<noteq> []" by (auto simp: ops)
  then have "rules_ok clock (ov_seed ed) ?rest"
    using ok by (auto simp: editor_ok_def multiset_filter_subset elim!: rules_ok_subset)
  with False show ?thesis by (simp add: removeOperation_def editor_ok_def)
qed (simp add: removeOperation_def editor_ok_def created_rules)

lemma add_condition_ok: "editor_ok clock ed \<Longrightarrow> editor_ok clock (addCondition clock i ed)"
  by (simp add: editor_ok_def addCondition_def setOperations_def Let_def rules_ok_condition)

lemma update_condition_ok:
  assumes "editor_ok clock ed" "condition_patch_offered p"
  shows "editor_ok clock (updateCondition i k p ed)"
proof -
  let ?f = "\<lambda>op. op\<lparr>oo_conditions := map (\<lambda>c. if oc_id c = k then patch_condition p c else c) (oo_conditions op)\<rparr>"
  have "operation_typed op \<Longrightarrow> operation_typed (?f op)" for op
    using assms(2) by (auto simp: operation_typed_def list_all_iff condition_patch_ok)
  moreover have "op_ids (?f op) = op_ids op" for op by (auto simp: op_ids_def condition_patch_ok)
  ultimately show ?thesis
    using assms(1) rules_ok_update [of clock "ov_seed ed" "es_operations ed" ?f i]
    by (simp add: editor_ok_def updateCondition_def setOperations_def)
qed

lemma remove_condition_ok: "editor_ok clock ed \<Longrightarrow> editor_ok clock (removeCondition i k ed)"
proof -
  assume ok: "editor_ok clock ed"
  let ?f = "\<lambda>op. op\<lparr>oo_conditions := filter (\<lambda>c. oc_id c \<noteq> k) (oo_conditions op)\<rparr>"
  have "operation_typed op \<Longrightarrow> operation_typed (?f op)" for op by (auto simp: operation_typed_def list_all_iff)
  moreover have "mset (op_ids (?f op)) \<subseteq># mset (op_ids op)" for op
    by (simp add: op_ids_def image_mset_subseteq_mono multiset_filter_subset)
  ultimately show ?thesis
    using ok rules_ok_update [of clock "ov_seed ed" "es_operations ed" ?f i]
    by (simp add: editor_ok_def removeCondition_def setOperations_def)
qed

lemma value_update_ok:
  assumes "rules_ok clock seed ops"
  shows "rules_ok clock seed (update_by_id i (\<lambda>op. op\<lparr>oo_value_text := g op\<rparr>) ops)"
  by (rule rules_ok_update [OF assms]) (simp_all add: operation_typed_def op_ids_def)

lemma draft_ok:
  assumes "editor_ok clock ed"
  shows "editor_ok clock (updateReturnErrorDraft i g ed)" "editor_ok clock (updatePruneObjectsDraft clock i u ed)"
    "editor_ok clock (snd (pruneObjectsDraft clock ed))"
proof -
  show "editor_ok clock (updateReturnErrorDraft i g ed)" "editor_ok clock (snd (pruneObjectsDraft clock ed))"
    using assms by (auto simp: editor_ok_def updateReturnErrorDraft_def setOperations_def pruneObjectsDraft_def Let_def
        intro: value_update_ok rules_ok_mono split: option.split)
  show "editor_ok clock (updatePruneObjectsDraft clock i u ed)"
    using assms by (auto simp: editor_ok_def updatePruneObjectsDraft_def setOperations_def prune_ids_def
        intro!: rules_ok_mono [OF value_update_ok] split: option.split)
qed

lemma drag_ok:
  assumes "editor_ok clock ed"
  shows "editor_ok clock (handleDragStart i ed)" "editor_ok clock (handleDragOver i pos ed)"
    "editor_ok clock (handleDrop transferred i ed)"
proof -
  show "editor_ok clock (handleDragStart i ed)" "editor_ok clock (handleDragOver i pos ed)"
    using assms by (simp_all add: editor_ok_def handleDragStart_def handleDragOver_def)
  have "rules_ok clock (ov_seed ed) (reorderOperations (es_operations ed) s i pos)" for s pos
  proof (rule rules_ok_subset)
    show "rules_ok clock (ov_seed ed) (es_operations ed)" using assms by (simp add: editor_ok_def)
    then show "reorderOperations (es_operations ed) s i pos \<noteq> []"
      using mset_eq_length [OF reorder_mset [of "es_operations ed" s i pos]] by (auto simp: rules_ok_def)
  qed (simp add: reorder_mset)
  then show "editor_ok clock (handleDrop transferred i ed)"
    using assms by (simp add: editor_ok_def handleDrop_def resetDragState_def setOperations_def Let_def)
qed

lemma visual_switch_rules:
  assumes "switchToVisualMode clock ed = Switched ed'" "es_editMode ed = JsonEdit"
  shows "es_operations ed' = [createDefaultOperation clock (ov_seed ed)] \<and> ov_seed ed' = Suc (ov_seed ed) \<or>
    (\<exists>items. rules_or_default clock (ov_seed ed) items = Inr (es_operations ed', ov_seed ed'))"
proof (cases "js_trim (es_jsonText ed) = []")
  case True
  with assms show ?thesis by (auto simp: switchToVisualMode_def Let_def)
next
  case False
  with assms obtain kvs where kvs: "json_parse (js_trim (es_jsonText ed)) = Some (JObj kvs)"
    by (auto simp: switchToVisualMode_def Let_def split: option.splits json.splits)
  show ?thesis
  proof (cases "\<exists>items. map_of kvs ''operations'' = Some (JArr items)")
    case True
    then obtain items where "map_of kvs ''operations'' = Some (JArr items)" ..
    with assms False kvs show ?thesis
      by (auto simp: switchToVisualMode_def Let_def split: sum.splits)
  next
    case no_list: False
    with assms False kvs show ?thesis
      by (auto simp: switchToVisualMode_def Let_def split: option.splits json.splits)
  qed
qed

lemma switch_ok:
  assumes "editor_ok clock ed"
  shows "editor_ok clock (switchToJsonMode ed)" "switchToVisualMode clock ed = Switched ed' \<Longrightarrow> editor_ok clock ed'"
    "formatJson ed = Switched ed' \<Longrightarrow> editor_ok clock ed'"
proof -
  show "editor_ok clock (switchToJsonMode ed)"
    using assms by (simp add: editor_ok_def switchToJsonMode_def split: sum.split)
  show "switchToVisualMode clock ed = Switched ed' \<Longrightarrow> editor_ok clock ed'"
    using assms visual_switch_rules [of clock ed ed'] rules_or_default_ok created_rules
    by (cases "es_editMode ed") (auto simp: editor_ok_def switchToVisualMode_def)
  show "formatJson ed = Switched ed' \<Longrightarrow> editor_ok clock ed'"
    using assms by (auto simp: editor_ok_def formatJson_def Let_def split: if_splits option.splits)
qed

lemma preset_items: "preset_payload key = OperationsTemplate items \<Longrightarrow> items \<noteq> []"
proof -
  have "\<forall>kp \<in> set TEMPLATE_PRESET_CONFIG. snd (snd kp) \<noteq> OperationsTemplate []"
    by (simp add: TEMPLATE_PRESET_CONFIG_def buildPassHeadersTemplate_def OPERATION_TEMPLATE_def HEADER_PASSTHROUGH_TEMPLATE_def
        GEMINI_IMAGE_4K_TEMPLATE_def AWS_BEDROCK_ANTHROPIC_COMPAT_TEMPLATE_def)
  then show "preset_payload key = OperationsTemplate items \<Longrightarrow> items \<noteq> []"
    by (auto simp: preset_payload_def OPERATION_TEMPLATE_def dest!: map_of_SomeD split: option.splits prod.splits)
qed

lemma rules_ok_append:
  assumes "list_all operation_typed ops" "local_ids.below clock seed (all_ids ops)"
    "normalize_operations clock seed items = Inr (made, seed')" "items \<noteq> []"
  shows "rules_ok clock seed' (ops @ made)"
proof -
  have m: "list_all operation_typed made" "seed \<le> seed'" "all_ids made = local_ids.batch clock seed seed'" "made \<noteq> []"
    using normalize_operations_ok [OF assms(3)] assms(4) by auto
  have "local_ids.below clock seed' (all_ids ops @ all_ids made)"
    using local_ids.below_add [OF assms(2) m(2)] m(3) by simp
  with assms m show ?thesis by (simp add: rules_ok_def all_ids_def)
qed

lemma kept_ids:
  assumes "rules_ok clock seed ops"
  shows "list_all operation_typed (filter P ops) \<and> local_ids.below clock seed (all_ids (filter P ops))"
proof (cases "filter P ops = []")
  case False
  have "rules_ok clock seed (filter P ops)"
    by (rule rules_ok_subset [OF assms _ False]) (simp add: multiset_filter_subset)
  then show ?thesis by (simp add: rules_ok_def)
qed (simp add: all_ids_def local_ids.below_def)

lemma fill_ok:
  assumes "editor_ok clock ed" "fillTemplate clock fill ed = Switched ed'"
  shows "editor_ok clock ed'"
proof (cases "preset_payload (ov_template ed)")
  case (LegacyTemplate payload)
  with assms(2) show ?thesis
    by (auto simp: fillTemplate_def show_legacy_def editor_ok_def created_rules Let_def split: if_splits option.splits)
next
  case (OperationsTemplate items)
  note ne = preset_items [OF OperationsTemplate]
  obtain made seed' where made: "normalize_operations clock (ov_seed ed) items = Inr (made, seed')"
    using assms(2) OperationsTemplate by (auto simp: fillTemplate_def split: sum.splits)
  have made_ne: "made \<noteq> []" using normalize_operations_ok [OF made] ne by auto
  note add = rules_ok_append [OF _ _ made ne]
  have "rules_ok clock seed' ([] @ made)" by (rule add) (simp_all add: all_ids_def local_ids.below_def)
  moreover have "rules_ok clock seed' (filter (\<lambda>op. \<not> isOperationBlank op) (es_operations ed) @ made)"
    using assms(1) kept_ids by (intro add) (auto simp: editor_ok_def)
  ultimately show ?thesis
    using assms(2) OperationsTemplate made made_ne
    by (auto simp: fillTemplate_def editor_ok_def Let_def split: if_splits)
qed

lemma action_ok: "ov_action clock ed ed' \<Longrightarrow> editor_ok clock ed \<Longrightarrow> editor_ok clock ed'"
proof (induction rule: ov_action.induct)
  case (act_reset ed)
  then show ?case by (simp add: resetEditorState_def editor_ok_def created_rules Let_def)
next
  case (act_type ed v)
  then show ?case by (simp add: handleJsonChange_def editor_ok_def)
next
  case (act_expand ed b)
  then show ?case by (simp add: set_expanded_def editor_ok_def split: option.split)
qed (rule update_ok add_ok duplicate_ok remove_ok add_condition_ok update_condition_ok remove_condition_ok draft_ok
    drag_ok switch_ok fill_ok; assumption | simp add: editor_ok_def)+

lemma reachable_ok:
  "ov_reachable clock ed \<Longrightarrow> editor_ok clock ed \<and> ov_selected ed \<in> oo_id ` set (es_operations ed)"
proof (induction rule: ov_reachable.induct)
  case (session_open seed v ed)
  then show ?case using open_ok [of clock seed v ed] keep_selected [of ed] by (simp add: editor_ok_def rules_ok_def)
next
  case (session_act ed ed')
  then have "editor_ok clock ed'" using action_ok by blast
  then show ?case using keep_selected [of ed'] by (simp add: editor_ok_def rules_ok_def)
qed

section \<open>Drafts\<close>

lemma normalize_rules_ids: "map oc_id (normalize_rules clock seed js) = local_ids.batch clock seed (seed + length js)"
proof (induction js arbitrary: seed)
  case (Cons j js)
  then show ?case using local_ids.batch_Cons [of seed "seed + length (j # js)" clock] by (simp add: normalizePruneRule_def)
qed (simp add: local_ids.batch_def)

lemma draft_ids:
  fixes clock seed t
  defines "rules \<equiv> pd_rules (parsePruneObjectsDraft clock seed t)"
  shows "map oc_id rules = local_ids.batch clock seed (seed + length rules)"
proof -
  have "rules = [] \<or> (\<exists>js. rules = normalize_rules clock seed js)"
    unfolding rules_def parsePruneObjectsDraft_def Let_def by (auto simp: prune_defaults_def split: option.split json.split)
  then show ?thesis
  proof
    assume "\<exists>js. rules = normalize_rules clock seed js"
    then obtain js where js: "rules = normalize_rules clock seed js" ..
    have "length rules = length js" using arg_cong [OF normalize_rules_ids [of clock seed js], of length]
      by (simp add: js local_ids.batch_def)
    then show ?thesis by (simp add: js normalize_rules_ids)
  qed (simp add: local_ids.batch_def)
qed

lemma shown_rule_stale:
  assumes "pruneObjectsDraft clock ed = (Some draft, ed1)" "r \<in> set (pd_rules draft)" "ov_seed ed1 \<le> seed"
    "r' \<in> set (pd_rules (parsePruneObjectsDraft clock seed t))"
  shows "oc_id r' \<noteq> oc_id r"
proof -
  obtain op where sel: "selectedOperation ed = Some op"
    using assms(1) by (cases "selectedOperation ed") (auto simp: pruneObjectsDraft_def)
  then have d: "draft = parsePruneObjectsDraft clock (ov_seed ed) (oo_value_text op)" "ov_seed ed1 = ov_seed ed + length (pd_rules draft)"
    using assms(1) by (auto simp: pruneObjectsDraft_def Let_def split: if_splits)
  have old: "map oc_id (pd_rules draft) = local_ids.batch clock (ov_seed ed) (ov_seed ed1)"
    using draft_ids [of clock "ov_seed ed" "oo_value_text op"] by (simp only: d)
  have "oc_id r \<in> set (map oc_id (pd_rules draft))" using assms(2) by simp
  then obtain n where "oc_id r = nextLocalId clock n" "n < ov_seed ed1"
    unfolding old local_ids.batch_def by auto
  moreover have "oc_id r' \<in> set (map oc_id (pd_rules (parsePruneObjectsDraft clock seed t)))" using assms(4) by simp
  then obtain m where "oc_id r' = nextLocalId clock m" "seed \<le> m"
    unfolding draft_ids local_ids.batch_def by auto
  ultimately show ?thesis using assms(3) local_ids.fresh_inj by fastforce
qed

lemma prune_update_cong:
  assumes "\<And>t. buildPruneObjectsValueText (u (prune_ids clock (ov_seed ed) t) (parsePruneObjectsDraft clock (ov_seed ed) t)) =
    buildPruneObjectsValueText (u' (prune_ids clock (ov_seed ed) t) (parsePruneObjectsDraft clock (ov_seed ed) t))"
  shows "updatePruneObjectsDraft clock i u ed = updatePruneObjectsDraft clock i u' ed"
  unfolding updatePruneObjectsDraft_def assms ..

text \<open>
  C34: The edits of prune rules are lost. A rule the view shows has an identifier of the draft that was
  read for the view, the handlers read the draft again with new identifiers: changing or removing the rule
  writes the text an update without any change writes. Adding a rule only leaves the simple mode, since the
  rule without path is not printed.
\<close>

theorem prune_rule_edits_lost:
  assumes "pruneObjectsDraft clock ed = (Some draft, ed1)" "r \<in> set (pd_rules draft)" "ov_seed ed1 \<le> ov_seed ed2"
  shows "updatePruneRule clock i (oc_id r) patch ed2 = updatePruneObjectsDraft clock i (\<lambda>_ d. d) ed2 \<and>
    removePruneRule clock i (oc_id r) ed2 = updatePruneObjectsDraft clock i (\<lambda>_ d. d) ed2 \<and>
    addPruneRule clock i ed2 = updatePruneObjectsDraft clock i (\<lambda>_ d. d\<lparr>pd_simpleMode := False\<rparr>) ed2"
proof (intro conjI)
  note stale = shown_rule_stale [OF assms]
  show "updatePruneRule clock i (oc_id r) patch ed2 = updatePruneObjectsDraft clock i (\<lambda>_ d. d) ed2"
    unfolding updatePruneRule_def by (intro prune_update_cong arg_cong [of _ _ buildPruneObjectsValueText]) (simp add: stale cong: map_cong)
  show "removePruneRule clock i (oc_id r) ed2 = updatePruneObjectsDraft clock i (\<lambda>_ d. d) ed2"
    unfolding removePruneRule_def
    by (intro prune_update_cong arg_cong [of _ _ buildPruneObjectsValueText]) (simp add: stale cong: filter_cong)
  show "addPruneRule clock i ed2 = updatePruneObjectsDraft clock i (\<lambda>_ d. d\<lparr>pd_simpleMode := False\<rparr>) ed2"
    unfolding addPruneRule_def
    by (intro prune_update_cong) (simp add: buildPruneObjectsValueText_def normalizePruneRule_def string_or_empty_def)
qed

section \<open>Properties of sessions\<close>

text \<open>
  C23: In every reachable state of the dialog there is a rule, every rule has a mode and a logic the editor
  knows and only conditions with known modes, no two rules or conditions share an identifier, and one of
  the rules is selected.
\<close>

theorem session_rules_valid:
  assumes "ov_reachable clock ed"
  shows "es_operations ed \<noteq> [] \<and> list_all operation_typed (es_operations ed) \<and> distinct (all_ids (es_operations ed)) \<and>
    (\<exists>op. selectedOperation ed = Some op \<and> op \<in> set (es_operations ed) \<and> oo_id op = ov_selected ed)"
proof -
  have ok: "editor_ok clock ed" "ov_selected ed \<in> oo_id ` set (es_operations ed)" using reachable_ok [OF assms] by auto
  then obtain op where "selectedOperation ed = Some op"
    by (cases "selectedOperation ed") (auto simp: selectedOperation_def find_None_iff)
  then have "selectedOperation ed = Some op \<and> op \<in> set (es_operations ed) \<and> oo_id op = ov_selected ed"
    by (auto simp: selectedOperation_def find_Some_iff)
  with ok(1) show ?thesis by (auto simp: editor_ok_def rules_ok_def local_ids.below_def)
qed

lemma normalize_null: "JNull \<in> set items \<Longrightarrow> normalize_operations clock seed items = Inl NullItem"
proof (induction items arbitrary: seed)
  case (Cons j items)
  have err: "e = NullItem" for e :: override_error by (cases e)
  from Cons show ?case by (auto simp: normalizeOperation_def err split: sum.split)
qed simp

text \<open>
  A list of operations with \<open>null\<close> among its items makes opening the dialog throw.
\<close>

theorem null_rule_throws:
  assumes "json_parse (js_trim value) = Some (JObj kvs)" "map_of kvs ''operations'' = Some (JArr items)" "JNull \<in> set items"
  shows "openDialog clock seed value = Inl NullItem"
proof -
  have "js_trim value \<noteq> []" using assms(1) json_parse_blank [of "[]"] by auto
  moreover have "rules_or_default clock seed items = Inl NullItem"
    using assms(3) normalize_null [of items] by (auto simp: rules_or_default_def)
  ultimately show ?thesis using assms(1,2) by (simp add: openDialog_def parseInitialState_def)
qed

text \<open>
  C22: What the visual editor saves reopens as rules with the same payloads: in every reachable state, the
  dialog that is opened on the saved text shows the rules that were not blank and saves exactly the same text
  again, as long as no value is written as a JSON string.
\<close>

theorem saved_rules_reopen:
  assumes "ov_reachable clock ed" "handleSave ed = Inr saved" "es_editMode ed = VisualEdit" "es_visualMode ed = OperationsView"
    "saved \<noteq> []" "list_all operation_plain (es_operations ed)"
  shows "\<exists>ed'. openDialog clock' seed saved = Inr ed' \<and> es_visualMode ed' = OperationsView \<and>
    map operation_payload (es_operations ed') =
      map operation_payload (filter (\<lambda>op. \<not> isOperationBlank op) (es_operations ed)) \<and>
    handleSave ed' = Inr saved"
proof -
  have "list_all operation_typed (es_operations ed)" using reachable_ok [OF assms(1)] by (simp add: editor_ok_def rules_ok_def)
  then show ?thesis by (intro saved_rules_again assms)
qed

text \<open>
  A text value that reads as JSON changes its type: the dialog that is opened on a rule which sets
  a field to the string saves a rule that sets it to the value the string denotes.
\<close>

theorem string_value_retyped:
  assumes "json_parse s = Some j" "js_trim s = s" "js_trim p = p" "p \<noteq> []"
  defines "rule \<equiv> \<lambda>v. JObj [(''operations'', JArr [JObj [(''mode'', JStr ''set''), (''path'', JStr p), (''value'', v)]])]"
  shows "\<exists>ed. openDialog clock seed (json_pretty (rule (JStr s))) = Inr ed \<and> handleSave ed = Inr (json_pretty (rule j))"
proof -
  let ?item = "JObj [(''mode'', JStr ''set''), (''path'', JStr p), (''value'', JStr s)]"
  have keys: "\<not> is_array_index ''mode''" "\<not> is_array_index ''path''" "\<not> is_array_index ''value''" "\<not> is_array_index ''operations''"
    by (simp_all add: is_array_index_def is_digit_def)
  then have "json_wf ?item" by (intro plain_object_wf) (simp add: plain_object_def)
  then have wf: "json_wf (rule (JStr s))" unfolding rule_def by (intro plain_object_wf) (simp add: plain_object_def keys)
  obtain op where op: "normalizeOperation clock seed ?item = Inr op" "oo_mode op = ''set''" "oo_path op = p" "oo_value_text op = s"
      "oo_description op = []" "oo_to op = []" "\<not> oo_keep_origin op" "oo_conditions op = []"
    by (simp add: normalizeOperation_def string_or_empty_def toValueText_def known_mode_def default_modes is_true_def)
  have "s \<noteq> []" using assms(1) json_parse_blank [of "[]"] by auto
  then have v: "parseLooseValue s = j" using assms(1,2) by (simp add: parseLooseValue_def)
  have "meta_of ''set'' = no_meta\<lparr>mm_path := True, mm_value := True, mm_keepOrigin := True\<rparr>" by code_simp
  then have meta: "mm_path (meta_of ''set'')" "mm_value (meta_of ''set'')" "\<not> mm_to (meta_of ''set'')" "\<not> mm_from (meta_of ''set'')"
      "\<not> mm_pathAlias (meta_of ''set'')" "\<not> mm_pathOptional (meta_of ''set'')"
    by (simp_all add: no_meta_def)
  have put: "put_if True k v q = obj_set q k v" "put_if False k v q = q" for k v q by (simp_all add: put_if_def)
  have payload: "operation_payload op = JObj [(''mode'', JStr ''set''), (''path'', JStr p), (''value'', j)]"
    using op(2-) assms(3) v put
    by (simp add: meta payload_form Let_def mode_or_set_def kept_path_def kept_end_def map_filter_simps)
  have done': "operation_complete op" "\<not> isOperationBlank op"
    using op assms(3,4) by (simp_all add: operation_complete_def mode_or_set_def isOperationBlank_def FROM_REQUIRED_MODES_def
        TO_REQUIRED_MODES_def VALUE_REQUIRED_MODES_def Let_def)
  have "\<exists>ed. openDialog clock seed (json_pretty (rule (JStr s))) = Inr ed \<and> es_operations ed = [op] \<and>
      es_editMode ed = VisualEdit \<and> es_visualMode ed = OperationsView"
    using open_operations [OF _ wf [unfolded rule_def], of clock seed] op(1)
    by (simp add: openDialog_def rule_def default_state_def)
  then obtain ed where ed: "openDialog clock seed (json_pretty (rule (JStr s))) = Inr ed" "es_operations ed = [op]"
      "es_editMode ed = VisualEdit" "es_visualMode ed = OperationsView" by blast
  have "handleSave ed = Inr (json_pretty (rule j))"
    using save_operations [OF ed(3,4)] done' by (simp add: ed(2) operations_json_def payload rule_def)
  with ed(1) show ?thesis by blast
qed

text \<open>
  The structured editor of an error reads back what it wrote, with the texts trimmed and a
  status outside of 100 to 599 replaced by 400.
\<close>

theorem return_error_roundtrip:
  assumes "\<not> re_simpleMode d" "canonical_num (re_statusCode d)"
  shows "parseReturnErrorDraft (buildReturnErrorValueText d) =
    d\<lparr>re_message := js_trim (re_message d), re_statusCode := status_or_400 (re_statusCode d), re_code := js_trim (re_code d),
      re_type := js_trim (re_type d)\<rparr>"
proof -
  obtain kvs where kvs: "buildReturnErrorValueText d = json_stringify (JObj kvs)"
      "kvs = [(''message'', JStr (js_trim (re_message d))), (''status_code'', JNum (status_or_400 (re_statusCode d)))] @
           (if js_trim (re_code d) \<noteq> [] then [(''code'', JStr (js_trim (re_code d)))] else []) @
           (if js_trim (re_type d) \<noteq> [] then [(''type'', JStr (js_trim (re_type d)))] else []) @
           (if \<not> re_skipRetry d then [(''skip_retry'', JBool False)] else [])"
    using assms(1) by (simp add: buildReturnErrorValueText_def Let_def)
  have "is_finite (status_or_400 n) \<and> canonical_num (status_or_400 n)" if "canonical_num n" for n
    using that by (cases n) (auto simp: status_or_400_def num_of_int_def dec_canonical dec_finite split: option.split)
  then have "json_wf (JObj kvs)"
    using assms(2) by (intro plain_object_wf) (auto simp: plain_object_def kvs(2) is_array_index_def is_digit_def)
  then have parse: "json_parse (js_trim written) = Some (JObj kvs)" "js_trim written \<noteq> []" if "written = json_stringify (JObj kvs)" for written
    using that json_parse_stringify [of "JObj kvs"] js_trim_trimmed [OF stringify_trimmed [of "JObj kvs"]]
      json_stringify_length [of "JObj kvs"] by auto
  have get: "map_of kvs ''message'' = Some (JStr (js_trim (re_message d)))" "map_of kvs ''msg'' = None"
    "map_of kvs ''status_code'' = Some (JNum (status_or_400 (re_statusCode d)))"
    "map_of kvs ''code'' = (if js_trim (re_code d) \<noteq> [] then Some (JStr (js_trim (re_code d))) else None)"
    "map_of kvs ''type'' = (if js_trim (re_type d) \<noteq> [] then Some (JStr (js_trim (re_type d))) else None)"
    "map_of kvs ''skip_retry'' = (if re_skipRetry d then None else Some (JBool False))"
    by (simp_all add: kvs(2))
  have status: "status_or_400 (status_or_400 n) = status_or_400 n" for n
    by (auto simp: status_or_400_def split: option.split)
  show ?thesis
    unfolding parseReturnErrorDraft_def Let_def using assms(1)
    by (simp add: parse [OF kvs(1)] get status return_error_defaults_def js_or_def)
qed

section \<open>Instances\<close>

definition at_zero :: "nat \<Rightarrow> nat" where
  "at_zero = (\<lambda>_. 0)"

definition sample_operations :: "override_operation list" where
  "sample_operations = map (createDefaultOperation at_zero) [0, 1, 2]"

definition sample_opened :: override_editor where
  "sample_opened = keepSelected (projr (openDialog at_zero 0 []))"

definition sample_editor :: override_editor where
  "sample_editor = keepSelected (updateOperation ''po_0_0'' (PatchPath ''seed'') sample_opened)"

definition sample_saved :: jsstring where
  "sample_saved = json_pretty (JObj [(''operations'', JArr [JObj [(''mode'', JStr ''set''), (''path'', JStr ''seed''), (''value'', JStr [])]])])"

definition sample_pruned :: override_editor where
  "sample_pruned = sample_opened\<lparr>es_operations := map (\<lambda>op. op\<lparr>oo_mode := ''prune_objects'',
     oo_value_text := json_stringify (JObj [(''where'', JObj [(''a'', JStr ''b'')])])\<rparr>) (es_operations sample_opened)\<rparr>"

lemma sample_reachable: "ov_reachable at_zero sample_editor"
proof -
  have "openDialog at_zero 0 [] = Inr (projr (openDialog at_zero 0 []))" by (simp add: openDialog_def parseInitialState_def)
  then have "ov_reachable at_zero sample_opened" unfolding sample_opened_def by (rule session_open)
  then show ?thesis unfolding sample_editor_def by (rule session_act) (simp add: act_update)
qed

theorem drop_moves_one_rule_witness:
  "reorderOperations sample_operations ''po_0_0'' ''po_0_2'' After = map (createDefaultOperation at_zero) [1, 2, 0] \<and>
   filter (\<lambda>op. oo_id op \<noteq> ''po_0_0'') (reorderOperations sample_operations ''po_0_0'' ''po_0_2'' After) =
     filter (\<lambda>op. oo_id op \<noteq> ''po_0_0'') sample_operations"
proof -
  have "''po_0_0'' \<in> oo_id ` set sample_operations" "''po_0_2'' \<in> oo_id ` set sample_operations" by code_simp+
  then have "filter (\<lambda>op. oo_id op \<noteq> ''po_0_0'') (reorderOperations sample_operations ''po_0_0'' ''po_0_2'' After) =
     filter (\<lambda>op. oo_id op \<noteq> ''po_0_0'') sample_operations"
    using drop_moves_one_rule [of "''po_0_0''" "''po_0_2''" sample_operations After] by simp
  moreover have "reorderOperations sample_operations ''po_0_0'' ''po_0_2'' After = map (createDefaultOperation at_zero) [1, 2, 0]"
    by code_simp
  ultimately show ?thesis by simp
qed

theorem session_rules_valid_witness:
  "map oo_id (es_operations sample_editor) = [''po_0_0''] \<and> map oo_path (es_operations sample_editor) = [''seed''] \<and>
   list_all operation_typed (es_operations sample_editor)"
proof -
  have "map oo_id (es_operations sample_editor) = [''po_0_0'']" "map oo_path (es_operations sample_editor) = [''seed'']"
    by code_simp+
  with session_rules_valid [OF sample_reachable] show ?thesis by simp
qed

theorem saved_rules_reopen_witness:
  "handleSave sample_editor = Inr sample_saved \<and>
   (\<exists>ed'. openDialog at_zero 5 sample_saved = Inr ed' \<and> handleSave ed' = Inr sample_saved)"
proof -
  have "handleSave sample_editor = Inr sample_saved" "es_editMode sample_editor = VisualEdit"
    "es_visualMode sample_editor = OperationsView" "sample_saved \<noteq> []" "list_all operation_plain (es_operations sample_editor)"
    by code_simp+
  with saved_rules_reopen [OF sample_reachable, of sample_saved at_zero 5] show ?thesis by blast
qed

theorem prune_rule_edits_lost_witness:
  "map oc_id (pd_rules (the (fst (pruneObjectsDraft at_zero sample_pruned)))) = [''po_0_1''] \<and>
   removePruneRule at_zero ''po_0_0'' ''po_0_1'' (snd (pruneObjectsDraft at_zero sample_pruned)) =
     updatePruneObjectsDraft at_zero ''po_0_0'' (\<lambda>_ d. d) (snd (pruneObjectsDraft at_zero sample_pruned))"
proof -
  let ?ed = "snd (pruneObjectsDraft at_zero sample_pruned)"
  have ids: "map oc_id (pd_rules (the (fst (pruneObjectsDraft at_zero sample_pruned)))) = [''po_0_1'']" by code_simp
  then obtain r where r: "r \<in> set (pd_rules (the (fst (pruneObjectsDraft at_zero sample_pruned))))" "oc_id r = ''po_0_1''" by auto
  have "fst (pruneObjectsDraft at_zero sample_pruned) \<noteq> None" by code_simp
  then have "pruneObjectsDraft at_zero sample_pruned = (Some (the (fst (pruneObjectsDraft at_zero sample_pruned))), ?ed)"
    by (cases "pruneObjectsDraft at_zero sample_pruned") auto
  from prune_rule_edits_lost [OF this r(1) order_refl, of "''po_0_0''"] ids r(2) show ?thesis by simp
qed

theorem null_rule_throws_witness:
  "openDialog at_zero 0 (json_stringify (JObj [(''operations'', JArr [JNull])])) = Inl NullItem"
proof -
  have "json_parse (js_trim (json_stringify (JObj [(''operations'', JArr [JNull])]))) = Some (JObj [(''operations'', JArr [JNull])])"
    by code_simp
  from null_rule_throws [OF this, of "[JNull]"] show ?thesis by simp
qed

theorem string_value_retyped_witness:
  "\<exists>ed. openDialog at_zero 0 (json_pretty (JObj [(''operations'', JArr [JObj [(''mode'', JStr ''set''), (''path'', JStr ''user''),
      (''value'', JStr ''7'')]])])) = Inr ed \<and>
    handleSave ed = Inr (json_pretty (JObj [(''operations'', JArr [JObj [(''mode'', JStr ''set''), (''path'', JStr ''user''),
      (''value'', JNum (JDec 7 0))]])]))"
proof -
  have "json_parse ''7'' = Some (JNum (JDec 7 0))" "js_trim ''7'' = ''7''" "js_trim ''user'' = ''user''" by code_simp+
  from string_value_retyped [OF this, of at_zero 0] show ?thesis by simp
qed

theorem return_error_roundtrip_witness:
  "re_message (parseReturnErrorDraft (buildReturnErrorValueText
     (return_error_defaults\<lparr>re_message := '' no '', re_statusCode := JDec 7 2, re_simpleMode := False\<rparr>))) = ''no'' \<and>
   re_statusCode (parseReturnErrorDraft (buildReturnErrorValueText
     (return_error_defaults\<lparr>re_message := '' no '', re_statusCode := JDec 7 2, re_simpleMode := False\<rparr>))) = num_of_int 400"
proof -
  have "js_trim '' no '' = ''no''" "status_or_400 (JDec 7 2) = num_of_int 400" by code_simp+
  then show ?thesis
    using return_error_roundtrip [of "return_error_defaults\<lparr>re_message := '' no '', re_statusCode := JDec 7 2, re_simpleMode := False\<rparr>"]
    by simp
qed

end
