(* ===== verification/ChannelForm.thy ===== *)
theory ChannelForm
  imports ChannelData JsValue
begin

text \<open>
  The form of a channel (\<open>channels/lib/channel-form.ts\<close>, \<open>channel-form-errors.ts\<close>): its values and defaults, the
  validation, loading a channel into the form and the payloads that create and update a channel.

  A form has a value for every field, since the defaults and the loaded channels fill all of them; an
  optional text that is \<open>undefined\<close> would be read like the empty one. The fields that are copied from parsed
  settings without a test of their type are JSON values: the schema checks them. Lengths count bytes.
  A payload is the object that is sent, in the order of its properties.
\<close>

section \<open>Reading optional texts\<close>

text \<open>\<open>undefined\<close> is \<^term>\<open>None\<close>; a text that is no JSON makes \<open>JSON.parse\<close> throw.\<close>

datatype optional_json = Undefined | Parsed json | ParseThrows

definition parseOptionalJson :: "jsstring \<Rightarrow> optional_json" where
  "parseOptionalJson value =
     (if js_trim value = [] then Undefined
      else (case json_parse value of Some j \<Rightarrow> Parsed j | None \<Rightarrow> ParseThrows))"

fun isJsonObjectValue :: "json \<Rightarrow> bool" where
  "isJsonObjectValue (JObj _) \<longleftrightarrow> True"
| "isJsonObjectValue _ \<longleftrightarrow> False"

definition isOptionalJsonObject :: "jsstring \<Rightarrow> bool" where
  "isOptionalJsonObject value =
     (case parseOptionalJson value of Undefined \<Rightarrow> True | Parsed j \<Rightarrow> isJsonObjectValue j | ParseThrows \<Rightarrow> False)"

fun is_string :: "json \<Rightarrow> bool" where
  "is_string (JStr _) \<longleftrightarrow> True"
| "is_string _ \<longleftrightarrow> False"

definition isOptionalModelMapping :: "jsstring \<Rightarrow> bool" where
  "isOptionalModelMapping value =
     (case parseOptionalJson value of
        Undefined \<Rightarrow> True
      | Parsed (JObj kvs) \<Rightarrow> list_all (\<lambda>kv. is_string (snd kv)) kvs
      | _ \<Rightarrow> False)"

definition is_http_code :: "jsnum \<Rightarrow> bool" where
  "is_http_code n \<longleftrightarrow> (case int_value n of Some i \<Rightarrow> 100 \<le> i \<and> i \<le> 599 | None \<Rightarrow> False)"

definition isOptionalStatusCodeMapping :: "jsstring \<Rightarrow> bool" where
  "isOptionalStatusCodeMapping value =
     (case parseOptionalJson value of
        Undefined \<Rightarrow> True
      | Parsed (JObj kvs) \<Rightarrow>
          list_all (\<lambda>(from, to). is_http_code (to_number from) \<and> is_http_code (js_number (Some to))) kvs
      | _ \<Rightarrow> False)"

definition nonblank_string :: "json option \<Rightarrow> bool" where
  "nonblank_string v \<longleftrightarrow> (case v of Some (JStr s) \<Rightarrow> js_trim s \<noteq> [] | _ \<Rightarrow> False)"

definition isCodexCredential :: "jsstring \<Rightarrow> bool" where
  "isCodexCredential value =
     (case parseOptionalJson value of
        Undefined \<Rightarrow> True
      | Parsed (JObj kvs) \<Rightarrow> nonblank_string (map_of kvs ''access_token'') \<and> nonblank_string (map_of kvs ''account_id'')
      | _ \<Rightarrow> False)"

definition isVertexJsonKey :: "jsstring \<Rightarrow> bool" where
  "isVertexJsonKey value =
     (case parseOptionalJson value of
        Undefined \<Rightarrow> True
      | Parsed (JArr items) \<Rightarrow> list_all isJsonObjectValue items
      | Parsed j \<Rightarrow> isJsonObjectValue j
      | ParseThrows \<Rightarrow> False)"

section \<open>Form\<close>

datatype add_mode = SingleKey | BatchKeys | MultiToSingle
datatype key_mode = AppendKeys | ReplaceKeys

record channel_form =
  fm_name :: jsstring
  fm_type :: int
  fm_base_url :: jsstring
  fm_key :: jsstring
  fm_openai_organization :: jsstring
  fm_models :: jsstring
  fm_group :: "jsstring list"
  fm_model_mapping :: jsstring
  fm_priority :: "int option"
  fm_weight :: "int option"
  fm_test_model :: jsstring
  fm_auto_ban :: "int option"
  fm_status :: "int option"
  fm_status_code_mapping :: jsstring
  fm_tag :: jsstring
  fm_remark :: jsstring
  fm_setting :: jsstring
  fm_param_override :: jsstring
  fm_header_override :: jsstring
  fm_settings :: jsstring
  fm_other :: jsstring
  fm_multi_key_mode :: add_mode
  fm_multi_key_type :: multi_key_mode
  fm_batch_add_set_key_prefix_2_name :: bool
  fm_key_mode :: key_mode
  fm_force_format :: json
  fm_thinking_to_content :: json
  fm_proxy :: json
  fm_pass_through_body_enabled :: json
  fm_system_prompt :: json
  fm_system_prompt_override :: json
  fm_is_enterprise_account :: bool
  fm_vertex_key_type :: json
  fm_aws_key_type :: json
  fm_azure_responses_version :: json
  fm_allow_service_tier :: bool
  fm_disable_store :: bool
  fm_allow_safety_identifier :: bool
  fm_allow_include_obfuscation :: bool
  fm_allow_inference_geo :: bool
  fm_allow_speed :: bool
  fm_claude_beta_query :: bool
  fm_upstream_check_enabled :: bool
  fm_upstream_auto_sync_enabled :: bool
  fm_upstream_ignored_models :: jsstring

definition CHANNEL_FORM_DEFAULT_VALUES :: channel_form where
  "CHANNEL_FORM_DEFAULT_VALUES =
     \<lparr>fm_name = [], fm_type = 1, fm_base_url = [], fm_key = [], fm_openai_organization = [], fm_models = [],
      fm_group = [''default''], fm_model_mapping = [], fm_priority = Some 0, fm_weight = Some 0, fm_test_model = [],
      fm_auto_ban = Some 1, fm_status = Some CHANNEL_STATUS_ENABLED, fm_status_code_mapping = [], fm_tag = [], fm_remark = [],
      fm_setting = [], fm_param_override = [], fm_header_override = [], fm_settings = ''{}'', fm_other = [],
      fm_multi_key_mode = SingleKey, fm_multi_key_type = Random, fm_batch_add_set_key_prefix_2_name = False,
      fm_key_mode = AppendKeys, fm_force_format = JBool False, fm_thinking_to_content = JBool False, fm_proxy = JStr [],
      fm_pass_through_body_enabled = JBool False, fm_system_prompt = JStr [], fm_system_prompt_override = JBool False,
      fm_is_enterprise_account = False, fm_vertex_key_type = JStr ''json'', fm_aws_key_type = JStr ''ak_sk'',
      fm_azure_responses_version = JStr [], fm_allow_service_tier = False, fm_disable_store = False,
      fm_allow_safety_identifier = False, fm_allow_include_obfuscation = False, fm_allow_inference_geo = False,
      fm_allow_speed = False, fm_claude_beta_query = False, fm_upstream_check_enabled = False,
      fm_upstream_auto_sync_enabled = False, fm_upstream_ignored_models = []\<rparr>"

section \<open>Validation\<close>

text \<open>An issue: the field and the message.\<close>

datatype form_issue = FormIssue jsstring jsstring

definition issue_if :: "bool \<Rightarrow> jsstring \<Rightarrow> jsstring \<Rightarrow> form_issue list" where
  "issue_if b path message = (if b then [FormIssue path message] else [])"

fun is_boolean :: "json \<Rightarrow> bool" where
  "is_boolean (JBool _) \<longleftrightarrow> True"
| "is_boolean _ \<longleftrightarrow> False"

text \<open>The types of the fields that are not typed by the record.\<close>

definition form_typed :: "channel_form \<Rightarrow> bool" where
  "form_typed f \<longleftrightarrow> fm_status f \<noteq> None \<and> is_boolean (fm_force_format f) \<and> is_boolean (fm_thinking_to_content f) \<and>
     is_string (fm_proxy f) \<and> is_boolean (fm_pass_through_body_enabled f) \<and> is_string (fm_system_prompt f) \<and>
     is_boolean (fm_system_prompt_override f) \<and> fm_vertex_key_type f \<in> {JStr ''json'', JStr ''api_key''} \<and>
     fm_aws_key_type f \<in> {JStr ''ak_sk'', JStr ''api_key''} \<and> is_string (fm_azure_responses_version f)"

definition field_issues :: "channel_form \<Rightarrow> form_issue list" where
  "field_issues f =
     issue_if (fm_name f = []) ''name'' ''Channel name is required'' @
     issue_if (fm_type f < 0) ''type'' ''Channel type is required'' @
     issue_if (fm_models f = []) ''models'' ''Models are required'' @
     issue_if (fm_group f = []) ''group'' ''Group is required'' @
     issue_if (\<not> isOptionalModelMapping (fm_model_mapping f)) ''model_mapping''
       ''Model mapping must be a JSON object with string values'' @
     issue_if (\<not> isOptionalStatusCodeMapping (fm_status_code_mapping f)) ''status_code_mapping''
       ''Status code mapping must use valid HTTP status codes'' @
     issue_if (length (fm_remark f) > 255) ''remark'' ''Remark must be less than 255 characters'' @
     issue_if (\<not> isOptionalJsonObject (fm_setting f)) ''setting'' ''Invalid JSON format'' @
     issue_if (\<not> isOptionalJsonObject (fm_param_override f)) ''param_override'' ''Invalid JSON format'' @
     issue_if (\<not> isOptionalJsonObject (fm_header_override f)) ''header_override'' ''Invalid JSON format'' @
     issue_if (\<not> isOptionalJsonObject (fm_settings f)) ''settings'' ''Invalid JSON format''"

text \<open>The issues of \<open>superRefine\<close>.\<close>

definition refine_issues :: "channel_form \<Rightarrow> form_issue list" where
  "refine_issues f =
     issue_if (fm_type f \<in> {3, 8, 36, 45} \<and> js_trim (fm_base_url f) = []) ''base_url''
       ''Base URL is required for this channel type'' @
     issue_if (fm_type f \<in> {3, 18, 21, 39, 41, 49} \<and> js_trim (fm_other f) = []) ''other''
       ''This channel type requires additional configuration'' @
     (if fm_type f = 57
      then issue_if (fm_multi_key_mode f \<noteq> SingleKey) ''multi_key_mode'' ''Codex channels do not support batch creation'' @
        issue_if (js_trim (fm_key f) \<noteq> [] \<and> \<not> isCodexCredential (fm_key f)) ''key''
          ''Codex credential must be a JSON object with access_token and account_id''
      else []) @
     issue_if (fm_type f = 41 \<and> fm_vertex_key_type f = JStr ''json'' \<and> js_trim (fm_key f) \<noteq> [] \<and> \<not> isVertexJsonKey (fm_key f))
       ''key'' ''Vertex AI service account key must be valid JSON'' @
     issue_if (fm_type f = 41 \<and> fm_vertex_key_type f = JStr ''api_key'' \<and> fm_multi_key_mode f \<noteq> SingleKey)
       ''multi_key_mode'' ''Vertex AI API Key mode does not support batch creation''"

definition channelFormSchema :: "channel_form \<Rightarrow> bool" where
  "channelFormSchema f \<longleftrightarrow> form_typed f \<and> field_issues f = [] \<and> refine_issues f = []"

definition ADVANCED_SETTINGS_FIELDS :: "jsstring list" where
  "ADVANCED_SETTINGS_FIELDS = [''priority'', ''weight'', ''test_model'', ''auto_ban'', ''tag'', ''remark'', ''param_override'',
     ''header_override'', ''status_code_mapping'', ''force_format'', ''thinking_to_content'', ''pass_through_body_enabled'',
     ''proxy'', ''system_prompt'', ''system_prompt_override'', ''allow_service_tier'', ''disable_store'',
     ''allow_safety_identifier'', ''allow_include_obfuscation'', ''allow_inference_geo'', ''allow_speed'', ''claude_beta_query'',
     ''upstream_model_update_check_enabled'', ''upstream_model_update_auto_sync_enabled'',
     ''upstream_model_update_ignored_models'']"

definition isAdvancedSettingsField :: "jsstring \<Rightarrow> bool" where
  "isAdvancedSettingsField fieldName \<longleftrightarrow> fieldName \<in> set ADVANCED_SETTINGS_FIELDS"

definition hasAdvancedSettingsErrors :: "form_issue list \<Rightarrow> bool" where
  "hasAdvancedSettingsErrors errors \<longleftrightarrow> list_ex (\<lambda>i. case i of FormIssue path _ \<Rightarrow> isAdvancedSettingsField path) errors"

section \<open>Lists in texts\<close>

definition parseModels :: "jsstring \<Rightarrow> jsstring list" where
  "parseModels models = (if models = [] then [] else filter (\<lambda>m. m \<noteq> []) (map js_trim (split_on (CHR '','') models)))"

definition parseGroups :: "jsstring \<Rightarrow> jsstring list" where
  "parseGroups groups = (if groups = [] then [] else filter (\<lambda>g. g \<noteq> []) (map js_trim (split_on (CHR '','') groups)))"

definition formatModels :: "jsstring list \<Rightarrow> jsstring" where
  "formatModels models = js_join '','' models"

definition formatGroups :: "jsstring list \<Rightarrow> jsstring" where
  "formatGroups groups = js_join '','' groups"

definition validateJSON :: "jsstring \<Rightarrow> bool" where
  "validateJSON value \<longleftrightarrow> value = [] \<or> js_trim value = [] \<or> json_parse value \<noteq> None"

definition validateModelMapping :: "jsstring \<Rightarrow> bool" where
  "validateModelMapping value \<longleftrightarrow> value = [] \<or> js_trim value = [] \<or> validateJSON value"

section \<open>Loading a channel\<close>

text \<open>\<open>value || fallback\<close> on JSON values; a nullable text that is falsy is the empty text.\<close>

definition json_or :: "json option \<Rightarrow> json \<Rightarrow> json" where
  "json_or v fallback = js_or v fallback id"

definition text_or :: "jsstring option \<Rightarrow> jsstring" where
  "text_or v = (case v of Some s \<Rightarrow> s | None \<Rightarrow> [])"

text \<open>The value a text of settings parses to; a text that does not parse leaves the defaults, like a value
  without properties.\<close>

definition parsed_settings :: "jsstring \<Rightarrow> json" where
  "parsed_settings s = (if s = [] then JNull else (case json_parse s of Some j \<Rightarrow> j | None \<Rightarrow> JNull))"

definition is_json_true :: "json option \<Rightarrow> bool" where
  "is_json_true v \<longleftrightarrow> v = Some (JBool True)"

text \<open>A row without \<open>channel_info\<close> makes the function throw.\<close>

definition transformChannelToFormDefaults :: "channel \<Rightarrow> channel_form option" where
  "transformChannelToFormDefaults ch =
     (case ch_channel_info ch of
        None \<Rightarrow> None
      | Some info \<Rightarrow>
          (let extra = json_get (parsed_settings (text_or (ch_setting ch)));
               other = json_get (parsed_settings (ch_settings ch))
           in Some
              \<lparr>fm_name = ch_name ch, fm_type = ch_type ch, fm_base_url = text_or (ch_base_url ch), fm_key = [],
               fm_openai_organization = text_or (ch_openai_organization ch), fm_models = ch_models ch,
               fm_group = parseGroups (if ch_group ch = [] then ''default'' else ch_group ch),
               fm_model_mapping = text_or (ch_model_mapping ch),
               fm_priority = Some (case ch_priority ch of Some p \<Rightarrow> p | None \<Rightarrow> 0),
               fm_weight = Some (case ch_weight ch of Some w \<Rightarrow> w | None \<Rightarrow> 0),
               fm_test_model = text_or (ch_test_model ch),
               fm_auto_ban = Some (case ch_auto_ban ch of Some a \<Rightarrow> a | None \<Rightarrow> 1),
               fm_status = ch_status ch, fm_status_code_mapping = text_or (ch_status_code_mapping ch),
               fm_tag = text_or (ch_tag ch), fm_remark = ch_remark ch, fm_setting = text_or (ch_setting ch),
               fm_param_override = text_or (ch_param_override ch), fm_header_override = text_or (ch_header_override ch),
               fm_settings = (if ch_settings ch = [] then ''{}'' else ch_settings ch), fm_other = ch_other ch,
               fm_multi_key_mode = SingleKey, fm_multi_key_type = ci_multi_key_mode info,
               fm_batch_add_set_key_prefix_2_name = False, fm_key_mode = AppendKeys,
               fm_force_format = json_or (extra ''force_format'') (JBool False),
               fm_thinking_to_content = json_or (extra ''thinking_to_content'') (JBool False),
               fm_proxy = json_or (extra ''proxy'') (JStr []),
               fm_pass_through_body_enabled = json_or (extra ''pass_through_body_enabled'') (JBool False),
               fm_system_prompt = json_or (extra ''system_prompt'') (JStr []),
               fm_system_prompt_override = json_or (extra ''system_prompt_override'') (JBool False),
               fm_is_enterprise_account = is_json_true (other ''openrouter_enterprise''),
               fm_vertex_key_type = json_or (other ''vertex_key_type'') (JStr ''json''),
               fm_aws_key_type = json_or (other ''aws_key_type'') (JStr ''ak_sk''),
               fm_azure_responses_version = json_or (other ''azure_responses_version'') (JStr []),
               fm_allow_service_tier = is_json_true (other ''allow_service_tier''),
               fm_disable_store = is_json_true (other ''disable_store''),
               fm_allow_safety_identifier = is_json_true (other ''allow_safety_identifier''),
               fm_allow_include_obfuscation = is_json_true (other ''allow_include_obfuscation''),
               fm_allow_inference_geo = is_json_true (other ''allow_inference_geo''),
               fm_allow_speed = is_json_true (other ''allow_speed''),
               fm_claude_beta_query = is_json_true (other ''claude_beta_query''),
               fm_upstream_check_enabled = is_json_true (other ''upstream_model_update_check_enabled''),
               fm_upstream_auto_sync_enabled = is_json_true (other ''upstream_model_update_auto_sync_enabled''),
               fm_upstream_ignored_models =
                 (case other ''upstream_model_update_ignored_models'' of
                    Some (JArr items) \<Rightarrow> js_to_string (JArr items) | _ \<Rightarrow> [])\<rparr>))"

section \<open>Payloads\<close>

definition buildSettingJSON :: "channel_form \<Rightarrow> jsstring" where
  "buildSettingJSON f = json_stringify (JObj
     [(''force_format'', json_or (Some (fm_force_format f)) (JBool False)),
      (''thinking_to_content'', json_or (Some (fm_thinking_to_content f)) (JBool False)),
      (''proxy'', json_or (Some (fm_proxy f)) (JStr [])),
      (''pass_through_body_enabled'', json_or (Some (fm_pass_through_body_enabled f)) (JBool False)),
      (''system_prompt'', json_or (Some (fm_system_prompt f)) (JStr [])),
      (''system_prompt_override'', json_or (Some (fm_system_prompt_override f)) (JBool False))])"

definition MODEL_FETCHABLE_TYPES :: "int list" where
  "MODEL_FETCHABLE_TYPES = [1, 4, 14, 17, 20, 23, 24, 25, 26, 27, 31, 34, 35, 40, 42, 43, 47, 48]"

text \<open>A setting is written or, if present, deleted.\<close>

definition put_setting :: "bool \<Rightarrow> jsstring \<Rightarrow> json \<Rightarrow> (jsstring \<times> json) list \<Rightarrow> (jsstring \<times> json) list" where
  "put_setting b k v obj = (if b then obj_set obj k v else obj_delete obj k)"

definition ignored_models :: "channel_form \<Rightarrow> jsstring list" where
  "ignored_models f =
     uniq (filter (\<lambda>m. m \<noteq> []) (map js_trim (split_on (CHR '','') (fm_upstream_ignored_models f))))"

fun is_json_array :: "json option \<Rightarrow> bool" where
  "is_json_array (Some (JArr _)) \<longleftrightarrow> True"
| "is_json_array _ \<longleftrightarrow> False"

fun is_json_number :: "json option \<Rightarrow> bool" where
  "is_json_number (Some (JNum _)) \<longleftrightarrow> True"
| "is_json_number _ \<longleftrightarrow> False"

text \<open>The settings of types that can fetch their models.\<close>

definition upstream_settings :: "channel_form \<Rightarrow> (jsstring \<times> json) list \<Rightarrow> (jsstring \<times> json) list" where
  "upstream_settings f obj =
     (let o1 = obj_set obj ''upstream_model_update_check_enabled'' (JBool (fm_upstream_check_enabled f));
          check = is_json_true (map_of o1 ''upstream_model_update_check_enabled'');
          o2 = obj_set o1 ''upstream_model_update_auto_sync_enabled'' (JBool (check \<and> fm_upstream_auto_sync_enabled f));
          o3 = obj_set o2 ''upstream_model_update_ignored_models'' (JArr (map JStr (ignored_models f)));
          o4 = (if \<not> is_json_array (map_of o3 ''upstream_model_update_last_detected_models'') \<or> \<not> check
                then obj_set o3 ''upstream_model_update_last_detected_models'' (JArr []) else o3)
      in if \<not> is_json_number (map_of o4 ''upstream_model_update_last_check_time'')
         then obj_set o4 ''upstream_model_update_last_check_time'' (JNum (JDec 0 0)) else o4)"

definition settings_object :: "channel_form \<Rightarrow> (jsstring \<times> json) list \<Rightarrow> (jsstring \<times> json) list" where
  "settings_object f obj =
     (let t = fm_type f;
          s1 = put_setting (t = 41) ''vertex_key_type'' (json_or (Some (fm_vertex_key_type f)) (JStr ''json'')) obj;
          s2 = put_setting (t = 3 \<and> truthy (fm_azure_responses_version f)) ''azure_responses_version''
                 (fm_azure_responses_version f) s1;
          s3 = put_setting (t = 20) ''openrouter_enterprise'' (JBool (fm_is_enterprise_account f)) s2;
          s4 = put_setting (t = 33) ''aws_key_type'' (json_or (Some (fm_aws_key_type f)) (JStr ''ak_sk'')) s3;
          s5 = put_setting (t = 1 \<or> t = 14) ''allow_service_tier'' (JBool (fm_allow_service_tier f)) s4;
          s6 = put_setting (t = 1) ''disable_store'' (JBool (fm_disable_store f)) s5;
          s7 = put_setting (t = 1) ''allow_safety_identifier'' (JBool (fm_allow_safety_identifier f)) s6;
          s8 = put_setting (t = 1) ''allow_include_obfuscation'' (JBool (fm_allow_include_obfuscation f)) s7;
          s9 = (if t = 14 then s8
                else put_setting (t = 1) ''allow_inference_geo'' (JBool (fm_allow_inference_geo f)) s8);
          s10 = (if t = 14 then obj_set s9 ''allow_inference_geo'' (JBool (fm_allow_inference_geo f)) else s9);
          s11 = put_setting (t = 14) ''allow_speed'' (JBool (fm_allow_speed f)) s10;
          s12 = put_setting (t = 14) ''claude_beta_query'' (JBool (fm_claude_beta_query f)) s11
      in if t \<in> set MODEL_FETCHABLE_TYPES then upstream_settings f s12 else s12)"

text \<open>Assigning a property of a primitive throws; the named properties of an array are not printed.\<close>

datatype form_error = SettingsNotObject

definition buildSettingsJSON :: "channel_form \<Rightarrow> form_error + jsstring" where
  "buildSettingsJSON f =
     (case (if fm_settings f \<noteq> [] \<and> fm_settings f \<noteq> ''{}''
            then (case json_parse (fm_settings f) of Some j \<Rightarrow> j | None \<Rightarrow> JObj []) else JObj []) of
        JObj kvs \<Rightarrow> Inr (json_stringify (JObj (settings_object f kvs)))
      | JArr xs \<Rightarrow> Inr (json_stringify (JArr xs))
      | _ \<Rightarrow> Inl SettingsNotObject)"

text \<open>\<open>value.replace(/\/+$/, '')\<close> after trimming.\<close>

definition normalizeBaseUrl :: "jsstring \<Rightarrow> jsstring" where
  "normalizeBaseUrl value = rev (dropWhile (\<lambda>c. c = CHR ''/'') (rev (js_trim value)))"

definition text_or_null :: "jsstring \<Rightarrow> json" where
  "text_or_null s = (if s = [] then JNull else JStr s)"

definition number_json :: "int \<Rightarrow> json" where
  "number_json i = JNum (num_of_int i)"

definition number_or_null :: "int option \<Rightarrow> json" where
  "number_or_null n = (case n of Some i \<Rightarrow> if i = 0 then JNull else number_json i | None \<Rightarrow> JNull)"

text \<open>\<open>Object.keys(channel).forEach(...)\<close>: an empty text becomes \<open>null\<close>.\<close>

definition empty_to_null :: "(jsstring \<times> json) list \<Rightarrow> (jsstring \<times> json) list" where
  "empty_to_null obj = map (\<lambda>(k, v). (k, if v = JStr [] then JNull else v)) obj"

definition status_entry :: "channel_form \<Rightarrow> (jsstring \<times> json) list" where
  "status_entry f = (case fm_status f of Some s \<Rightarrow> [(''status'', number_json s)] | None \<Rightarrow> [])"

definition create_channel :: "channel_form \<Rightarrow> jsstring \<Rightarrow> (jsstring \<times> json) list" where
  "create_channel f settings =
     [(''name'', JStr (fm_name f)), (''type'', number_json (fm_type f)),
      (''base_url'', text_or_null (normalizeBaseUrl (fm_base_url f))), (''key'', JStr (fm_key f)),
      (''openai_organization'', text_or_null (fm_openai_organization f)), (''models'', JStr (fm_models f)),
      (''group'', JStr (formatGroups (fm_group f))), (''model_mapping'', text_or_null (fm_model_mapping f)),
      (''priority'', number_or_null (fm_priority f)), (''weight'', number_or_null (fm_weight f)),
      (''test_model'', text_or_null (fm_test_model f)),
      (''auto_ban'', number_json (case fm_auto_ban f of Some a \<Rightarrow> a | None \<Rightarrow> 1))] @ status_entry f @
     [(''status_code_mapping'', text_or_null (fm_status_code_mapping f)), (''tag'', text_or_null (fm_tag f)),
      (''remark'', JStr (fm_remark f)), (''setting'', JStr (buildSettingJSON f)),
      (''param_override'', text_or_null (fm_param_override f)), (''header_override'', text_or_null (fm_header_override f)),
      (''settings'', JStr settings), (''other'', JStr (fm_other f))]"

definition key_type_text :: "multi_key_mode \<Rightarrow> jsstring" where
  "key_type_text m = (case m of Random \<Rightarrow> ''random'' | Polling \<Rightarrow> ''polling'')"

definition add_mode_text :: "add_mode \<Rightarrow> jsstring" where
  "add_mode_text m = (case m of SingleKey \<Rightarrow> ''single'' | BatchKeys \<Rightarrow> ''batch'' | MultiToSingle \<Rightarrow> ''multi_to_single'')"

definition transformFormDataToCreatePayload :: "channel_form \<Rightarrow> form_error + json" where
  "transformFormDataToCreatePayload f =
     (case buildSettingsJSON f of
        Inl e \<Rightarrow> Inl e
      | Inr settings \<Rightarrow>
          Inr (JObj ([(''mode'', JStr (add_mode_text (fm_multi_key_mode f)))] @
            (if fm_multi_key_mode f = MultiToSingle then [(''multi_key_mode'', JStr (key_type_text (fm_multi_key_type f)))] else []) @
            (if fm_multi_key_mode f = BatchKeys
             then [(''batch_add_set_key_prefix_2_name'', JBool (fm_batch_add_set_key_prefix_2_name f))] else []) @
            [(''channel'', JObj (empty_to_null (create_channel f settings)))])))"

definition update_channel :: "channel_form \<Rightarrow> json \<Rightarrow> jsstring \<Rightarrow> (jsstring \<times> json) list" where
  "update_channel f channelId settings =
     [(''id'', channelId), (''name'', JStr (fm_name f)), (''type'', number_json (fm_type f)),
      (''base_url'', text_or_null (normalizeBaseUrl (fm_base_url f))),
      (''openai_organization'', text_or_null (fm_openai_organization f)), (''models'', JStr (fm_models f)),
      (''group'', JStr (formatGroups (fm_group f))), (''model_mapping'', text_or_null (fm_model_mapping f)),
      (''priority'', number_json (case fm_priority f of Some p \<Rightarrow> p | None \<Rightarrow> 0)),
      (''weight'', number_json (case fm_weight f of Some w \<Rightarrow> w | None \<Rightarrow> 0)),
      (''test_model'', text_or_null (fm_test_model f)),
      (''auto_ban'', number_json (case fm_auto_ban f of Some a \<Rightarrow> a | None \<Rightarrow> 1))] @ status_entry f @
     [(''status_code_mapping'', text_or_null (fm_status_code_mapping f)), (''tag'', text_or_null (fm_tag f)),
      (''remark'', JStr (fm_remark f)), (''setting'', JStr (buildSettingJSON f)),
      (''param_override'', text_or_null (fm_param_override f)), (''header_override'', text_or_null (fm_header_override f)),
      (''settings'', JStr settings), (''other'', JStr (fm_other f))] @
     (if js_trim (fm_key f) \<noteq> [] then [(''key'', JStr (fm_key f))] else [])"

text \<open>The explicit empty texts that let an update clear a field.\<close>

definition clear_fields :: "channel_form \<Rightarrow> (jsstring \<times> json) list \<Rightarrow> (jsstring \<times> json) list" where
  "clear_fields f obj = foldl (\<lambda>o' (k, v). obj_set o' k (JStr v)) obj
     [(''base_url'', normalizeBaseUrl (fm_base_url f)), (''openai_organization'', fm_openai_organization f),
      (''test_model'', fm_test_model f), (''tag'', fm_tag f), (''remark'', fm_remark f),
      (''model_mapping'', fm_model_mapping f), (''status_code_mapping'', fm_status_code_mapping f),
      (''param_override'', fm_param_override f), (''header_override'', fm_header_override f)]"

definition transformFormDataToUpdatePayload :: "channel_form \<Rightarrow> json \<Rightarrow> form_error + (jsstring \<times> json) list" where
  "transformFormDataToUpdatePayload f channelId =
     (case buildSettingsJSON f of
        Inl e \<Rightarrow> Inl e
      | Inr settings \<Rightarrow> Inr (clear_fields f (empty_to_null (update_channel f channelId settings))))"

end
