(* ===== verification/ChannelDrawer.thy ===== *)
theory ChannelDrawer
  imports ChannelForm ChannelUtils ModelMapping StatusCodeRiskGuard
begin

text \<open>
  The drawer that creates and edits a channel (\<open>channels/components/drawers/channel-mutate-drawer.tsx\<close>) and its mutation
  (\<open>channels/hooks/use-channel-mutate-form.ts\<close>): what it shows about the mapping of models and the settings, the
  effects on the form, the handlers of the model list, and the submission, which asks the guards of the
  status codes and of the mapping before it sends the form. The answers of the two dialogs are arguments
  of the submission; the messages on success are not kept.
\<close>

section \<open>What the drawer shows\<close>

record mapping_guardrail =
  mg_invalidJson :: bool
  mg_entries :: "(jsstring \<times> jsstring) list"
  mg_missingSourceModels :: "jsstring list"
  mg_exposedTargetModels :: "jsstring list"

definition createEmptyModelMappingGuardrail :: mapping_guardrail where
  "createEmptyModelMappingGuardrail =
     \<lparr>mg_invalidJson = False, mg_entries = [], mg_missingSourceModels = [], mg_exposedTargetModels = []\<rparr>"

definition formatModelNames :: "jsstring list \<Rightarrow> jsstring" where
  "formatModelNames models = js_join '', '' (map (\<lambda>m. [CHR 0x22] @ m @ [CHR 0x22]) models)"

definition MODEL_MAPPING_PREVIEW_FALLBACK :: "(jsstring \<times> jsstring) list" where
  "MODEL_MAPPING_PREVIEW_FALLBACK = [(''client-model'', ''upstream-model'')]"

text \<open>\<open>String(rawTarget ?? '').trim()\<close>; an entry with an empty side is left out.\<close>

definition mapping_entry :: "jsstring \<times> json \<Rightarrow> (jsstring \<times> jsstring) option" where
  "mapping_entry kv =
     (let source = js_trim (fst kv); target = js_trim (case snd kv of JNull \<Rightarrow> [] | j \<Rightarrow> js_to_string j)
      in if source = [] \<or> target = [] then None else Some (source, target))"

definition modelMappingGuardrail :: "jsstring \<Rightarrow> jsstring list \<Rightarrow> mapping_guardrail" where
  "modelMappingGuardrail currentModelMapping currentModelsArray =
     (if js_trim currentModelMapping = [] then createEmptyModelMappingGuardrail
      else (case json_object currentModelMapping of
              None \<Rightarrow> createEmptyModelMappingGuardrail\<lparr>mg_invalidJson := True\<rparr>
            | Some parsed \<Rightarrow>
                (let entries = List.map_filter mapping_entry parsed
                 in \<lparr>mg_invalidJson = False, mg_entries = entries,
                     mg_missingSourceModels = uniq (map fst (filter (\<lambda>e. fst e \<noteq> [] \<and> fst e \<notin> set currentModelsArray) entries)),
                     mg_exposedTargetModels = uniq (map snd (filter (\<lambda>e. snd e \<noteq> [] \<and> snd e \<in> set currentModelsArray) entries))\<rparr>)))"

definition mappingPreviewPairs :: "mapping_guardrail \<Rightarrow> (jsstring \<times> jsstring) list" where
  "mappingPreviewPairs g = (if mg_entries g \<noteq> [] then take 3 (mg_entries g) else MODEL_MAPPING_PREVIEW_FALLBACK)"

definition remainingMappingCount :: "mapping_guardrail \<Rightarrow> nat" where
  "remainingMappingCount g = (if length (mg_entries g) > 3 then length (mg_entries g) - 3 else 0)"

definition parseSettingsRecord :: "jsstring \<Rightarrow> (jsstring \<times> json) list" where
  "parseSettingsRecord settings =
     (if js_trim settings = [] then [] else (case json_object settings of Some kvs \<Rightarrow> kvs | None \<Rightarrow> []))"

definition detected_models :: "jsstring \<Rightarrow> jsstring list" where
  "detected_models currentSettings =
     (case map_of (parseSettingsRecord currentSettings) ''upstream_model_update_last_detected_models'' of
        Some (JArr items) \<Rightarrow> uniq (filter (\<lambda>m. m \<noteq> []) (map (\<lambda>m. js_trim (js_or (Some m) [] js_to_string)) items))
      | _ \<Rightarrow> [])"

definition UPSTREAM_DETECTED_MODEL_PREVIEW_LIMIT :: nat where
  "UPSTREAM_DETECTED_MODEL_PREVIEW_LIMIT = 8"

definition upstreamDetectedModelsPreview :: "jsstring \<Rightarrow> jsstring list" where
  "upstreamDetectedModelsPreview s = take UPSTREAM_DETECTED_MODEL_PREVIEW_LIMIT (detected_models s)"

definition upstreamDetectedModelsOmittedCount :: "jsstring \<Rightarrow> nat" where
  "upstreamDetectedModelsOmittedCount s = length (detected_models s) - length (upstreamDetectedModelsPreview s)"

definition hasAdvancedSettingsValues :: "channel_form \<Rightarrow> bool" where
  "hasAdvancedSettingsValues f \<longleftrightarrow>
     js_trim (fm_param_override f) \<noteq> [] \<or> js_trim (fm_header_override f) \<noteq> [] \<or> js_trim (fm_status_code_mapping f) \<noteq> [] \<or>
     js_trim (fm_tag f) \<noteq> [] \<or> js_trim (fm_remark f) \<noteq> [] \<or> fm_priority f \<notin> {None, Some 0} \<or> fm_weight f \<notin> {None, Some 0} \<or>
     js_trim (js_or (Some (fm_proxy f)) [] js_to_string) \<noteq> [] \<or> js_trim (js_or (Some (fm_system_prompt f)) [] js_to_string) \<noteq> [] \<or>
     truthy (fm_force_format f) \<or> truthy (fm_thinking_to_content f) \<or> truthy (fm_pass_through_body_enabled f) \<or>
     truthy (fm_system_prompt_override f) \<or> fm_claude_beta_query f \<or> fm_upstream_check_enabled f \<or>
     fm_upstream_auto_sync_enabled f \<or> js_trim (fm_upstream_ignored_models f) \<noteq> []"

section \<open>State\<close>

text \<open>\<open>dw_row\<close> is the row that is edited, \<open>dw_channel\<close> the channel the service returned for it, \<open>dw_preference\<close>
  whether the storage of the browser has \<open>true\<close> for the key of the advanced section.\<close>

record drawer =
  dw_row :: "channel option"
  dw_channel :: "channel option"
  dw_form :: channel_form
  dw_initialModels :: "jsstring list"
  dw_initialModelMapping :: jsstring
  dw_initialStatusCodeMapping :: jsstring
  dw_advancedOpen :: bool
  dw_preference :: bool
  dw_fetchModelsOpen :: bool

definition isEditing :: "drawer \<Rightarrow> bool" where
  "isEditing d \<longleftrightarrow> dw_row d \<noteq> None"

definition drawer_isMultiKey :: "drawer \<Rightarrow> bool" where
  "drawer_isMultiKey d \<longleftrightarrow> isEditing d \<and>
     (case dw_channel d of Some ch \<Rightarrow> (case ch_channel_info ch of Some i \<Rightarrow> ci_is_multi_key i | None \<Rightarrow> False) | None \<Rightarrow> False)"

definition supportsMultiKeyAddMode :: "channel_form \<Rightarrow> bool" where
  "supportsMultiKeyAddMode f \<longleftrightarrow> fm_type f \<noteq> 57 \<and> \<not> (fm_type f = 41 \<and> fm_vertex_key_type f = JStr ''api_key'')"

section \<open>Effects\<close>

text \<open>The effect that loads the channel into the form. \<^term>\<open>None\<close> is the exception of a channel without
  \<open>channel_info\<close>.\<close>

definition loadChannel :: "drawer \<Rightarrow> drawer option" where
  "loadChannel d =
     (if isEditing d
      then (case dw_channel d of
              None \<Rightarrow> Some d
            | Some ch \<Rightarrow>
                map_option (\<lambda>defaults. d\<lparr>dw_form := defaults,
                    dw_advancedOpen := (dw_preference d \<or> hasAdvancedSettingsValues defaults),
                    dw_initialModels := parseModelsString (ch_models ch),
                    dw_initialModelMapping := text_or (ch_model_mapping ch),
                    dw_initialStatusCodeMapping := text_or (ch_status_code_mapping ch)\<rparr>)
                  (transformChannelToFormDefaults ch))
      else Some (d\<lparr>dw_form := CHANNEL_FORM_DEFAULT_VALUES, dw_advancedOpen := False, dw_initialModels := [],
                   dw_initialModelMapping := [], dw_initialStatusCodeMapping := []\<rparr>))"

definition ark_url :: jsstring where
  "ark_url = ''https://ark.cn-beijing.volces.com''"

text \<open>An effect sees the values of the rendering \<open>r\<close> it belongs to; \<open>form.getValues\<close> and \<open>form.setValue\<close> read and write the
  form \<open>d\<close> as the effects before it have left it.\<close>

definition typeDefaults :: "drawer \<Rightarrow> drawer \<Rightarrow> drawer" where
  "typeDefaults r d =
     (if isEditing r then d
      else (let currentType = fm_type (dw_form r); f = dw_form d;
                f1 = (if currentType = 45 \<and> fm_base_url f = [] then f\<lparr>fm_base_url := ark_url\<rparr> else f);
                f2 = (if currentType = 18 \<and> fm_other f1 = [] then f1\<lparr>fm_other := ''v2.1''\<rparr> else f1)
            in d\<lparr>dw_form := f2\<rparr>))"

definition codingPlanUrl :: "drawer \<Rightarrow> drawer \<Rightarrow> drawer" where
  "codingPlanUrl r d =
     (if fm_type (dw_form r) \<noteq> 45 \<or> fm_base_url (dw_form r) \<noteq> ''doubao-coding-plan'' then d
      else d\<lparr>dw_form := (dw_form d)\<lparr>fm_base_url := ark_url\<rparr>\<rparr>)"

definition singleKeyOnly :: "drawer \<Rightarrow> drawer \<Rightarrow> drawer" where
  "singleKeyOnly r d =
     (if isEditing r \<or> supportsMultiKeyAddMode (dw_form r) then d
      else if fm_multi_key_mode (dw_form r) \<noteq> SingleKey
      then d\<lparr>dw_form := (dw_form d)\<lparr>fm_multi_key_mode := SingleKey\<rparr>\<rparr> else d)"

text \<open>The dependency lists: an effect runs when a value it watches differs from that of the rendering before, and on
  the first rendering. The form object itself never changes.\<close>

definition load_watched :: "drawer \<Rightarrow> bool \<times> channel option" where
  "load_watched r = (isEditing r, dw_channel r)"

definition type_watched :: "drawer \<Rightarrow> int \<times> bool" where
  "type_watched r = (fm_type (dw_form r), isEditing r)"

definition url_watched :: "drawer \<Rightarrow> jsstring \<times> int" where
  "url_watched r = (fm_base_url (dw_form r), fm_type (dw_form r))"

definition mode_watched :: "drawer \<Rightarrow> bool \<times> add_mode \<times> bool" where
  "mode_watched r = (isEditing r, fm_multi_key_mode (dw_form r), supportsMultiKeyAddMode (dw_form r))"

definition watch_changed :: "(drawer \<Rightarrow> 'a) \<Rightarrow> drawer option \<Rightarrow> drawer \<Rightarrow> bool" where
  "watch_changed watched prev r \<longleftrightarrow> (case prev of None \<Rightarrow> True | Some p \<Rightarrow> watched p \<noteq> watched r)"

text \<open>One rendering \<open>r\<close> after the rendering \<open>prev\<close>, with its effects in the order of the source. \<^term>\<open>None\<close> is the exception
  of \<^const>\<open>loadChannel\<close>.\<close>

definition drawer_commit :: "drawer option \<Rightarrow> drawer \<Rightarrow> drawer option" where
  "drawer_commit prev r =
     map_option (\<lambda>d.
        (let d1 = (if watch_changed type_watched prev r then typeDefaults r d else d);
             d2 = (if watch_changed url_watched prev r then codingPlanUrl r d1 else d1)
         in if watch_changed mode_watched prev r then singleKeyOnly r d2 else d2))
       (if watch_changed load_watched prev r then loadChannel r else Some r)"

text \<open>Renderings follow each other: the last one and the drawer its effects have left.\<close>

fun drawer_commits :: "nat \<Rightarrow> drawer option \<Rightarrow> drawer \<Rightarrow> (drawer option \<times> drawer) option" where
  "drawer_commits 0 prev r = Some (prev, r)"
| "drawer_commits (Suc n) prev r = (case drawer_commit prev r of None \<Rightarrow> None | Some d \<Rightarrow> drawer_commits n (Some r) d)"

text \<open>Closing the drawer: the property of the page takes its row away, and with it the channel of the row. A successful
  submission closes it through that property alone.\<close>

definition onOpenChange :: "bool \<Rightarrow> drawer \<Rightarrow> drawer" where
  "onOpenChange v d = (if v then d else d\<lparr>dw_row := None, dw_channel := None\<rparr>)"

definition handleOpenChange :: "bool \<Rightarrow> drawer \<Rightarrow> drawer" where
  "handleOpenChange v d =
     (if v then onOpenChange v d
      else (onOpenChange v d)\<lparr>dw_form := CHANNEL_FORM_DEFAULT_VALUES, dw_advancedOpen := False\<rparr>)"

definition handleSuccess :: "drawer \<Rightarrow> drawer" where
  "handleSuccess d = onOpenChange False d"

section \<open>Handlers\<close>

definition setModels :: "jsstring \<Rightarrow> drawer \<Rightarrow> drawer" where
  "setModels m d = d\<lparr>dw_form := (dw_form d)\<lparr>fm_models := m\<rparr>\<rparr>"

definition currentModelsArray :: "drawer \<Rightarrow> jsstring list" where
  "currentModelsArray d = parseModelsString (fm_models (dw_form d))"

definition handleDeduplicateKeys :: "drawer \<Rightarrow> drawer" where
  "handleDeduplicateKeys d =
     (let result = deduplicateKeys (fm_key (dw_form d))
      in if js_trim (fm_key (dw_form d)) = [] \<or> dr_removedCount result = 0 then d
         else d\<lparr>dw_form := (dw_form d)\<lparr>fm_key := dr_deduplicatedText result\<rparr>\<rparr>)"

definition updateModels :: "jsstring list \<Rightarrow> bool \<Rightarrow> drawer \<Rightarrow> drawer" where
  "updateModels newModels merge d =
     setModels (if merge then formatModelsArray (currentModelsArray d @ newModels) else formatModelsArray newModels) d"

text \<open>\<open>allModels\<close> are the identifiers the service lists.\<close>

definition starts_with :: "jsstring \<Rightarrow> jsstring \<Rightarrow> bool" where
  "starts_with s p \<longleftrightarrow> take (length p) s = p"

definition basicModels :: "jsstring list \<Rightarrow> int \<Rightarrow> jsstring list" where
  "basicModels allModels currentType =
     (if allModels = [] then []
      else if currentType = 1 then filter (\<lambda>m. starts_with m ''gpt-'' \<or> starts_with m ''text-'') allModels else allModels)"

definition handleFillRelatedModels :: "jsstring list \<Rightarrow> drawer \<Rightarrow> drawer" where
  "handleFillRelatedModels allModels d =
     (let basic = basicModels allModels (fm_type (dw_form d)) in if basic = [] then d else updateModels basic False d)"

definition handleFillAllModels :: "jsstring list \<Rightarrow> drawer \<Rightarrow> drawer" where
  "handleFillAllModels allModels d = (if allModels = [] then d else updateModels allModels False d)"

definition handleClearModels :: "drawer \<Rightarrow> drawer" where
  "handleClearModels = setModels []"

definition handleModelsChange :: "jsstring list \<Rightarrow> drawer \<Rightarrow> drawer" where
  "handleModelsChange selected = setModels (js_join '','' selected)"

definition handleAdvancedSettingsOpenChange :: "bool \<Rightarrow> drawer \<Rightarrow> drawer" where
  "handleAdvancedSettingsOpenChange nextOpen d = d\<lparr>dw_advancedOpen := nextOpen, dw_preference := nextOpen\<rparr>"

definition onInvalid :: "form_issue list \<Rightarrow> drawer \<Rightarrow> drawer" where
  "onInvalid errors d = (if hasAdvancedSettingsErrors errors then handleAdvancedSettingsOpenChange True d else d)"

definition handleFetchModels :: "drawer \<Rightarrow> drawer" where
  "handleFetchModels d =
     (if fm_type (dw_form d) \<notin> set MODEL_FETCHABLE_TYPES then d
      else if \<not> isEditing d \<and> js_trim (fm_key (dw_form d)) = [] then d
      else d\<lparr>dw_fetchModelsOpen := True\<rparr>)"

definition onModelsSelected :: "jsstring list \<Rightarrow> drawer \<Rightarrow> drawer" where
  "onModelsSelected models = setModels (formatModelsArray models)"

text \<open>The items of a group are names or the text of an array, whose values need not be texts. A JavaScript set
  compares objects by identity, so no two objects or arrays of the text are the same member.\<close>

datatype prefill_items = ItemList "jsstring list" | ItemText jsstring

fun set_members :: "json list \<Rightarrow> json list \<Rightarrow> json list" where
  "set_members seen [] = []"
| "set_members seen (JArr xs # js) = JArr xs # set_members seen js"
| "set_members seen (JObj kvs # js) = JObj kvs # set_members seen js"
| "set_members seen (j # js) = (if j \<in> set seen then set_members seen js else j # set_members (j # seen) js)"

definition handleAddPrefillGroup :: "prefill_items \<Rightarrow> drawer \<Rightarrow> drawer" where
  "handleAddPrefillGroup items d =
     (case items of
        ItemList models \<Rightarrow> updateModels models True d
      | ItemText s \<Rightarrow>
          (case json_parse s of
             Some (JArr js) \<Rightarrow>
               setModels (js_to_string (JArr (set_members [] (map JStr (currentModelsArray d) @ js)))) d
           | _ \<Rightarrow> d))"

section \<open>Submission\<close>

datatype save_request = UpdateRequest row_id "(jsstring \<times> json) list" | CreateRequest json

definition row_id_json :: "row_id \<Rightarrow> json" where
  "row_id_json i = (case i of NumId n \<Rightarrow> number_json n | TagId t \<Rightarrow> JStr t)"

definition key_mode_text :: "key_mode \<Rightarrow> jsstring" where
  "key_mode_text m = (case m of AppendKeys \<Rightarrow> ''append'' | ReplaceKeys \<Rightarrow> ''replace'')"

text \<open>The request of the mutation.\<close>

definition mutationRequest :: "drawer \<Rightarrow> channel_form \<Rightarrow> form_error + save_request" where
  "mutationRequest d data =
     (case dw_row d of
        Some row \<Rightarrow>
          (case transformFormDataToUpdatePayload data (row_id_json (ch_id row)) of
             Inl e \<Rightarrow> Inl e
           | Inr payload \<Rightarrow> Inr (UpdateRequest (ch_id row)
               (if drawer_isMultiKey d then obj_set payload ''key_mode'' (JStr (key_mode_text (fm_key_mode data))) else payload)))
      | None \<Rightarrow> (case transformFormDataToCreatePayload data of Inl e \<Rightarrow> Inl e | Inr j \<Rightarrow> Inr (CreateRequest j)))"

datatype missing_action = CancelSubmit | SubmitAnyway | AddMissing

datatype submit_result = KeyRequired | InvalidEntries "jsstring list" | RiskDeclined | MappingInvalid mapping_error
  | MissingDeclined | Submitted save_request channel_form | SubmitThrows form_error

definition new_risks :: "drawer \<Rightarrow> channel_form \<Rightarrow> jsstring list" where
  "new_risks d data =
     (if js_trim (fm_status_code_mapping data) = [] then []
      else collectNewDisallowedStatusCodeRedirects (dw_initialStatusCodeMapping d) (fm_status_code_mapping data))"

definition missing_prompt :: "drawer \<Rightarrow> channel_form \<Rightarrow> jsstring list" where
  "missing_prompt d data =
     (let normalizedModels = parseModelsString (fm_models data);
          missing = findMissingModelsInMapping (fm_model_mapping data) normalizedModels
      in if js_trim (fm_model_mapping data) \<noteq> [] \<and> missing \<noteq> [] \<and>
           hasModelConfigChanged normalizedModels (fm_model_mapping data) (dw_initialModels d) (dw_initialModelMapping d)
         then missing else [])"

definition onSubmit :: "(jsstring list \<Rightarrow> bool) \<Rightarrow> (jsstring list \<Rightarrow> missing_action) \<Rightarrow> drawer \<Rightarrow> submit_result" where
  "onSubmit confirmRisk confirmMissing d =
     (let data = dw_form d;
          hasModelMapping = (js_trim (fm_model_mapping data) \<noteq> []);
          invalidEntries = collectInvalidStatusCodeEntries (fm_status_code_mapping data);
          send = (\<lambda>data. case mutationRequest d data of Inl e \<Rightarrow> SubmitThrows e | Inr r \<Rightarrow> Submitted r data);
          missing = missing_prompt d data
      in if \<not> isEditing d \<and> js_trim (fm_key data) = [] then KeyRequired
         else if js_trim (fm_status_code_mapping data) \<noteq> [] \<and> invalidEntries \<noteq> [] then InvalidEntries invalidEntries
         else if new_risks d data \<noteq> [] \<and> \<not> confirmRisk (new_risks d data) then RiskDeclined
         else (case (if hasModelMapping then validateModelMappingJson (fm_model_mapping data) else Inr ()) of
                 Inl e \<Rightarrow> MappingInvalid e
               | Inr _ \<Rightarrow>
                   if missing = [] then send data
                   else (case confirmMissing missing of
                           CancelSubmit \<Rightarrow> MissingDeclined
                         | SubmitAnyway \<Rightarrow> send data
                         | AddMissing \<Rightarrow> send (data\<lparr>fm_models :=
                             formatModelsArray (uniq (parseModelsString (fm_models data) @ missing))\<rparr>))))"

end
