(* ===== verification/ChannelFormProofs.thy ===== *)
theory ChannelFormProofs
  imports ChannelDrawer
begin

text \<open>
  Properties of the channel form: the settings it writes, that a saved form reopens as it was, and that
  a submission passes every guard.
\<close>

section \<open>Settings as a list of edits\<close>

text \<open>A setting is put to a value or removed.\<close>

definition edit_setting :: "(jsstring \<times> json) list \<Rightarrow> jsstring \<times> json option \<Rightarrow> (jsstring \<times> json) list" where
  "edit_setting obj e = (case snd e of Some v \<Rightarrow> obj_set obj (fst e) v | None \<Rightarrow> obj_delete obj (fst e))"

definition apply_settings :: "(jsstring \<times> json option) list \<Rightarrow> (jsstring \<times> json) list \<Rightarrow> (jsstring \<times> json) list" where
  "apply_settings es obj = foldl edit_setting obj es"

lemma map_of_edit: "map_of (edit_setting obj e) = (map_of obj)(fst e := snd e)"
  by (auto simp: edit_setting_def map_of_obj_set map_of_obj_delete split: option.split)

lemma map_of_apply:
  "distinct (map fst es) \<Longrightarrow> map_of (apply_settings es obj) k = (case map_of es k of Some v \<Rightarrow> v | None \<Rightarrow> map_of obj k)"
proof (induction es arbitrary: obj)
  case (Cons e es)
  have "k = fst e \<Longrightarrow> map_of es k = None" using Cons.prems by (simp add: map_of_eq_None_iff)
  with Cons show ?case by (cases e) (auto simp: apply_settings_def map_of_edit split: option.split)
qed (simp add: apply_settings_def)

lemma apply_settled: "\<forall>e \<in> set es. map_of obj (fst e) = snd e \<Longrightarrow> apply_settings es obj = obj"
  by (induction es) (auto simp: apply_settings_def edit_setting_def obj_set_same obj_delete_absent split: option.split)

lemma apply_idem:
  assumes "distinct (map fst es)"
  shows "apply_settings es (apply_settings es obj) = apply_settings es obj"
  by (rule apply_settled) (use assms in \<open>auto simp: map_of_apply\<close>)

lemma apply_wf:
  assumes "json_wf (JObj obj)" "\<forall>e \<in> set es. \<not> is_array_index (fst e) \<and> (\<forall>v. snd e = Some v \<longrightarrow> json_wf v)"
  shows "json_wf (JObj (apply_settings es obj))"
  using assms
proof (induction es arbitrary: obj)
  case (Cons e es)
  then have "json_wf (JObj (edit_setting obj e))"
    using json_wf_set json_wf_delete by (auto simp: edit_setting_def simp del: json_wf.simps split: option.split)
  then show ?case using Cons by (simp add: apply_settings_def del: json_wf.simps)
qed (simp add: apply_settings_def)

text \<open>The settings that depend on the type of the channel.\<close>

definition type_settings :: "channel_form \<Rightarrow> (jsstring \<times> json option) list" where
  "type_settings f =
     (let t = fm_type f; only = (\<lambda>b v. if b then Some v else None) in
      [(''vertex_key_type'', only (t = 41) (json_or (Some (fm_vertex_key_type f)) (JStr ''json''))),
       (''azure_responses_version'', only (t = 3 \<and> truthy (fm_azure_responses_version f)) (fm_azure_responses_version f)),
       (''openrouter_enterprise'', only (t = 20) (JBool (fm_is_enterprise_account f))),
       (''aws_key_type'', only (t = 33) (json_or (Some (fm_aws_key_type f)) (JStr ''ak_sk''))),
       (''allow_service_tier'', only (t \<in> {1, 14}) (JBool (fm_allow_service_tier f))),
       (''disable_store'', only (t = 1) (JBool (fm_disable_store f))),
       (''allow_safety_identifier'', only (t = 1) (JBool (fm_allow_safety_identifier f))),
       (''allow_include_obfuscation'', only (t = 1) (JBool (fm_allow_include_obfuscation f))),
       (''allow_inference_geo'', only (t \<in> {1, 14}) (JBool (fm_allow_inference_geo f))),
       (''allow_speed'', only (t = 14) (JBool (fm_allow_speed f))),
       (''claude_beta_query'', only (t = 14) (JBool (fm_claude_beta_query f)))])"

text \<open>The settings of the model updates: what the service detected is kept while the check is on.\<close>

definition update_settings :: "channel_form \<Rightarrow> (jsstring \<rightharpoonup> json) \<Rightarrow> (jsstring \<times> json option) list" where
  "update_settings f old =
     (if fm_type f \<in> set MODEL_FETCHABLE_TYPES
      then [(''upstream_model_update_check_enabled'', Some (JBool (fm_upstream_check_enabled f))),
            (''upstream_model_update_auto_sync_enabled'',
             Some (JBool (fm_upstream_check_enabled f \<and> fm_upstream_auto_sync_enabled f))),
            (''upstream_model_update_ignored_models'', Some (JArr (map JStr (ignored_models f)))),
            (''upstream_model_update_last_detected_models'',
             let d = old ''upstream_model_update_last_detected_models''
             in if fm_upstream_check_enabled f \<and> is_json_array d then d else Some (JArr [])),
            (''upstream_model_update_last_check_time'',
             let c = old ''upstream_model_update_last_check_time'' in if is_json_number c then c else Some (JNum (JDec 0 0)))]
      else [])"

definition managed :: "channel_form \<Rightarrow> (jsstring \<rightharpoonup> json) \<Rightarrow> (jsstring \<times> json option) list" where
  "managed f old = type_settings f @ update_settings f old"

lemma put_setting_edit: "put_setting b k v obj = edit_setting obj (k, if b then Some v else None)"
  by (simp add: put_setting_def edit_setting_def)

definition managed_keys :: "jsstring list" where
  "managed_keys = [''vertex_key_type'', ''azure_responses_version'', ''openrouter_enterprise'', ''aws_key_type'', ''allow_service_tier'',
     ''disable_store'', ''allow_safety_identifier'', ''allow_include_obfuscation'', ''allow_inference_geo'', ''allow_speed'',
     ''claude_beta_query'', ''upstream_model_update_check_enabled'', ''upstream_model_update_auto_sync_enabled'',
     ''upstream_model_update_ignored_models'', ''upstream_model_update_last_detected_models'',
     ''upstream_model_update_last_check_time'']"

lemma managed_fst: "map fst (managed f old) = take (if fm_type f \<in> set MODEL_FETCHABLE_TYPES then 16 else 11) managed_keys"
  by (simp add: managed_def type_settings_def update_settings_def managed_keys_def Let_def)

lemma managed_distinct: "distinct (map fst (managed f old))"
proof -
  have "distinct managed_keys" by code_simp
  then show ?thesis by (simp add: managed_fst distinct_take)
qed

lemma managed_names: "e \<in> set (managed f old) \<Longrightarrow> \<not> is_array_index (fst e)"
proof -
  assume "e \<in> set (managed f old)"
  then have "fst e \<in> set (map fst (managed f old))" by simp
  then have "fst e \<in> set managed_keys" unfolding managed_fst by (rule in_set_takeD)
  moreover have "list_all (\<lambda>k. \<not> is_array_index k) managed_keys" by code_simp
  ultimately show ?thesis by (simp add: list_all_iff)
qed

lemma upstream_edits:
  assumes "fm_type f \<in> set MODEL_FETCHABLE_TYPES"
  shows "upstream_settings f obj = apply_settings (update_settings f (map_of obj)) obj"
proof -
  let ?check = "fm_upstream_check_enabled f" and ?det = "''upstream_model_update_last_detected_models''"
    and ?time = "''upstream_model_update_last_check_time''"
  define o1 where "o1 = obj_set obj ''upstream_model_update_check_enabled'' (JBool ?check)"
  define o3 where "o3 = obj_set (obj_set o1 ''upstream_model_update_auto_sync_enabled'' (JBool (?check \<and> fm_upstream_auto_sync_enabled f)))
    ''upstream_model_update_ignored_models'' (JArr (map JStr (ignored_models f)))"
  define o4 where "o4 = (if \<not> is_json_array (map_of o3 ?det) \<or> \<not> ?check then obj_set o3 ?det (JArr []) else o3)"
  have check: "is_json_true (map_of o1 ''upstream_model_update_check_enabled'') = ?check"
    by (simp add: o1_def map_of_obj_set is_json_true_def)
  have keep: "map_of o3 ?det = map_of obj ?det" "map_of o4 ?time = map_of obj ?time"
    by (simp_all add: o4_def o3_def o1_def map_of_obj_set)
  have up: "upstream_settings f obj = (if \<not> is_json_number (map_of o4 ?time) then obj_set o4 ?time (JNum (JDec 0 0)) else o4)"
    unfolding upstream_settings_def Let_def o1_def [symmetric] check o3_def [symmetric] o4_def [symmetric] ..
  have same: "map_of m k = d \<Longrightarrow> is_json_array d \<or> is_json_number d \<Longrightarrow> edit_setting m (k, d) = m" for m k d
    by (cases d) (simp_all add: edit_setting_def obj_set_same)
  have put: "edit_setting m (k, Some v) = obj_set m k v" for m k v by (simp add: edit_setting_def)
  have e4: "o4 = edit_setting o3 (?det, let d = map_of obj ?det in if ?check \<and> is_json_array d then d else Some (JArr []))"
    using same [of o3 ?det "map_of obj ?det"] keep(1) by (auto simp: o4_def put [of o3] Let_def)
  have "upstream_settings f obj =
      edit_setting o4 (?time, let c = map_of obj ?time in if is_json_number c then c else Some (JNum (JDec 0 0)))"
    using same [of o4 ?time "map_of obj ?time"] keep(2) by (auto simp: up put [of o4] Let_def)
  also have "\<dots> = apply_settings (update_settings f (map_of obj)) obj"
    unfolding e4 o3_def o1_def
    by (simp add: update_settings_def assms apply_settings_def put)
  finally show ?thesis .
qed

lemma geo_edit:
  "(if t = 14 then obj_set (if t = 14 then s else put_setting (t = 1) k v s) k v
    else if t = 14 then s else put_setting (t = 1) k v s) = edit_setting s (k, if t = 1 \<or> t = 14 then Some v else None)"
  for t :: int
  by (simp add: put_setting_def edit_setting_def)

lemma type_edits:
  "settings_object f obj =
   (let s = apply_settings (type_settings f) obj in if fm_type f \<in> set MODEL_FETCHABLE_TYPES then upstream_settings f s else s)"
  unfolding settings_object_def Let_def
  unfolding geo_edit
  unfolding put_setting_edit
  by (simp only: type_settings_def apply_settings_def Let_def foldl.simps insert_iff empty_iff simp_thms)

lemma type_settings_apart:
  "map_of (type_settings f) ''upstream_model_update_last_detected_models'' = None"
  "map_of (type_settings f) ''upstream_model_update_last_check_time'' = None"
  by (simp_all add: type_settings_def Let_def)

lemma settings_edits: "settings_object f obj = apply_settings (managed f (map_of obj)) obj"
proof -
  let ?s = "apply_settings (type_settings f) obj"
  have "distinct (map fst (type_settings f))" using managed_distinct [of f Map.empty] by (simp add: managed_def)
  then have "update_settings f (map_of ?s) = update_settings f (map_of obj)"
    by (simp add: update_settings_def map_of_apply type_settings_apart)
  moreover have "settings_object f obj = apply_settings (update_settings f (map_of ?s)) ?s"
    using upstream_edits [of f ?s] by (simp add: type_edits Let_def) (simp add: update_settings_def apply_settings_def)
  ultimately show ?thesis by (simp add: managed_def apply_settings_def)
qed

lemma managed_wf:
  assumes "form_typed f" "json_wf (JObj obj)" "e \<in> set (managed f (map_of obj))" "snd e = Some v"
  shows "json_wf v"
proof -
  have old: "json_wf w" if "map_of obj k = Some w" for k w
    using that assms(2) by (auto simp: list_all_iff dest: map_of_SomeD)
  have t: "json_wf (fm_vertex_key_type f)" "json_wf (fm_aws_key_type f)" "json_wf (fm_azure_responses_version f)"
    using assms(1) by (cases "fm_azure_responses_version f"; auto simp: form_typed_def)+
  have "e \<in> set (type_settings f) \<or> e \<in> set (update_settings f (map_of obj))" using assms(3) by (simp add: managed_def)
  then show ?thesis
  proof
    assume "e \<in> set (type_settings f)"
    with assms(4) t show ?thesis by (auto simp: type_settings_def Let_def json_or_def js_or_def split: if_splits)
  next
    assume "e \<in> set (update_settings f (map_of obj))"
    with assms(4) old show ?thesis by (auto simp: update_settings_def Let_def list_all_iff split: if_splits)
  qed
qed

lemma settings_object_wf: "form_typed f \<Longrightarrow> json_wf (JObj obj) \<Longrightarrow> json_wf (JObj (settings_object f obj))"
  unfolding settings_edits by (rule apply_wf) (use managed_wf managed_names in \<open>auto simp del: json_wf.simps\<close>)

section \<open>Reading the settings back\<close>

text \<open>The object a form edits: the settings it was loaded with.\<close>

definition old_settings :: "channel_form \<Rightarrow> (jsstring \<times> json) list" where
  "old_settings f = json_entries (fm_settings f)"

lemma old_settings_wf: "json_wf (JObj (old_settings f))"
proof (cases "json_object (fm_settings f)")
  case None
  then show ?thesis by (simp add: old_settings_def json_entries_def obj_wf_def obj_order_def)
next
  case (Some kvs)
  then show ?thesis using json_object_wf [OF Some] by (simp add: old_settings_def json_entries_def)
qed

lemma build_settings:
  assumes "isOptionalJsonObject (fm_settings f)"
  shows "buildSettingsJSON f = Inr (json_stringify (JObj (settings_object f (old_settings f))))"
proof (cases "js_trim (fm_settings f) = []")
  case True
  then show ?thesis
    by (simp add: buildSettingsJSON_def old_settings_def json_entries_blank json_parse_blank del: json_stringify.simps)
next
  case False
  then obtain kvs where "json_parse (fm_settings f) = Some (JObj kvs)"
    using assms by (auto simp: isOptionalJsonObject_def parseOptionalJson_def split: option.splits elim: isJsonObjectValue.elims)
  moreover have "json_parse ''{}'' = Some (JObj [])" by code_simp
  moreover have "fm_settings f \<noteq> []" using False by auto
  ultimately show ?thesis
    by (auto simp: buildSettingsJSON_def old_settings_def json_entries_def json_object_def simp del: json_stringify.simps)
qed

lemma settings_read_back:
  assumes "form_typed f"
  shows "json_object (json_stringify (JObj (settings_object f (old_settings f)))) = Some (settings_object f (old_settings f))"
  by (rule json_object_stringify) (rule settings_object_wf [OF assms old_settings_wf])

section \<open>Payloads\<close>

text \<open>The texts and numbers of a payload; \<open>null\<close> and a missing field are the empty text.\<close>

definition text_field :: "(jsstring \<times> json) list \<Rightarrow> jsstring \<Rightarrow> jsstring" where
  "text_field p k = (case map_of p k of Some (JStr s) \<Rightarrow> s | _ \<Rightarrow> [])"

definition number_item :: "(jsstring \<times> json) list \<Rightarrow> jsstring \<Rightarrow> int option" where
  "number_item p k = (case map_of p k of Some (JNum n) \<Rightarrow> int_value n | _ \<Rightarrow> None)"

text \<open>What the console relies on: the service returns the channel as it was sent.\<close>

definition stores :: "(jsstring \<times> json) list \<Rightarrow> channel \<Rightarrow> bool" where
  "stores p ch \<longleftrightarrow> ch_name ch = text_field p ''name'' \<and> Some (ch_type ch) = number_item p ''type'' \<and>
     text_or (ch_base_url ch) = text_field p ''base_url'' \<and>
     text_or (ch_openai_organization ch) = text_field p ''openai_organization'' \<and> ch_models ch = text_field p ''models'' \<and>
     ch_group ch = text_field p ''group'' \<and> text_or (ch_model_mapping ch) = text_field p ''model_mapping'' \<and>
     ch_priority ch = number_item p ''priority'' \<and> ch_weight ch = number_item p ''weight'' \<and>
     text_or (ch_test_model ch) = text_field p ''test_model'' \<and> ch_auto_ban ch = number_item p ''auto_ban'' \<and>
     ch_status ch = number_item p ''status'' \<and>
     text_or (ch_status_code_mapping ch) = text_field p ''status_code_mapping'' \<and> text_or (ch_tag ch) = text_field p ''tag'' \<and>
     ch_remark ch = text_field p ''remark'' \<and> text_or (ch_setting ch) = text_field p ''setting'' \<and>
     text_or (ch_param_override ch) = text_field p ''param_override'' \<and>
     text_or (ch_header_override ch) = text_field p ''header_override'' \<and> ch_settings ch = text_field p ''settings'' \<and>
     ch_other ch = text_field p ''other''"

lemma map_of_empty_to_null: "map_of (empty_to_null p) k = map_option (\<lambda>v. if v = JStr [] then JNull else v) (map_of p k)"
  unfolding empty_to_null_def map_of_map by simp

lemma text_field_empty_to_null [simp]: "text_field (empty_to_null p) k = text_field p k"
proof (cases "map_of p k")
  case (Some v)
  then show ?thesis by (cases v) (simp_all add: text_field_def map_of_empty_to_null)
qed (simp add: text_field_def map_of_empty_to_null)

lemma number_field_empty_to_null [simp]: "number_item (empty_to_null p) k = number_item p k"
proof (cases "map_of p k")
  case (Some v)
  then show ?thesis by (cases v) (simp_all add: number_item_def map_of_empty_to_null)
qed (simp add: number_item_def map_of_empty_to_null)

lemma field_obj_set [simp]:
  "text_field (obj_set p k (JStr v)) k' = (if k' = k then v else text_field p k')"
  "k' \<noteq> k \<Longrightarrow> number_item (obj_set p k (JStr v)) k' = number_item p k'"
  by (simp_all add: text_field_def number_item_def map_of_obj_set)

lemma update_text_fields:
  assumes "transformFormDataToUpdatePayload f i = Inr p" "buildSettingsJSON f = Inr s"
  shows "text_field p ''name'' = fm_name f" "text_field p ''base_url'' = normalizeBaseUrl (fm_base_url f)"
    "text_field p ''openai_organization'' = fm_openai_organization f" "text_field p ''models'' = fm_models f"
    "text_field p ''group'' = formatGroups (fm_group f)" "text_field p ''model_mapping'' = fm_model_mapping f"
    "text_field p ''test_model'' = fm_test_model f" "text_field p ''status_code_mapping'' = fm_status_code_mapping f"
    "text_field p ''tag'' = fm_tag f" "text_field p ''remark'' = fm_remark f" "text_field p ''setting'' = buildSettingJSON f"
    "text_field p ''param_override'' = fm_param_override f" "text_field p ''header_override'' = fm_header_override f"
    "text_field p ''settings'' = s" "text_field p ''other'' = fm_other f"
proof -
  have p: "p = clear_fields f (empty_to_null (update_channel f i s))"
    using assms by (simp add: transformFormDataToUpdatePayload_def)
  have t: "text_field p k = (case map_of [(''base_url'', normalizeBaseUrl (fm_base_url f)), (''openai_organization'', fm_openai_organization f),
      (''test_model'', fm_test_model f), (''tag'', fm_tag f), (''remark'', fm_remark f),
      (''model_mapping'', fm_model_mapping f), (''status_code_mapping'', fm_status_code_mapping f),
      (''param_override'', fm_param_override f), (''header_override'', fm_header_override f)] k of Some v \<Rightarrow> v
      | None \<Rightarrow> text_field (update_channel f i s) k)" for k
    unfolding p clear_fields_def by simp
  show "text_field p ''name'' = fm_name f" "text_field p ''base_url'' = normalizeBaseUrl (fm_base_url f)"
    "text_field p ''openai_organization'' = fm_openai_organization f" "text_field p ''models'' = fm_models f"
    "text_field p ''group'' = formatGroups (fm_group f)" "text_field p ''model_mapping'' = fm_model_mapping f"
    "text_field p ''test_model'' = fm_test_model f" "text_field p ''status_code_mapping'' = fm_status_code_mapping f"
    "text_field p ''tag'' = fm_tag f" "text_field p ''remark'' = fm_remark f" "text_field p ''setting'' = buildSettingJSON f"
    "text_field p ''param_override'' = fm_param_override f" "text_field p ''header_override'' = fm_header_override f"
    "text_field p ''settings'' = s" "text_field p ''other'' = fm_other f"
    unfolding t by (simp_all add: text_field_def update_channel_def status_entry_def split: option.split)
qed

lemma update_number_fields:
  assumes "transformFormDataToUpdatePayload f i = Inr p"
  shows "number_item p ''type'' = Some (fm_type f)" "number_item p ''status'' = fm_status f"
    "number_item p ''priority'' = Some (case fm_priority f of Some n \<Rightarrow> n | None \<Rightarrow> 0)"
    "number_item p ''weight'' = Some (case fm_weight f of Some n \<Rightarrow> n | None \<Rightarrow> 0)"
    "number_item p ''auto_ban'' = Some (case fm_auto_ban f of Some n \<Rightarrow> n | None \<Rightarrow> 1)"
proof -
  obtain s where p: "p = clear_fields f (empty_to_null (update_channel f i s))"
    using assms by (auto simp: transformFormDataToUpdatePayload_def split: sum.splits)
  have n: "number_item p ''type'' = number_item (update_channel f i s) ''type''"
    "number_item p ''status'' = number_item (update_channel f i s) ''status''"
    "number_item p ''priority'' = number_item (update_channel f i s) ''priority''"
    "number_item p ''weight'' = number_item (update_channel f i s) ''weight''"
    "number_item p ''auto_ban'' = number_item (update_channel f i s) ''auto_ban''"
    unfolding p clear_fields_def by simp_all
  show "number_item p ''type'' = Some (fm_type f)" "number_item p ''status'' = fm_status f"
    "number_item p ''priority'' = Some (case fm_priority f of Some n \<Rightarrow> n | None \<Rightarrow> 0)"
    "number_item p ''weight'' = Some (case fm_weight f of Some n \<Rightarrow> n | None \<Rightarrow> 0)"
    "number_item p ''auto_ban'' = Some (case fm_auto_ban f of Some n \<Rightarrow> n | None \<Rightarrow> 1)"
    unfolding n by (cases "fm_status f"; simp add: number_item_def update_channel_def status_entry_def number_json_def)+
qed

section \<open>Reopening\<close>

text \<open>The form that is shown after saving: the key is hidden, the base address normalised, settings of other types
  are gone and the options for adding keys are back at their defaults.\<close>

definition reopened :: "channel_form \<Rightarrow> multi_key_mode \<Rightarrow> channel_form" where
  "reopened f keyType =
     (let obj = settings_object f (old_settings f); t = fm_type f; fetch = (t \<in> set MODEL_FETCHABLE_TYPES);
          old = map_of (old_settings f)
      in f\<lparr>fm_base_url := normalizeBaseUrl (fm_base_url f), fm_key := [],
           fm_priority := Some (case fm_priority f of Some p \<Rightarrow> p | None \<Rightarrow> 0),
           fm_weight := Some (case fm_weight f of Some w \<Rightarrow> w | None \<Rightarrow> 0),
           fm_auto_ban := Some (case fm_auto_ban f of Some a \<Rightarrow> a | None \<Rightarrow> 1),
           fm_setting := buildSettingJSON f, fm_settings := json_stringify (JObj obj),
           fm_multi_key_mode := SingleKey, fm_multi_key_type := keyType, fm_batch_add_set_key_prefix_2_name := False,
           fm_key_mode := AppendKeys,
           fm_is_enterprise_account := (t = 20 \<and> fm_is_enterprise_account f),
           fm_vertex_key_type := (if t = 41 then fm_vertex_key_type f else JStr ''json''),
           fm_aws_key_type := (if t = 33 then fm_aws_key_type f else JStr ''ak_sk''),
           fm_azure_responses_version := (if t = 3 then fm_azure_responses_version f else JStr []),
           fm_allow_service_tier := (t \<in> {1, 14} \<and> fm_allow_service_tier f),
           fm_disable_store := (t = 1 \<and> fm_disable_store f),
           fm_allow_safety_identifier := (t = 1 \<and> fm_allow_safety_identifier f),
           fm_allow_include_obfuscation := (t = 1 \<and> fm_allow_include_obfuscation f),
           fm_allow_inference_geo := (t \<in> {1, 14} \<and> fm_allow_inference_geo f),
           fm_allow_speed := (t = 14 \<and> fm_allow_speed f),
           fm_claude_beta_query := (t = 14 \<and> fm_claude_beta_query f),
           fm_upstream_check_enabled :=
             (if fetch then fm_upstream_check_enabled f else is_json_true (old ''upstream_model_update_check_enabled'')),
           fm_upstream_auto_sync_enabled :=
             (if fetch then fm_upstream_check_enabled f \<and> fm_upstream_auto_sync_enabled f
              else is_json_true (old ''upstream_model_update_auto_sync_enabled'')),
           fm_upstream_ignored_models :=
             (if fetch then js_join '','' (ignored_models f)
              else (case old ''upstream_model_update_ignored_models'' of Some (JArr items) \<Rightarrow> js_to_string (JArr items) | _ \<Rightarrow> []))\<rparr>)"

lemma typed_truthy:
  assumes "form_typed f"
  shows "json_or (Some (fm_vertex_key_type f)) d = fm_vertex_key_type f" "json_or (Some (fm_aws_key_type f)) d = fm_aws_key_type f"
    "json_or (Some (fm_azure_responses_version f)) (JStr []) = fm_azure_responses_version f"
    "json_or (Some (fm_proxy f)) (JStr []) = fm_proxy f" "json_or (Some (fm_system_prompt f)) (JStr []) = fm_system_prompt f"
    "json_or (Some (fm_force_format f)) (JBool False) = fm_force_format f"
    "json_or (Some (fm_thinking_to_content f)) (JBool False) = fm_thinking_to_content f"
    "json_or (Some (fm_pass_through_body_enabled f)) (JBool False) = fm_pass_through_body_enabled f"
    "json_or (Some (fm_system_prompt_override f)) (JBool False) = fm_system_prompt_override f"
  using assms unfolding form_typed_def json_or_def js_or_def
  by (auto elim!: is_boolean.elims is_string.elims)

lemma join_strings: "js_to_string (JArr (map JStr ms)) = js_join '','' ms"
  by (simp add: comp_def)

lemma setting_read_back:
  assumes "form_typed f"
  shows "json_parse (buildSettingJSON f) = Some (JObj
     [(''force_format'', fm_force_format f), (''thinking_to_content'', fm_thinking_to_content f), (''proxy'', fm_proxy f),
      (''pass_through_body_enabled'', fm_pass_through_body_enabled f), (''system_prompt'', fm_system_prompt f),
      (''system_prompt_override'', fm_system_prompt_override f)])"
proof -
  have wf: "json_wf (fm_force_format f)" "json_wf (fm_thinking_to_content f)" "json_wf (fm_proxy f)" "json_wf (fm_system_prompt f)"
    "json_wf (fm_pass_through_body_enabled f)" "json_wf (fm_system_prompt_override f)"
    using assms by (auto simp: form_typed_def elim!: is_boolean.elims is_string.elims)
  show ?thesis unfolding buildSettingJSON_def typed_truthy [OF assms]
    by (rule json_parse_stringify) (simp add: wf obj_wf_def no_index_order is_array_index_def is_digit_def)
qed

lemma managed_lookup:
  assumes "map_of (managed f (map_of obj)) k = Some v"
  shows "map_of (settings_object f obj) k = v"
  using assms by (simp add: settings_edits map_of_apply managed_distinct)

lemma type_lookup:
  assumes "(k, v) \<in> set (type_settings f)"
  shows "map_of (settings_object f obj) k = v"
proof (rule managed_lookup)
  have "(k, v) \<in> set (managed f (map_of obj))" using assms by (simp add: managed_def)
  then show "map_of (managed f (map_of obj)) k = Some v" by (simp add: managed_distinct)
qed

lemma type_values:
  fixes f obj
  defines "m \<equiv> map_of (settings_object f obj)" and "t \<equiv> fm_type f"
  shows "m ''vertex_key_type'' = (if t = 41 then Some (json_or (Some (fm_vertex_key_type f)) (JStr ''json'')) else None)"
    "m ''azure_responses_version'' = (if t = 3 \<and> truthy (fm_azure_responses_version f) then Some (fm_azure_responses_version f) else None)"
    "m ''openrouter_enterprise'' = (if t = 20 then Some (JBool (fm_is_enterprise_account f)) else None)"
    "m ''aws_key_type'' = (if t = 33 then Some (json_or (Some (fm_aws_key_type f)) (JStr ''ak_sk'')) else None)"
    "m ''allow_service_tier'' = (if t \<in> {1, 14} then Some (JBool (fm_allow_service_tier f)) else None)"
    "m ''disable_store'' = (if t = 1 then Some (JBool (fm_disable_store f)) else None)"
    "m ''allow_safety_identifier'' = (if t = 1 then Some (JBool (fm_allow_safety_identifier f)) else None)"
    "m ''allow_include_obfuscation'' = (if t = 1 then Some (JBool (fm_allow_include_obfuscation f)) else None)"
    "m ''allow_inference_geo'' = (if t \<in> {1, 14} then Some (JBool (fm_allow_inference_geo f)) else None)"
    "m ''allow_speed'' = (if t = 14 then Some (JBool (fm_allow_speed f)) else None)"
    "m ''claude_beta_query'' = (if t = 14 then Some (JBool (fm_claude_beta_query f)) else None)"
  unfolding m_def t_def by (rule type_lookup, simp only: type_settings_def Let_def list.set insert_iff simp_thms)+

lemma update_lookup:
  assumes "(k, v) \<in> set (update_settings f (map_of obj))"
  shows "map_of (settings_object f obj) k = v"
proof (rule managed_lookup)
  have "(k, v) \<in> set (managed f (map_of obj))" using assms by (simp add: managed_def)
  then show "map_of (managed f (map_of obj)) k = Some v" by (simp add: managed_distinct)
qed

lemma update_values:
  fixes f obj
  defines "m \<equiv> map_of (settings_object f obj)"
  assumes "fm_type f \<in> set MODEL_FETCHABLE_TYPES"
  shows "m ''upstream_model_update_check_enabled'' = Some (JBool (fm_upstream_check_enabled f))"
    "m ''upstream_model_update_auto_sync_enabled'' = Some (JBool (fm_upstream_check_enabled f \<and> fm_upstream_auto_sync_enabled f))"
    "m ''upstream_model_update_ignored_models'' = Some (JArr (map JStr (ignored_models f)))"
    "m ''upstream_model_update_last_detected_models'' =
       (let d = map_of obj ''upstream_model_update_last_detected_models''
        in if fm_upstream_check_enabled f \<and> is_json_array d then d else Some (JArr []))"
    "m ''upstream_model_update_last_check_time'' =
       (let c = map_of obj ''upstream_model_update_last_check_time'' in if is_json_number c then c else Some (JNum (JDec 0 0)))"
  unfolding m_def by (rule update_lookup, simp only: update_settings_def if_P [OF assms(2)] list.set insert_iff simp_thms)+

lemma unmanaged_lookup: "map_of (managed f (map_of obj)) k = None \<Longrightarrow> map_of (settings_object f obj) k = map_of obj k"
  by (simp add: settings_edits map_of_apply managed_distinct)

lemma update_values_kept:
  assumes "fm_type f \<notin> set MODEL_FETCHABLE_TYPES"
    "k \<in> {''upstream_model_update_check_enabled'', ''upstream_model_update_auto_sync_enabled'', ''upstream_model_update_ignored_models''}"
  shows "map_of (settings_object f obj) k = map_of obj k"
proof (rule unmanaged_lookup)
  have "list_all (\<lambda>k. k \<notin> set (take 11 managed_keys))
      [''upstream_model_update_check_enabled'', ''upstream_model_update_auto_sync_enabled'', ''upstream_model_update_ignored_models'']"
    by code_simp
  then have "k \<notin> set (take 11 managed_keys)" using assms(2) by auto
  then have "k \<notin> set (map fst (managed f (map_of obj)))" by (simp add: managed_fst assms(1))
  then show "map_of (managed f (map_of obj)) k = None" by (simp add: map_of_eq_None_iff)
qed

lemma groups_read_back:
  assumes "list_all model_name gs" "gs \<noteq> []"
  shows "parseGroups (if formatGroups gs = [] then ''default'' else formatGroups gs) = gs"
proof -
  have "formatGroups gs \<noteq> []"
    using assms by (simp add: formatGroups_def) (auto simp: js_join_Nil_iff list_all_iff model_name_def)
  then show ?thesis
    using parseModelsString_join [OF assms(1)] by (simp add: parseGroups_def formatGroups_def parseModelsString_def)
qed

lemma schema_parts:
  assumes "channelFormSchema f"
  shows "form_typed f" "fm_group f \<noteq> []" "isOptionalJsonObject (fm_settings f)"
  using assms by (auto simp: channelFormSchema_def field_issues_def issue_if_def split: if_splits)

text \<open>What the form reads from the settings it wrote.\<close>

lemma loaded_values:
  fixes f obj
  assumes "form_typed f"
  defines "m \<equiv> map_of (settings_object f obj)" and "t \<equiv> fm_type f"
  shows "json_or (m ''vertex_key_type'') (JStr ''json'') = (if t = 41 then fm_vertex_key_type f else JStr ''json'')"
    "json_or (m ''aws_key_type'') (JStr ''ak_sk'') = (if t = 33 then fm_aws_key_type f else JStr ''ak_sk'')"
    "json_or (m ''azure_responses_version'') (JStr []) = (if t = 3 then fm_azure_responses_version f else JStr [])"
    "is_json_true (m ''openrouter_enterprise'') \<longleftrightarrow> t = 20 \<and> fm_is_enterprise_account f"
    "is_json_true (m ''allow_service_tier'') \<longleftrightarrow> t \<in> {1, 14} \<and> fm_allow_service_tier f"
    "is_json_true (m ''disable_store'') \<longleftrightarrow> t = 1 \<and> fm_disable_store f"
    "is_json_true (m ''allow_safety_identifier'') \<longleftrightarrow> t = 1 \<and> fm_allow_safety_identifier f"
    "is_json_true (m ''allow_include_obfuscation'') \<longleftrightarrow> t = 1 \<and> fm_allow_include_obfuscation f"
    "is_json_true (m ''allow_inference_geo'') \<longleftrightarrow> t \<in> {1, 14} \<and> fm_allow_inference_geo f"
    "is_json_true (m ''allow_speed'') \<longleftrightarrow> t = 14 \<and> fm_allow_speed f"
    "is_json_true (m ''claude_beta_query'') \<longleftrightarrow> t = 14 \<and> fm_claude_beta_query f"
    "is_json_true (m ''upstream_model_update_check_enabled'') \<longleftrightarrow> (if t \<in> set MODEL_FETCHABLE_TYPES then fm_upstream_check_enabled f
       else is_json_true (map_of obj ''upstream_model_update_check_enabled''))"
    "is_json_true (m ''upstream_model_update_auto_sync_enabled'') \<longleftrightarrow> (if t \<in> set MODEL_FETCHABLE_TYPES
       then fm_upstream_check_enabled f \<and> fm_upstream_auto_sync_enabled f
       else is_json_true (map_of obj ''upstream_model_update_auto_sync_enabled''))"
    "(case m ''upstream_model_update_ignored_models'' of Some (JArr items) \<Rightarrow> js_to_string (JArr items) | _ \<Rightarrow> []) =
       (if t \<in> set MODEL_FETCHABLE_TYPES then js_join '','' (ignored_models f)
        else (case map_of obj ''upstream_model_update_ignored_models'' of Some (JArr items) \<Rightarrow> js_to_string (JArr items) | _ \<Rightarrow> []))"
proof -
  note v = type_values [of f obj, folded m_def t_def]
  have none: "json_or None d = d" for d by (simp add: json_or_def js_or_def)
  have "\<not> truthy (fm_azure_responses_version f) \<Longrightarrow> fm_azure_responses_version f = JStr []"
    using assms(1) by (auto simp: form_typed_def elim!: is_string.elims)
  then show "json_or (m ''vertex_key_type'') (JStr ''json'') = (if t = 41 then fm_vertex_key_type f else JStr ''json'')"
    "json_or (m ''aws_key_type'') (JStr ''ak_sk'') = (if t = 33 then fm_aws_key_type f else JStr ''ak_sk'')"
    "json_or (m ''azure_responses_version'') (JStr []) = (if t = 3 then fm_azure_responses_version f else JStr [])"
    using typed_truthy [OF assms(1)] by (simp_all add: v none)
  show "is_json_true (m ''openrouter_enterprise'') \<longleftrightarrow> t = 20 \<and> fm_is_enterprise_account f"
    "is_json_true (m ''allow_service_tier'') \<longleftrightarrow> t \<in> {1, 14} \<and> fm_allow_service_tier f"
    "is_json_true (m ''disable_store'') \<longleftrightarrow> t = 1 \<and> fm_disable_store f"
    "is_json_true (m ''allow_safety_identifier'') \<longleftrightarrow> t = 1 \<and> fm_allow_safety_identifier f"
    "is_json_true (m ''allow_include_obfuscation'') \<longleftrightarrow> t = 1 \<and> fm_allow_include_obfuscation f"
    "is_json_true (m ''allow_inference_geo'') \<longleftrightarrow> t \<in> {1, 14} \<and> fm_allow_inference_geo f"
    "is_json_true (m ''allow_speed'') \<longleftrightarrow> t = 14 \<and> fm_allow_speed f"
    "is_json_true (m ''claude_beta_query'') \<longleftrightarrow> t = 14 \<and> fm_claude_beta_query f"
    by (simp_all add: v is_json_true_def)
  note u = update_values [of f obj, folded m_def t_def] update_values_kept [of f _ obj, folded m_def t_def]
  show "is_json_true (m ''upstream_model_update_check_enabled'') \<longleftrightarrow> (if t \<in> set MODEL_FETCHABLE_TYPES then fm_upstream_check_enabled f
       else is_json_true (map_of obj ''upstream_model_update_check_enabled''))"
    "is_json_true (m ''upstream_model_update_auto_sync_enabled'') \<longleftrightarrow> (if t \<in> set MODEL_FETCHABLE_TYPES
       then fm_upstream_check_enabled f \<and> fm_upstream_auto_sync_enabled f
       else is_json_true (map_of obj ''upstream_model_update_auto_sync_enabled''))"
    by (auto simp: u is_json_true_def)
  show "(case m ''upstream_model_update_ignored_models'' of Some (JArr items) \<Rightarrow> js_to_string (JArr items) | _ \<Rightarrow> []) =
       (if t \<in> set MODEL_FETCHABLE_TYPES then js_join '','' (ignored_models f)
        else (case map_of obj ''upstream_model_update_ignored_models'' of Some (JArr items) \<Rightarrow> js_to_string (JArr items) | _ \<Rightarrow> []))"
    by (simp add: u join_strings del: js_to_string.simps)
qed

lemma form_reopens:
  assumes "channelFormSchema f" "list_all model_name (fm_group f)" "transformFormDataToUpdatePayload f i = Inr p" "stores p ch"
    "ch_channel_info ch = Some info"
  shows "transformChannelToFormDefaults ch = Some (reopened f (ci_multi_key_mode info))"
proof -
  note sp = schema_parts [OF assms(1)]
  let ?obj = "settings_object f (old_settings f)"
  have b: "buildSettingsJSON f = Inr (json_stringify (JObj ?obj))" by (rule build_settings [OF sp(3)])
  note flds = update_text_fields [OF assms(3) b] update_number_fields [OF assms(3)]
  have st: "json_stringify (JObj ?obj) \<noteq> []" using json_stringify_length [of "JObj ?obj"] by auto
  have other: "json_get (parsed_settings (json_stringify (JObj ?obj))) = map_of ?obj"
    using st settings_read_back [OF sp(1)] by (simp add: parsed_settings_def json_object_def fun_eq_iff del: json_stringify.simps split: option.splits json.splits)
  have "buildSettingJSON f \<noteq> []" by (simp add: buildSettingJSON_def)
  then have extra: "parsed_settings (buildSettingJSON f) = JObj
     [(''force_format'', fm_force_format f), (''thinking_to_content'', fm_thinking_to_content f), (''proxy'', fm_proxy f),
      (''pass_through_body_enabled'', fm_pass_through_body_enabled f), (''system_prompt'', fm_system_prompt f),
      (''system_prompt_override'', fm_system_prompt_override f)]"
    by (simp add: parsed_settings_def setting_read_back [OF sp(1)])
  have c: "ch_name ch = fm_name f" "ch_type ch = fm_type f" "text_or (ch_base_url ch) = normalizeBaseUrl (fm_base_url f)"
    "text_or (ch_openai_organization ch) = fm_openai_organization f" "ch_models ch = fm_models f"
    "ch_group ch = formatGroups (fm_group f)" "text_or (ch_model_mapping ch) = fm_model_mapping f"
    "ch_priority ch = Some (case fm_priority f of Some p \<Rightarrow> p | None \<Rightarrow> 0)" "ch_weight ch = Some (case fm_weight f of Some w \<Rightarrow> w | None \<Rightarrow> 0)"
    "text_or (ch_test_model ch) = fm_test_model f" "ch_auto_ban ch = Some (case fm_auto_ban f of Some a \<Rightarrow> a | None \<Rightarrow> 1)"
    "ch_status ch = fm_status f" "text_or (ch_status_code_mapping ch) = fm_status_code_mapping f" "text_or (ch_tag ch) = fm_tag f"
    "ch_remark ch = fm_remark f" "text_or (ch_setting ch) = buildSettingJSON f"
    "text_or (ch_param_override ch) = fm_param_override f" "text_or (ch_header_override ch) = fm_header_override f"
    "ch_settings ch = json_stringify (JObj ?obj)" "ch_other ch = fm_other f"
    using assms(4) unfolding stores_def flds by simp_all
  show ?thesis
    unfolding transformChannelToFormDefaults_def assms(5) option.case Let_def c other extra groups_read_back [OF assms(2) sp(2)]
      reopened_def option.inject
    by (rule channel_form.equality)
      (simp_all add: st loaded_values [OF sp(1)] typed_truthy [OF sp(1)] del: json_stringify.simps)
qed

section \<open>Saving again\<close>

lemma normalizeBaseUrl_again: "trimmed (normalizeBaseUrl s) \<Longrightarrow> normalizeBaseUrl (normalizeBaseUrl s) = normalizeBaseUrl s"
  using js_trim_trimmed [of "normalizeBaseUrl s"] unfolding normalizeBaseUrl_def by simp

lemma ignored_names: "list_all model_name (ignored_models f)"
proof -
  have "model_name m" if "m \<noteq> []" "m \<in> js_trim ` set (split_on (CHR '','') s)" for m s
    using that set_js_trim split_on_parts_no_sep by (fastforce simp: model_name_def)
  then show ?thesis by (auto simp: ignored_models_def list_all_iff)
qed

lemma ignored_read_back:
  assumes "fm_upstream_ignored_models f' = js_join '','' (ignored_models f)"
  shows "ignored_models f' = ignored_models f"
proof (cases "ignored_models f = []")
  case False
  have "parseModelsString (js_join '','' (ignored_models f)) = ignored_models f"
    by (rule parseModelsString_join [OF ignored_names])
  with False have "filter (\<lambda>m. m \<noteq> []) (map js_trim (split_on (CHR '','') (js_join '','' (ignored_models f)))) = ignored_models f"
    by (auto simp: parseModelsString_def split: if_splits)
  then show ?thesis unfolding ignored_models_def [of f'] assms
    by (simp add: uniq_distinct) (simp add: ignored_models_def)
qed (simp add: ignored_models_def [of f'] assms)

lemma reopened_fields:
  "fm_type (reopened f kt) = fm_type f" "fm_settings (reopened f kt) = json_stringify (JObj (settings_object f (old_settings f)))"
  "fm_key (reopened f kt) = []"
  by (simp_all add: reopened_def Let_def del: json_stringify.simps)

lemma reopened_managed:
  assumes "form_typed f"
  shows "managed (reopened f kt) (map_of (settings_object f (old_settings f))) = managed f (map_of (old_settings f))"
proof -
  let ?f = "reopened f kt" and ?old = "map_of (old_settings f)" and ?m = "map_of (settings_object f (old_settings f))"
  have "type_settings ?f = type_settings f"
    using typed_truthy [OF assms] by (auto simp: type_settings_def reopened_def Let_def)
  moreover have "update_settings ?f ?m = update_settings f ?old"
  proof (cases "fm_type f \<in> set MODEL_FETCHABLE_TYPES")
    case True
    note u = update_values [OF True, of "old_settings f"]
    have "fm_upstream_check_enabled ?f = fm_upstream_check_enabled f"
      "fm_upstream_auto_sync_enabled ?f = (fm_upstream_check_enabled f \<and> fm_upstream_auto_sync_enabled f)"
      "fm_upstream_ignored_models ?f = js_join '','' (ignored_models f)"
      using True by (simp_all add: reopened_def Let_def)
    then show ?thesis using True ignored_read_back [of ?f f]
      by (auto simp: update_settings_def reopened_fields u Let_def)
  qed (simp add: update_settings_def reopened_fields)
  ultimately show ?thesis by (simp add: managed_def)
qed

lemma settings_settled:
  assumes "channelFormSchema f"
  shows "buildSettingsJSON (reopened f kt) = buildSettingsJSON f"
proof -
  note sp = schema_parts [OF assms]
  let ?obj = "settings_object f (old_settings f)"
  have obj: "json_object (fm_settings (reopened f kt)) = Some ?obj"
    unfolding reopened_fields by (rule settings_read_back [OF sp(1)])
  then have old: "old_settings (reopened f kt) = ?obj" by (simp add: old_settings_def json_entries_def)
  have "isOptionalJsonObject (fm_settings (reopened f kt))"
    using obj by (auto simp: isOptionalJsonObject_def parseOptionalJson_def json_object_def split: option.splits json.splits)
  then have "buildSettingsJSON (reopened f kt) = Inr (json_stringify (JObj (settings_object (reopened f kt) ?obj)))"
    using build_settings [of "reopened f kt"] old by simp
  also have "settings_object (reopened f kt) ?obj = apply_settings (managed f (map_of (old_settings f))) ?obj"
    by (simp only: settings_edits [of "reopened f kt"] reopened_managed [OF sp(1)])
  also have "\<dots> = ?obj" unfolding settings_edits [of f] by (rule apply_idem [OF managed_distinct])
  finally show ?thesis using build_settings [OF sp(3)] by simp
qed

lemma saved_again:
  assumes "channelFormSchema f" "trimmed (normalizeBaseUrl (fm_base_url f))"
  shows "transformFormDataToUpdatePayload (reopened f kt) i = transformFormDataToUpdatePayload (f\<lparr>fm_key := []\<rparr>) i"
proof -
  have s: "buildSettingsJSON (f\<lparr>fm_key := []\<rparr>) = buildSettingsJSON f"
  proof -
    have "managed (f\<lparr>fm_key := []\<rparr>) old = managed f old" for old
      by (simp add: managed_def type_settings_def update_settings_def ignored_models_def)
    then have "settings_object (f\<lparr>fm_key := []\<rparr>) obj = settings_object f obj" for obj by (simp only: settings_edits)
    then show ?thesis by (simp add: buildSettingsJSON_def del: json_stringify.simps split: json.split)
  qed
  have u: "update_channel (reopened f kt) i st = update_channel (f\<lparr>fm_key := []\<rparr>) i st" for st
    using normalizeBaseUrl_again [OF assms(2)]
    by (simp add: update_channel_def reopened_def Let_def status_entry_def buildSettingJSON_def del: json_stringify.simps)
  have c: "clear_fields (reopened f kt) o' = clear_fields (f\<lparr>fm_key := []\<rparr>) o'" for o'
    using normalizeBaseUrl_again [OF assms(2)] by (simp add: clear_fields_def reopened_def Let_def)
  show ?thesis unfolding transformFormDataToUpdatePayload_def s settings_settled [OF assms(1)] u c ..
qed

section \<open>Properties of the form\<close>

text \<open>
  C10: A form the schema accepts can always be saved, and the settings it writes are exact: each setting of the
  channel type has the value of the form, those of other types are removed, what the service detected is kept
  while the check is on, and every other setting is untouched.
\<close>

theorem settings_exact:
  assumes "channelFormSchema f"
  shows "\<exists>s obj. buildSettingsJSON f = Inr s \<and> json_object s = Some obj \<and>
    (\<forall>k. map_of obj k = (case map_of (managed f (map_of (old_settings f))) k of
       Some v \<Rightarrow> v | None \<Rightarrow> map_of (old_settings f) k))"
  using build_settings settings_read_back schema_parts [OF assms] settings_edits [of f] map_of_apply managed_distinct by metis

text \<open>
  C13: A channel that is saved and opened again shows the form that was saved, provided the service returns
  what was sent: the key is hidden, the base address normalised, settings of other types are reset. Saving the
  reopened form sends the same update without key, unless the normalised address ends in white space.
\<close>

theorem saved_form_reopens:
  assumes "channelFormSchema f" "list_all model_name (fm_group f)"
  shows "\<exists>p. transformFormDataToUpdatePayload f i = Inr p \<and>
    (stores p ch \<and> ch_channel_info ch = Some info \<longrightarrow>
       transformChannelToFormDefaults ch = Some (reopened f (ci_multi_key_mode info))) \<and>
    (trimmed (normalizeBaseUrl (fm_base_url f)) \<longrightarrow>
       transformFormDataToUpdatePayload (reopened f keyType) i = transformFormDataToUpdatePayload (f\<lparr>fm_key := []\<rparr>) i)"
proof -
  obtain p where "transformFormDataToUpdatePayload f i = Inr p"
    using build_settings [OF schema_parts(3) [OF assms(1)]] by (simp add: transformFormDataToUpdatePayload_def)
  then show ?thesis using form_reopens [OF assms] saved_again [OF assms(1)] by auto
qed

section \<open>Submission\<close>

lemma missing_names:
  assumes "\<forall>k \<in> fst ` set (json_entries mapping). CHR '','' \<notin> set k"
  shows "list_all model_name (findMissingModelsInMapping mapping models)"
  using assms set_js_trim by (fastforce simp: findMissing_entries list_all_iff model_name_def)

lemma added_models:
  fixes m mapping :: jsstring
  assumes "\<forall>k \<in> fst ` set (json_entries mapping). CHR '','' \<notin> set k"
  defines "ms \<equiv> parseModelsString m"
  shows "findMissingModelsInMapping mapping
    (parseModelsString (formatModelsArray (uniq (ms @ findMissingModelsInMapping mapping ms)))) = []"
proof -
  let ?add = "findMissingModelsInMapping mapping ms"
  have "list_all model_name (uniq (ms @ ?add))"
    using missing_names [OF assms(1)] parseModelsString_names by (simp add: ms_def)
  then have parse: "parseModelsString (formatModelsArray (uniq (ms @ ?add))) = uniq (ms @ ?add)"
    by (simp add: formatModelsArray_def parseModelsString_join)
  have "js_trim x = x" if "x \<in> set ?add" for x
    using that by (auto simp: findMissing_entries)
  then have "js_trim ` set ?add = set ?add" by force
  then show ?thesis unfolding parse by (subst findMissing_entries) (auto simp: filter_empty_conv findMissing_entries [of mapping ms] image_Un)
qed

lemma risks_cover:
  assumes "from \<in> {504, 524}" "from \<noteq> to" "maps_status current from to" "\<not> maps_status original from to"
  shows "collectNewDisallowedStatusCodeRedirects original current \<noteq> []"
proof -
  have "redirect_text from to \<in> set (collectDisallowedStatusCodeRedirects current)"
    "redirect_text from to \<notin> set (collectDisallowedStatusCodeRedirects original)"
    using assms by (auto simp: in_collectDisallowed)
  then show ?thesis by (auto simp: collectNewDisallowedStatusCodeRedirects_def Let_def filter_empty_conv)
qed

lemma risks_confirmed:
  assumes "new_risks d data = [] \<or> confirmRisk (new_risks d data)" "from \<in> {504, 524}" "from \<noteq> to"
    "maps_status (fm_status_code_mapping data) from to"
  shows "maps_status (dw_initialStatusCodeMapping d) from to \<or> confirmRisk (new_risks d data)"
proof (rule ccontr)
  assume n: "\<not> ?thesis"
  have "js_trim (fm_status_code_mapping data) \<noteq> []" using assms(4) json_object_blank by (auto simp: maps_status_def)
  with n assms(1) have "collectNewDisallowedStatusCodeRedirects (dw_initialStatusCodeMapping d) (fm_status_code_mapping data) = []"
    by (simp add: new_risks_def)
  with risks_cover [OF assms(2-4)] n show False by blast
qed

text \<open>The ways a submission is sent.\<close>

lemma submitted_cases:
  assumes "onSubmit confirmRisk confirmMissing d = Submitted r data"
  defines "form \<equiv> dw_form d" and "missing \<equiv> missing_prompt d (dw_form d)"
  shows "(isEditing d \<or> js_trim (fm_key form) \<noteq> []) \<and>
    (js_trim (fm_status_code_mapping form) = [] \<or> collectInvalidStatusCodeEntries (fm_status_code_mapping form) = []) \<and>
    (new_risks d form = [] \<or> confirmRisk (new_risks d form)) \<and>
    (js_trim (fm_model_mapping form) = [] \<or> validateModelMappingJson (fm_model_mapping form) = Inr ()) \<and>
    mutationRequest d data = Inr r \<and>
    (data = form \<and> (missing = [] \<or> confirmMissing missing = SubmitAnyway) \<or>
     data = form\<lparr>fm_models := formatModelsArray (uniq (parseModelsString (fm_models form) @ missing))\<rparr> \<and>
       missing \<noteq> [] \<and> confirmMissing missing = AddMissing)"
  using assms(1) unfolding onSubmit_def form_def missing_def Let_def
  by (auto split: if_splits sum.splits missing_action.splits)

text \<open>
  C8: What is submitted has passed the guards: a new channel has a key, every entry of the status code
  mapping is valid, a new redirect of 504 or 524 was confirmed, the model mapping is an object of texts, and
  a source of a changed mapping that the models lack was accepted by the user or added; then, as
  long as no source contains a comma, nothing is missing. Nothing but the models differs from the form.
\<close>

theorem submission_guarded:
  assumes "onSubmit confirmRisk confirmMissing d = Submitted r data"
  defines "form \<equiv> dw_form d" and "missing \<equiv> missing_prompt d (dw_form d)"
  shows "(isEditing d \<or> js_trim (fm_key data) \<noteq> []) \<and>
    collectInvalidStatusCodeEntries (fm_status_code_mapping data) = [] \<and>
    (\<forall>from to. from \<in> {504, 524} \<and> from \<noteq> to \<and> maps_status (fm_status_code_mapping data) from to \<longrightarrow>
       maps_status (dw_initialStatusCodeMapping d) from to \<or> confirmRisk (new_risks d form)) \<and>
    validateModelMappingJson (fm_model_mapping data) = Inr () \<and>
    (missing = [] \<or> confirmMissing missing = SubmitAnyway \<or>
     ((\<forall>k \<in> fst ` set (json_entries (fm_model_mapping form)). CHR '','' \<notin> set k) \<longrightarrow>
        findMissingModelsInMapping (fm_model_mapping data) (parseModelsString (fm_models data)) = [])) \<and>
    data = form\<lparr>fm_models := fm_models data\<rparr> \<and> mutationRequest d data = Inr r"
proof -
  note c = submitted_cases [OF assms(1), folded form_def missing_def]
  have same: "data = form\<lparr>fm_models := fm_models data\<rparr>" using c by auto
  then have f: "fm_key data = fm_key form" "fm_status_code_mapping data = fm_status_code_mapping form"
      "fm_model_mapping data = fm_model_mapping form"
    by (metis channel_form.select_convs channel_form.surjective channel_form.update_convs(6))+
  have invalid: "collectInvalidStatusCodeEntries (fm_status_code_mapping form) = []"
    using c by (auto simp: collectInvalidStatusCodeEntries_def)
  have valid: "validateModelMappingJson (fm_model_mapping form) = Inr ()"
    using c by (auto simp: validateModelMappingJson_def)
  have risk: "new_risks d form = [] \<or> confirmRisk (new_risks d form)" using c by blast
  have closed: "findMissingModelsInMapping (fm_model_mapping form) (parseModelsString (fm_models data)) = []"
    if "\<not> (missing = [] \<or> confirmMissing missing = SubmitAnyway)"
      "\<forall>k \<in> fst ` set (json_entries (fm_model_mapping form)). CHR '','' \<notin> set k"
  proof -
    have "missing = findMissingModelsInMapping (fm_model_mapping form) (parseModelsString (fm_models form))"
      using that(1) by (auto simp: missing_def missing_prompt_def form_def Let_def split: if_splits)
    then show ?thesis using c that added_models [OF that(2), of "fm_models form"] by auto
  qed
  show ?thesis unfolding f using c invalid valid same closed risks_confirmed [of d form confirmRisk, OF risk] by blast
qed

section \<open>The guardrail\<close>




section \<open>Instances\<close>

definition sample_form :: channel_form where
  "sample_form = CHANNEL_FORM_DEFAULT_VALUES\<lparr>fm_name := ''c'', fm_type := 14, fm_models := ''m'', fm_key := ''k'', fm_allow_speed := True,
     fm_base_url := ''https://x/'', fm_model_mapping := json_stringify (JObj [(''a'', JStr ''b'')]),
     fm_settings := json_stringify (JObj [(''azure_responses_version'', JStr ''v''), (''region'', JStr ''eu'')])\<rparr>"

definition sample_drawer :: drawer where
  "sample_drawer = \<lparr>dw_row = None, dw_channel = None, dw_form = sample_form, dw_initialModels = [], dw_initialModelMapping = [],
     dw_initialStatusCodeMapping = [], dw_advancedOpen = False, dw_preference = False, dw_fetchModelsOpen = False\<rparr>"

lemma sample_valid: "channelFormSchema sample_form" "list_all model_name (fm_group sample_form)"
  by code_simp+

definition stored_channel :: channel where
  "stored_channel =
     (let p = projr (transformFormDataToUpdatePayload sample_form (number_json 7))
      in \<lparr>ch_id = NumId 7, ch_type = 14, ch_key = [], ch_openai_organization = None, ch_test_model = None, ch_status = Some 1,
          ch_name = ''c'', ch_weight = Some 0, ch_created_time = 0, ch_test_time = 0, ch_response_time = 0,
          ch_base_url = Some ''https://x'', ch_other = [], ch_balance = 0, ch_balance_updated_time = 0, ch_models = ''m'',
          ch_group = ''default'', ch_used_quota = 0, ch_model_mapping = Some (text_field p ''model_mapping''),
          ch_status_code_mapping = None, ch_priority = Some 0, ch_auto_ban = Some 1, ch_other_info = [], ch_tag = None,
          ch_setting = Some (text_field p ''setting''), ch_param_override = None, ch_header_override = None, ch_remark = [],
          ch_max_input_tokens = 0,
          ch_channel_info = Some \<lparr>ci_is_multi_key = False, ci_multi_key_size = 0, ci_multi_key_status_list = None,
            ci_multi_key_disabled_reason = None, ci_multi_key_disabled_time = None, ci_multi_key_polling_index = 0,
            ci_multi_key_mode = Random\<rparr>,
          ch_settings = text_field p ''settings''\<rparr>)"

theorem settings_exact_witness:
  "map_of (json_entries (projr (buildSettingsJSON sample_form))) ''region'' = Some (JStr ''eu'') \<and>
   map_of (json_entries (projr (buildSettingsJSON sample_form))) ''azure_responses_version'' = None \<and>
   map_of (json_entries (projr (buildSettingsJSON sample_form))) ''allow_speed'' = Some (JBool True)"
proof -
  obtain s obj where "buildSettingsJSON sample_form = Inr s" "json_object s = Some obj"
      "\<forall>k. map_of obj k = (case map_of (managed sample_form (map_of (old_settings sample_form))) k of
        Some v \<Rightarrow> v | None \<Rightarrow> map_of (old_settings sample_form) k)"
    using settings_exact [OF sample_valid(1)] by blast
  moreover have "map_of (managed sample_form (map_of (old_settings sample_form))) ''region'' = None"
    "map_of (managed sample_form (map_of (old_settings sample_form))) ''azure_responses_version'' = Some None"
    "map_of (managed sample_form (map_of (old_settings sample_form))) ''allow_speed'' = Some (Some (JBool True))"
    "map_of (old_settings sample_form) ''region'' = Some (JStr ''eu'')" by code_simp+
  ultimately show ?thesis by (simp add: json_entries_def)
qed

theorem saved_form_reopens_witness:
  "transformChannelToFormDefaults stored_channel = Some (reopened sample_form Random) \<and>
   fm_base_url (reopened sample_form Random) = ''https://x'' \<and> fm_allow_speed (reopened sample_form Random)"
proof -
  have "stores (projr (transformFormDataToUpdatePayload sample_form (number_json 7))) stored_channel" by code_simp
  moreover obtain info where "ch_channel_info stored_channel = Some info" "ci_multi_key_mode info = Random"
    by (simp add: stored_channel_def Let_def)
  moreover have "fm_base_url (reopened sample_form Random) = ''https://x''" "fm_allow_speed (reopened sample_form Random)" by code_simp+
  ultimately show ?thesis using saved_form_reopens [OF sample_valid, of "number_json 7" stored_channel info Random] by auto
qed

theorem submission_guarded_witness:
  "\<exists>r data. onSubmit (\<lambda>_. False) (\<lambda>_. AddMissing) sample_drawer = Submitted r data \<and> parseModelsString (fm_models data) = [''m'', ''a''] \<and>
     findMissingModelsInMapping (fm_model_mapping data) (parseModelsString (fm_models data)) = []"
proof -
  have "(case onSubmit (\<lambda>_. False) (\<lambda>_. AddMissing) sample_drawer of
      Submitted r data \<Rightarrow> parseModelsString (fm_models data) = [''m'', ''a''] | _ \<Rightarrow> False)" by code_simp
  then obtain r data where s: "onSubmit (\<lambda>_. False) (\<lambda>_. AddMissing) sample_drawer = Submitted r data"
      "parseModelsString (fm_models data) = [''m'', ''a'']" by (auto split: submit_result.splits)
  have "missing_prompt sample_drawer (dw_form sample_drawer) = [''a'']"
    "list_all (\<lambda>k. CHR '','' \<notin> set (fst k)) (json_entries (fm_model_mapping (dw_form sample_drawer)))" by code_simp+
  with submission_guarded [OF s(1)] s show ?thesis by (auto simp: list_all_iff)
qed



end
