(* ===== verification/ChannelEffects.thy ===== *)
theory ChannelEffects
  imports ChannelDrawer
begin

text \<open>
  The effects of the drawer that write the form they watch. A change of the drawer is rendered, the effects whose
  watched values have changed run, and what they write is rendered again; the renderings come to rest. What
  is corrected at rest, what an edit leaves in the form, and what the next form shows after a submission.
\<close>

section \<open>Effects of one rendering\<close>

text \<open>The states the effects are there to correct.\<close>

definition url_bad :: "drawer \<Rightarrow> bool" where
  "url_bad d \<longleftrightarrow> fm_type (dw_form d) = 45 \<and> fm_base_url (dw_form d) = ''doubao-coding-plan''"

definition mode_bad :: "drawer \<Rightarrow> bool" where
  "mode_bad d \<longleftrightarrow> \<not> isEditing d \<and> \<not> supportsMultiKeyAddMode (dw_form d) \<and> fm_multi_key_mode (dw_form d) \<noteq> SingleKey"

definition corrected :: "drawer \<Rightarrow> bool" where
  "corrected d \<longleftrightarrow> \<not> url_bad d \<and> \<not> mode_bad d"

lemma ark_url_plain [simp]: "ark_url \<noteq> []" "ark_url \<noteq> ''doubao-coding-plan''"
  by (simp_all add: ark_url_def)

text \<open>The effects behind the loading, run on the rendering \<open>r\<close> and the form \<open>d\<close>.\<close>

definition form_effects :: "drawer option \<Rightarrow> drawer \<Rightarrow> drawer \<Rightarrow> drawer" where
  "form_effects prev r d =
     (let d1 = (if watch_changed type_watched prev r then typeDefaults r d else d);
          d2 = (if watch_changed url_watched prev r then codingPlanUrl r d1 else d1)
      in if watch_changed mode_watched prev r then singleKeyOnly r d2 else d2)"

lemma drawer_commit_effects:
  "drawer_commit prev r = map_option (form_effects prev r) (if watch_changed load_watched prev r then loadChannel r else Some r)"
  by (simp add: drawer_commit_def form_effects_def [abs_def])

definition corrected_form :: "drawer option \<Rightarrow> drawer \<Rightarrow> channel_form \<Rightarrow> channel_form" where
  "corrected_form prev r f =
     f\<lparr>fm_base_url := (if url_bad r \<and> watch_changed url_watched prev r then ark_url
         else if watch_changed type_watched prev r \<and> \<not> isEditing r \<and> fm_type (dw_form r) = 45 \<and> fm_base_url f = [] then ark_url
         else fm_base_url f),
       fm_other := (if watch_changed type_watched prev r \<and> \<not> isEditing r \<and> fm_type (dw_form r) = 18 \<and> fm_other f = []
         then ''v2.1'' else fm_other f),
       fm_multi_key_mode := (if mode_bad r \<and> watch_changed mode_watched prev r then SingleKey else fm_multi_key_mode f)\<rparr>"

lemma same_form [simp]: "d\<lparr>dw_form := dw_form d\<rparr> = d"
  by (cases d) simp

lemma same_fields [simp]:
  "f\<lparr>fm_base_url := fm_base_url f\<rparr> = f" "f\<lparr>fm_other := fm_other f\<rparr> = f" "f\<lparr>fm_multi_key_mode := fm_multi_key_mode f\<rparr> = f"
  by (rule channel_form.equality; simp)+

lemma typeDefaults_form:
  "typeDefaults r d = d\<lparr>dw_form := (dw_form d)
     \<lparr>fm_base_url := (if \<not> isEditing r \<and> fm_type (dw_form r) = 45 \<and> fm_base_url (dw_form d) = [] then ark_url else fm_base_url (dw_form d)),
      fm_other := (if \<not> isEditing r \<and> fm_type (dw_form r) = 18 \<and> fm_other (dw_form d) = [] then ''v2.1'' else fm_other (dw_form d))\<rparr>\<rparr>"
  by (simp add: typeDefaults_def Let_def)

lemma codingPlanUrl_form:
  "codingPlanUrl r d = d\<lparr>dw_form := (dw_form d)\<lparr>fm_base_url := (if url_bad r then ark_url else fm_base_url (dw_form d))\<rparr>\<rparr>"
  by (simp add: codingPlanUrl_def url_bad_def)

lemma singleKeyOnly_form:
  "singleKeyOnly r d = d\<lparr>dw_form := (dw_form d)\<lparr>fm_multi_key_mode := (if mode_bad r then SingleKey else fm_multi_key_mode (dw_form d))\<rparr>\<rparr>"
  by (simp add: singleKeyOnly_def mode_bad_def)

lemma form_effects_form: "form_effects prev r d = d\<lparr>dw_form := corrected_form prev r (dw_form d)\<rparr>"
proof -
  have x: "(if c then typeDefaults r d else d) = d\<lparr>dw_form := (dw_form d)
     \<lparr>fm_base_url := (if c \<and> \<not> isEditing r \<and> fm_type (dw_form r) = 45 \<and> fm_base_url (dw_form d) = [] then ark_url else fm_base_url (dw_form d)),
      fm_other := (if c \<and> \<not> isEditing r \<and> fm_type (dw_form r) = 18 \<and> fm_other (dw_form d) = [] then ''v2.1'' else fm_other (dw_form d))\<rparr>\<rparr>"
    for c d by (cases c) (simp_all only: typeDefaults_form if_True if_False simp_thms same_fields same_form)
  have y: "(if c then codingPlanUrl r d else d) =
      d\<lparr>dw_form := (dw_form d)\<lparr>fm_base_url := (if url_bad r \<and> c then ark_url else fm_base_url (dw_form d))\<rparr>\<rparr>"
    for c d by (cases c) (simp_all only: codingPlanUrl_form if_True if_False simp_thms same_fields same_form)
  have z: "(if c then singleKeyOnly r d else d) =
      d\<lparr>dw_form := (dw_form d)\<lparr>fm_multi_key_mode := (if mode_bad r \<and> c then SingleKey else fm_multi_key_mode (dw_form d))\<rparr>\<rparr>"
    for c d by (cases c) (simp_all only: singleKeyOnly_form if_True if_False simp_thms same_fields same_form)
  show ?thesis unfolding form_effects_def Let_def x y z corrected_form_def by simp
qed

lemma isEditing_form [simp]: "isEditing (d\<lparr>dw_form := f\<rparr>) = isEditing d"
  by (simp add: isEditing_def)

lemma corrected_form_fields [simp]:
  "fm_type (corrected_form prev r f) = fm_type f" "supportsMultiKeyAddMode (corrected_form prev r f) = supportsMultiKeyAddMode f"
  by (simp_all add: corrected_form_def supportsMultiKeyAddMode_def)

lemma corrected_form_url:
  "fm_base_url (corrected_form prev r f) =
     (if url_bad r \<and> watch_changed url_watched prev r then ark_url
      else if watch_changed type_watched prev r \<and> \<not> isEditing r \<and> fm_type (dw_form r) = 45 \<and> fm_base_url f = [] then ark_url
      else fm_base_url f)"
  by (simp add: corrected_form_def)

lemma corrected_form_mode:
  "fm_multi_key_mode (corrected_form prev r f) =
     (if mode_bad r \<and> watch_changed mode_watched prev r then SingleKey else fm_multi_key_mode f)"
  by (simp add: corrected_form_def)

lemma corrected_form_same:
  assumes "\<not> watch_changed type_watched prev r" "\<not> (url_bad r \<and> watch_changed url_watched prev r)"
    "\<not> (mode_bad r \<and> watch_changed mode_watched prev r)"
  shows "corrected_form prev r f = f"
proof -
  have "(if url_bad r \<and> watch_changed url_watched prev r then ark_url
      else if watch_changed type_watched prev r \<and> \<not> isEditing r \<and> fm_type (dw_form r) = 45 \<and> fm_base_url f = [] then ark_url
      else fm_base_url f) = fm_base_url f" using assms by auto
  moreover have "(if watch_changed type_watched prev r \<and> \<not> isEditing r \<and> fm_type (dw_form r) = 18 \<and> fm_other f = []
      then ''v2.1'' else fm_other f) = fm_other f" using assms by simp
  moreover have "(if mode_bad r \<and> watch_changed mode_watched prev r then SingleKey else fm_multi_key_mode f) = fm_multi_key_mode f"
    using assms by auto
  ultimately show ?thesis unfolding corrected_form_def by (simp only: same_fields)
qed

lemmas watched_defs = load_watched_def type_watched_def url_watched_def mode_watched_def

lemma load_kept: "loadChannel r = Some d \<Longrightarrow> load_watched d = load_watched r"
  by (auto simp: loadChannel_def load_watched_def isEditing_def split: if_splits option.splits)

lemma commit_kept: "drawer_commit prev r = Some d \<Longrightarrow> load_watched d = load_watched r"
  by (auto simp: drawer_commit_effects form_effects_form load_watched_def split: if_splits dest!: load_kept)

section \<open>Coming to rest\<close>

lemma edit_commit:
  "load_watched p = load_watched r \<Longrightarrow> drawer_commit (Some p) r = Some (r\<lparr>dw_form := corrected_form (Some p) r (dw_form r)\<rparr>)"
  by (simp add: drawer_commit_effects watch_changed_def form_effects_form)

text \<open>What the effects have written does not make them write again.\<close>

lemma corrected_again:
  fixes r :: drawer and prev :: "drawer option"
  defines "d \<equiv> r\<lparr>dw_form := corrected_form prev r (dw_form r)\<rparr>"
  shows "drawer_commit (Some r) d = Some d"
proof -
  have w: "load_watched d = load_watched r" "type_watched d = type_watched r" by (simp_all add: d_def watched_defs)
  have u: "\<not> (url_bad d \<and> url_watched r \<noteq> url_watched d)"
    by (auto simp: d_def url_bad_def url_watched_def corrected_form_url split: if_splits)
  have m: "\<not> (mode_bad d \<and> mode_watched r \<noteq> mode_watched d)"
    by (auto simp: d_def mode_bad_def mode_watched_def corrected_form_mode split: if_splits)
  have "corrected_form (Some r) d f = f" for f
    by (rule corrected_form_same) (use w(2) u m in \<open>auto simp: watch_changed_def\<close>)
  then show ?thesis using edit_commit [of r d] w(1) by simp
qed

lemma rest_stays: "drawer_commits n (Some d) d = Some (Some d, d)"
proof (induction n)
  case (Suc n)
  have "corrected_form (Some d) d f = f" for f by (rule corrected_form_same) (simp_all add: watch_changed_def)
  then have "drawer_commit (Some d) d = Some d" using edit_commit [of d d] by simp
  with Suc show ?case by simp
qed simp

lemma drawer_edit_settles:
  assumes "load_watched p = load_watched r"
  shows "drawer_commits (2 + n) (Some p) r =
    Some (Some (r\<lparr>dw_form := corrected_form (Some p) r (dw_form r)\<rparr>), r\<lparr>dw_form := corrected_form (Some p) r (dw_form r)\<rparr>)"
  using edit_commit [OF assms] corrected_again [of r "Some p"] rest_stays by (simp add: numeral_2_eq_2)

lemma commits_settle:
  assumes "drawer_commit prev r = Some d1"
  shows "drawer_commits (3 + n) prev r =
    Some (Some (d1\<lparr>dw_form := corrected_form (Some r) d1 (dw_form d1)\<rparr>), d1\<lparr>dw_form := corrected_form (Some r) d1 (dw_form d1)\<rparr>)"
proof -
  have "load_watched r = load_watched d1" using commit_kept [OF assms] by simp
  from drawer_edit_settles [OF this, of n] assms show ?thesis by (simp add: numeral_3_eq_3 numeral_2_eq_2)
qed

section \<open>Corrected states\<close>

lemma bad_after:
  "url_bad (d\<lparr>dw_form := corrected_form prev r (dw_form d)\<rparr>) \<Longrightarrow> url_bad d \<and> \<not> (url_bad r \<and> watch_changed url_watched prev r)"
  "mode_bad (d\<lparr>dw_form := corrected_form prev r (dw_form d)\<rparr>) \<Longrightarrow> mode_bad d \<and> \<not> (mode_bad r \<and> watch_changed mode_watched prev r)"
  by (auto simp: url_bad_def mode_bad_def corrected_form_url corrected_form_mode split: if_splits)

lemma bad_watched:
  "url_watched a = url_watched b \<Longrightarrow> url_bad a = url_bad b" "mode_watched a = mode_watched b \<Longrightarrow> mode_bad a = mode_bad b"
  by (auto simp: url_bad_def mode_bad_def watched_defs)

lemma two_commits_corrected:
  assumes "drawer_commit prev r = Some d1" "\<And>p. prev = Some p \<Longrightarrow> corrected p"
  shows "corrected (d1\<lparr>dw_form := corrected_form (Some r) d1 (dw_form d1)\<rparr>)"
proof -
  obtain d0 where d0: "d1 = d0\<lparr>dw_form := corrected_form prev r (dw_form d0)\<rparr>"
    using assms(1) by (auto simp: drawer_commit_effects form_effects_form)
  have fires: "url_bad r \<Longrightarrow> watch_changed url_watched prev r" "mode_bad r \<Longrightarrow> watch_changed mode_watched prev r"
    using assms(2) bad_watched [of "the prev" r] by (cases prev; auto simp: watch_changed_def corrected_def)+
  let ?d = "d1\<lparr>dw_form := corrected_form (Some r) d1 (dw_form d1)\<rparr>"
  have "\<not> url_bad ?d"
  proof
    assume b: "url_bad ?d"
    have "url_bad d1" "url_watched r = url_watched d1" using bad_after(1) [OF b] by (auto simp: watch_changed_def)
    then have "url_bad r" using bad_watched(1) by blast
    with fires(1) bad_after(1) [where d = d0 and prev = prev and r = r] \<open>url_bad d1\<close> d0 show False by simp
  qed
  moreover have "\<not> mode_bad ?d"
  proof
    assume b: "mode_bad ?d"
    have "mode_bad d1" "mode_watched r = mode_watched d1" using bad_after(2) [OF b] by (auto simp: watch_changed_def)
    then have "mode_bad r" using bad_watched(2) by blast
    with fires(2) bad_after(2) [where d = d0 and prev = prev and r = r] \<open>mode_bad d1\<close> d0 show False by simp
  qed
  ultimately show ?thesis by (simp add: corrected_def)
qed

text \<open>The states at rest: after the drawer is mounted, and after any change of the form, of the row or of the channel
  that arrives.\<close>

inductive drawer_reachable :: "drawer \<Rightarrow> bool" where
  mount: "drawer_commits 3 None d = Some (Some d', d') \<Longrightarrow> drawer_reachable d'"
| change: "drawer_reachable p \<Longrightarrow> drawer_commits 3 (Some p) r = Some (Some d', d') \<Longrightarrow> drawer_reachable d'"

lemma three_commits:
  assumes "drawer_commits 3 prev r = Some (Some d', d')"
  obtains d1 where "drawer_commit prev r = Some d1" "d' = d1\<lparr>dw_form := corrected_form (Some r) d1 (dw_form d1)\<rparr>"
proof (cases "drawer_commit prev r")
  case None
  then show ?thesis using assms by (simp add: numeral_3_eq_3)
next
  case (Some d1)
  then show ?thesis using commits_settle [OF Some, of 0] assms that by simp
qed

lemma reachable_corrected: "drawer_reachable d \<Longrightarrow> corrected d"
proof (induction rule: drawer_reachable.induct)
  case (mount d d')
  then show ?case by (auto elim!: three_commits intro: two_commits_corrected)
next
  case (change p r d')
  then show ?case by (auto elim!: three_commits intro!: two_commits_corrected)
qed

section \<open>Properties\<close>

text \<open>
  C27: The effects of the drawer come to rest, whatever has been rendered before and whatever is rendered now: after
  three renderings no further one changes anything, unless loading the channel throws.
\<close>

theorem effects_settle:
  "drawer_commit prev r = None \<and> watch_changed load_watched prev r \<and> loadChannel r = None \<or>
   (\<exists>d. \<forall>n. drawer_commits (3 + n) prev r = Some (Some d, d))"
proof (cases "drawer_commit prev r")
  case None
  then show ?thesis by (simp add: drawer_commit_effects split: if_splits)
qed (use commits_settle in blast)

text \<open>
  C17: What an edit of the form leaves in it, in every state the drawer can be at rest in: the edit itself, where a
  new channel whose type was just changed to 45 or 18 gets the default address or version if it has none, the
  coding plan is replaced by the address behind it, and a type with one key only is switched to the mode
  for one key. An address or a version that is cleared later stays empty.
\<close>

theorem edit_corrected:
  assumes "drawer_reachable p" "load_watched p = load_watched r"
  defines "typeChanged \<equiv> fm_type (dw_form p) \<noteq> fm_type (dw_form r)" and "f \<equiv> dw_form r"
  defines "d \<equiv> r\<lparr>dw_form := f
     \<lparr>fm_base_url := (if fm_type f = 45 \<and> (fm_base_url f = ''doubao-coding-plan'' \<or> typeChanged \<and> \<not> isEditing r \<and> fm_base_url f = [])
         then ark_url else fm_base_url f),
      fm_other := (if fm_type f = 18 \<and> typeChanged \<and> \<not> isEditing r \<and> fm_other f = [] then ''v2.1'' else fm_other f),
      fm_multi_key_mode := (if \<not> isEditing r \<and> \<not> supportsMultiKeyAddMode f then SingleKey else fm_multi_key_mode f)\<rparr>\<rparr>"
  shows "drawer_commits 2 (Some p) r = Some (Some d, d)"
proof -
  have p: "\<not> url_bad p" "\<not> mode_bad p" using reachable_corrected [OF assms(1)] by (simp_all add: corrected_def)
  have e: "isEditing p = isEditing r" using assms(2) by (simp add: load_watched_def)
  have t: "watch_changed type_watched (Some p) r \<longleftrightarrow> typeChanged"
    by (simp add: watch_changed_def type_watched_def e typeChanged_def)
  have u: "url_bad r \<and> watch_changed url_watched (Some p) r \<longleftrightarrow> url_bad r"
    using p(1) bad_watched(1) [of p r] by (auto simp: watch_changed_def)
  have m: "mode_bad r \<and> watch_changed mode_watched (Some p) r \<longleftrightarrow> mode_bad r"
    using p(2) bad_watched(2) [of p r] by (auto simp: watch_changed_def)
  have "(if url_bad r then ark_url
      else if typeChanged \<and> \<not> isEditing r \<and> fm_type (dw_form r) = 45 \<and> fm_base_url f = [] then ark_url else fm_base_url f) =
    (if fm_type f = 45 \<and> (fm_base_url f = ''doubao-coding-plan'' \<or> typeChanged \<and> \<not> isEditing r \<and> fm_base_url f = [])
      then ark_url else fm_base_url f)"
    by (auto simp: url_bad_def f_def)
  moreover have "(if typeChanged \<and> \<not> isEditing r \<and> fm_type (dw_form r) = 18 \<and> fm_other f = [] then ''v2.1'' else fm_other f) =
    (if fm_type f = 18 \<and> typeChanged \<and> \<not> isEditing r \<and> fm_other f = [] then ''v2.1'' else fm_other f)"
    by (simp add: f_def)
  moreover have "(if mode_bad r then SingleKey else fm_multi_key_mode f) =
    (if \<not> isEditing r \<and> \<not> supportsMultiKeyAddMode f then SingleKey else fm_multi_key_mode f)"
    by (auto simp: mode_bad_def f_def)
  ultimately have "r\<lparr>dw_form := corrected_form (Some p) r (dw_form r)\<rparr> = d"
    unfolding d_def corrected_form_def t u m by (simp only: f_def)
  then show ?thesis using drawer_edit_settles [OF assms(2), of 0] by simp
qed

definition drawer_with :: "channel_form \<Rightarrow> drawer" where
  "drawer_with f = \<lparr>dw_row = None, dw_channel = None, dw_form = f, dw_initialModels = [], dw_initialModelMapping = [],
     dw_initialStatusCodeMapping = [], dw_advancedOpen = False, dw_preference = False, dw_fetchModelsOpen = False\<rparr>"

lemma default_fields [simp]:
  "fm_type CHANNEL_FORM_DEFAULT_VALUES = 1" "fm_base_url CHANNEL_FORM_DEFAULT_VALUES = []" "fm_other CHANNEL_FORM_DEFAULT_VALUES = []"
  "fm_multi_key_mode CHANNEL_FORM_DEFAULT_VALUES = SingleKey"
  by (simp_all add: CHANNEL_FORM_DEFAULT_VALUES_def)

text \<open>A form of a type without defaults and with the mode for one key is at rest.\<close>

lemma plain_form_kept:
  assumes "fm_type (dw_form d) = 1"
  shows "corrected_form prev d f = f"
proof -
  have "\<not> url_bad d" "\<not> mode_bad d" using assms by (simp_all add: url_bad_def mode_bad_def supportsMultiKeyAddMode_def)
  then show ?thesis unfolding corrected_form_def using assms by (simp only: simp_thms if_False same_fields) simp
qed

lemma fresh_load: "dw_row r = None \<Longrightarrow> loadChannel r = Some (r\<lparr>dw_form := CHANNEL_FORM_DEFAULT_VALUES, dw_advancedOpen := False,
    dw_initialModels := [], dw_initialModelMapping := [], dw_initialStatusCodeMapping := []\<rparr>)"
  by (simp add: loadChannel_def isEditing_def)

lemma new_drawer_reachable: "drawer_reachable (drawer_with CHANNEL_FORM_DEFAULT_VALUES)"
proof (rule mount)
  let ?d = "drawer_with CHANNEL_FORM_DEFAULT_VALUES"
  have t: "fm_type (dw_form ?d) = 1" by (simp add: drawer_with_def)
  have "loadChannel ?d = Some ?d" by (simp add: fresh_load drawer_with_def)
  then have "drawer_commit None ?d = Some ?d"
    by (simp add: drawer_commit_effects watch_changed_def form_effects_form plain_form_kept [OF t])
  from commits_settle [OF this, of 0] show "drawer_commits 3 None ?d = Some (Some ?d, ?d)"
    by (simp add: plain_form_kept [OF t])
qed

theorem edit_corrected_witness:
  "fm_base_url (dw_form (snd (the (drawer_commits 2 (Some (drawer_with CHANNEL_FORM_DEFAULT_VALUES))
     (drawer_with (CHANNEL_FORM_DEFAULT_VALUES\<lparr>fm_type := 45\<rparr>)))))) = ark_url"
proof -
  have "load_watched (drawer_with CHANNEL_FORM_DEFAULT_VALUES) = load_watched (drawer_with (CHANNEL_FORM_DEFAULT_VALUES\<lparr>fm_type := 45\<rparr>))"
    by (simp add: load_watched_def drawer_with_def isEditing_def)
  from edit_corrected [OF new_drawer_reachable this] show ?thesis by (simp add: drawer_with_def isEditing_def)
qed

text \<open>
  C36: What the form shows when the drawer is opened for a new channel. After the drawer was closed it is empty.
  After a channel was created it still holds everything that was submitted, the key included. After a
  channel of type 45 or 18 was updated it is empty but for the default address or version of that type,
  although a new channel starts with type 1: the effects that follow still see the type of the updated channel.
\<close>

theorem form_after_success:
  "(\<exists>d. drawer_commits 3 (Some p) (handleOpenChange False p) = Some (Some d, d) \<and> dw_form d = CHANNEL_FORM_DEFAULT_VALUES) \<and>
   (dw_row p = None \<and> dw_channel p = None \<longrightarrow> drawer_commits 3 (Some p) (handleSuccess p) = Some (Some p, p)) \<and>
   (dw_row p \<noteq> None \<longrightarrow> (\<exists>d. drawer_commits 3 (Some p) (handleSuccess p) = Some (Some d, d) \<and>
      dw_form d = CHANNEL_FORM_DEFAULT_VALUES
        \<lparr>fm_base_url := (if fm_type (dw_form p) = 45 then ark_url else []), fm_other := (if fm_type (dw_form p) = 18 then ''v2.1'' else [])\<rparr>))"
proof (intro conjI impI)
  let ?c = "handleOpenChange False p"
  have c: "dw_row ?c = None" "dw_form ?c = CHANNEL_FORM_DEFAULT_VALUES" by (simp_all add: handleOpenChange_def onOpenChange_def)
  obtain d0 where d0: "(if watch_changed load_watched (Some p) ?c then loadChannel ?c else Some ?c) = Some d0"
      "dw_form d0 = CHANNEL_FORM_DEFAULT_VALUES" using fresh_load [OF c(1)] c(2) by (cases "watch_changed load_watched (Some p) ?c") auto
  have "drawer_commit (Some p) ?c = Some d0"
    unfolding drawer_commit_effects d0(1) by (simp add: form_effects_form plain_form_kept c(2))
  from commits_settle [OF this, of 0] show "\<exists>d. drawer_commits 3 (Some p) ?c = Some (Some d, d) \<and> dw_form d = CHANNEL_FORM_DEFAULT_VALUES"
    using d0(2) by (simp add: plain_form_kept)
next
  assume "dw_row p = None \<and> dw_channel p = None"
  then have "handleSuccess p = p" by (cases p) (simp add: handleSuccess_def onOpenChange_def)
  then show "drawer_commits 3 (Some p) (handleSuccess p) = Some (Some p, p)" by (simp only: rest_stays)
next
  assume row: "dw_row p \<noteq> None"
  let ?s = "handleSuccess p"
  have s: "dw_row ?s = None" "dw_form ?s = dw_form p" by (simp_all add: handleSuccess_def onOpenChange_def)
  have e: "isEditing p" "\<not> isEditing ?s" using row s by (simp_all add: isEditing_def)
  have w: "watch_changed load_watched (Some p) ?s" "watch_changed type_watched (Some p) ?s" "\<not> watch_changed url_watched (Some p) ?s"
    using e s(2) by (simp_all add: watch_changed_def watched_defs)
  define f where "f = corrected_form (Some p) ?s CHANNEL_FORM_DEFAULT_VALUES"
  obtain d0 where l: "loadChannel ?s = Some d0" "dw_form d0 = CHANNEL_FORM_DEFAULT_VALUES" using fresh_load [OF s(1)] by auto
  have d1: "drawer_commit (Some p) ?s = Some (d0\<lparr>dw_form := f\<rparr>)"
    by (simp add: drawer_commit_effects w(1) l form_effects_form f_def)
  have "fm_type f = 1" by (simp add: f_def)
  then have "drawer_commits 3 (Some p) ?s = Some (Some (d0\<lparr>dw_form := f\<rparr>), d0\<lparr>dw_form := f\<rparr>)"
    using commits_settle [OF d1, of 0] by (simp add: plain_form_kept)
  moreover have "f = CHANNEL_FORM_DEFAULT_VALUES
      \<lparr>fm_base_url := (if fm_type (dw_form p) = 45 then ark_url else []), fm_other := (if fm_type (dw_form p) = 18 then ''v2.1'' else []),
       fm_multi_key_mode := fm_multi_key_mode CHANNEL_FORM_DEFAULT_VALUES\<rparr>"
    unfolding f_def corrected_form_def using w e s(2) by simp
  ultimately show "\<exists>d. drawer_commits 3 (Some p) ?s = Some (Some d, d) \<and> dw_form d = CHANNEL_FORM_DEFAULT_VALUES
        \<lparr>fm_base_url := (if fm_type (dw_form p) = 45 then ark_url else []), fm_other := (if fm_type (dw_form p) = 18 then ''v2.1'' else [])\<rparr>"
    by (intro exI [of _ "d0\<lparr>dw_form := f\<rparr>"]) (simp add: CHANNEL_FORM_DEFAULT_VALUES_def)
qed

theorem form_after_success_witness:
  "\<exists>d. drawer_commits 3 (Some ((drawer_with (CHANNEL_FORM_DEFAULT_VALUES\<lparr>fm_key := ''k''\<rparr>)))) (handleSuccess (drawer_with (CHANNEL_FORM_DEFAULT_VALUES\<lparr>fm_key := ''k''\<rparr>))) =
     Some (Some d, d) \<and> fm_key (dw_form d) = ''k''"
  using form_after_success [of "drawer_with (CHANNEL_FORM_DEFAULT_VALUES\<lparr>fm_key := ''k''\<rparr>)"] by (simp add: drawer_with_def)

end
