(* ===== verification/TieredEditor.thy ===== *)
theory TieredEditor
  imports TierExpr
begin

text \<open>
  The editor of tiered prices (\<open>system-settings/models/tiered-pricing-editor.tsx\<close>): the handlers of the tier cards, of
  the rule cards and of the whole editor, the templates, and the effects that keep the two texts of the
  pricing panel in step with what is edited. A commit runs the effects of one rendering; each effect sees
  the values of that rendering, and what they write is rendered next. The view calls a handler with the index
  of a card it shows. The estimate of costs, which runs the expression as JavaScript code, and the prompt
  for a language model are left out.
\<close>

section \<open>Number fields\<close>

definition unitCostToPrice :: "jsnum \<Rightarrow> jsnum" where
  "unitCostToPrice uc = num_or_zero uc"

definition priceToUnitCost :: "jsnum \<Rightarrow> jsnum" where
  "priceToUnitCost price = num_or_zero price"

definition formatNumberDraft :: "threshold \<Rightarrow> jsstring" where
  "formatNumberDraft value =
     (case value of
        TextValue s \<Rightarrow> s
      | NumValue n \<Rightarrow> if is_finite n then num_to_string n else ''0'')"

definition parseNumberDraft :: "jsstring \<Rightarrow> jsnum" where
  "parseNumberDraft value =
     (if js_trim value = [] then JDec 0 0
      else (let nxt = to_number value in if is_finite nxt then nxt else JDec 0 0))"

definition isZeroDraft :: "jsstring \<Rightarrow> bool" where
  "isZeroDraft value \<longleftrightarrow> js_trim value \<noteq> [] \<and> parseNumberDraft value = JDec 0 0"

text \<open>A field keeps the text that is typed; \<open>nf_value\<close> is the value its owner holds.\<close>

record draft_field =
  nf_value :: threshold
  nf_draft :: jsstring
  nf_focused :: bool

definition field_effect :: "draft_field \<Rightarrow> draft_field" where
  "field_effect f = (if nf_focused f then f else f\<lparr>nf_draft := formatNumberDraft (nf_value f)\<rparr>)"

definition field_change :: "(jsnum \<Rightarrow> threshold) \<Rightarrow> jsstring \<Rightarrow> draft_field \<Rightarrow> draft_field" where
  "field_change own nextDraft f = f\<lparr>nf_draft := nextDraft, nf_value := own (parseNumberDraft nextDraft)\<rparr>"

definition field_focus :: "draft_field \<Rightarrow> draft_field" where
  "field_focus f = f\<lparr>nf_focused := True\<rparr>"

definition field_blur :: "(jsnum \<Rightarrow> threshold) \<Rightarrow> draft_field \<Rightarrow> draft_field" where
  "field_blur own f =
     (let normalized = parseNumberDraft (nf_draft f)
      in f\<lparr>nf_focused := False, nf_draft := num_to_string normalized, nf_value := own normalized\<rparr>)"

section \<open>Tier cards\<close>

definition CONDITION_INPUT_OPTIONS :: "jsstring list" where
  "CONDITION_INPUT_OPTIONS = [''len'', ''p'', ''c'']"

definition OPS :: "jsstring list" where
  "OPS = [''<'', ''<='', ''>'', ''>='']"

definition CACHE_PRICE_VARS :: "billing_var list" where
  "CACHE_PRICE_VARS = filter (\<lambda>v. bv_group v = Some ''cache'') BILLING_EXTRA_VARS"

definition MEDIA_PRICE_VARS :: "billing_var list" where
  "MEDIA_PRICE_VARS = filter (\<lambda>v. bv_group v = Some ''media'') BILLING_EXTRA_VARS"

text \<open>The three inputs of a condition.\<close>

datatype condition_edit = SetVar jsstring | SetOp jsstring | SetValue jsnum

definition edit_condition :: "condition_edit \<Rightarrow> tier_condition_input \<Rightarrow> tier_condition_input" where
  "edit_condition e c =
     (case e of
        SetVar v \<Rightarrow> c\<lparr>ti_var := v\<rparr>
      | SetOp op \<Rightarrow> c\<lparr>ti_op := op\<rparr>
      | SetValue n \<Rightarrow> c\<lparr>ti_value := Some (NumValue n)\<rparr>)"

definition remove_at :: "nat \<Rightarrow> 'a list \<Rightarrow> 'a list" where
  "remove_at i xs = take i xs @ drop (Suc i) xs"

definition tier_handleConditionChange :: "nat \<Rightarrow> tier_condition_input \<Rightarrow> visual_tier \<Rightarrow> visual_tier" where
  "tier_handleConditionChange i nxt tier = tier\<lparr>vt_conditions := (vt_conditions tier)[i := nxt]\<rparr>"

definition handleConditionRemove :: "nat \<Rightarrow> visual_tier \<Rightarrow> visual_tier" where
  "handleConditionRemove i tier = tier\<lparr>vt_conditions := remove_at i (vt_conditions tier)\<rparr>"

text \<open>The price fields a card shows, by the name of their property.\<close>

datatype price_field = InputCost | OutputCost | CacheReadCost | CacheCreateCost | CacheCreate1hCost | ImageCost
  | ImageOutputCost | AudioInputCost | AudioOutputCost

definition tier_handlePriceChange :: "price_field \<Rightarrow> jsnum \<Rightarrow> visual_tier \<Rightarrow> visual_tier" where
  "tier_handlePriceChange fld v tier =
     (case fld of
        InputCost \<Rightarrow> tier\<lparr>vt_input_unit_cost := v\<rparr>
      | OutputCost \<Rightarrow> tier\<lparr>vt_output_unit_cost := v\<rparr>
      | CacheReadCost \<Rightarrow> tier\<lparr>vt_cache_read_unit_cost := v\<rparr>
      | CacheCreateCost \<Rightarrow> tier\<lparr>vt_cache_create_unit_cost := v\<rparr>
      | CacheCreate1hCost \<Rightarrow> tier\<lparr>vt_cache_create_1h_unit_cost := v\<rparr>
      | ImageCost \<Rightarrow> tier\<lparr>vt_image_unit_cost := v\<rparr>
      | ImageOutputCost \<Rightarrow> tier\<lparr>vt_image_output_unit_cost := v\<rparr>
      | AudioInputCost \<Rightarrow> tier\<lparr>vt_audio_input_unit_cost := v\<rparr>
      | AudioOutputCost \<Rightarrow> tier\<lparr>vt_audio_output_unit_cost := v\<rparr>)"

definition handleCacheModeChange :: "cache_mode \<Rightarrow> visual_tier \<Rightarrow> visual_tier" where
  "handleCacheModeChange mode tier =
     tier\<lparr>vt_cache_mode := mode,
          vt_cache_create_1h_unit_cost := (if mode = Timed then vt_cache_create_1h_unit_cost tier else JDec 0 0)\<rparr>"

definition hasMediaPricing :: "visual_tier \<Rightarrow> bool" where
  "hasMediaPricing tier \<longleftrightarrow>
     list_ex (\<lambda>v. case bv_tierField v of
       Some fld \<Rightarrow> (case map_of (tier_fields tier) fld of Some n \<Rightarrow> num_positive (unitCostToPrice n) | None \<Rightarrow> False)
     | None \<Rightarrow> False) MEDIA_PRICE_VARS"

section \<open>The list of tiers\<close>

text \<open>Every handler starts from the normalised configuration and hands the next one to the editor.\<close>

definition handleTierChange :: "nat \<Rightarrow> visual_tier \<Rightarrow> visual_config option \<Rightarrow> visual_config" where
  "handleTierChange index nxt visualConfig =
     (normalizeVisualConfig visualConfig)[index := normalizeVisualTier (as_partial_tier nxt)]"

definition default_bound :: "jsstring \<Rightarrow> tier_condition_input" where
  "default_bound v = \<lparr>ti_var = v, ti_op = ''<'', ti_value = Some (NumValue (JDec 2 5))\<rparr>"

definition handleAddTier :: "visual_config option \<Rightarrow> visual_config" where
  "handleAddTier visualConfig =
     (let tiers = normalizeVisualConfig visualConfig;
          bounded = (if tiers \<noteq> [] \<and> vt_conditions (last tiers) = []
                     then butlast tiers @ [normalizeVisualTier ((as_partial_tier (last tiers))\<lparr>pa_conditions := Some [default_bound ''len'']\<rparr>)]
                     else tiers)
      in bounded @ [normalizeVisualTier (empty_partial_tier\<lparr>pa_label := Some (''tier_'' @ show_nat (length bounded + 1)),
           pa_conditions := Some [], pa_input_unit_cost := Some (JDec 0 0), pa_output_unit_cost := Some (JDec 0 0)\<rparr>)])"

definition handleRemoveTier :: "nat \<Rightarrow> visual_config option \<Rightarrow> visual_config" where
  "handleRemoveTier index visualConfig =
     (let config = normalizeVisualConfig visualConfig; tiers = remove_at index config
      in if tiers \<noteq> [] then tiers else config)"

text \<open>The guard returns before the configuration changes, so the state stays as it is.\<close>

definition handleAddCondition :: "nat \<Rightarrow> visual_config option \<Rightarrow> visual_config option" where
  "handleAddCondition index visualConfig =
     (let config = normalizeVisualConfig visualConfig; tier = config ! index
      in if length (vt_conditions tier) \<ge> 2 then visualConfig
         else (let nextVar = (if ''len'' \<in> ti_var ` set (vt_conditions tier) then ''c'' else ''len'')
               in Some (config[index := tier\<lparr>vt_conditions := vt_conditions tier @ [default_bound nextVar]\<rparr>])))"

section \<open>Rule cards\<close>

definition handleSourceChange :: "jsstring \<Rightarrow> request_condition \<Rightarrow> request_condition" where
  "handleSourceChange source condition =
     (if source = SOURCE_TIME then TimeCondition createEmptyTimeCondition
      else if source = SOURCE_HEADER \<or> source = SOURCE_PARAM
      then ParamHeaderCondition (createEmptyCondition\<lparr>pc_source := source\<rparr>)
      else condition)"

definition rule_handleModeChange :: "jsstring \<Rightarrow> request_condition \<Rightarrow> request_condition" where
  "rule_handleModeChange mode condition =
     (case condition of
        TimeCondition t \<Rightarrow> TimeCondition (t\<lparr>tc_mode := mode\<rparr>)
      | ParamHeaderCondition h \<Rightarrow> ParamHeaderCondition (h\<lparr>pc_mode := mode\<rparr>))"

text \<open>The inputs of \<open>renderTimeCondition\<close> and \<open>renderParamHeaderCondition\<close>.\<close>

datatype time_edit = SetTimeFunc jsstring | SetTimezone jsstring | SetRangeStart jsnum | SetRangeEnd jsnum | SetTimeValue jsnum

definition edit_time :: "time_edit \<Rightarrow> time_condition \<Rightarrow> time_condition" where
  "edit_time e t =
     (case e of
        SetTimeFunc f \<Rightarrow> t\<lparr>tc_timeFunc := f\<rparr>
      | SetTimezone z \<Rightarrow> t\<lparr>tc_timezone := z\<rparr>
      | SetRangeStart n \<Rightarrow> t\<lparr>tc_rangeStart := num_to_string n\<rparr>
      | SetRangeEnd n \<Rightarrow> t\<lparr>tc_rangeEnd := num_to_string n\<rparr>
      | SetTimeValue n \<Rightarrow> t\<lparr>tc_value := num_to_string n\<rparr>)"

datatype param_edit = SetPath jsstring | SetParamValue jsstring

definition edit_param :: "param_edit \<Rightarrow> param_header_condition \<Rightarrow> param_header_condition" where
  "edit_param e h = (case e of SetPath p \<Rightarrow> h\<lparr>pc_path := p\<rparr> | SetParamValue v \<Rightarrow> h\<lparr>pc_value := v\<rparr>)"

definition rule_handleConditionChange :: "nat \<Rightarrow> request_condition \<Rightarrow> request_rule_group \<Rightarrow> request_rule_group" where
  "rule_handleConditionChange i nxt grp = grp\<lparr>rg_conditions := (rg_conditions grp)[i := nxt]\<rparr>"

definition rule_handleAddCondition :: "bool \<Rightarrow> request_rule_group \<Rightarrow> request_rule_group" where
  "rule_handleAddCondition timeMode grp =
     grp\<lparr>rg_conditions := rg_conditions grp @
       [if timeMode then TimeCondition createEmptyTimeCondition else ParamHeaderCondition createEmptyCondition]\<rparr>"

definition rule_removeCondition :: "nat \<Rightarrow> request_rule_group \<Rightarrow> request_rule_group" where
  "rule_removeCondition i grp = grp\<lparr>rg_conditions := remove_at i (rg_conditions grp)\<rparr>"

definition rule_setMultiplier :: "jsnum \<Rightarrow> request_rule_group \<Rightarrow> request_rule_group" where
  "rule_setMultiplier n grp = grp\<lparr>rg_multiplier := num_to_string n\<rparr>"

section \<open>Templates\<close>

record preset =
  pr_key :: jsstring
  pr_label :: jsstring
  pr_expr :: jsstring
  pr_requestRules :: "request_rule_group list option"

definition plain_preset :: "jsstring \<Rightarrow> jsstring \<Rightarrow> jsstring \<Rightarrow> preset" where
  "plain_preset key label expr = \<lparr>pr_key = key, pr_label = label, pr_expr = expr, pr_requestRules = None\<rparr>"

definition rule_preset :: "jsstring \<Rightarrow> jsstring \<Rightarrow> jsstring \<Rightarrow> request_rule_group list \<Rightarrow> preset" where
  "rule_preset key label expr rules = \<lparr>pr_key = key, pr_label = label, pr_expr = expr, pr_requestRules = Some rules\<rparr>"

definition preset_rule :: "jsstring \<Rightarrow> jsstring \<Rightarrow> jsstring \<Rightarrow> jsstring \<Rightarrow> jsstring \<Rightarrow> request_rule_group" where
  "preset_rule source path mode value multiplier =
     \<lparr>rg_conditions = [ParamHeaderCondition \<lparr>pc_source = source, pc_path = path, pc_mode = mode, pc_value = value\<rparr>],
      rg_multiplier = multiplier\<rparr>"

definition preset_time :: "jsstring \<Rightarrow> jsstring \<Rightarrow> jsstring \<Rightarrow> jsstring \<Rightarrow> jsstring \<Rightarrow> jsstring \<Rightarrow> request_rule_group" where
  "preset_time timeFunc mode value rangeStart rangeEnd multiplier =
     \<lparr>rg_conditions = [TimeCondition \<lparr>tc_timeFunc = timeFunc, tc_timezone = ''Asia/Shanghai'', tc_mode = mode, tc_value = value,
        tc_rangeStart = rangeStart, tc_rangeEnd = rangeEnd\<rparr>], rg_multiplier = multiplier\<rparr>"

definition PRESET_GROUPS :: "(jsstring \<times> preset list) list" where
  "PRESET_GROUPS =
    [(''Fixed price'',
      [plain_preset ''flat'' ''Flat'' ''tier(\"base\", p * 2 + c * 4)'',
       plain_preset ''claude-opus'' ''Claude Opus 4.6'' ''tier(\"base\", p * 5 + c * 25 + cr * 0.5 + cc * 6.25 + cc1h * 10)'',
       plain_preset ''gpt-5.4'' ''GPT-5.4''
         ''len <= 272000 ? tier(\"standard\", p * 2.5 + c * 15 + cr * 0.25) : tier(\"long_context\", p * 5 + c * 22.5 + cr * 0.5)'']),
     (''Tiered'',
      [plain_preset ''claude-sonnet'' ''Claude Sonnet 4.5''
         ''len <= 200000 ? tier(\"standard\", p * 3 + c * 15 + cr * 0.3 + cc * 3.75 + cc1h * 6) : tier(\"long_context\", p * 6 + c * 22.5 + cr * 0.6 + cc * 7.5 + cc1h * 12)'',
       plain_preset ''qwen3-max'' ''Qwen3 Max''
         ''len <= 32000 ? tier(\"short\", p * 1.2 + c * 6 + cr * 0.24 + cc * 1.5) : len <= 128000 ? tier(\"mid\", p * 2.4 + c * 12 + cr * 0.48 + cc * 3) : tier(\"long\", p * 3 + c * 15 + cr * 0.6 + cc * 3.75)'',
       plain_preset ''glm-4.5-air'' ''GLM-4.5 Air''
         ''len < 32000 && c < 200 ? tier(\"short_output\", p * 0.8 + c * 2 + cr * 0.16) : len < 32000 && c >= 200 ? tier(\"long_output\", p * 0.8 + c * 6 + cr * 0.16) : tier(\"mid_context\", p * 1.2 + c * 8 + cr * 0.24)'',
       plain_preset ''doubao-seed-1.8'' ''Doubao Seed 1.8''
         ''len <= 32000 && c <= 200 ? tier(\"discount\", p * 0.8 + c * 2 + cr * 0.16 + cc * 0.17) : len <= 32000 ? tier(\"short\", p * 0.8 + c * 8 + cr * 0.16 + cc * 0.17) : len <= 128000 ? tier(\"mid\", p * 1.2 + c * 16 + cr * 0.16 + cc * 0.17) : tier(\"long\", p * 2.4 + c * 24 + cr * 0.16 + cc * 0.17)'']),
     (''Multimodal'',
      [plain_preset ''gpt-image-1-mini'' ''GPT Image 1 Mini'' ''tier(\"base\", p * 2 + c * 8 + img * 2.5)'',
       plain_preset ''gemini-2.5-flash'' ''Gemini 2.5 Flash'' ''tier(\"base\", p * 0.3 + c * 2.5 + cr * 0.03 + ai * 1.0)'',
       plain_preset ''gemini-3-pro-image'' ''Gemini 3 Pro Image'' ''tier(\"base\", p * 2 + c * 12 + img_o * 120)'',
       plain_preset ''qwen3-omni-flash'' ''Qwen3 Omni Flash''
         ''tier(\"base\", p * 0.43 + c * 3.06 + img * 0.78 + ai * 3.81 + ao * 15.11)'']),
     (''Request rule'',
      [rule_preset ''claude-opus-fast'' ''Claude Opus 4.6 Fast'' ''tier(\"base\", p * 5 + c * 25 + cr * 0.5 + cc * 6.25 + cc1h * 10)''
         [preset_rule SOURCE_HEADER ''anthropic-beta'' MATCH_CONTAINS ''fast-mode-2026-02-01'' ''6''],
       rule_preset ''gpt-5.4-tiers'' ''GPT-5.4 Priority/Flex''
         ''len <= 272000 ? tier(\"standard\", p * 2.5 + c * 15 + cr * 0.25) : tier(\"long_context\", p * 5 + c * 22.5 + cr * 0.5)''
         [preset_rule SOURCE_PARAM ''service_tier'' MATCH_EQ ''priority'' ''2'',
          preset_rule SOURCE_PARAM ''service_tier'' MATCH_EQ ''flex'' ''0.5'']]),
     (''Time-based'',
      [rule_preset ''night-discount'' ''Night discount (50%)'' ''tier(\"base\", p * 3 + c * 15)''
         [preset_time ''hour'' MATCH_RANGE [] ''21'' ''6'' ''0.5''],
       rule_preset ''weekend-discount'' ''Weekend discount (80%)'' ''tier(\"base\", p * 3 + c * 15)''
         [preset_time ''weekday'' MATCH_EQ ''0'' [] [] ''0.8'', preset_time ''weekday'' MATCH_EQ ''6'' [] [] ''0.8'']])]"

section \<open>The editor\<close>

text \<open>\<open>te_billingExpr\<close> and \<open>te_requestRuleExpr\<close> are the texts of the panel, which the editor gets as properties and
  changes through the callbacks; \<open>te_initRef\<close> is the reference that guards the first effect, \<open>te_seen\<close> the
  properties at the last commit, by which React decides which effects run.\<close>

datatype te_mode = VisualEditor | RawEditor

record tiered_editor =
  te_modelName :: jsstring
  te_billingExpr :: jsstring
  te_requestRuleExpr :: jsstring
  te_editorMode :: te_mode
  te_visualConfig :: "visual_config option"
  te_rawExpr :: jsstring
  te_requestRuleGroups :: "request_rule_group list"
  te_initRef :: bool
  te_seen :: "(jsstring \<times> jsstring \<times> jsstring) option"

text \<open>\<open>tryParseRequestRuleExpr(expr) || []\<close>\<close>

definition groups_or_empty :: "jsstring \<Rightarrow> js_error + request_rule_group list" where
  "groups_or_empty expr =
     (case tryParseRequestRuleExpr expr of Inl e \<Rightarrow> Inl e | Inr None \<Rightarrow> Inr [] | Inr (Some gs) \<Rightarrow> Inr gs)"

text \<open>The initial values of the states.\<close>

definition mountEditor :: "jsstring \<Rightarrow> jsstring \<Rightarrow> jsstring \<Rightarrow> js_error + tiered_editor" where
  "mountEditor modelName currentExpr currentRequestRuleExpr =
     (case groups_or_empty currentRequestRuleExpr of
        Inl e \<Rightarrow> Inl e
      | Inr groups \<Rightarrow>
          Inr \<lparr>te_modelName = modelName, te_billingExpr = currentExpr, te_requestRuleExpr = currentRequestRuleExpr,
               te_editorMode = VisualEditor, te_visualConfig = tryParseVisualConfig currentExpr,
               te_rawExpr = combineBillingExpr currentExpr currentRequestRuleExpr, te_requestRuleGroups = groups,
               te_initRef = False, te_seen = None\<rparr>)"

definition canUseVisualRules :: "tiered_editor \<Rightarrow> js_error + bool" where
  "canUseVisualRules s =
     (if te_requestRuleExpr s = [] then Inr True
      else (case tryParseRequestRuleExpr (te_requestRuleExpr s) of Inl e \<Rightarrow> Inl e | Inr r \<Rightarrow> Inr (r \<noteq> None)))"

definition effectiveExpr :: "tiered_editor \<Rightarrow> js_error + jsstring" where
  "effectiveExpr s =
     (if te_editorMode s = VisualEditor then Inr (generateExprFromVisualConfig (te_visualConfig s))
      else (case splitBillingExprAndRequestRules (te_rawExpr s) of Inl e \<Rightarrow> Inl e | Inr r \<Rightarrow> Inr (billingExpr r)))"

text \<open>The effect that reads the texts of the panel, which runs when one of them has changed.\<close>

definition exprs_changed :: "tiered_editor \<Rightarrow> bool" where
  "exprs_changed s \<longleftrightarrow> (case te_seen s of None \<Rightarrow> True | Some (n, e, r) \<Rightarrow> (e, r) \<noteq> (te_billingExpr s, te_requestRuleExpr s))"

definition init_effect :: "tiered_editor \<Rightarrow> js_error + tiered_editor" where
  "init_effect s =
     (if \<not> exprs_changed s \<or> te_initRef s then Inr s
      else (let s1 = (case tryParseVisualConfig (te_billingExpr s) of
                        Some parsedConfig \<Rightarrow> s\<lparr>te_visualConfig := Some parsedConfig, te_editorMode := VisualEditor\<rparr>
                      | None \<Rightarrow> if te_billingExpr s \<noteq> [] then s\<lparr>te_visualConfig := None, te_editorMode := RawEditor\<rparr>
                                else s\<lparr>te_visualConfig := Some createDefaultVisualConfig\<rparr>)
            in (case groups_or_empty (te_requestRuleExpr s) of
                  Inl e \<Rightarrow> Inl e
                | Inr groups \<Rightarrow>
                    Inr (s1\<lparr>te_initRef := True, te_rawExpr := combineBillingExpr (te_billingExpr s) (te_requestRuleExpr s),
                            te_requestRuleGroups := groups\<rparr>))))"

definition name_changed :: "tiered_editor \<Rightarrow> bool" where
  "name_changed s \<longleftrightarrow> (case te_seen s of None \<Rightarrow> True | Some (n, e, r) \<Rightarrow> n \<noteq> te_modelName s)"

text \<open>One rendering with its effects, in the order of the source. The two effects that write the texts run when a
  value they compare has changed; they are run at every commit here, because after a run they find nothing to
  write until one of these values changes again.\<close>

definition te_commit :: "tiered_editor \<Rightarrow> js_error + tiered_editor" where
  "te_commit s =
     (case canUseVisualRules s of
        Inl e \<Rightarrow> Inl e
      | Inr _ \<Rightarrow>
     (case effectiveExpr s of
        Inl e \<Rightarrow> Inl e
      | Inr effective \<Rightarrow>
     (case init_effect s of
        Inl e \<Rightarrow> Inl e
      | Inr s1 \<Rightarrow>
          (let s2 = (if name_changed s then s1\<lparr>te_initRef := False\<rparr> else s1);
               s3 = (if effective \<noteq> te_billingExpr s then s2\<lparr>te_billingExpr := effective\<rparr> else s2);
               ruleExpr = buildRequestRuleExpr (te_requestRuleGroups s);
               s4 = (if te_editorMode s = VisualEditor \<and> ruleExpr \<noteq> te_requestRuleExpr s
                     then s3\<lparr>te_requestRuleExpr := ruleExpr\<rparr> else s3)
           in Inr (s4\<lparr>te_seen := Some (te_modelName s, te_billingExpr s, te_requestRuleExpr s)\<rparr>)))))"

text \<open>Renderings follow each other until no effect changes anything; five are enough.\<close>

fun te_commits :: "nat \<Rightarrow> tiered_editor \<Rightarrow> js_error + tiered_editor" where
  "te_commits 0 s = Inr s"
| "te_commits (Suc n) s = (case te_commit s of Inl e \<Rightarrow> Inl e | Inr s' \<Rightarrow> te_commits n s')"

definition te_settle :: "tiered_editor \<Rightarrow> js_error + tiered_editor" where
  "te_settle s = te_commits 5 s"

section \<open>Handlers of the editor\<close>

definition handleVisualChange :: "visual_config option \<Rightarrow> tiered_editor \<Rightarrow> tiered_editor" where
  "handleVisualChange nxt s = s\<lparr>te_visualConfig := nxt\<rparr>"

definition handleRawChange :: "jsstring \<Rightarrow> tiered_editor \<Rightarrow> js_error + tiered_editor" where
  "handleRawChange value s =
     (case splitBillingExprAndRequestRules value of
        Inl e \<Rightarrow> Inl e
      | Inr r \<Rightarrow> Inr (s\<lparr>te_rawExpr := value, te_requestRuleExpr := requestRuleExpr r\<rparr>))"

definition te_handleModeChange :: "te_mode \<Rightarrow> tiered_editor \<Rightarrow> js_error + tiered_editor" where
  "te_handleModeChange nxt s =
     (case nxt of
        VisualEditor \<Rightarrow>
          (case splitBillingExprAndRequestRules (te_rawExpr s) of
             Inl e \<Rightarrow> Inl e
           | Inr r \<Rightarrow>
               (let parsed = (case tryParseVisualConfig (billingExpr r) of Some cfg \<Rightarrow> cfg | None \<Rightarrow> createDefaultVisualConfig)
                in (case groups_or_empty (requestRuleExpr r) of
                      Inl e \<Rightarrow> Inl e
                    | Inr parsedGroups \<Rightarrow>
                        Inr (s\<lparr>te_visualConfig := Some parsed, te_requestRuleGroups := parsedGroups,
                               te_requestRuleExpr := requestRuleExpr r, te_editorMode := VisualEditor\<rparr>))))
      | RawEditor \<Rightarrow>
          (let expr = generateExprFromVisualConfig (te_visualConfig s);
               ruleExpr = buildRequestRuleExpr (te_requestRuleGroups s);
               combined = combineBillingExpr expr ruleExpr
           in Inr (s\<lparr>te_rawExpr := (if combined \<noteq> [] then combined else expr), te_editorMode := RawEditor\<rparr>)))"

definition applyPreset :: "preset \<Rightarrow> tiered_editor \<Rightarrow> tiered_editor" where
  "applyPreset preset s =
     (let presetGroups = (case pr_requestRules preset of Some gs \<Rightarrow> gs | None \<Rightarrow> []);
          ruleExpr = buildRequestRuleExpr presetGroups;
          combined = combineBillingExpr (pr_expr preset) ruleExpr;
          s1 = s\<lparr>te_rawExpr := (if combined \<noteq> [] then combined else pr_expr preset)\<rparr>;
          s2 = (case tryParseVisualConfig (pr_expr preset) of
                  Some parsed \<Rightarrow> s1\<lparr>te_visualConfig := Some parsed, te_editorMode := VisualEditor\<rparr>
                | None \<Rightarrow> s1\<lparr>te_editorMode := RawEditor, te_visualConfig := None\<rparr>)
      in s2\<lparr>te_requestRuleGroups := presetGroups, te_requestRuleExpr := ruleExpr\<rparr>)"

definition handleRuleGroupsChange :: "request_rule_group list \<Rightarrow> tiered_editor \<Rightarrow> tiered_editor" where
  "handleRuleGroupsChange nxt s = s\<lparr>te_requestRuleGroups := nxt\<rparr>"

definition changeRuleGroup :: "nat \<Rightarrow> request_rule_group \<Rightarrow> tiered_editor \<Rightarrow> tiered_editor" where
  "changeRuleGroup groupIndex nxt s = handleRuleGroupsChange ((te_requestRuleGroups s)[groupIndex := nxt]) s"

definition removeRuleGroup :: "nat \<Rightarrow> tiered_editor \<Rightarrow> tiered_editor" where
  "removeRuleGroup groupIndex s = handleRuleGroupsChange (remove_at groupIndex (te_requestRuleGroups s)) s"

definition addRuleGroup :: "tiered_editor \<Rightarrow> tiered_editor" where
  "addRuleGroup s = handleRuleGroupsChange (te_requestRuleGroups s @ [createEmptyRuleGroup]) s"

text \<open>The panel shows another model: the editor gets its name and its texts and stays mounted.\<close>

definition showModel :: "jsstring \<Rightarrow> jsstring \<Rightarrow> jsstring \<Rightarrow> tiered_editor \<Rightarrow> tiered_editor" where
  "showModel name expr rules s = s\<lparr>te_modelName := name, te_billingExpr := expr, te_requestRuleExpr := rules\<rparr>"

end
