(* ===== verification/TieredEditorProofs.thy ===== *)
theory TieredEditorProofs
  imports TieredEditor TierProofs RequestRuleProofs
begin

text \<open>
  The editor of tiered prices: its effects come to rest, what the visual editor holds survives closing, switching
  the mode and the templates, and what the effects do to texts the visual editor cannot read.
\<close>

section \<open>Commits\<close>

text \<open>Whether the panel holds what the editor shows.\<close>

definition in_step :: "tiered_editor \<Rightarrow> bool" where
  "in_step s \<longleftrightarrow> effectiveExpr s = Inr (te_billingExpr s) \<and>
     (te_editorMode s = VisualEditor \<longrightarrow> te_requestRuleExpr s = buildRequestRuleExpr (te_requestRuleGroups s))"

definition at_rest :: "tiered_editor \<Rightarrow> bool" where
  "at_rest s \<longleftrightarrow> te_commit s = Inr s"

text \<open>The texts a commit leaves in the panel.\<close>

definition written :: "tiered_editor \<Rightarrow> jsstring \<Rightarrow> tiered_editor \<Rightarrow> tiered_editor" where
  "written s effective t =
     t\<lparr>te_initRef := (te_initRef t \<and> \<not> name_changed s), te_billingExpr := effective,
       te_requestRuleExpr := (if te_editorMode s = VisualEditor then buildRequestRuleExpr (te_requestRuleGroups s)
                              else te_requestRuleExpr s),
       te_seen := Some (te_modelName s, te_billingExpr s, te_requestRuleExpr s)\<rparr>"

lemma effectiveExpr_update [simp]:
  "effectiveExpr (s\<lparr>te_initRef := b\<rparr>) = effectiveExpr s" "effectiveExpr (s\<lparr>te_billingExpr := e\<rparr>) = effectiveExpr s"
  "effectiveExpr (s\<lparr>te_requestRuleExpr := e\<rparr>) = effectiveExpr s" "effectiveExpr (s\<lparr>te_seen := x\<rparr>) = effectiveExpr s"
  "effectiveExpr (s\<lparr>te_modelName := e\<rparr>) = effectiveExpr s"
  by (simp_all add: effectiveExpr_def)

lemma canUseVisualRules_seen [simp]: "canUseVisualRules (s\<lparr>te_seen := x\<rparr>) = canUseVisualRules s"
  by (simp add: canUseVisualRules_def)

lemma changed_update [simp]:
  "exprs_changed (s\<lparr>te_requestRuleGroups := g\<rparr>) = exprs_changed s" "name_changed (s\<lparr>te_requestRuleGroups := g\<rparr>) = name_changed s"
  "exprs_changed (s\<lparr>te_visualConfig := v\<rparr>) = exprs_changed s" "name_changed (s\<lparr>te_visualConfig := v\<rparr>) = name_changed s"
  "exprs_changed (s\<lparr>te_rawExpr := r\<rparr>) = exprs_changed s" "name_changed (s\<lparr>te_rawExpr := r\<rparr>) = name_changed s"
  "exprs_changed (s\<lparr>te_editorMode := m\<rparr>) = exprs_changed s" "name_changed (s\<lparr>te_editorMode := m\<rparr>) = name_changed s"
  by (cases "te_seen s"; simp add: exprs_changed_def name_changed_def)+

lemma canUseVisualRules_update [simp]:
  "canUseVisualRules (s\<lparr>te_requestRuleGroups := g\<rparr>) = canUseVisualRules s"
  "canUseVisualRules (s\<lparr>te_visualConfig := v\<rparr>) = canUseVisualRules s"
  by (simp_all add: canUseVisualRules_def)

lemma init_effect_props:
  assumes "init_effect s = Inr t"
  shows "te_modelName t = te_modelName s" "te_billingExpr t = te_billingExpr s" "te_requestRuleExpr t = te_requestRuleExpr s"
    "te_initRef t \<longleftrightarrow> te_initRef s \<or> exprs_changed s" "te_initRef s \<or> \<not> exprs_changed s \<Longrightarrow> t = s"
  using assms by (auto simp: init_effect_def Let_def split: if_splits sum.splits option.splits)

lemma commit_iff:
  "te_commit s = Inr t \<longleftrightarrow> (\<exists>b effective s1. canUseVisualRules s = Inr b \<and> effectiveExpr s = Inr effective \<and>
     init_effect s = Inr s1 \<and> t = written s effective s1)"
proof -
  have "(let s2 = (if name_changed s then s1\<lparr>te_initRef := False\<rparr> else s1);
               s3 = (if effective \<noteq> te_billingExpr s then s2\<lparr>te_billingExpr := effective\<rparr> else s2);
               ruleExpr = buildRequestRuleExpr (te_requestRuleGroups s);
               s4 = (if te_editorMode s = VisualEditor \<and> ruleExpr \<noteq> te_requestRuleExpr s
                     then s3\<lparr>te_requestRuleExpr := ruleExpr\<rparr> else s3)
           in s4\<lparr>te_seen := Some (te_modelName s, te_billingExpr s, te_requestRuleExpr s)\<rparr>) = written s effective s1"
    if "init_effect s = Inr s1" for s1 effective
    using init_effect_props(2,3) [OF that] by (cases s1) (simp add: written_def Let_def)
  then show ?thesis unfolding te_commit_def Let_def by (auto split: sum.splits)
qed

lemma commit_name: "te_commit s = Inr t \<Longrightarrow> \<not> name_changed t"
  by (auto simp: commit_iff written_def name_changed_def dest: init_effect_props(1))

lemma commit_quiet:
  assumes "te_commit s = Inr t" "te_initRef s \<or> \<not> exprs_changed s" "\<not> name_changed s"
  shows "effectiveExpr s = Inr (te_billingExpr t)" "t = written s (te_billingExpr t) s"
    "te_initRef t = te_initRef s" "in_step t"
proof -
  obtain effective where t: "effectiveExpr s = Inr effective" "t = written s effective s"
    using assms by (auto simp: commit_iff dest: init_effect_props(5))
  then show "effectiveExpr s = Inr (te_billingExpr t)" "t = written s (te_billingExpr t) s" "te_initRef t = te_initRef s"
    using assms(3) by (simp_all add: written_def)
  show "in_step t" using t by (simp add: in_step_def written_def)
qed

lemma commit_reads:
  assumes "te_commit s = Inr t" "\<not> te_initRef s" "exprs_changed s" "\<not> name_changed s"
  shows "te_initRef t"
  using assms by (auto simp: commit_iff written_def dest: init_effect_props(4))

text \<open>The panel in step and seen by the effects: nothing is left to do.\<close>

lemma settled_iff:
  "at_rest s \<longleftrightarrow> (\<exists>b. canUseVisualRules s = Inr b) \<and> in_step s \<and>
     te_seen s = Some (te_modelName s, te_billingExpr s, te_requestRuleExpr s)"
proof
  assume s: "at_rest s"
  then obtain effective s1 where w: "s = written s effective s1" by (auto simp: at_rest_def commit_iff)
  from arg_cong [OF w, of te_seen] have seen: "te_seen s = Some (te_modelName s, te_billingExpr s, te_requestRuleExpr s)"
    by (simp add: written_def)
  then have "\<not> exprs_changed s" "\<not> name_changed s" by (simp_all add: exprs_changed_def name_changed_def)
  then show "(\<exists>b. canUseVisualRules s = Inr b) \<and> in_step s \<and>
      te_seen s = Some (te_modelName s, te_billingExpr s, te_requestRuleExpr s)"
    using s seen commit_quiet(4) [of s s] by (auto simp: at_rest_def commit_iff)
next
  assume s: "(\<exists>b. canUseVisualRules s = Inr b) \<and> in_step s \<and>
      te_seen s = Some (te_modelName s, te_billingExpr s, te_requestRuleExpr s)"
  then have "init_effect s = Inr s" "\<not> name_changed s"
    by (simp_all add: init_effect_def exprs_changed_def name_changed_def)
  moreover have "written s (te_billingExpr s) s = s"
    using s \<open>\<not> name_changed s\<close> by (cases s) (simp add: written_def in_step_def)
  ultimately show "at_rest s" using s unfolding at_rest_def commit_iff in_step_def by metis
qed

lemma commit_synced:
  assumes "te_commit s = Inr t" "in_step s" "te_initRef s \<or> \<not> exprs_changed s" "\<not> name_changed s"
  shows "at_rest t"
proof -
  have "t = s\<lparr>te_seen := Some (te_modelName s, te_billingExpr s, te_requestRuleExpr s)\<rparr>"
    using commit_quiet(1,2) [OF assms(1,3,4)] assms(2,4) by (cases s) (auto simp: written_def in_step_def)
  moreover obtain b where "canUseVisualRules s = Inr b" using assms(1) by (auto simp: commit_iff)
  ultimately show ?thesis using assms(2)
    by (simp add: settled_iff in_step_def)
qed

text \<open>Once the texts have been read, two commits are enough.\<close>

lemma quiet_settles:
  assumes "te_commit s = Inr t" "te_commit t = Inr u" "te_initRef s" "\<not> name_changed s"
  shows "at_rest u"
  using assms commit_quiet(3,4) [OF assms(1)] commit_name commit_synced by blast

lemma commits_settled: "at_rest s \<Longrightarrow> te_commits n s = Inr s"
  by (induction n) (simp_all add: at_rest_def)

lemma commits_add: "te_commits (m + n) s = (case te_commits m s of Inl e \<Rightarrow> Inl e | Inr t \<Rightarrow> te_commits n t)"
  by (induction m arbitrary: s) (auto split: sum.splits)

lemma commits_Suc_Inr: "te_commits (Suc n) s = Inr t \<longleftrightarrow> (\<exists>u. te_commit s = Inr u \<and> te_commits n u = Inr t)"
  by (auto split: sum.splits)

lemma settle_from:
  assumes "te_commits n s = Inr t" "at_rest t" "n \<le> 5"
  shows "te_settle s = Inr t"
  using commits_add [of n "5 - n" s] assms commits_settled by (simp add: te_settle_def)

text \<open>Five commits are enough from any state.\<close>

lemma settle_settled:
  assumes "te_settle s = Inr t"
  shows "at_rest t"
proof -
  obtain s1 s2 s3 s4 where c: "te_commit s = Inr s1" "te_commit s1 = Inr s2" "te_commit s2 = Inr s3" "te_commit s3 = Inr s4"
      "te_commit s4 = Inr t"
    using assms by (auto simp: te_settle_def eval_nat_numeral commits_Suc_Inr simp del: te_commits.simps(2))
  note name = commit_name [OF c(1)] commit_name [OF c(2)] commit_name [OF c(3)] commit_name [OF c(4)]
  have stay: "at_rest t" if "at_rest s4" using that c(5) by (simp add: at_rest_def)
  have stay3: "at_rest t" if "at_rest s3" using that c(4) stay by (simp add: at_rest_def)
  show ?thesis
  proof (cases "te_initRef s1")
    case True
    then show ?thesis using quiet_settles [OF c(2,3) _ name(1)] stay3 by blast
  next
    case unread: False
    show ?thesis
    proof (cases "exprs_changed s1")
      case True
      then have "te_initRef s2" using commit_reads [OF c(2) unread _ name(1)] by blast
      then show ?thesis using quiet_settles [OF c(3,4) _ name(2)] stay by blast
    next
      case False
      then have s2: "in_step s2" "\<not> te_initRef s2" using commit_quiet [OF c(2) _ name(1)] unread by blast+
      show ?thesis
      proof (cases "exprs_changed s2")
        case True
        then have "te_initRef s3" using commit_reads [OF c(3) s2(2) _ name(2)] by blast
        then show ?thesis using quiet_settles [OF c(4,5) _ name(3)] by blast
      next
        case False
        then show ?thesis using commit_synced [OF c(3) s2(1) _ name(2)] stay3 by blast
      qed
    qed
  qed
qed

section \<open>Expressions of tiers as factors\<close>

text \<open>At depth zero there is no \<open>*\<close>, so the text is not split.\<close>

fun star_free :: "int \<Rightarrow> jsstring \<Rightarrow> bool" where
  "star_free d [] \<longleftrightarrow> d = 0"
| "star_free d (c # s) \<longleftrightarrow> \<not> (d + paren_depth c = 0 \<and> c = CHR ''*'') \<and> star_free (d + paren_depth c) s"

lemma star_free_append: "star_free d x \<Longrightarrow> star_free 0 y \<Longrightarrow> star_free d (x @ y)"
  by (induction x arbitrary: d) auto

lemma star_free_plain: "paren_free x \<Longrightarrow> CHR ''*'' \<notin> set x \<Longrightarrow> star_free 0 x"
  by (induction x) auto

lemma star_free_inside: "balanced d x \<Longrightarrow> 0 \<le> d \<Longrightarrow> star_free (d + 1) (x @ '')'')"
proof (induction x arbitrary: d)
  case (Cons c x)
  then have "star_free (d + paren_depth c + 1) (x @ '')'')" by auto
  with Cons.prems show ?case by (auto simp: algebra_simps)
qed simp

lemma star_free_closed: "star_free d s \<Longrightarrow> closed '' * '' d s"
proof (induction s arbitrary: d)
  case (Cons c s)
  have "False" if "d + paren_depth c = 0" "take (length '' * '') (c # s) = '' * ''"
    using that Cons.prems by (cases s) auto
  with Cons show ?case by auto
qed simp

definition factor :: "jsstring \<Rightarrow> bool" where
  "factor x \<longleftrightarrow> balanced 0 x \<and> star_free 0 x"

lemma factor_append: "factor x \<Longrightarrow> factor y \<Longrightarrow> factor (x @ y)"
  by (simp add: factor_def balanced_append0 star_free_append)

lemma factor_plain: "paren_free x \<Longrightarrow> CHR ''*'' \<notin> set x \<Longrightarrow> factor x"
  by (simp add: factor_def star_free_plain)

lemma factor_call: "paren_free f \<Longrightarrow> CHR ''*'' \<notin> set f \<Longrightarrow> balanced 0 x \<Longrightarrow> factor (f @ ''('' @ x @ '')'')"
  using star_free_append [of 0 f "''('' @ x @ '')''"] star_free_inside [of 0 x] balanced_append [of 0 x 1 "'')''"]
  by (auto simp: factor_def star_free_plain)

lemma factor_join: "list_all factor xs \<Longrightarrow> paren_free sep \<Longrightarrow> CHR ''*'' \<notin> set sep \<Longrightarrow> factor (js_join sep xs)"
proof (induction xs rule: induct_list012)
  case (3 x y ys)
  then show ?case by (simp add: factor_append factor_plain)
qed (simp_all add: factor_plain)

text \<open>A text matched by a sequence that ends in a literal and the anchor ends in the literal.\<close>

lemma rseq_suffix:
  "rxm (rseq (rs @ [rlit l, REol])) (p, s, c) k = Some res \<Longrightarrow> \<exists>u. s = u @ l"
proof (induction rs arbitrary: p s c)
  case Nil
  then show ?case by (auto simp: rxm_rseq rx_step strip_Some split: option.splits if_splits)
next
  case (Cons r rs)
  then have "rxm r (p, s, c) (\<lambda>st. rxm (rseq (rs @ [rlit l, REol])) st k) = Some res" by (simp add: rxm_rseq)
  from rxm_reads [OF this] obtain u t c' where "s = u @ t" "rxm (rseq (rs @ [rlit l, REol])) (rev u @ p, t, c') k = Some res"
    by (rule readsE)
  with Cons.IH show ?case by (metis append.assoc)
qed

lemma rule_group_suffix: "rx_match rule_group_rx s = Some c \<Longrightarrow> \<exists>u. s = u @ '' : 1)''"
proof -
  assume m: "rx_match rule_group_rx s = Some c"
  have rx: "rule_group_rx = RCat RBol (rseq ([rlit ''('', RCap 1 (rplus (RCls (\<lambda>_. True))), rlit '' ? '', RCap 2 rnum] @
      [rlit '' : 1)'', REol]))" by (simp add: rule_group_rx_def)
  from m obtain st where
    "rxm (rseq ([rlit ''('', RCap 1 (rplus (RCls (\<lambda>_. True))), rlit '' ? '', RCap 2 rnum] @ [rlit '' : 1)'', REol]))
      ([], s, \<lambda>_. None) Some = Some st"
    unfolding rx rx_match_anchored by auto
  then show ?thesis by (rule rseq_suffix)
qed

text \<open>A configuration with a fallback whose labels have no parentheses.\<close>

definition complete :: "visual_config \<Rightarrow> bool" where
  "complete ts \<longleftrightarrow> config_wf ts \<and> vt_conditions (last ts) = [] \<and> list_all (\<lambda>t. paren_free (vt_label t)) ts"

lemma complete_text:
  assumes "complete ts"
  shows "generateExprFromVisualConfig (Some ts) = js_join '' : '' (map (\<lambda>t. piece (vt_conditions t) (vt_label t) t) ts)"
proof -
  have "config_wf ts" using assms by (simp add: complete_def)
  then show ?thesis
  proof (cases rule: generate_cases)
    case (guarded t)
    then show ?thesis using assms by (simp add: complete_def)
  qed (simp_all add: tier_item_def comp_def)
qed

lemma num_marks: "num_ok n \<Longrightarrow> paren_free (num_to_string n)"
  using num_text [of n] is_num_char_marks by (auto simp: paren_free_def list_all_iff)

lemma body_free: "costs_ok t \<Longrightarrow> paren_free (body_text t)"
proof -
  assume ok: "costs_ok t"
  have "paren_free (terms_text (tier_terms t))" using ok num_marks by (simp add: tier_terms_def costs_ok_def)
  then show ?thesis using ok num_marks by (simp add: body_text_def costs_ok_def)
qed

lemma cond_free: "cond_in_ok x \<Longrightarrow> factor (cond_in_text x)"
proof -
  assume x: "cond_in_ok x"
  then obtain n where n: "value_text x = num_to_string n" "list_all is_cond_num (num_to_string n)" "num_ok n"
    by (rule cond_in_value)
  then have "CHR ''*'' \<notin> set (num_to_string n)" by (auto simp: list_all_iff is_cond_num_def is_digit_def)
  then show ?thesis using x n num_marks by (intro factor_plain) (auto simp: cond_in_text_def cond_in_ok_def)
qed

lemma piece_factor:
  assumes "tier_wf t" "paren_free (vt_label t)"
  shows "factor (piece (vt_conditions t) (vt_label t) t)" "last (piece (vt_conditions t) (vt_label t) t) = CHR '')''"
    "hd (piece (vt_conditions t) (vt_label t) t) \<in> {CHR ''t'', CHR ''p'', CHR ''c'', CHR ''l''}"
proof -
  have ok: "costs_ok t" "list_all cond_in_ok (vt_conditions t)" using assms(1) by (simp_all add: tier_wf_def)
  let ?inner = "[dquote] @ vt_label t @ ''\", '' @ body_text t"
  have tt: "tier_text (vt_label t) t = ''tier'' @ ''('' @ ?inner @ '')''" by (simp add: tier_text_def)
  have "balanced 0 ?inner" using assms(2) body_free [OF ok(1)] by simp
  then have tier: "factor (tier_text (vt_label t) t)" unfolding tt by (intro factor_call) simp_all
  have "factor (js_join '' && '' (map cond_in_text (vt_conditions t)))"
    using ok(2) cond_free by (intro factor_join) (auto simp: list_all_iff)
  from factor_append [OF this, of "'' ? ''"] have "factor (cond_prefix (vt_conditions t))"
    by (simp add: cond_prefix_def conds_text_def factor_plain)
  with tier show "factor (piece (vt_conditions t) (vt_label t) t)" by (simp add: piece_def factor_append)
  show "last (piece (vt_conditions t) (vt_label t) t) = CHR '')''" by (simp add: piece_def tier_text_def)
  show "hd (piece (vt_conditions t) (vt_label t) t) \<in> {CHR ''t'', CHR ''p'', CHR ''c'', CHR ''l''}"
    using piece_head(1) [OF _ ok(2), of "vt_label t" t] piece_head(2) [of "vt_label t" t]
    by (cases "vt_conditions t = []") auto
qed

lemma join_ends:
  assumes "xs \<noteq> []" "[] \<notin> set xs"
  shows "js_join sep xs \<noteq> []" "hd (js_join sep xs) = hd (hd xs)" "last (js_join sep xs) = last (last xs)"
  using assms by (induction xs rule: induct_list012) auto

lemma complete_factor:
  assumes "complete ts"
  defines "E \<equiv> generateExprFromVisualConfig (Some ts)"
  shows "factor E" "E \<noteq> []" "trimmed E" "last E = CHR '')''" "hd E \<noteq> CHR ''(''"
proof -
  let ?p = "\<lambda>t. piece (vt_conditions t) (vt_label t) t"
  have wf: "\<And>t. t \<in> set ts \<Longrightarrow> tier_wf t \<and> paren_free (vt_label t)" "ts \<noteq> []"
    using assms(1) by (auto simp: complete_def config_wf_def list_all_iff)
  have E: "E = js_join '' : '' (map ?p ts)" unfolding E_def by (rule complete_text [OF assms(1)])
  have "list_all factor (map ?p ts)" using wf piece_factor(1) by (auto simp: list_all_iff)
  then show "factor E" unfolding E by (rule factor_join) simp_all
  have ne: "[] \<notin> set (map ?p ts)" by (auto simp: piece_def tier_text_def)
  note ends = join_ends [of "map ?p ts" "'' : ''", OF _ ne]
  show "E \<noteq> []" unfolding E using ends(1) wf(2) by simp
  show l: "last E = CHR '')''" unfolding E using ends(3) wf piece_factor(2) by (simp add: last_map)
  have h: "hd E \<in> {CHR ''t'', CHR ''p'', CHR ''c'', CHR ''l''}"
    unfolding E using ends(2) wf piece_factor(3) [of "hd ts"] by (simp add: hd_map)
  then show "hd E \<noteq> CHR ''(''" by auto
  show "trimmed E" using h l by (auto simp: trimmed_def is_ws_def)
qed

text \<open>Such an expression is taken apart again: in parentheses it is no rule, and alone it is not split.\<close>

lemma enclosed_no_rule:
  assumes "balanced 0 x" "x \<noteq> []" "last x \<noteq> CHR ''1''"
  shows "is_rule_part (''('' @ x @ '')'') = Inr False"
proof -
  let ?t = "''('' @ x @ '')''"
  have part: "split_part '' * '' ?t" by (rule mul.enclosed_part [OF assms(1)])
  then have "splitTopLevelMultiply ?t = [?t]" using splitTopLevelMultiply_join [of "[?t]"] by simp
  moreover have "rx_match rule_group_rx ?t = None"
  proof (rule ccontr)
    assume "rx_match rule_group_rx ?t \<noteq> None"
    then obtain u where "?t = u @ '' : 1)''" using rule_group_suffix by blast
    from arg_cong [OF this, of butlast] have "last (''('' @ x) = CHR ''1''" by (simp add: butlast_append split: if_splits)
    with assms(2,3) show False by simp
  qed
  moreover have "js_trim ?t = ?t" using part by (simp add: split_part_def js_trim_trimmed)
  ultimately show ?thesis
    by (simp add: is_rule_part_def tryParseRequestRuleExpr_def tryParseRuleGroupFactor_def)
qed

lemma complete_split:
  assumes "complete ts" "list_all rule_wf gs"
  defines "E \<equiv> generateExprFromVisualConfig (Some ts)" and "R \<equiv> buildRequestRuleExpr gs"
  shows "splitBillingExprAndRequestRules (combineBillingExpr E R) = Inr \<lparr>billingExpr = E, requestRuleExpr = R\<rparr>"
    "combineBillingExpr E R \<noteq> []"
proof -
  note f = complete_factor [OF assms(1), folded E_def]
  have no_rule: "is_rule_part (''('' @ E @ '')'') = Inr False"
    using f by (intro enclosed_no_rule) (simp_all add: factor_def)
  have part: "split_part '' * '' E" using f star_free_closed by (simp add: split_part_def factor_def)
  show "splitBillingExprAndRequestRules (combineBillingExpr E R) = Inr \<lparr>billingExpr = E, requestRuleExpr = R\<rparr>"
  proof (cases "gs = []")
    case True
    then have "R = []" by (simp add: R_def buildRequestRuleExpr_def)
    moreover have "splitTopLevelMultiply E = [E]" using splitTopLevelMultiply_join [of "[E]"] part by simp
    ultimately show ?thesis using f
      by (simp add: combineBillingExpr_def splitBillingExprAndRequestRules_def js_trim_trimmed Let_def)
  next
    case False
    have "\<not> hasFullOuterParens E" using f by (simp add: hasFullOuterParens_def)
    then show ?thesis unfolding R_def using f no_rule assms(2) False by (intro combine_split) (simp_all add: factor_def)
  qed
  show "combineBillingExpr E R \<noteq> []" using f by (simp add: combineBillingExpr_def js_trim_trimmed Let_def)
qed

section \<open>The visual editor\<close>

text \<open>What the visual editor shows, and the panel holding the texts of it.\<close>

definition holds :: "tiered_editor \<Rightarrow> visual_config \<Rightarrow> request_rule_group list \<Rightarrow> bool" where
  "holds s ts gs \<longleftrightarrow> te_editorMode s = VisualEditor \<and> te_visualConfig s = Some ts \<and> te_requestRuleGroups s = gs"

definition texts :: "tiered_editor \<Rightarrow> visual_config \<Rightarrow> request_rule_group list \<Rightarrow> bool" where
  "texts s ts gs \<longleftrightarrow> te_billingExpr s = generateExprFromVisualConfig (Some ts) \<and> te_requestRuleExpr s = buildRequestRuleExpr gs"

definition readable_tiers :: "visual_config \<Rightarrow> request_rule_group list \<Rightarrow> bool" where
  "readable_tiers ts gs \<longleftrightarrow> config_wf ts \<and> list_all rule_wf gs"

lemma groups_built: "list_all rule_wf gs \<Longrightarrow> groups_or_empty (buildRequestRuleExpr gs) = Inr gs"
  by (simp add: groups_or_empty_def parse_built)

lemma built_usable: "texts s ts gs \<Longrightarrow> readable_tiers ts gs \<Longrightarrow> canUseVisualRules s = Inr True"
  by (simp add: canUseVisualRules_def parse_built texts_def readable_tiers_def)

lemma holds_effective: "holds s ts gs \<Longrightarrow> effectiveExpr s = Inr (generateExprFromVisualConfig (Some ts))"
  by (simp add: holds_def effectiveExpr_def)

text \<open>The state after the effect that reads texts the visual editor has written.\<close>

definition reading :: "tiered_editor \<Rightarrow> visual_config \<Rightarrow> request_rule_group list \<Rightarrow> tiered_editor" where
  "reading s ts gs =
     (if \<not> exprs_changed s \<or> te_initRef s then s
      else s\<lparr>te_visualConfig := Some ts, te_editorMode := VisualEditor, te_initRef := True,
             te_rawExpr := combineBillingExpr (te_billingExpr s) (te_requestRuleExpr s), te_requestRuleGroups := gs\<rparr>)"

lemma commit_holds:
  assumes "holds s ts gs" "texts s ts' gs'" "readable_tiers ts' gs'"
  shows "te_commit s = Inr (written s (generateExprFromVisualConfig (Some ts)) (reading s ts' gs'))"
proof -
  have "init_effect s = Inr (reading s ts' gs')"
    using assms(2,3) groups_built tiers.decode_encode by (simp add: init_effect_def reading_def texts_def readable_tiers_def)
  moreover have "canUseVisualRules s = Inr True" by (rule built_usable [OF assms(2,3)])
  ultimately show ?thesis using holds_effective [OF assms(1)] by (auto simp: commit_iff)
qed

lemma written_props:
  fixes s' :: tiered_editor
  assumes "holds s ts gs"
  defines "t \<equiv> written s (generateExprFromVisualConfig (Some ts)) s'"
  shows "texts t ts gs" "holds t ts' gs' \<longleftrightarrow> holds s' ts' gs'" "te_initRef t \<longleftrightarrow> te_initRef s' \<and> \<not> name_changed s"
    "te_modelName t = te_modelName s'" "te_seen t = Some (te_modelName s, te_billingExpr s, te_requestRuleExpr s)"
  using assms by (simp_all add: written_def texts_def holds_def)

lemma reading_props:
  "te_modelName (reading s ts gs) = te_modelName s" "te_initRef (reading s ts gs) \<longleftrightarrow> te_initRef s \<or> exprs_changed s"
  "exprs_changed s \<Longrightarrow> \<not> te_initRef s \<Longrightarrow> holds (reading s ts gs) ts gs" "holds s ts gs \<Longrightarrow> holds (reading s ts gs) ts gs"
  "te_initRef s \<or> \<not> exprs_changed s \<Longrightarrow> reading s ts gs = s"
  by (auto simp: reading_def holds_def)

lemma settled_holds:
  assumes "holds t ts gs" "texts t ts gs" "readable_tiers ts gs"
    "te_seen t = Some (te_modelName t, te_billingExpr t, te_requestRuleExpr t)"
  shows "at_rest t"
proof -
  have "canUseVisualRules t = Inr True" by (rule built_usable [OF assms(2,3)])
  moreover have "in_step t" using assms(1,2) holds_effective [OF assms(1)] by (simp add: in_step_def texts_def holds_def)
  ultimately show ?thesis using assms(4) unfolding settled_iff by blast
qed

text \<open>With the panel in step, one commit settles; it reads back what is shown.\<close>

lemma commit_in_step:
  assumes "holds s ts gs" "texts s ts gs" "readable_tiers ts gs"
  obtains t where "te_commit s = Inr t" "at_rest t" "holds t ts gs" "texts t ts gs" "te_modelName t = te_modelName s"
proof -
  let ?t = "written s (generateExprFromVisualConfig (Some ts)) (reading s ts gs)"
  have h: "holds ?t ts gs" using written_props(2) [OF assms(1)] reading_props(4) [OF assms(1)] by simp
  note w = written_props(1,4,5) [OF assms(1), of "reading s ts gs"]
  have "te_seen ?t = Some (te_modelName ?t, te_billingExpr ?t, te_requestRuleExpr ?t)"
    unfolding w(2,3) reading_props(1) using w(1) assms(2) by (simp only: texts_def)
  then have "at_rest ?t" by (rule settled_holds [OF h w(1) assms(3)])
  with h w(1) show ?thesis by (intro that [OF commit_holds [OF assms]]) (simp_all only: w(2) reading_props(1))
qed

lemma settles_in_step:
  assumes "te_commits n s = Inr u" "n \<le> 4" "holds u ts gs" "texts u ts gs" "readable_tiers ts gs" "te_modelName u = te_modelName s"
  obtains t where "te_settle s = Inr t" "at_rest t" "holds t ts gs" "texts t ts gs" "te_modelName t = te_modelName s"
proof -
  obtain t where t: "te_commit u = Inr t" "at_rest t" "holds t ts gs" "texts t ts gs" "te_modelName t = te_modelName u"
    by (rule commit_in_step [OF assms(3-5)])
  have "te_commits (n + 1) s = Inr t" unfolding commits_add using assms(1) t(1) by simp
  from settle_from [OF this t(2)] have "te_settle s = Inr t" using assms(2) by simp
  with that t assms(6) show ?thesis by simp
qed

text \<open>An edit while the panel is in step: the edited tiers and rules are what is left.\<close>

lemma edit_settles:
  assumes "holds s ts gs" "readable_tiers ts gs" "te_initRef s \<or> \<not> exprs_changed s" "\<not> name_changed s"
    "canUseVisualRules s = Inr b"
  obtains t where "te_settle s = Inr t" "at_rest t" "holds t ts gs" "texts t ts gs" "te_modelName t = te_modelName s"
proof -
  let ?u = "written s (generateExprFromVisualConfig (Some ts)) s"
  have "init_effect s = Inr s" using assms(3) by (auto simp: init_effect_def)
  then have "te_commit s = Inr ?u" using assms(5) holds_effective [OF assms(1)] by (auto simp: commit_iff)
  then have "te_commits 1 s = Inr ?u" by simp
  moreover have "holds ?u ts gs" using written_props(2) [OF assms(1)] assms(1) by simp
  ultimately show ?thesis
    using settles_in_step [of 1 s ?u ts gs] written_props(1,4) [OF assms(1), of s] assms(2) that by fastforce
qed

lemma settled_visual:
  assumes "at_rest s" "holds s ts gs"
  shows "texts s ts gs" "\<not> exprs_changed s" "\<not> name_changed s" "\<exists>b. canUseVisualRules s = Inr b"
  using assms holds_effective [OF assms(2)]
  by (auto simp: settled_iff in_step_def texts_def holds_def exprs_changed_def name_changed_def)

lemma mount_settles:
  assumes "readable_tiers ts gs"
  defines "E \<equiv> generateExprFromVisualConfig (Some ts)" and "R \<equiv> buildRequestRuleExpr gs"
  obtains s t where "mountEditor n E R = Inr s" "te_settle s = Inr t" "at_rest t" "holds t ts gs" "texts t ts gs"
    "te_modelName t = n"
proof -
  have "groups_or_empty R = Inr gs" "tryParseVisualConfig E = Some ts"
    using assms(1) groups_built tiers.decode_encode by (simp_all add: R_def E_def readable_tiers_def)
  then obtain s where s: "mountEditor n E R = Inr s" "holds s ts gs" "texts s ts gs" "te_modelName s = n"
    by (simp add: mountEditor_def holds_def texts_def E_def R_def)
  then show ?thesis using settles_in_step [of 0 s s ts gs] assms(1) that by fastforce
qed

text \<open>Switching to the expression and back.\<close>

lemma raw_settled:
  assumes "at_rest s" "holds s ts gs" "complete ts" "list_all rule_wf gs"
  obtains u where "te_handleModeChange RawEditor s = Inr u" "at_rest u" "te_editorMode u = RawEditor"
    "te_rawExpr u = combineBillingExpr (te_billingExpr s) (te_requestRuleExpr s)"
    "te_billingExpr u = te_billingExpr s" "te_requestRuleExpr u = te_requestRuleExpr s" "te_modelName u = te_modelName s"
proof -
  note v = settled_visual [OF assms(1,2)]
  note c = complete_split [OF assms(3,4)]
  let ?u = "s\<lparr>te_rawExpr := combineBillingExpr (te_billingExpr s) (te_requestRuleExpr s), te_editorMode := RawEditor\<rparr>"
  have u: "te_handleModeChange RawEditor s = Inr ?u"
    using v(1) c(2) assms(2) by (simp add: te_handleModeChange_def texts_def holds_def)
  have "effectiveExpr ?u = Inr (te_billingExpr ?u)" using v(1) c(1) by (simp add: effectiveExpr_def texts_def)
  moreover have "canUseVisualRules ?u = canUseVisualRules s" by (simp add: canUseVisualRules_def)
  ultimately have "at_rest ?u" using assms(1) by (simp add: settled_iff in_step_def)
  with u show ?thesis by (intro that [of ?u]) simp_all
qed

lemma back_settled:
  assumes "at_rest u" "te_editorMode u = RawEditor" "te_rawExpr u = combineBillingExpr (te_billingExpr u) (te_requestRuleExpr u)"
    "texts u ts gs" "complete ts" "list_all rule_wf gs"
  obtains t where "te_handleModeChange VisualEditor u = Inr t" "at_rest t" "holds t ts gs" "texts t ts gs"
    "te_modelName t = te_modelName u"
proof -
  have r: "readable_tiers ts gs" using assms(5,6) by (simp add: readable_tiers_def complete_def)
  let ?t = "u\<lparr>te_visualConfig := Some ts, te_requestRuleGroups := gs, te_editorMode := VisualEditor\<rparr>"
  have "tryParseVisualConfig (te_billingExpr u) = Some ts" "groups_or_empty (te_requestRuleExpr u) = Inr gs"
    using assms(4) r groups_built tiers.decode_encode by (simp_all add: texts_def readable_tiers_def)
  moreover have "splitBillingExprAndRequestRules (te_rawExpr u) =
      Inr \<lparr>billingExpr = te_billingExpr u, requestRuleExpr = te_requestRuleExpr u\<rparr>"
    using complete_split(1) [OF assms(5,6)] assms(3,4) by (simp add: texts_def)
  ultimately have t: "te_handleModeChange VisualEditor u = Inr ?t" by (cases u) (simp add: te_handleModeChange_def)
  have h: "holds ?t ts gs" "texts ?t ts gs" using assms(4) by (simp_all add: holds_def texts_def)
  have "at_rest ?t" by (rule settled_holds [OF h r]) (use assms(1) in \<open>simp add: settled_iff\<close>)
  with h t show ?thesis by (intro that [of ?t]) simp_all
qed

section \<open>Texts that are read at the wrong time\<close>

text \<open>The visual editor shows one thing, the panel holds another, and the effect that reads the texts is due: the
  texts win, and what was shown is lost.\<close>

lemma texts_win:
  assumes "holds s ts gs" "texts s ts' gs'" "readable_tiers ts gs" "readable_tiers ts' gs'" "exprs_changed s" "\<not> te_initRef s" "\<not> name_changed s"
  obtains u where "te_commits 2 s = Inr u" "holds u ts' gs'" "texts u ts' gs'" "te_modelName u = te_modelName s"
proof -
  let ?s1 = "written s (generateExprFromVisualConfig (Some ts)) (reading s ts' gs')"
  have c1: "te_commit s = Inr ?s1" by (rule commit_holds [OF assms(1,2,4)])
  have s1: "holds ?s1 ts' gs'" "texts ?s1 ts gs" "te_initRef ?s1" "te_modelName ?s1 = te_modelName s"
    using written_props [OF assms(1), of "reading s ts' gs'"] reading_props(1-3) [of s ts' gs'] assms(5-7) by auto
  let ?s2 = "written ?s1 (generateExprFromVisualConfig (Some ts')) (reading ?s1 ts gs)"
  have c2: "te_commit ?s1 = Inr ?s2" by (rule commit_holds [OF s1(1,2) assms(3)])
  have r: "reading ?s1 ts gs = ?s1" using s1(3) by (simp add: reading_props(5))
  have "holds ?s2 ts' gs'" "texts ?s2 ts' gs'" "te_modelName ?s2 = te_modelName s"
    unfolding r using written_props [OF s1(1), of ?s1] s1 by simp_all
  moreover have "te_commits 2 s = Inr ?s2" using c1 c2 by (simp add: numeral_2_eq_2)
  ultimately show ?thesis by (rule that [rotated])
qed

lemma switch_settles:
  assumes "at_rest s" "holds s ts gs" "readable_tiers ts gs" "readable_tiers ts' gs'" "n \<noteq> te_modelName s"
  defines "s' \<equiv> showModel n (generateExprFromVisualConfig (Some ts')) (buildRequestRuleExpr gs') s"
  obtains t where "te_settle s' = Inr t" "at_rest t" "holds t ts gs" "texts t ts gs" "te_modelName t = n"
proof -
  have s': "holds s' ts gs" "texts s' ts' gs'" "te_modelName s' = n"
    using assms(2) by (simp_all add: s'_def showModel_def holds_def texts_def)
  have "name_changed s'" using assms(1,5) by (simp add: name_changed_def s'_def showModel_def settled_iff)
  define u where "u = written s' (generateExprFromVisualConfig (Some ts)) (reading s' ts' gs')"
  have c: "te_commit s' = Inr u" unfolding u_def by (rule commit_holds [OF s'(1,2) assms(4)])
  have c1: "te_commits 1 s' = Inr u" using c by simp
  have u: "texts u ts gs" "\<not> te_initRef u" "te_modelName u = te_modelName s'" "\<not> name_changed u"
    using written_props [OF s'(1), of "reading s' ts' gs'"] reading_props(1) \<open>name_changed s'\<close> commit_name [OF c]
    by (simp_all add: u_def)
  have h: "holds u ts2 gs2 \<longleftrightarrow> holds (reading s' ts' gs') ts2 gs2" for ts2 gs2
    unfolding u_def by (rule written_props(2) [OF s'(1)])
  show ?thesis
  proof (cases "holds u ts gs")
    case True
    then show ?thesis using settles_in_step [OF c1 _ _ u(1) assms(3) u(3)] s'(3) that by fastforce
  next
    case False
    then have "exprs_changed s' \<and> \<not> te_initRef s'" using h s'(1) reading_props(5) [of s' ts' gs'] by metis
    then have u': "holds u ts' gs'" using h reading_props(3) by blast
    have "exprs_changed u"
    proof (rule ccontr)
      assume "\<not> exprs_changed u"
      then have "texts u ts' gs'" using s'(2) written_props(5) [OF s'(1), of "reading s' ts' gs'"]
        by (simp add: exprs_changed_def u_def texts_def)
      then have "ts = ts'" "gs = gs'"
        using u(1) assms(3,4) tiers.encode_inj rules.encode_inj by (simp_all add: texts_def readable_tiers_def)
      with False u' show False by simp
    qed
    then obtain v where v: "te_commits 2 u = Inr v" "holds v ts gs" "texts v ts gs" "te_modelName v = te_modelName u"
      using texts_win [OF u' u(1) assms(4,3) _ u(2,4)] by blast
    have c3: "te_commits (1 + 2) s' = Inr v" unfolding commits_add c1 sum.case by (rule v(1))
    obtain t where "te_settle s' = Inr t" "at_rest t" "holds t ts gs" "texts t ts gs" "te_modelName t = te_modelName s'"
      by (rule settles_in_step [OF c3 _ v(2,3) assms(3)]) (use v(4) u(3) in simp_all)
    then show ?thesis using s'(3) that by simp
  qed
qed

text \<open>A template with other rules, while the effect is due: its rules stay, its price does not.\<close>

lemma preset_overwritten:
  assumes "at_rest s" "holds s ts gs" "readable_tiers ts gs" "tryParseVisualConfig (pr_expr p) = Some ts'" "config_wf ts'"
    "list_all rule_wf gs'" "gs' = (case pr_requestRules p of Some x \<Rightarrow> x | None \<Rightarrow> [])" "\<not> te_initRef s" "gs' \<noteq> gs"
  obtains t where "te_settle (applyPreset p s) = Inr t" "at_rest t" "holds t ts gs'" "texts t ts gs'"
proof -
  note v = settled_visual [OF assms(1,2)]
  let ?s = "applyPreset p s"
  have s: "holds ?s ts' gs'" "texts ?s ts gs'" "\<not> te_initRef ?s" "te_modelName ?s = te_modelName s" "te_seen ?s = te_seen s"
    using assms(4,7,8) v(1) by (simp_all add: applyPreset_def holds_def texts_def Let_def)
  have "buildRequestRuleExpr gs' \<noteq> buildRequestRuleExpr gs"
    using rules.encode_inj [of gs' gs] assms(3,6,9) by (simp add: readable_tiers_def)
  then have "exprs_changed ?s" "\<not> name_changed ?s"
    using assms(1) v(1) s(2,4,5) by (auto simp: exprs_changed_def name_changed_def settled_iff texts_def)
  moreover have "readable_tiers ts' gs'" "readable_tiers ts gs'" using assms(3,5,6) by (simp_all add: readable_tiers_def)
  ultimately obtain u where u: "te_commits 2 ?s = Inr u" "holds u ts gs'" "texts u ts gs'" "te_modelName u = te_modelName ?s"
    using texts_win [OF s(1,2)] s(3) by blast
  then show ?thesis using settles_in_step [of 2 ?s u ts gs'] \<open>readable_tiers ts gs'\<close> that by fastforce
qed

lemma preset_applied:
  assumes "at_rest s" "tryParseVisualConfig (pr_expr p) = Some ts'" "config_wf ts'"
    "list_all rule_wf gs'" "gs' = (case pr_requestRules p of Some x \<Rightarrow> x | None \<Rightarrow> [])"
    "te_initRef s \<or> te_requestRuleExpr s = buildRequestRuleExpr gs'"
  obtains t where "te_settle (applyPreset p s) = Inr t" "at_rest t" "holds t ts' gs'" "texts t ts' gs'"
proof -
  let ?s = "applyPreset p s"
  have s: "holds ?s ts' gs'" "te_initRef ?s = te_initRef s" "te_modelName ?s = te_modelName s" "te_seen ?s = te_seen s"
      "te_billingExpr ?s = te_billingExpr s" "te_requestRuleExpr ?s = buildRequestRuleExpr gs'"
    using assms(2,5) by (simp_all add: applyPreset_def holds_def Let_def)
  have "te_initRef ?s \<or> \<not> exprs_changed ?s" "\<not> name_changed ?s"
    using assms(1,6) s by (auto simp: exprs_changed_def name_changed_def settled_iff)
  moreover have "readable_tiers ts' gs'" using assms(3,4) by (simp add: readable_tiers_def)
  moreover have "canUseVisualRules ?s = Inr True" using s(6) assms(4) by (simp add: canUseVisualRules_def parse_built)
  ultimately show ?thesis using edit_settles [OF s(1)] that by blast
qed

text \<open>Rules the parser does not support, while the effect is due: they are read as no rules, and erased.\<close>

lemma unsupported_erased:
  assumes "at_rest s" "holds s ts gs" "readable_tiers ts gs" "\<not> te_initRef s" "tryParseRequestRuleExpr (buildRequestRuleExpr gs') = Inr None"
  obtains t where "te_settle (handleRuleGroupsChange gs' s) = Inr t" "at_rest t" "holds t ts []" "texts t ts []"
proof -
  note v = settled_visual [OF assms(1,2)]
  let ?s = "handleRuleGroupsChange gs' s" and ?E = "generateExprFromVisualConfig (Some ts)" and ?R = "buildRequestRuleExpr gs'"
  have s: "holds ?s ts gs'" "\<not> te_initRef ?s" "\<not> exprs_changed ?s" "\<not> name_changed ?s" "canUseVisualRules ?s = canUseVisualRules s"
    using assms(2,4) v(2,3) by (simp_all add: handleRuleGroupsChange_def holds_def)
  define u where "u = written ?s ?E ?s"
  have c1: "te_commit ?s = Inr u"
    using s v(4) holds_effective [OF s(1)] by (auto simp: commit_iff u_def init_effect_def)
  have u: "holds u ts gs'" "texts u ts gs'" "\<not> te_initRef u" "te_modelName u = te_modelName ?s" "\<not> name_changed u"
    using written_props [OF s(1), of ?s] s(1,2) commit_name [OF c1] by (simp_all add: u_def)
  have "tryParseRequestRuleExpr (buildRequestRuleExpr gs) = Inr (Some gs)" using assms(3) parse_built by (simp add: readable_tiers_def)
  then have "?R \<noteq> buildRequestRuleExpr gs" using assms(5) by auto
  then have ch: "exprs_changed u"
    using v(1) u(2) written_props(5) [OF s(1), of ?s] by (auto simp: exprs_changed_def texts_def u_def handleRuleGroupsChange_def)
  let ?r = "u\<lparr>te_visualConfig := Some ts, te_editorMode := VisualEditor, te_initRef := True,
      te_rawExpr := combineBillingExpr ?E ?R, te_requestRuleGroups := []\<rparr>"
  have "init_effect u = Inr ?r"
    using ch u(2,3) assms(3,5) tiers.decode_encode [of ts]
    by (simp add: init_effect_def texts_def readable_tiers_def groups_or_empty_def)
  moreover have use_R: "\<exists>b. canUseVisualRules x = Inr b" if "te_requestRuleExpr x = ?R" for x
    using that assms(5) by (auto simp: canUseVisualRules_def)
  ultimately have c2: "te_commit u = Inr (written u ?E ?r)"
    using holds_effective [OF u(1)] u(2) by (auto simp: commit_iff texts_def)
  define w where "w = written u ?E ?r"
  have w: "holds w ts []" "texts w ts gs'" "te_initRef w" "te_modelName w = te_modelName ?s" "\<not> name_changed w"
    using written_props [OF u(1), of ?r] u(4,5) commit_name [OF c2] by (simp_all add: w_def holds_def)
  have "init_effect w = Inr w" using w(3) by (simp add: init_effect_def)
  then have c3: "te_commit w = Inr (written w ?E w)"
    using holds_effective [OF w(1)] w(2) use_R by (auto simp: commit_iff texts_def)
  have "te_commits (1 + (1 + 1)) ?s = Inr (written w ?E w)" unfolding commits_add using c1 c2 c3 by (simp add: w_def)
  moreover have "holds (written w ?E w) ts []" "texts (written w ?E w) ts []" "te_modelName (written w ?E w) = te_modelName ?s"
    using written_props [OF w(1), of w] w(1,4) by simp_all
  moreover have "readable_tiers ts []" using assms(3) by (simp add: readable_tiers_def)
  ultimately show ?thesis using settles_in_step [of "1 + (1 + 1)" ?s "written w ?E w" ts "[]"] that by fastforce
qed

lemma kept_unsupported:
  assumes "at_rest s" "holds s ts gs" "te_initRef s" "tryParseRequestRuleExpr (buildRequestRuleExpr gs') = Inr None"
  obtains t where "te_settle (handleRuleGroupsChange gs' s) = Inr t" "at_rest t" "holds t ts gs'" "texts t ts gs'" "te_initRef t"
proof -
  note v = settled_visual [OF assms(1,2)]
  let ?s = "handleRuleGroupsChange gs' s" and ?E = "generateExprFromVisualConfig (Some ts)"
  have s: "holds ?s ts gs'" "te_initRef ?s" "\<not> name_changed ?s" "\<exists>b. canUseVisualRules ?s = Inr b"
    using assms(2,3) v(3,4) by (simp_all add: handleRuleGroupsChange_def holds_def)
  define u where "u = written ?s ?E ?s"
  have c1: "te_commit ?s = Inr u"
    using s holds_effective [OF s(1)] by (auto simp: commit_iff u_def init_effect_def)
  have u: "holds u ts gs'" "texts u ts gs'" "te_initRef u" "\<not> name_changed u"
    using written_props [OF s(1), of ?s] s(1-3) commit_name [OF c1] by (simp_all add: u_def)
  have "\<exists>b. canUseVisualRules u = Inr b" using u(2) assms(4) by (auto simp: canUseVisualRules_def texts_def)
  then have c2: "te_commit u = Inr (written u ?E u)"
    using u(3) holds_effective [OF u(1)] by (auto simp: commit_iff init_effect_def)
  have "in_step u" using u(1,2) holds_effective [OF u(1)] by (simp add: in_step_def texts_def holds_def)
  then have st: "at_rest (written u ?E u)" using commit_synced [OF c2] u(3,4) by blast
  have "te_commits (1 + 1) ?s = Inr (written u ?E u)" unfolding commits_add using c1 c2 by simp
  from settle_from [OF this st] have "te_settle ?s = Inr (written u ?E u)" by simp
  then show ?thesis using written_props [OF u(1), of u] u st by (intro that) simp_all
qed

text \<open>An unsupported factor is not split off, so it stays in the base.\<close>

lemma unsupported_split:
  assumes "complete ts" "split_part '' * '' R" "tryParseRequestRuleExpr R = Inr None"
  defines "E \<equiv> generateExprFromVisualConfig (Some ts)"
  shows "splitBillingExprAndRequestRules (combineBillingExpr E R) = Inr \<lparr>billingExpr = combineBillingExpr E R, requestRuleExpr = []\<rparr>"
    "combineBillingExpr E R = ''('' @ E @ '') * '' @ R"
proof -
  note f = complete_factor [OF assms(1), folded E_def]
  have R: "trimmed R" "R \<noteq> []" using assms(2) by (simp_all add: split_part_def)
  show c: "combineBillingExpr E R = ''('' @ E @ '') * '' @ R"
    using f R by (simp add: combineBillingExpr_def js_trim_trimmed Let_def)
  let ?p = "[''('' @ E @ '')'', R]"
  have parts: "list_all (split_part '' * '') ?p" using f(1) assms(2) mul.enclosed_part [of E] by (simp add: factor_def)
  have j: "combineBillingExpr E R = js_join '' * '' ?p" unfolding c by simp
  have "splitTopLevelMultiply (js_join '' * '' ?p) = ?p" using splitTopLevelMultiply_join [OF parts] by simp
  moreover have "trimmed (js_join '' * '' ?p)" using parts by (intro trimmed_js_join) (simp_all add: split_part_def)
  moreover have "is_rule_part (''('' @ E @ '')'') = Inr False" using f by (intro enclosed_no_rule) (simp_all add: factor_def)
  moreover have "is_rule_part R = Inr False" using assms(3) by (simp add: is_rule_part_def)
  ultimately show "splitBillingExprAndRequestRules (combineBillingExpr E R) = Inr \<lparr>billingExpr = combineBillingExpr E R, requestRuleExpr = []\<rparr>"
    unfolding j by (simp add: splitBillingExprAndRequestRules_def js_trim_trimmed)
qed

lemma unsupported_doubled:
  assumes "at_rest s" "holds s ts gs" "complete ts" "te_initRef s" "split_part '' * '' (te_requestRuleExpr s)"
    "tryParseRequestRuleExpr (te_requestRuleExpr s) = Inr None"
  obtains u t where "te_handleModeChange RawEditor s = Inr u" "te_settle u = Inr t" "at_rest t"
    "te_billingExpr t = combineBillingExpr (te_billingExpr s) (te_requestRuleExpr s)" "te_requestRuleExpr t = te_requestRuleExpr s"
proof -
  note v = settled_visual [OF assms(1,2)]
  let ?E = "te_billingExpr s" and ?R = "te_requestRuleExpr s"
  have E: "?E = generateExprFromVisualConfig (Some ts)" using v(1) by (simp add: texts_def)
  note c = unsupported_split [OF assms(3,5,6), folded E]
  let ?u = "s\<lparr>te_rawExpr := combineBillingExpr ?E ?R, te_editorMode := RawEditor\<rparr>"
  have u: "te_handleModeChange RawEditor s = Inr ?u"
    using v(1) c(2) assms(2) by (simp add: te_handleModeChange_def texts_def holds_def)
  have eff: "effectiveExpr ?u = Inr (combineBillingExpr ?E ?R)" using c(1) by (simp add: effectiveExpr_def)
  have init: "init_effect ?u = Inr ?u" using assms(4) by (simp add: init_effect_def)
  have can: "canUseVisualRules ?u = Inr False"
    using assms(5,6) by (simp add: canUseVisualRules_def split_part_def)
  define t where "t = written ?u (combineBillingExpr ?E ?R) ?u"
  have c1: "te_commit ?u = Inr t" using eff init can by (auto simp: commit_iff t_def)
  have t: "te_billingExpr t = combineBillingExpr ?E ?R" "te_requestRuleExpr t = ?R" "te_initRef t" "\<not> name_changed t" "te_modelName t = te_modelName s"
      "effectiveExpr t = Inr (te_billingExpr t)" "te_editorMode t = RawEditor" "canUseVisualRules t = Inr False"
    using assms(4,5,6) v(3) commit_name [OF c1] eff
    by (simp_all add: t_def written_def canUseVisualRules_def split_part_def)
  let ?t = "written t (te_billingExpr t) t"
  have c2: "te_commit t = Inr ?t" using t(3,6,8) by (auto simp: commit_iff init_effect_def)
  have st: "at_rest ?t" using commit_synced [OF c2] t by (simp add: in_step_def)
  have cs: "te_commits (1 + 1) ?u = Inr ?t" unfolding commits_add using c1 c2 by simp
  have "te_settle ?u = Inr ?t" by (rule settle_from [OF cs st]) simp
  moreover have "te_billingExpr ?t = combineBillingExpr ?E ?R" "te_requestRuleExpr ?t = ?R" using t by (simp_all add: written_def)
  ultimately show ?thesis using that u st by blast
qed

end
