(* ===== verification/TieredEditorSession.thy ===== *)
theory TieredEditorSession
  imports TieredEditorProofs
begin

text \<open>
  Sessions of the editor of tiered prices: its states after the effects of every action, and the properties of them.
\<close>

section \<open>Sessions\<close>

text \<open>The tiers an action of the visual editor leaves: every handler of the cards changes one tier or the list.\<close>

inductive tier_action :: "visual_config option \<Rightarrow> visual_config option \<Rightarrow> bool" where
  change_tier: "i < length (normalizeVisualConfig c) \<Longrightarrow> tier_action c (Some (handleTierChange i (f (normalizeVisualConfig c ! i)) c))"
| add_tier: "tier_action c (Some (handleAddTier c))"
| remove_tier: "i < length (normalizeVisualConfig c) \<Longrightarrow> tier_action c (Some (handleRemoveTier i c))"
| add_condition: "i < length (normalizeVisualConfig c) \<Longrightarrow> tier_action c (handleAddCondition i c)"

text \<open>The states of a session, each after the commits that follow an action.\<close>

inductive te_reachable :: "tiered_editor \<Rightarrow> bool" where
  opened: "mountEditor name expr rules = Inr s \<Longrightarrow> te_settle s = Inr t \<Longrightarrow> te_reachable t"
| tiers: "te_reachable s \<Longrightarrow> te_editorMode s = VisualEditor \<Longrightarrow> tier_action (te_visualConfig s) c \<Longrightarrow>
    te_settle (handleVisualChange c s) = Inr t \<Longrightarrow> te_reachable t"
| rules: "te_reachable s \<Longrightarrow> te_editorMode s = VisualEditor \<Longrightarrow> te_settle (handleRuleGroupsChange gs s) = Inr t \<Longrightarrow> te_reachable t"
| raw: "te_reachable s \<Longrightarrow> te_editorMode s = RawEditor \<Longrightarrow> handleRawChange e s = Inr u \<Longrightarrow> te_settle u = Inr t \<Longrightarrow> te_reachable t"
| mode: "te_reachable s \<Longrightarrow> te_handleModeChange m s = Inr u \<Longrightarrow> te_settle u = Inr t \<Longrightarrow> te_reachable t"
| preset: "te_reachable s \<Longrightarrow> te_settle (applyPreset p s) = Inr t \<Longrightarrow> te_reachable t"
| model: "te_reachable s \<Longrightarrow> te_settle (showModel name expr rules s) = Inr t \<Longrightarrow> te_reachable t"

lemma reachable_settled: "te_reachable s \<Longrightarrow> at_rest s"
  by (induction rule: te_reachable.induct) (auto dest: settle_settled)

section \<open>Expressions the visual editor cannot read\<close>

abbreviation zero_expr :: jsstring where
  "zero_expr \<equiv> ''p * 0 + c * 0''"

lemma zero_not_visual: "tryParseVisualConfig zero_expr = None"
  by code_simp

lemma zero_split:
  assumes "list_all rule_wf gs"
  shows "splitBillingExprAndRequestRules (combineBillingExpr zero_expr (buildRequestRuleExpr gs)) =
    Inr \<lparr>billingExpr = zero_expr, requestRuleExpr = buildRequestRuleExpr gs\<rparr>"
proof (cases "gs = []")
  case True
  have "splitBillingExprAndRequestRules (combineBillingExpr zero_expr (buildRequestRuleExpr [])) =
    Inr \<lparr>billingExpr = zero_expr, requestRuleExpr = buildRequestRuleExpr []\<rparr>" by code_simp
  with True show ?thesis by simp
next
  case False
  have "trimmed zero_expr" "balanced 0 zero_expr" "\<not> hasFullOuterParens zero_expr"
    "is_rule_part (''('' @ zero_expr @ '')'') = Inr False" by code_simp+
  with False assms show ?thesis by (intro combine_split) simp_all
qed

text \<open>The states of the expression editor while no tiers are known.\<close>

definition raw_state ::
  "jsstring \<Rightarrow> jsstring \<Rightarrow> request_rule_group list \<Rightarrow> jsstring \<Rightarrow> bool \<Rightarrow> jsstring \<Rightarrow> tiered_editor" where
  "raw_state n e gs raw read seen =
     \<lparr>te_modelName = n, te_billingExpr = e, te_requestRuleExpr = buildRequestRuleExpr gs, te_editorMode = RawEditor,
      te_visualConfig = None, te_rawExpr = raw, te_requestRuleGroups = gs, te_initRef = read,
      te_seen = Some (n, seen, buildRequestRuleExpr gs)\<rparr>"

lemma raw_commit:
  assumes "list_all rule_wf gs" "splitBillingExprAndRequestRules raw = Inr r" "read \<or> e \<noteq> [] \<and> tryParseVisualConfig e = None"
  shows "te_commit (raw_state n e gs raw read seen) =
    Inr (raw_state n (billingExpr r) gs (if e \<noteq> seen \<and> \<not> read then combineBillingExpr e (buildRequestRuleExpr gs) else raw)
      (read \<or> e \<noteq> seen) e)"
proof -
  let ?s = "raw_state n e gs raw read seen"
  have "canUseVisualRules ?s = Inr True" using assms(1) by (simp add: canUseVisualRules_def raw_state_def parse_built)
  moreover have "effectiveExpr ?s = Inr (billingExpr r)" using assms(2) by (simp add: effectiveExpr_def raw_state_def)
  moreover have "init_effect ?s = Inr (raw_state n e gs (if e \<noteq> seen \<and> \<not> read then combineBillingExpr e (buildRequestRuleExpr gs) else raw)
      (read \<or> e \<noteq> seen) seen)"
    using assms(1,3) groups_built by (auto simp: init_effect_def exprs_changed_def raw_state_def)
  ultimately show ?thesis by (auto simp: commit_iff written_def raw_state_def name_changed_def)
qed

lemma mount_raw:
  assumes "list_all rule_wf gs" "e \<noteq> []" "tryParseVisualConfig e = None"
  obtains s where "mountEditor n e (buildRequestRuleExpr gs) = Inr s"
    "te_commit s = Inr (raw_state n zero_expr gs (combineBillingExpr e (buildRequestRuleExpr gs)) False e)"
proof -
  let ?R = "buildRequestRuleExpr gs"
  let ?s = "\<lparr>te_modelName = n, te_billingExpr = e, te_requestRuleExpr = ?R, te_editorMode = VisualEditor, te_visualConfig = None,
      te_rawExpr = combineBillingExpr e ?R, te_requestRuleGroups = gs, te_initRef = False, te_seen = None\<rparr>"
  have m: "mountEditor n e ?R = Inr ?s" using assms groups_built by (simp add: mountEditor_def)
  have "canUseVisualRules ?s = Inr True" using assms(1) by (simp add: canUseVisualRules_def parse_built)
  moreover have "effectiveExpr ?s = Inr zero_expr" by (simp add: effectiveExpr_def generateExprFromVisualConfig_def)
  moreover have "init_effect ?s = Inr (?s\<lparr>te_editorMode := RawEditor, te_initRef := True\<rparr>)"
    using assms groups_built by (simp add: init_effect_def exprs_changed_def)
  ultimately have "te_commit ?s = Inr (raw_state n zero_expr gs (combineBillingExpr e ?R) False e)"
    by (auto simp: commit_iff written_def raw_state_def name_changed_def)
  with m show ?thesis by (rule that)
qed

lemma raw_lost:
  assumes "list_all rule_wf gs" "e \<noteq> []" "tryParseVisualConfig e = None" "e \<noteq> zero_expr"
    "splitBillingExprAndRequestRules (combineBillingExpr e (buildRequestRuleExpr gs)) = Inr r"
  obtains s t where "mountEditor n e (buildRequestRuleExpr gs) = Inr s" "te_settle s = Inr t" "at_rest t"
    "t = raw_state n zero_expr gs (combineBillingExpr zero_expr (buildRequestRuleExpr gs)) True zero_expr"
proof -
  let ?raw = "combineBillingExpr zero_expr (buildRequestRuleExpr gs)"
  obtain s where s: "mountEditor n e (buildRequestRuleExpr gs) = Inr s"
    "te_commit s = Inr (raw_state n zero_expr gs (combineBillingExpr e (buildRequestRuleExpr gs)) False e)"
    by (rule mount_raw [OF assms(1-3)])
  have c2: "te_commit (raw_state n zero_expr gs (combineBillingExpr e (buildRequestRuleExpr gs)) False e) =
      Inr (raw_state n (billingExpr r) gs ?raw True zero_expr)"
    using raw_commit [OF assms(1,5), of False zero_expr n e] zero_not_visual assms(4) by simp
  have c3: "te_commit (raw_state n (billingExpr r) gs ?raw True zero_expr) = Inr (raw_state n zero_expr gs ?raw True (billingExpr r))"
    using raw_commit [OF assms(1) zero_split [OF assms(1)], of True "billingExpr r" n zero_expr] by simp
  have c4: "te_commit (raw_state n zero_expr gs ?raw True e') = Inr (raw_state n zero_expr gs ?raw True zero_expr)" for e'
    using raw_commit [OF assms(1) zero_split [OF assms(1)], of True zero_expr n e'] by simp
  have "te_commits 4 s = Inr (raw_state n zero_expr gs ?raw True zero_expr)"
    using s(2) c2 c3 c4 by (simp add: numeral_eq_Suc)
  moreover have st: "at_rest (raw_state n zero_expr gs ?raw True zero_expr)" using c4 by (simp add: at_rest_def)
  ultimately have "te_settle s = Inr (raw_state n zero_expr gs ?raw True zero_expr)" by (rule settle_from) simp
  then show ?thesis using that s(1) st by blast
qed

section \<open>Templates\<close>

definition priced :: "tier_condition_input list \<Rightarrow> jsstring \<Rightarrow> jsnum \<Rightarrow> jsnum \<Rightarrow> jsnum \<Rightarrow> jsnum \<Rightarrow> jsnum \<Rightarrow> visual_tier" where
  "priced cs l i o' cr cc cc1h =
     \<lparr>vt_label = l, vt_conditions = cs, vt_input_unit_cost = i, vt_output_unit_cost = o',
      vt_cache_mode = (if num_positive cc1h then Timed else Generic), vt_cache_read_unit_cost = cr, vt_cache_create_unit_cost = cc,
      vt_cache_create_1h_unit_cost = cc1h, vt_image_unit_cost = JDec 0 0, vt_image_output_unit_cost = JDec 0 0,
      vt_audio_input_unit_cost = JDec 0 0, vt_audio_output_unit_cost = JDec 0 0\<rparr>"

definition bound :: "jsstring \<Rightarrow> jsstring \<Rightarrow> jsnum \<Rightarrow> tier_condition_input" where
  "bound v op n = \<lparr>ti_var = v, ti_op = op, ti_value = Some (NumValue n)\<rparr>"

text \<open>The tiers of the templates with several tiers.\<close>

definition chain_configs :: "visual_config list" where
  "chain_configs =
    [[priced [bound ''len'' ''<='' (JDec 272 3)] ''standard'' (JDec 25 (- 1)) (JDec 15 0) (JDec 25 (- 2)) (JDec 0 0) (JDec 0 0),
      priced [] ''long_context'' (JDec 5 0) (JDec 225 (- 1)) (JDec 5 (- 1)) (JDec 0 0) (JDec 0 0)],
     [priced [bound ''len'' ''<='' (JDec 2 5)] ''standard'' (JDec 3 0) (JDec 15 0) (JDec 3 (- 1)) (JDec 375 (- 2)) (JDec 6 0),
      priced [] ''long_context'' (JDec 6 0) (JDec 225 (- 1)) (JDec 6 (- 1)) (JDec 75 (- 1)) (JDec 12 0)],
     [priced [bound ''len'' ''<='' (JDec 32 3)] ''short'' (JDec 12 (- 1)) (JDec 6 0) (JDec 24 (- 2)) (JDec 15 (- 1)) (JDec 0 0),
      priced [bound ''len'' ''<='' (JDec 128 3)] ''mid'' (JDec 24 (- 1)) (JDec 12 0) (JDec 48 (- 2)) (JDec 3 0) (JDec 0 0),
      priced [] ''long'' (JDec 3 0) (JDec 15 0) (JDec 6 (- 1)) (JDec 375 (- 2)) (JDec 0 0)],
     [priced [bound ''len'' ''<'' (JDec 32 3), bound ''c'' ''<'' (JDec 2 2)] ''short_output'' (JDec 8 (- 1)) (JDec 2 0) (JDec 16 (- 2)) (JDec 0 0) (JDec 0 0),
      priced [bound ''len'' ''<'' (JDec 32 3), bound ''c'' ''>='' (JDec 2 2)] ''long_output'' (JDec 8 (- 1)) (JDec 6 0) (JDec 16 (- 2)) (JDec 0 0) (JDec 0 0),
      priced [] ''mid_context'' (JDec 12 (- 1)) (JDec 8 0) (JDec 24 (- 2)) (JDec 0 0) (JDec 0 0)],
     [priced [bound ''len'' ''<='' (JDec 32 3), bound ''c'' ''<='' (JDec 2 2)] ''discount'' (JDec 8 (- 1)) (JDec 2 0) (JDec 16 (- 2)) (JDec 17 (- 2)) (JDec 0 0),
      priced [bound ''len'' ''<='' (JDec 32 3)] ''short'' (JDec 8 (- 1)) (JDec 8 0) (JDec 16 (- 2)) (JDec 17 (- 2)) (JDec 0 0),
      priced [bound ''len'' ''<='' (JDec 128 3)] ''mid'' (JDec 12 (- 1)) (JDec 16 0) (JDec 16 (- 2)) (JDec 17 (- 2)) (JDec 0 0),
      priced [] ''long'' (JDec 24 (- 1)) (JDec 24 0) (JDec 16 (- 2)) (JDec 17 (- 2)) (JDec 0 0)]]"

definition all_presets :: "preset list" where
  "all_presets = concat (map snd PRESET_GROUPS)"

definition preset_rules :: "preset \<Rightarrow> request_rule_group list" where
  "preset_rules p = (case pr_requestRules p of Some gs \<Rightarrow> gs | None \<Rightarrow> [])"

lemma chain_configs_wf: "list_all config_wf chain_configs"
  by code_simp

text \<open>A template starts with a tier or is the text of one of these chains.\<close>

definition one_tier :: "preset \<Rightarrow> bool" where
  "one_tier p \<longleftrightarrow> hd (pr_expr p) = CHR ''t''"

lemma one_tier_presets:
  "list_all (\<lambda>p. if one_tier p then (case tryParseVisualConfig (pr_expr p) of Some ts \<Rightarrow> config_wf ts | None \<Rightarrow> False) else True) all_presets"
  by code_simp

lemma chain_presets:
  "remdups (map pr_expr (filter (\<lambda>p. \<not> one_tier p) all_presets)) = map (\<lambda>i. generateExprFromVisualConfig (Some (chain_configs ! i))) [1, 2, 3, 4, 0]"
  by code_simp

lemma preset_rules_wf: "list_all (\<lambda>p. list_all rule_wf (preset_rules p)) all_presets"
  by code_simp

lemma preset_read:
  assumes "p \<in> set all_presets"
  obtains ts where "tryParseVisualConfig (pr_expr p) = Some ts" "config_wf ts" "list_all rule_wf (preset_rules p)"
proof -
  have "list_all rule_wf (preset_rules p)" using preset_rules_wf assms by (simp add: list_all_iff)
  moreover have "(\<exists>ts \<in> set chain_configs. pr_expr p = generateExprFromVisualConfig (Some ts)) \<or>
      (\<exists>ts. tryParseVisualConfig (pr_expr p) = Some ts \<and> config_wf ts)"
  proof (cases "one_tier p")
    case True
    then show ?thesis using one_tier_presets assms by (auto simp: list_all_iff split: option.splits)
  next
    case False
    then have "pr_expr p \<in> set (remdups (map pr_expr (filter (\<lambda>p. \<not> one_tier p) all_presets)))" using assms by simp
    moreover have "length chain_configs = 5" by (simp add: chain_configs_def)
    then have "chain_configs ! i \<in> set chain_configs" if "i < 5" for i using that by simp
    ultimately show ?thesis unfolding chain_presets by auto
  qed
  moreover have "config_wf ts" if "ts \<in> set chain_configs" for ts using chain_configs_wf that by (simp add: list_all_iff)
  ultimately show ?thesis using that tiers.decode_encode by metis
qed

section \<open>The list of tiers\<close>

lemma complete_iff:
  "complete ts \<longleftrightarrow> ts \<noteq> [] \<and> list_all (\<lambda>t. tier_wf t \<and> paren_free (vt_label t)) ts \<and>
     vt_conditions (last ts) = [] \<and> list_all (\<lambda>t. vt_conditions t \<noteq> []) (butlast ts)"
  by (cases ts) (auto simp: complete_def config_wf_def list_all_iff)

lemma complete_normal: "complete ts \<Longrightarrow> normalizeVisualConfig (Some ts) = ts"
  by (rule normalize_config) (auto simp: complete_iff list_all_iff)

definition new_tier :: "nat \<Rightarrow> visual_tier" where
  "new_tier n = priced [] (''tier_'' @ show_nat n) (JDec 0 0) (JDec 0 0) (JDec 0 0) (JDec 0 0) (JDec 0 0)"

lemma show_nat_marks: "list_all is_digit (show_nat n)"
  by simp

lemma new_tier_wf: "tier_wf (new_tier n)" "paren_free (vt_label (new_tier n))" "vt_conditions (new_tier n) = []"
proof -
  have d: "not_quote c \<and> c \<noteq> CHR ''('' \<and> c \<noteq> CHR '')''" if "c \<in> set (show_nat n)" for c
    using show_nat_marks [of n] that by (auto simp: list_all_iff is_digit_def not_quote_def)
  have "num_ok (JDec 0 0)" by code_simp
  then show "tier_wf (new_tier n)"
    using d by (auto simp: new_tier_def priced_def tier_wf_def costs_ok_def tier_terms_def label_ok_def list_all_iff not_quote_def)
  show "paren_free (vt_label (new_tier n))" using d by (auto simp: new_tier_def priced_def paren_free_def)
  show "vt_conditions (new_tier n) = []" by (simp add: new_tier_def priced_def)
qed

lemma default_bound_ok: "v \<in> {''len'', ''c''} \<Longrightarrow> cond_in_ok (default_bound v)"
proof -
  have "cond_in_ok (default_bound ''len'')" "cond_in_ok (default_bound ''c'')" by code_simp+
  then show "v \<in> {''len'', ''c''} \<Longrightarrow> cond_in_ok (default_bound v)" by auto
qed

lemma more_conditions_wf: "tier_wf t \<Longrightarrow> list_all cond_in_ok cs \<Longrightarrow> tier_wf (t\<lparr>vt_conditions := cs\<rparr>)"
  by (simp add: tier_wf_def costs_ok_def tier_terms_def)

lemma add_tier_text:
  assumes "complete ts"
  shows "handleAddTier (Some ts) = butlast ts @ [(last ts)\<lparr>vt_conditions := [default_bound ''len'']\<rparr>, new_tier (length ts + 1)]"
proof -
  have "tier_wf (last ts)" "ts \<noteq> []" "vt_conditions (last ts) = []" using assms by (auto simp: complete_iff list_all_iff)
  moreover from more_conditions_wf [OF this(1), of "[default_bound ''len'']"]
  have "normalizeVisualTier (as_partial_tier ((last ts)\<lparr>vt_conditions := [default_bound ''len'']\<rparr>)) =
      (last ts)\<lparr>vt_conditions := [default_bound ''len'']\<rparr>"
    by (intro normalize_wf) (simp add: tier_wf_def default_bound_ok)
  then have "normalizeVisualTier ((as_partial_tier (last ts))\<lparr>pa_conditions := Some [default_bound ''len'']\<rparr>) =
      (last ts)\<lparr>vt_conditions := [default_bound ''len'']\<rparr>"
    by (simp add: as_partial_tier_def)
  moreover have "normalizeVisualTier (empty_partial_tier\<lparr>pa_label := Some l, pa_conditions := Some [],
      pa_input_unit_cost := Some (JDec 0 0), pa_output_unit_cost := Some (JDec 0 0)\<rparr>) =
      priced [] l (JDec 0 0) (JDec 0 0) (JDec 0 0) (JDec 0 0) (JDec 0 0)" for l
    by (simp add: normalizeVisualTier_def empty_partial_tier_def priced_def spread_def opt_num_def getTierCacheMode_def)
  ultimately show ?thesis
    by (simp add: handleAddTier_def complete_normal [OF assms] new_tier_def Let_def)
qed

lemma add_tier_complete: "complete ts \<Longrightarrow> complete (handleAddTier (Some ts))"
proof -
  assume c: "complete ts"
  then have "tier_wf (last ts)" "paren_free (vt_label (last ts))" by (auto simp: complete_iff list_all_iff)
  then have "tier_wf ((last ts)\<lparr>vt_conditions := [default_bound ''len'']\<rparr>)"
    by (intro more_conditions_wf) (simp_all add: default_bound_ok)
  then show ?thesis unfolding add_tier_text [OF c] using c new_tier_wf [of "length ts + 1"]
    by (auto simp: complete_iff list_all_iff butlast_append dest: in_set_butlastD)
qed

lemma last_remove: "Suc i < length ts \<Longrightarrow> last (remove_at i ts) = last ts"
  by (simp add: remove_at_def last_append)

lemma butlast_remove: "Suc i < length ts \<Longrightarrow> set (butlast (remove_at i ts)) \<subseteq> set (butlast ts)"
proof -
  assume i: "Suc i < length ts"
  then have "butlast (remove_at i ts) = take i ts @ butlast (drop (Suc i) ts)" by (simp add: remove_at_def butlast_append)
  also have "\<dots> = remove_at i (butlast ts)" using i by (simp add: remove_at_def take_butlast drop_butlast)
  finally show ?thesis by (auto simp: remove_at_def dest: in_set_takeD in_set_dropD)
qed

lemma remove_tier_complete: "complete ts \<Longrightarrow> Suc i < length ts \<Longrightarrow> handleRemoveTier i (Some ts) = remove_at i ts \<and> complete (remove_at i ts)"
proof -
  assume c: "complete ts" and i: "Suc i < length ts"
  have ne: "remove_at i ts \<noteq> []" using i by (simp add: remove_at_def)
  have "set (remove_at i ts) \<subseteq> set ts" by (auto simp: remove_at_def dest: in_set_takeD in_set_dropD)
  then have "complete (remove_at i ts)"
    using c ne last_remove [OF i] butlast_remove [OF i] by (auto simp: complete_iff list_all_iff)
  then show ?thesis using ne by (simp add: handleRemoveTier_def complete_normal [OF c] Let_def)
qed

lemma add_condition_complete:
  assumes "complete ts" "Suc i < length ts" "length (vt_conditions (ts ! i)) < 2"
  obtains v where "v \<in> {''len'', ''c''}"
    "handleAddCondition i (Some ts) = Some (ts[i := (ts ! i)\<lparr>vt_conditions := vt_conditions (ts ! i) @ [default_bound v]\<rparr>])"
    "complete (ts[i := (ts ! i)\<lparr>vt_conditions := vt_conditions (ts ! i) @ [default_bound v]\<rparr>])"
proof -
  define v where "v = (if ''len'' \<in> ti_var ` set (vt_conditions (ts ! i)) then ''c'' else ''len'')"
  let ?t = "(ts ! i)\<lparr>vt_conditions := vt_conditions (ts ! i) @ [default_bound v]\<rparr>"
  have v: "v \<in> {''len'', ''c''}" by (simp add: v_def)
  have t: "tier_wf (ts ! i)" "paren_free (vt_label (ts ! i))" using assms(1,2) by (auto simp: complete_iff list_all_length)
  then have "tier_wf ?t" by (intro more_conditions_wf) (use v default_bound_ok in \<open>auto simp: tier_wf_def\<close>)
  moreover have "last (ts[i := ?t]) = last ts" "butlast (ts[i := ?t]) = (butlast ts)[i := ?t]"
    using assms(2) by (cases "ts = []"; auto simp: last_list_update butlast_list_update)+
  ultimately have "complete (ts[i := ?t])"
    using assms(1) t(2) by (auto simp: complete_iff list_all_iff dest!: set_update_subset_insert [THEN subsetD])
  moreover have "handleAddCondition i (Some ts) = Some (ts[i := ?t])"
    using assms(3) by (simp add: handleAddCondition_def complete_normal [OF assms(1)] Let_def v_def)
  ultimately show ?thesis using that v by blast
qed

section \<open>Typed prices\<close>

lemma signed_canonical: "canonical_num (signed_decimal b s)"
  by (simp add: signed_decimal_def dec_canonical del: dec.simps split: option.split prod.split list.split)

lemma to_number_canonical: "canonical_num (to_number s)"
  by (simp add: to_number_def num_of_int_def signed_canonical dec_canonical Let_def del: dec.simps split: list.split option.split)

lemma parse_draft_ok: "num_ok (parseNumberDraft d)" "priceToUnitCost (parseNumberDraft d) = parseNumberDraft d"
proof -
  have "num_ok (JDec 0 0)" by code_simp
  then show ok: "num_ok (parseNumberDraft d)"
    using to_number_canonical [of d] by (simp add: parseNumberDraft_def num_ok_def Let_def)
  then show "priceToUnitCost (parseNumberDraft d) = parseNumberDraft d" by (simp add: priceToUnitCost_def num_ok_number)
qed

lemma price_change_wf:
  assumes "tier_wf t" "num_ok n" "fld \<noteq> CacheCreate1hCost"
  shows "tier_wf (tier_handlePriceChange fld n t)" "vt_conditions (tier_handlePriceChange fld n t) = vt_conditions t"
  using assms by (cases fld; simp add: tier_handlePriceChange_def tier_wf_def costs_ok_def tier_terms_def)+

lemma config_wf_update:
  assumes "config_wf ts" "i < length ts" "tier_wf t" "vt_conditions t = vt_conditions (ts ! i)"
  shows "config_wf (ts[i := t])"
proof -
  have ts: "ts \<noteq> []" "list_all tier_wf (ts[i := t])"
    using assms(1-3) by (auto simp: config_wf_def list_all_iff dest!: set_update_subset_insert [THEN subsetD])
  show ?thesis
  proof (cases "Suc i < length ts")
    case True
    have "vt_conditions t \<noteq> []" if "list_all (\<lambda>t. vt_conditions t \<noteq> []) (butlast ts)"
      using that True assms(4) by (auto simp: list_all_length nth_butlast)
    then show ?thesis using True ts assms(1)
      by (auto simp: config_wf_def last_list_update butlast_list_update list_all_iff dest!: set_update_subset_insert [THEN subsetD])
  next
    case False
    then have i: "i = length ts - 1" using assms(2) by simp
    then have "vt_conditions t = vt_conditions (last ts)" using assms(4) ts(1) by (simp add: last_conv_nth)
    then show ?thesis using i ts assms(1) by (auto simp: config_wf_def last_list_update butlast_list_update)
  qed
qed

text \<open>The texts of the fields of a card.\<close>

definition field_of :: "price_field \<Rightarrow> visual_tier \<Rightarrow> jsnum" where
  "field_of fld t =
     (case fld of InputCost \<Rightarrow> vt_input_unit_cost t | OutputCost \<Rightarrow> vt_output_unit_cost t | CacheReadCost \<Rightarrow> vt_cache_read_unit_cost t
      | CacheCreateCost \<Rightarrow> vt_cache_create_unit_cost t | CacheCreate1hCost \<Rightarrow> vt_cache_create_1h_unit_cost t
      | ImageCost \<Rightarrow> vt_image_unit_cost t | ImageOutputCost \<Rightarrow> vt_image_output_unit_cost t
      | AudioInputCost \<Rightarrow> vt_audio_input_unit_cost t | AudioOutputCost \<Rightarrow> vt_audio_output_unit_cost t)"

lemma field_of_change: "field_of g (tier_handlePriceChange f n t) = (if g = f then n else field_of g t)"
  by (cases f; cases g; simp add: field_of_def tier_handlePriceChange_def)

lemma tier_change_wf: "config_wf ts \<Longrightarrow> i < length ts \<Longrightarrow> tier_wf t \<Longrightarrow> handleTierChange i t (Some ts) = ts[i := t]"
  using normalize_config [of ts] normalize_wf [of t] by (auto simp: handleTierChange_def config_wf_def tier_wf_def)

section \<open>Properties\<close>

text \<open>
  C7: The effects of the editor come to rest: from any state, unless an effect throws, five renderings lead to a
  state which further renderings do not change, and there the panel holds the expression the editor shows
  and, in the visual editor, the expression of its rules.
\<close>

theorem editor_settles:
  "(\<exists>t. te_settle s = Inr t \<and> te_commit t = Inr t \<and> te_commits (5 + n) s = Inr t \<and> effectiveExpr t = Inr (te_billingExpr t) \<and>
      (te_editorMode t = RawEditor \<or> te_requestRuleExpr t = buildRequestRuleExpr (te_requestRuleGroups t))) \<or>
   (\<exists>k u e. k < 5 \<and> te_commits k s = Inr u \<and> te_commit u = Inl e)"
proof (cases "te_settle s")
  case (Inr t)
  have st: "at_rest t" by (rule settle_settled [OF Inr])
  have "te_commits (5 + n) s = Inr t" unfolding commits_add using Inr commits_settled [OF st] by (simp add: te_settle_def)
  moreover have "te_editorMode t = RawEditor \<or> te_editorMode t = VisualEditor" by (cases "te_editorMode t") simp_all
  ultimately show ?thesis using Inr st by (auto simp: settled_iff in_step_def at_rest_def [symmetric])
next
  case (Inl e)
  have "\<exists>k u. k < m \<and> te_commits k s = Inr u \<and> te_commit u = Inl e" if "te_commits m s = Inl e" for m
    using that
  proof (induction m arbitrary: s)
    case (Suc m)
    show ?case
    proof (cases "te_commit s")
      case (Inr s')
      with Suc.prems have "te_commits m s' = Inl e" by simp
      from Suc.IH [OF this] obtain k u where "k < m" "te_commits k s' = Inr u" "te_commit u = Inl e" by blast
      with Inr have "Suc k < Suc m \<and> te_commits (Suc k) s = Inr u \<and> te_commit u = Inl e" by simp
      then show ?thesis by blast
    next
      case (Inl e')
      with Suc.prems have "0 < Suc m \<and> te_commits 0 s = Inr s \<and> te_commit s = Inl e" by simp
      then show ?thesis by blast
    qed
  qed simp
  then show ?thesis using Inl by (simp add: te_settle_def) blast
qed

text \<open>
  C9: What the visual editor saved is what it opens: for tiers and rules it can read, the editor opens in the visual
  mode with exactly these tiers and rules and leaves both texts of the panel as they are.
\<close>

theorem saved_tiers_reopen:
  assumes "config_wf ts" "list_all rule_wf gs"
  shows "\<exists>s t. mountEditor n (generateExprFromVisualConfig (Some ts)) (buildRequestRuleExpr gs) = Inr s \<and> te_settle s = Inr t \<and>
    te_reachable t \<and> holds t ts gs \<and> texts t ts gs"
proof -
  have "readable_tiers ts gs" using assms by (simp add: readable_tiers_def)
  from mount_settles [OF this, of n] show ?thesis using te_reachable.opened by metis
qed

text \<open>
  C19: Every edit reaches the panel: whatever happened in a session, when tiers and rules that can be read are set in
  the visual editor, it keeps them and the panel holds their expressions.
\<close>

theorem visual_edits_kept:
  assumes "te_reachable s" "te_editorMode s = VisualEditor" "config_wf ts" "list_all rule_wf gs"
  shows "\<exists>t. te_settle (handleRuleGroupsChange gs (handleVisualChange (Some ts) s)) = Inr t \<and> holds t ts gs \<and> texts t ts gs"
proof -
  let ?s = "handleRuleGroupsChange gs (handleVisualChange (Some ts) s)"
  have st: "at_rest s" by (rule reachable_settled [OF assms(1)])
  then obtain b where "canUseVisualRules s = Inr b" "\<not> exprs_changed s" "\<not> name_changed s"
    by (auto simp: settled_iff exprs_changed_def name_changed_def)
  then have "canUseVisualRules ?s = Inr b" "\<not> exprs_changed ?s" "\<not> name_changed ?s"
    by (simp_all add: handleRuleGroupsChange_def handleVisualChange_def)
  moreover have "holds ?s ts gs" using assms(2) by (simp add: holds_def handleRuleGroupsChange_def handleVisualChange_def)
  moreover have "readable_tiers ts gs" using assms(3,4) by (simp add: readable_tiers_def)
  ultimately show ?thesis using edit_settles [of ?s ts gs b] by blast
qed

text \<open>
  C20: Looking at the expression is harmless: switching from the visual editor to the expression and back leaves
  tiers, rules and both texts of the panel as they were, for tiers with a fallback whose names have no parentheses.
\<close>

theorem mode_switch_keeps_tiers:
  assumes "te_reachable s" "holds s ts gs" "complete ts" "list_all rule_wf gs"
  shows "\<exists>u t. te_handleModeChange RawEditor s = Inr u \<and> te_settle u = Inr u \<and> te_billingExpr u = te_billingExpr s \<and>
    te_rawExpr u = combineBillingExpr (te_billingExpr s) (te_requestRuleExpr s) \<and> te_requestRuleExpr u = te_requestRuleExpr s \<and>
    te_handleModeChange VisualEditor u = Inr t \<and> te_settle t = Inr t \<and> holds t ts gs \<and>
    te_billingExpr t = te_billingExpr s \<and> te_requestRuleExpr t = te_requestRuleExpr s"
proof -
  have st: "at_rest s" by (rule reachable_settled [OF assms(1)])
  obtain u where u: "te_handleModeChange RawEditor s = Inr u" "at_rest u" "te_editorMode u = RawEditor"
      "te_rawExpr u = combineBillingExpr (te_billingExpr s) (te_requestRuleExpr s)"
      "te_billingExpr u = te_billingExpr s" "te_requestRuleExpr u = te_requestRuleExpr s"
    by (rule raw_settled [OF st assms(2-4)])
  have x: "texts u ts gs" "te_rawExpr u = combineBillingExpr (te_billingExpr u) (te_requestRuleExpr u)"
    using settled_visual(1) [OF st assms(2)] u by (simp_all add: texts_def)
  obtain t where t: "te_handleModeChange VisualEditor u = Inr t" "at_rest t" "holds t ts gs" "texts t ts gs"
    by (rule back_settled [OF u(2,3) x(2,1) assms(3,4)])
  have "te_settle u = Inr u" "te_settle t = Inr t" using commits_settled u(2) t(2) by (simp_all add: te_settle_def)
  then show ?thesis using u t x(1) by (auto simp: texts_def)
qed

text \<open>
  C32: The list of tiers stays well formed: adding a tier bounds the fallback and puts a free tier after it, changing no
  other price; removing a tier other than the fallback removes just it; adding a condition to a bounded tier adds
  one bound. But removing the fallback of two tiers makes every request outside the bound free of charge.
\<close>

theorem tier_list_edits:
  assumes "complete ts"
  shows "handleAddTier (Some ts) = butlast ts @ [(last ts)\<lparr>vt_conditions := [default_bound ''len'']\<rparr>, new_tier (length ts + 1)] \<and>
    complete (handleAddTier (Some ts)) \<and>
    (Suc i < length ts \<longrightarrow> handleRemoveTier i (Some ts) = remove_at i ts \<and> complete (remove_at i ts)) \<and>
    (Suc i < length ts \<and> length (vt_conditions (ts ! i)) < 2 \<longrightarrow>
      (\<exists>v ts'. handleAddCondition i (Some ts) = Some ts' \<and> complete ts' \<and>
         ts' = ts[i := (ts ! i)\<lparr>vt_conditions := vt_conditions (ts ! i) @ [default_bound v]\<rparr>])) \<and>
    (length ts = 2 \<longrightarrow> generateExprFromVisualConfig (Some (handleRemoveTier 1 (Some ts))) =
       piece (vt_conditions (hd ts)) (vt_label (hd ts)) (hd ts) @ '' : p * 0 + c * 0'')"
proof (intro conjI impI)
  show "generateExprFromVisualConfig (Some (handleRemoveTier 1 (Some ts))) =
      piece (vt_conditions (hd ts)) (vt_label (hd ts)) (hd ts) @ '' : p * 0 + c * 0''" if two: "length ts = 2"
  proof -
    obtain t f where ts: "ts = [t, f]" using two by (auto simp: length_Suc_conv eval_nat_numeral)
    have t: "config_wf [t]" "vt_conditions t \<noteq> []" using assms by (auto simp: ts complete_iff config_wf_def)
    have "handleRemoveTier 1 (Some ts) = [t]"
      using complete_normal [OF assms] by (simp add: handleRemoveTier_def ts remove_at_def Let_def)
    moreover from t(1) have "generateExprFromVisualConfig (Some [t]) = piece (vt_conditions t) (vt_label t) t @ '' : p * 0 + c * 0''"
      by (cases rule: generate_cases) (use t(2) in auto)
    ultimately show ?thesis by (simp add: ts)
  qed
qed (use add_tier_text [OF assms] add_tier_complete [OF assms] remove_tier_complete [OF assms]
    add_condition_complete [OF assms] in metis)+

text \<open>
  C35: A template replaces tiers and rules if the editor has read its texts since the model was shown, or the rules stay
  the same. Otherwise, as for the first template with rules after the editor is opened, the old price
  is read back: the rules of the template are applied to the price that was there before.
\<close>

theorem template_price:
  assumes "te_reachable s" "holds s ts gs" "config_wf ts" "list_all rule_wf gs" "p \<in> set all_presets"
  shows "\<exists>t ts'. te_settle (applyPreset p s) = Inr t \<and> tryParseVisualConfig (pr_expr p) = Some ts' \<and>
    (if te_initRef s \<or> preset_rules p = gs then holds t ts' (preset_rules p) \<and> texts t ts' (preset_rules p)
     else holds t ts (preset_rules p) \<and> texts t ts (preset_rules p))"
proof -
  have st: "at_rest s" by (rule reachable_settled [OF assms(1)])
  have r: "readable_tiers ts gs" using assms(3,4) by (simp add: readable_tiers_def)
  obtain ts' where p: "tryParseVisualConfig (pr_expr p) = Some ts'" "config_wf ts'" "list_all rule_wf (preset_rules p)"
    by (rule preset_read [OF assms(5)])
  note x = settled_visual(1) [OF st assms(2)]
  show ?thesis
  proof (cases "te_initRef s \<or> preset_rules p = gs")
    case True
    then have "te_initRef s \<or> te_requestRuleExpr s = buildRequestRuleExpr (preset_rules p)" using x by (auto simp: texts_def)
    from preset_applied [OF st p preset_rules_def this] True p(1) show ?thesis by metis
  next
    case False
    then show ?thesis using preset_overwritten [OF st assms(2) r p preset_rules_def] p(1) by metis
  qed
qed

text \<open>
  C26: Selecting another model while the editor is open does not open its price: the effects write the tiers and
  rules of the first model over the texts of the second, which then has the price of the first.
\<close>

theorem model_switch_keeps_price:
  assumes "te_reachable s" "holds s ts gs" "config_wf ts" "list_all rule_wf gs" "config_wf ts'" "list_all rule_wf gs'"
    "name \<noteq> te_modelName s"
  shows "\<exists>t. te_settle (showModel name (generateExprFromVisualConfig (Some ts')) (buildRequestRuleExpr gs') s) = Inr t \<and>
    te_modelName t = name \<and> holds t ts gs \<and> texts t ts gs"
proof -
  have "at_rest s" "readable_tiers ts gs" "readable_tiers ts' gs'" using reachable_settled assms by (auto simp: readable_tiers_def)
  from switch_settles [OF this(1) assms(2) this(2,3) assms(7)] show ?thesis by metis
qed

text \<open>
  C25: Opening an expression the visual editor cannot read destroys it: the effects replace it by the price zero, in the
  text that is shown and in the panel; only the rules stay.
\<close>

theorem raw_expression_lost:
  assumes "list_all rule_wf gs" "e \<noteq> []" "tryParseVisualConfig e = None" "e \<noteq> ''p * 0 + c * 0''"
    "splitBillingExprAndRequestRules (combineBillingExpr e (buildRequestRuleExpr gs)) = Inr r"
  shows "\<exists>s t. mountEditor n e (buildRequestRuleExpr gs) = Inr s \<and> te_settle s = Inr t \<and> te_editorMode t = RawEditor \<and>
    te_billingExpr t = ''p * 0 + c * 0'' \<and> te_rawExpr t = combineBillingExpr ''p * 0 + c * 0'' (buildRequestRuleExpr gs) \<and>
    te_requestRuleExpr t = buildRequestRuleExpr gs"
proof -
  obtain s t where "mountEditor n e (buildRequestRuleExpr gs) = Inr s" "te_settle s = Inr t"
      "t = raw_state n zero_expr gs (combineBillingExpr zero_expr (buildRequestRuleExpr gs)) True zero_expr"
    by (rule raw_lost [OF assms, of n])
  then show ?thesis by (auto simp: raw_state_def)
qed

text \<open>
  C33: A rule with a condition on a parameter that the parser does not support is erased when the texts have not been read
  since the model was shown. If they have, the rule is kept, and switching to the expression makes it part of
  the base while it stays a rule, so that the multiplier is stored twice.
\<close>

theorem unsupported_rule:
  assumes "te_reachable s" "holds s ts gs" "complete ts" "list_all rule_wf gs" "guarded_wf h" "is_numeric_literal m"
  defines "g \<equiv> \<lparr>rg_conditions = [ParamHeaderCondition h], rg_multiplier = m\<rparr>"
  defines "E \<equiv> generateExprFromVisualConfig (Some ts)" and "R \<equiv> buildRequestRuleExpr [g]"
  shows "if \<not> te_initRef s
    then \<exists>t. te_settle (handleRuleGroupsChange [g] s) = Inr t \<and> holds t ts [] \<and> texts t ts []
    else \<exists>t u v. te_settle (handleRuleGroupsChange [g] s) = Inr t \<and> holds t ts [g] \<and> texts t ts [g] \<and>
      te_handleModeChange RawEditor t = Inr u \<and> te_settle u = Inr v \<and>
      combineBillingExpr (te_billingExpr v) (te_requestRuleExpr v) = ''('' @ (''('' @ E @ '') * '' @ R) @ '') * '' @ R"
proof -
  have st: "at_rest s" by (rule reachable_settled [OF assms(1)])
  have r: "readable_tiers ts gs" using assms(3,4) by (simp add: readable_tiers_def complete_def)
  note g = guarded_rule [OF assms(5,6), folded g_def, folded R_def]
  show ?thesis
  proof (cases "te_initRef s")
    case False
    then show ?thesis using unsupported_erased [OF st assms(2) r False g(1) [unfolded R_def]] by auto
  next
    case True
    obtain t where t: "te_settle (handleRuleGroupsChange [g] s) = Inr t" "at_rest t" "holds t ts [g]" "texts t ts [g]" "te_initRef t"
      by (rule kept_unsupported [OF st assms(2) True g(1) [unfolded R_def]])
    have "te_requestRuleExpr t = R" "te_billingExpr t = E" using t(4) by (simp_all add: texts_def R_def E_def)
    note tR = this
    obtain u v where u: "te_handleModeChange RawEditor t = Inr u" "te_settle u = Inr v"
        "te_billingExpr v = combineBillingExpr E R" "te_requestRuleExpr v = R"
      using unsupported_doubled [OF t(2,3) assms(3) t(5)] g(1,2) by (metis tR)
    define B where "B = ''('' @ E @ '') * '' @ R"
    have "te_billingExpr v = B" using unsupported_split(2) [OF assms(3) g(2,1), folded E_def] u(3) by (simp add: B_def)
    moreover have "trimmed B" "B \<noteq> []" "trimmed R" "R \<noteq> []" using g(2) by (auto simp: B_def split_part_def trimmed_def is_ws_def)
    ultimately have "combineBillingExpr (te_billingExpr v) (te_requestRuleExpr v) = ''('' @ B @ '') * '' @ R"
      using u(4) by (simp add: combineBillingExpr_def js_trim_trimmed Let_def)
    with True t(1,3,4) u(1,2) show ?thesis by (auto simp: B_def)
  qed
qed

text \<open>
  A typed price is the price: whatever is typed into a price field of a tier, leaving the field shows a number, and
  the tier has this number as that price and keeps its other prices; the panel holds the expression with it, and
  the number shown reads as the same price again. (The price for one hour of caching also decides the cache mode.)
\<close>

theorem typed_price_kept:
  fixes d :: jsstring and f :: draft_field
  assumes "te_reachable s" "holds s ts gs" "config_wf ts" "list_all rule_wf gs" "i < length ts" "fld \<noteq> CacheCreate1hCost"
  defines "n \<equiv> parseNumberDraft d" and "shown \<equiv> nf_draft (field_blur NumValue (field_change NumValue d (field_focus f)))"
  shows "\<exists>t ts'. te_settle (handleVisualChange (Some (handleTierChange i (tier_handlePriceChange fld (priceToUnitCost n) (ts ! i)) (Some ts))) s) = Inr t \<and>
    holds t ts' gs \<and> texts t ts' gs \<and> length ts' = length ts \<and>
    (\<forall>j g. j < length ts \<longrightarrow> field_of g (ts' ! j) = (if j = i \<and> g = fld then n else field_of g (ts ! j))) \<and>
    shown = formatNumberDraft (NumValue n) \<and> parseNumberDraft shown = n"
proof -
  let ?t = "tier_handlePriceChange fld n (ts ! i)"
  note d = parse_draft_ok [of d, folded n_def]
  have wf: "tier_wf (ts ! i)" using assms(3,5) by (auto simp: config_wf_def list_all_length)
  note w = price_change_wf [OF wf d(1) assms(6)]
  have c: "config_wf (ts[i := ?t])" by (rule config_wf_update [OF assms(3,5) w])
  have e: "handleTierChange i (tier_handlePriceChange fld (priceToUnitCost n) (ts ! i)) (Some ts) = ts[i := ?t]"
    using tier_change_wf [OF assms(3,5) w(1)] d(2) by simp
  have st: "at_rest s" by (rule reachable_settled [OF assms(1)])
  let ?s = "handleVisualChange (Some (ts[i := ?t])) s"
  obtain b where "canUseVisualRules ?s = Inr b" "\<not> exprs_changed ?s" "\<not> name_changed ?s"
    using settled_visual [OF st assms(2)] by (auto simp: handleVisualChange_def)
  moreover have "holds ?s (ts[i := ?t]) gs" "readable_tiers (ts[i := ?t]) gs"
    using assms(2,4) c by (simp_all add: holds_def handleVisualChange_def readable_tiers_def)
  ultimately obtain t where t: "te_settle ?s = Inr t" "holds t (ts[i := ?t]) gs" "texts t (ts[i := ?t]) gs"
    using edit_settles [of ?s "ts[i := ?t]" gs b] by blast
  have sh: "shown = num_to_string n" by (simp add: shown_def n_def field_blur_def field_change_def field_focus_def Let_def)
  have "num_to_string n \<noteq> []" "to_number (num_to_string n) = n" "is_finite n"
    using d(1) num_text num_ok_number by (auto simp: num_ok_def)
  moreover have "js_trim (num_to_string n) = num_to_string n"
    using num_text [OF d(1)] is_num_char_marks by (intro js_trim_trimmed trimmed_no_ws) (auto simp: list_all_iff)
  ultimately have "shown = formatNumberDraft (NumValue n)" "parseNumberDraft shown = n"
    by (simp_all add: sh formatNumberDraft_def parseNumberDraft_def)
  moreover have "field_of g (ts[i := ?t] ! j) = (if j = i \<and> g = fld then n else field_of g (ts ! j))" if "j < length ts" for j g
    using that assms(5) by (simp add: nth_list_update field_of_change)
  ultimately show ?thesis unfolding e using t by (intro exI [of _ t] exI [of _ "ts[i := ?t]"]) simp
qed

section \<open>Instances\<close>

lemma sample_complete: "complete sample_config" "complete (tl sample_config)"
  by code_simp+

lemma sample_tail_wf: "config_wf (tl sample_config)"
  by code_simp

definition guarded_sample :: param_header_condition where
  "guarded_sample = \<lparr>pc_source = ''param'', pc_path = ''max_tokens'', pc_mode = ''gt'', pc_value = ''1000''\<rparr>"

lemma guarded_sample_wf: "guarded_wf guarded_sample"
  by code_simp

text \<open>A freshly opened editor, whose texts are due to be read.\<close>

definition opened_state :: "jsstring \<Rightarrow> visual_config \<Rightarrow> request_rule_group list \<Rightarrow> tiered_editor" where
  "opened_state n ts gs =
     \<lparr>te_modelName = n, te_billingExpr = generateExprFromVisualConfig (Some ts), te_requestRuleExpr = buildRequestRuleExpr gs,
      te_editorMode = VisualEditor, te_visualConfig = Some ts,
      te_rawExpr = combineBillingExpr (generateExprFromVisualConfig (Some ts)) (buildRequestRuleExpr gs), te_requestRuleGroups = gs,
      te_initRef = False, te_seen = Some (n, generateExprFromVisualConfig (Some ts), buildRequestRuleExpr gs)\<rparr>"

lemma opened_mount:
  "readable_tiers ts gs \<Longrightarrow> mountEditor n (generateExprFromVisualConfig (Some ts)) (buildRequestRuleExpr gs) =
     Inr ((opened_state n ts gs)\<lparr>te_seen := None\<rparr>)"
  using groups_built tiers.decode_encode by (simp add: mountEditor_def opened_state_def readable_tiers_def)

lemma opened_reachable:
  assumes "readable_tiers ts gs"
  shows "te_reachable (opened_state n ts gs)" "holds (opened_state n ts gs) ts gs" "\<not> te_initRef (opened_state n ts gs)"
    "te_editorMode (opened_state n ts gs) = VisualEditor"
proof -
  let ?s = "(opened_state n ts gs)\<lparr>te_seen := None\<rparr>" and ?E = "generateExprFromVisualConfig (Some ts)"
  have t: "texts (opened_state n ts gs) ts gs" and h: "holds (opened_state n ts gs) ts gs"
    by (simp_all add: opened_state_def texts_def holds_def)
  then have s: "holds ?s ts gs" "texts ?s ts gs" by (simp_all add: texts_def holds_def)
  note opened_mount [OF assms, of n]
  moreover have "te_commit ?s = Inr (opened_state n ts gs)"
    using commit_holds [OF s assms]
    by (simp add: written_def reading_def exprs_changed_def name_changed_def opened_state_def)
  then have "te_commits 1 ?s = Inr (opened_state n ts gs)" by simp
  from settle_from [OF this settled_holds [OF h t assms]] have "te_settle ?s = Inr (opened_state n ts gs)"
    by (simp add: opened_state_def)
  ultimately show "te_reachable (opened_state n ts gs)" by (rule te_reachable.opened)
  show "holds (opened_state n ts gs) ts gs" "\<not> te_initRef (opened_state n ts gs)" "te_editorMode (opened_state n ts gs) = VisualEditor"
    by (simp_all add: opened_state_def holds_def)
qed

lemma sample_readable: "readable_tiers sample_config sample_rules" "readable_tiers sample_config []" "readable_tiers (tl sample_config) []"
  using sample_config_wf sample_rules_wf sample_tail_wf by (simp_all add: readable_tiers_def)

theorem editor_settles_witness:
  "\<exists>t. te_settle ((opened_state ''m'' sample_config [])\<lparr>te_seen := None\<rparr>) = Inr t \<and> te_commit t = Inr t"
proof -
  obtain t where "te_settle ((opened_state ''m'' sample_config [])\<lparr>te_seen := None\<rparr>) = Inr t"
    using mount_settles [OF sample_readable(2), of "''m''"] opened_mount [OF sample_readable(2), of "''m''"] by auto
  then have "te_commit u \<noteq> Inl e" if "te_commits k ((opened_state ''m'' sample_config [])\<lparr>te_seen := None\<rparr>) = Inr u" "k < 5" for k u e
    using commits_add [of k "Suc (4 - k)" "(opened_state ''m'' sample_config [])\<lparr>te_seen := None\<rparr>"] that
    by (auto simp: te_settle_def eval_nat_numeral simp del: te_commits.simps(2)) simp
  then show ?thesis using editor_settles [of "(opened_state ''m'' sample_config [])\<lparr>te_seen := None\<rparr>" 0] by blast
qed

theorem saved_tiers_reopen_witness:
  "\<exists>s t. mountEditor ''m'' (generateExprFromVisualConfig (Some sample_config)) (buildRequestRuleExpr sample_rules) = Inr s \<and>
     te_settle s = Inr t \<and> te_visualConfig t = Some sample_config \<and> te_requestRuleGroups t = sample_rules"
  using saved_tiers_reopen [OF sample_config_wf sample_rules_wf, of "''m''"] by (auto simp: holds_def)

theorem visual_edits_kept_witness:
  "\<exists>t. te_settle (handleRuleGroupsChange sample_rules (handleVisualChange (Some sample_config) (opened_state ''m'' (tl sample_config) []))) = Inr t \<and>
     te_billingExpr t = generateExprFromVisualConfig (Some sample_config) \<and> te_requestRuleExpr t = buildRequestRuleExpr sample_rules"
  using visual_edits_kept [OF opened_reachable(1,4) [OF sample_readable(3)] sample_config_wf sample_rules_wf] by (auto simp: texts_def)

theorem mode_switch_keeps_tiers_witness:
  "\<exists>u t. te_handleModeChange RawEditor (opened_state ''m'' sample_config sample_rules) = Inr u \<and>
     te_handleModeChange VisualEditor u = Inr t \<and> te_visualConfig t = Some sample_config \<and> te_requestRuleGroups t = sample_rules"
  using mode_switch_keeps_tiers [OF opened_reachable(1,2) [OF sample_readable(1)] sample_complete(1) sample_rules_wf, of "''m''"]
  by (auto simp: holds_def)

theorem tier_list_edits_witness:
  "complete (handleAddTier (Some sample_config)) \<and> handleRemoveTier 0 (Some sample_config) = tl sample_config \<and>
   length (handleAddTier (Some sample_config)) = 3"
proof -
  note w = tier_list_edits [OF sample_complete(1), of 0]
  have "Suc 0 < length sample_config" "remove_at 0 sample_config = tl sample_config" by (simp_all add: sample_config_def remove_at_def)
  with w have "complete (handleAddTier (Some sample_config))" "handleRemoveTier 0 (Some sample_config) = tl sample_config" by metis+
  moreover from w have "length (handleAddTier (Some sample_config)) = length (butlast sample_config) + 2" by (elim conjE) simp
  ultimately show ?thesis by (simp add: sample_config_def)
qed

theorem template_price_witness:
  "\<exists>t p. pr_key p = ''night-discount'' \<and> te_settle (applyPreset p (opened_state ''m'' sample_config [])) = Inr t \<and>
     te_billingExpr t = generateExprFromVisualConfig (Some sample_config) \<and> te_requestRuleGroups t = preset_rules p"
proof -
  let ?p = "all_presets ! 13"
  have "length all_presets = 15" by code_simp
  then have p: "?p \<in> set all_presets" by simp
  have k: "pr_key ?p = ''night-discount''" "preset_rules ?p \<noteq> []" by code_simp+
  note o = opened_reachable [OF sample_readable(2), of "''m''"]
  show ?thesis using template_price [OF o(1,2) sample_config_wf _ p] o(3) k by (auto simp: holds_def texts_def)
qed

theorem model_switch_keeps_price_witness:
  "\<exists>t. te_settle (showModel ''other'' (generateExprFromVisualConfig (Some (tl sample_config))) (buildRequestRuleExpr [])
       (opened_state ''m'' sample_config sample_rules)) = Inr t \<and> te_modelName t = ''other'' \<and> te_visualConfig t = Some sample_config"
proof -
  note o = opened_reachable [OF sample_readable(1), of "''m''"]
  have "''other'' \<noteq> te_modelName (opened_state ''m'' sample_config sample_rules)" by (simp add: opened_state_def)
  with model_switch_keeps_price [OF o(1,2) sample_config_wf sample_rules_wf sample_tail_wf, of "[]"] show ?thesis
    by (auto simp: holds_def)
qed

theorem raw_expression_lost_witness:
  "\<exists>s t. mountEditor ''m'' ''max(p, c) * 3'' [] = Inr s \<and> te_settle s = Inr t \<and> te_billingExpr t = ''p * 0 + c * 0''"
proof -
  have b: "buildRequestRuleExpr [] = []" by (simp add: buildRequestRuleExpr_def)
  have "tryParseVisualConfig ''max(p, c) * 3'' = None"
    "splitBillingExprAndRequestRules (combineBillingExpr ''max(p, c) * 3'' (buildRequestRuleExpr [])) =
      Inr \<lparr>billingExpr = ''max(p, c) * 3'', requestRuleExpr = []\<rparr>" by code_simp+
  with raw_expression_lost [of "[]" "''max(p, c) * 3''" _ "''m''"] show ?thesis by (auto simp: b)
qed

theorem unsupported_rule_witness:
  "\<exists>t. te_settle (handleRuleGroupsChange [\<lparr>rg_conditions = [ParamHeaderCondition guarded_sample], rg_multiplier = ''2''\<rparr>]
       (opened_state ''m'' sample_config [])) = Inr t \<and> te_requestRuleGroups t = []"
proof -
  note o = opened_reachable [OF sample_readable(2), of "''m''"]
  have "is_numeric_literal ''2''" by code_simp
  from unsupported_rule [OF o(1,2) sample_complete(1) _ guarded_sample_wf this] o(3) show ?thesis by (auto simp: holds_def)
qed

theorem typed_price_kept_witness:
  "\<exists>t ts'. te_settle (handleVisualChange (Some (handleTierChange 0 (tier_handlePriceChange InputCost (priceToUnitCost (parseNumberDraft ''2.50''))
       (sample_config ! 0)) (Some sample_config))) (opened_state ''m'' sample_config sample_rules)) = Inr t \<and>
     te_visualConfig t = Some ts' \<and> vt_input_unit_cost (ts' ! 0) = JDec 25 (- 1)"
proof -
  note o = opened_reachable [OF sample_readable(1), of "''m''"]
  have n: "parseNumberDraft ''2.50'' = JDec 25 (- 1)" by code_simp
  have "0 < length sample_config" by (simp add: sample_config_def)
  then obtain t ts' where t: "te_settle (handleVisualChange (Some (handleTierChange 0 (tier_handlePriceChange InputCost
      (priceToUnitCost (parseNumberDraft ''2.50'')) (sample_config ! 0)) (Some sample_config))) (opened_state ''m'' sample_config sample_rules)) = Inr t"
      "holds t ts' sample_rules" "field_of InputCost (ts' ! 0) = parseNumberDraft ''2.50''"
    using typed_price_kept [OF o(1,2) sample_config_wf sample_rules_wf, of 0 InputCost "''2.50''"] by fastforce
  then have "te_visualConfig t = Some ts' \<and> vt_input_unit_cost (ts' ! 0) = JDec 25 (- 1)" using n by (simp add: holds_def field_of_def)
  with t(1) show ?thesis by blast
qed

end
