(* ===== verification/RatioSync.thy ===== *)
theory RatioSync
  imports ModelPricing
begin

text \<open>
  The synchronisation of prices with other instances (\<open>system-settings/models/upstream-ratio-sync.tsx\<close> with its helpers,
  table, columns and the dialog that selects the channels): the service reports in which price fields the models
  of other instances differ, the administrator selects values in a table, and the selection is written into the
  ten price texts.

  A value that differs is a number or a text; the text \<open>same\<close> stands for the local value. What a mutation sends is a
  list of options; the answers of the service are an argument. Toasts are not kept.
\<close>

section \<open>Fields and differences\<close>

record ratio_difference =
  rd_current :: json
  rd_upstreams :: "(jsstring \<times> json) list"
  rd_confidence :: "(jsstring \<times> bool) list"

type_synonym model_differences = "(jsstring \<times> ratio_difference) list"
type_synonym differences_map = "(jsstring \<times> model_differences) list"
type_synonym selection = "(jsstring \<times> json) list"
type_synonym resolutions_map = "(jsstring \<times> selection) list"

definition RATIO_SYNC_FIELDS :: "jsstring list" where
  "RATIO_SYNC_FIELDS = [''model_ratio'', ''completion_ratio'', ''cache_ratio'', ''create_cache_ratio'', ''image_ratio'',
     ''audio_ratio'', ''audio_completion_ratio'']"

definition SYNC_FIELD_ORDER :: "jsstring list" where
  "SYNC_FIELD_ORDER = RATIO_SYNC_FIELDS @ [''model_price'', ''billing_mode'', ''billing_expr'']"

definition NUMERIC_SYNC_FIELDS :: "jsstring list" where
  "NUMERIC_SYNC_FIELDS = RATIO_SYNC_FIELDS @ [''model_price'']"

definition RATIO_TYPE_OPTIONS :: "(jsstring \<times> jsstring) list" where
  "RATIO_TYPE_OPTIONS = [(''model_ratio'', ''Model ratio''), (''completion_ratio'', ''Completion ratio''),
     (''cache_ratio'', ''Cache ratio''), (''create_cache_ratio'', ''Create cache ratio''), (''image_ratio'', ''Image ratio''),
     (''audio_ratio'', ''Audio ratio''), (''audio_completion_ratio'', ''Audio completion ratio''),
     (''model_price'', ''Fixed price''), (''billing_expr'', ''Expression billing'')]"

definition getSyncFieldLabel :: "jsstring \<Rightarrow> (jsstring \<Rightarrow> jsstring) \<Rightarrow> jsstring" where
  "getSyncFieldLabel ratioType t = (case map_of RATIO_TYPE_OPTIONS ratioType of Some label \<Rightarrow> t label | None \<Rightarrow> ratioType)"

definition getOrderedRatioTypes :: "model_differences \<Rightarrow> jsstring \<Rightarrow> jsstring list" where
  "getOrderedRatioTypes ratioTypes flt =
     (let keys = map fst ratioTypes;
          ordered = filter (\<lambda>f. f \<in> set keys) SYNC_FIELD_ORDER @ filter (\<lambda>f. f \<notin> set SYNC_FIELD_ORDER) keys
      in if flt = [] \<or> flt = ''__all__'' then ordered else filter (\<lambda>f. f = flt) ordered)"

text \<open>\<open>ratioTypes[ratioType]?.upstreams?.[sourceName]\<close>.\<close>

definition upstream_value :: "model_differences \<Rightarrow> jsstring \<Rightarrow> jsstring \<Rightarrow> json option" where
  "upstream_value ratioTypes ratioType sourceName =
     (case map_of ratioTypes ratioType of Some d \<Rightarrow> map_of (rd_upstreams d) sourceName | None \<Rightarrow> None)"

definition isSelectableUpstreamValue :: "json option \<Rightarrow> bool" where
  "isSelectableUpstreamValue value \<longleftrightarrow> value \<noteq> Some JNull \<and> value \<noteq> None \<and> value \<noteq> Some (JStr ''same'')"

definition getPreferredSyncField :: "model_differences \<Rightarrow> jsstring \<Rightarrow> jsstring \<Rightarrow> jsstring" where
  "getPreferredSyncField ratioTypes ratioType sourceName =
     (let exprValue = upstream_value ratioTypes ''billing_expr'' sourceName
      in if ratioType \<noteq> ''billing_expr'' \<and> exprValue \<noteq> Some JNull \<and> exprValue \<noteq> None \<and> exprValue \<noteq> Some (JStr ''same'')
         then ''billing_expr'' else ratioType)"

datatype billing_category = PriceBilling | RatioBilling | TieredBilling

definition getBillingCategory :: "jsstring \<Rightarrow> billing_category" where
  "getBillingCategory ratioType =
     (if ratioType = ''model_price'' then PriceBilling
      else if ratioType = ''billing_mode'' \<or> ratioType = ''billing_expr'' then TieredBilling
      else RatioBilling)"

definition capitalized :: "jsstring \<Rightarrow> jsstring" where
  "capitalized word = (case word of [] \<Rightarrow> [] | c # cs \<Rightarrow> to_upper c # cs)"

definition optionKeyBySyncField :: "jsstring \<Rightarrow> jsstring" where
  "optionKeyBySyncField ratioType =
     (if ratioType = ''billing_mode'' then ''billing_setting.billing_mode''
      else if ratioType = ''billing_expr'' then ''billing_setting.billing_expr''
      else concat (map capitalized (split_on (CHR ''_'') ratioType)))"

definition parseJsonRecord :: "jsstring \<Rightarrow> json" where
  "parseJsonRecord raw = (case json_parse (if raw = [] then ''{}'' else raw) of Some j \<Rightarrow> j | None \<Rightarrow> JObj [])"

section \<open>Channels\<close>

record upstream_channel =
  uc_id :: int
  uc_name :: jsstring
  uc_base_url :: jsstring
  uc_status :: int
  uc_type :: "int option"

record upstream_config =
  up_id :: int
  up_name :: jsstring
  up_base_url :: jsstring
  up_endpoint :: jsstring

definition DEFAULT_ENDPOINT :: jsstring where "DEFAULT_ENDPOINT = ''/api/pricing''"
definition OFFICIAL_CHANNEL_ID :: int where "OFFICIAL_CHANNEL_ID = -100"
definition OFFICIAL_CHANNEL_ENDPOINT :: jsstring where
  "OFFICIAL_CHANNEL_ENDPOINT = ''/llm-metadata/api/newapi/ratio_config-v1-base.json''"
definition MODELS_DEV_PRESET_ID :: int where "MODELS_DEV_PRESET_ID = -101"
definition MODELS_DEV_PRESET_ENDPOINT :: jsstring where "MODELS_DEV_PRESET_ENDPOINT = ''https://models.dev/api.json''"
definition OPENROUTER_ENDPOINT :: jsstring where "OPENROUTER_ENDPOINT = ''openrouter''"
definition OPENROUTER_CHANNEL_TYPE :: int where "OPENROUTER_CHANNEL_TYPE = 20"

definition ENDPOINT_OPTIONS :: "jsstring list" where
  "ENDPOINT_OPTIONS = [''/api/pricing'', ''/api/ratio_config'', OPENROUTER_ENDPOINT, ''custom'']"

definition getDefaultEndpointForChannel :: "upstream_channel \<Rightarrow> jsstring" where
  "getDefaultEndpointForChannel channel =
     (if uc_id channel = MODELS_DEV_PRESET_ID then MODELS_DEV_PRESET_ENDPOINT
      else if uc_id channel = OFFICIAL_CHANNEL_ID then OFFICIAL_CHANNEL_ENDPOINT
      else if uc_type channel = Some OPENROUTER_CHANNEL_TYPE then OPENROUTER_ENDPOINT
      else DEFAULT_ENDPOINT)"

definition isOfficialChannel :: "upstream_channel \<Rightarrow> bool" where
  "isOfficialChannel channel \<longleftrightarrow> uc_id channel = OFFICIAL_CHANNEL_ID \<or> uc_id channel = MODELS_DEV_PRESET_ID"

type_synonym endpoints = "int \<Rightarrow> jsstring option"

text \<open>\<open>channelEndpoints[id] || DEFAULT_ENDPOINT\<close>.\<close>

definition current_endpoint :: "endpoints \<Rightarrow> int \<Rightarrow> jsstring" where
  "current_endpoint channelEndpoints i =
     (case channelEndpoints i of Some e \<Rightarrow> if e = [] then DEFAULT_ENDPOINT else e | None \<Rightarrow> DEFAULT_ENDPOINT)"

definition getEndpointType :: "jsstring \<Rightarrow> jsstring" where
  "getEndpointType endpoint = (if endpoint \<in> set ENDPOINT_OPTIONS then endpoint else ''custom'')"

text \<open>What the row of a channel shows: the type of its endpoint and, for a custom one, the text to edit.\<close>

definition endpoint_cell :: "endpoints \<Rightarrow> int \<Rightarrow> jsstring \<times> jsstring option" where
  "endpoint_cell channelEndpoints i =
     (let currentEndpoint = current_endpoint channelEndpoints i; endpointType = getEndpointType currentEndpoint
      in (endpointType, if endpointType = ''custom'' then Some currentEndpoint else None))"

definition updateEndpoint :: "int \<Rightarrow> jsstring \<Rightarrow> endpoints \<Rightarrow> endpoints" where
  "updateEndpoint channelId endpoint channelEndpoints = channelEndpoints(channelId \<mapsto> endpoint)"

definition endpoint_handleTypeChange :: "int \<Rightarrow> jsstring \<Rightarrow> endpoints \<Rightarrow> endpoints" where
  "endpoint_handleTypeChange i value channelEndpoints =
     (if value = ''custom'' then updateEndpoint i [] channelEndpoints else updateEndpoint i value channelEndpoints)"

text \<open>The effect that gives every channel an endpoint.\<close>

definition fill_endpoint :: "upstream_channel \<Rightarrow> endpoints \<Rightarrow> endpoints" where
  "fill_endpoint channel nxt =
     (if nxt (uc_id channel) = None \<or> nxt (uc_id channel) = Some []
      then nxt(uc_id channel \<mapsto> getDefaultEndpointForChannel channel) else nxt)"

definition fill_endpoints :: "upstream_channel list \<Rightarrow> endpoints \<Rightarrow> endpoints" where
  "fill_endpoints channels prev = fold fill_endpoint channels prev"

definition lower_text :: "jsstring \<Rightarrow> jsstring" where
  "lower_text s = map to_lower s"

definition filteredChannels :: "jsstring \<Rightarrow> upstream_channel list \<Rightarrow> upstream_channel list" where
  "filteredChannels search channels =
     (if js_trim search = [] then channels
      else filter (\<lambda>ch. js_includes (lower_text (uc_name ch)) (lower_text search) \<or>
                        js_includes (lower_text (uc_base_url ch)) (lower_text search)) channels)"

definition sortedChannels :: "upstream_channel list \<Rightarrow> upstream_channel list" where
  "sortedChannels channels = js_sort (\<lambda>a b. isOfficialChannel a \<or> \<not> isOfficialChannel b) channels"

text \<open>The rows that are marked when the dialog shows its selection.\<close>

definition row_selection :: "int list \<Rightarrow> upstream_channel list \<Rightarrow> int list" where
  "row_selection selectedChannelIds channels =
     uniq (filter (\<lambda>i. i \<in> set (map uc_id channels)) selectedChannelIds)"

section \<open>State\<close>

record conflict_item =
  ci_channel :: jsstring
  ci_model :: jsstring
  ci_current :: jsstring
  ci_newVal :: jsstring

record ratio_sync =
  rs_channelDialogOpen :: bool
  rs_conflictDialogOpen :: bool
  rs_selectedChannelIds :: "int list"
  rs_channelEndpoints :: endpoints
  rs_differences :: differences_map
  rs_resolutions :: resolutions_map
  rs_conflictItems :: "conflict_item list"

definition sync_initial :: ratio_sync where
  "sync_initial = \<lparr>rs_channelDialogOpen = False, rs_conflictDialogOpen = False, rs_selectedChannelIds = [],
     rs_channelEndpoints = (\<lambda>_. None), rs_differences = [], rs_resolutions = [], rs_conflictItems = []\<rparr>"

definition handleOpenChannelDialog :: "ratio_sync \<Rightarrow> ratio_sync" where
  "handleOpenChannelDialog s = s\<lparr>rs_channelDialogOpen := True\<rparr>"

text \<open>The request to the service, or none when no channel is selected.\<close>

definition handleConfirmChannelSelection :: "upstream_channel list \<Rightarrow> int list \<Rightarrow> ratio_sync \<Rightarrow> upstream_config list option" where
  "handleConfirmChannelSelection channels selectedIds s =
     (let selectedChannels = filter (\<lambda>ch. uc_id ch \<in> set selectedIds) channels
      in if selectedChannels = [] then None
         else Some (map (\<lambda>ch. \<lparr>up_id = uc_id ch, up_name = uc_name ch, up_base_url = uc_base_url ch,
                up_endpoint = current_endpoint (rs_channelEndpoints s) (uc_id ch)\<rparr>) selectedChannels))"

text \<open>The confirmation of the dialog, with the identifiers of the rows the table reports as selected.\<close>

definition selector_handleConfirm :: "upstream_channel list \<Rightarrow> int list \<Rightarrow> ratio_sync \<Rightarrow> ratio_sync \<times> upstream_config list option" where
  "selector_handleConfirm channels selectedIds s =
     (s\<lparr>rs_selectedChannelIds := selectedIds, rs_channelDialogOpen := False\<rparr>,
      handleConfirmChannelSelection channels selectedIds s)"

text \<open>The answer to the request: without success nothing changes.\<close>

definition fetch_onSuccess :: "bool \<Rightarrow> differences_map \<Rightarrow> ratio_sync \<Rightarrow> ratio_sync" where
  "fetch_onSuccess success newDiffs s = (if \<not> success then s else s\<lparr>rs_differences := newDiffs, rs_resolutions := []\<rparr>)"

section \<open>Selecting values\<close>

definition deleteResolutionField :: "resolutions_map \<Rightarrow> jsstring \<Rightarrow> jsstring \<Rightarrow> resolutions_map" where
  "deleteResolutionField res model ratioType =
     (case map_of res model of
        None \<Rightarrow> res
      | Some sel \<Rightarrow>
          (let sel1 = obj_delete sel ratioType;
               sel2 = (if ratioType = ''billing_expr'' then obj_delete sel1 ''billing_mode'' else sel1);
               sel3 = (if ratioType = ''billing_mode'' then obj_delete sel2 ''billing_expr'' else sel2)
           in if sel3 = [] then obj_delete res model else obj_assign res [(model, sel3)]))"

definition clear_conflicting :: "billing_category \<Rightarrow> selection \<Rightarrow> selection" where
  "clear_conflicting category sel =
     filter (\<lambda>(rt, _). \<not> (category \<noteq> TieredBilling \<and> getBillingCategory rt \<noteq> TieredBilling \<and> getBillingCategory rt \<noteq> category)) sel"

definition pair_tiered :: "model_differences \<Rightarrow> jsstring \<Rightarrow> jsstring \<Rightarrow> selection \<Rightarrow> selection" where
  "pair_tiered modelDiffs sourceName finalType sel =
     (let modeVal = upstream_value modelDiffs ''billing_mode'' sourceName;
          exprVal = upstream_value modelDiffs ''billing_expr'' sourceName;
          sel1 = (if isSelectableUpstreamValue modeVal then obj_assign sel [(''billing_mode'', the modeVal)]
                  else if finalType = ''billing_expr'' then obj_assign sel [(''billing_mode'', JStr ''tiered_expr'')]
                  else sel)
      in if isSelectableUpstreamValue exprVal then obj_assign sel1 [(''billing_expr'', the exprVal)] else sel1)"

definition select_value :: "differences_map \<Rightarrow> jsstring \<Rightarrow> jsstring \<Rightarrow> json \<Rightarrow> jsstring \<Rightarrow> resolutions_map \<Rightarrow> resolutions_map" where
  "select_value differences model ratioType value sourceName prev =
     (let modelDiffs = map_of differences model;
          newDiffs = (case modelDiffs of Some d \<Rightarrow> d | None \<Rightarrow> []);
          finalType = (if sourceName \<noteq> [] then getPreferredSyncField newDiffs ratioType sourceName else ratioType);
          finalValue = (if finalType = ratioType then value
            else (case upstream_value newDiffs finalType sourceName of Some JNull \<Rightarrow> value | Some v \<Rightarrow> v | None \<Rightarrow> value));
          category = getBillingCategory finalType;
          sel = (case map_of prev model of Some sel \<Rightarrow> sel | None \<Rightarrow> []);
          sel1 = obj_assign (clear_conflicting category sel) [(finalType, finalValue)];
          sel2 = (if category = TieredBilling \<and> sourceName \<noteq> [] \<and> modelDiffs \<noteq> None
                  then pair_tiered newDiffs sourceName finalType sel1 else sel1)
      in obj_assign prev [(model, sel2)])"

definition handleSelectValue :: "jsstring \<Rightarrow> jsstring \<Rightarrow> json \<Rightarrow> jsstring \<Rightarrow> ratio_sync \<Rightarrow> ratio_sync" where
  "handleSelectValue model ratioType value sourceName s =
     s\<lparr>rs_resolutions := select_value (rs_differences s) model ratioType value sourceName (rs_resolutions s)\<rparr>"

definition handleUnselectValue :: "jsstring \<Rightarrow> jsstring \<Rightarrow> ratio_sync \<Rightarrow> ratio_sync" where
  "handleUnselectValue model ratioType s =
     s\<lparr>rs_resolutions := deleteResolutionField (rs_resolutions s) model ratioType\<rparr>"

section \<open>Table\<close>

record sync_row =
  sr_model :: jsstring
  sr_ratioTypes :: model_differences
  sr_billingConflict :: bool

definition sync_dataSource :: "differences_map \<Rightarrow> sync_row list" where
  "sync_dataSource differences =
     map (\<lambda>(model, ratioTypes). \<lparr>sr_model = model, sr_ratioTypes = ratioTypes,
        sr_billingConflict = (map_of ratioTypes ''model_price'' \<noteq> None \<and>
          list_ex (\<lambda>rt. map_of ratioTypes rt \<noteq> None) RATIO_SYNC_FIELDS)\<rparr>) differences"

definition sync_filteredData :: "jsstring \<Rightarrow> jsstring \<Rightarrow> sync_row list \<Rightarrow> sync_row list" where
  "sync_filteredData search ratioTypeFilter dataSource =
     (let data = (if js_trim search \<noteq> []
                  then filter (\<lambda>row. js_includes (lower_text (sr_model row)) (lower_text search)) dataSource else dataSource)
      in if ratioTypeFilter \<noteq> [] \<and> ratioTypeFilter \<noteq> ''__all__''
         then filter (\<lambda>row. map_of (sr_ratioTypes row) ratioTypeFilter \<noteq> None) data else data)"

definition upstreamNames :: "jsstring \<Rightarrow> sync_row list \<Rightarrow> jsstring list" where
  "upstreamNames ratioTypeFilter filteredData =
     uniq (concat (map (\<lambda>row. concat (map (\<lambda>rt. case map_of (sr_ratioTypes row) rt of
         Some d \<Rightarrow> map fst (rd_upstreams d) | None \<Rightarrow> []) (getOrderedRatioTypes (sr_ratioTypes row) ratioTypeFilter)))
       filteredData))"

text \<open>The cells of an upstream instance that can be selected, in the order in which they are visited.\<close>

definition row_cells :: "jsstring \<Rightarrow> jsstring \<Rightarrow> model_differences \<Rightarrow> (jsstring \<times> json) list" where
  "row_cells ratioTypeFilter upstream ratioTypes =
     List.map_filter (\<lambda>rt.
         (let upstreamVal = upstream_value ratioTypes rt upstream
          in if getPreferredSyncField ratioTypes rt upstream = rt \<and> isSelectableUpstreamValue upstreamVal
             then Some (rt, the upstreamVal) else None))
       (getOrderedRatioTypes ratioTypes ratioTypeFilter)"

definition bulk_row :: "jsstring \<Rightarrow> jsstring \<Rightarrow> sync_row \<Rightarrow> ratio_sync \<Rightarrow> ratio_sync" where
  "bulk_row ratioTypeFilter upstream row =
     fold (\<lambda>(rt, v). handleSelectValue (sr_model row) rt v upstream) (row_cells ratioTypeFilter upstream (sr_ratioTypes row))"

definition handleBulkSelect :: "jsstring \<Rightarrow> jsstring \<Rightarrow> sync_row list \<Rightarrow> ratio_sync \<Rightarrow> ratio_sync" where
  "handleBulkSelect ratioTypeFilter upstream rows = fold (bulk_row ratioTypeFilter upstream) rows"

definition handleBulkUnselect :: "jsstring \<Rightarrow> jsstring \<Rightarrow> sync_row list \<Rightarrow> ratio_sync \<Rightarrow> ratio_sync" where
  "handleBulkUnselect ratioTypeFilter upstream rows =
     fold (\<lambda>row. fold (\<lambda>rt s. if upstream_value (sr_ratioTypes row) rt upstream \<noteq> None
                               then handleUnselectValue (sr_model row) rt s else s)
                  (getOrderedRatioTypes (sr_ratioTypes row) ratioTypeFilter)) rows"

text \<open>\<open>resolutions[model]?.[ratioType] === value\<close>.\<close>

definition is_selected :: "resolutions_map \<Rightarrow> jsstring \<Rightarrow> jsstring \<Rightarrow> json option \<Rightarrow> bool" where
  "is_selected resolutions model ratioType value \<longleftrightarrow>
     (case map_of resolutions model of Some sel \<Rightarrow> map_of sel ratioType | None \<Rightarrow> None) = value"

record header_box =
  hb_selectableCount :: nat
  hb_selectedCount :: nat
  hb_allSelected :: bool
  hb_someSelected :: bool

definition column_header :: "jsstring \<Rightarrow> jsstring \<Rightarrow> resolutions_map \<Rightarrow> sync_row list \<Rightarrow> header_box" where
  "column_header ratioTypeFilter upstreamName resolutions rows =
     (let cells = concat (map (\<lambda>row. map (Pair (sr_model row)) (row_cells ratioTypeFilter upstreamName (sr_ratioTypes row))) rows);
          selectableCount = length cells;
          selectedCount = length (filter (\<lambda>(model, rt, v). is_selected resolutions model rt (Some v)) cells)
      in \<lparr>hb_selectableCount = selectableCount, hb_selectedCount = selectedCount,
          hb_allSelected = (selectableCount > 0 \<and> selectedCount = selectableCount),
          hb_someSelected = (selectedCount > 0 \<and> selectedCount < selectableCount)\<rparr>)"

datatype upstream_cell = NotSetCell | SameAsLocalCell | ChoiceCell jsstring bool bool

text \<open>A cell: the text of the value, whether it is selected and whether the value is reliable.\<close>

definition renderUpstreamValue :: "json option \<Rightarrow> bool \<Rightarrow> bool \<Rightarrow> upstream_cell" where
  "renderUpstreamValue upstreamVal isConfident isSelected =
     (case upstreamVal of
        None \<Rightarrow> NotSetCell
      | Some v \<Rightarrow> if v = JNull then NotSetCell
                  else if v = JStr ''same'' then SameAsLocalCell
                  else ChoiceCell (js_to_string v) isSelected isConfident)"

definition column_cells :: "jsstring \<Rightarrow> jsstring \<Rightarrow> resolutions_map \<Rightarrow> sync_row \<Rightarrow> (jsstring \<times> upstream_cell) list" where
  "column_cells ratioTypeFilter upstreamName resolutions row =
     map (\<lambda>rt. (rt, renderUpstreamValue (upstream_value (sr_ratioTypes row) rt upstreamName)
         (case map_of (sr_ratioTypes row) rt of Some d \<Rightarrow> map_of (rd_confidence d) upstreamName \<noteq> Some False | None \<Rightarrow> True)
         (is_selected resolutions (sr_model row) rt (upstream_value (sr_ratioTypes row) rt upstreamName))))
       (filter (\<lambda>rt. getPreferredSyncField (sr_ratioTypes row) rt upstreamName = rt)
         (getOrderedRatioTypes (sr_ratioTypes row) ratioTypeFilter))"

section \<open>Writing the selection\<close>

text \<open>The options of the service, in the order in which they are written.\<close>

definition sync_options :: "(jsstring \<times> pricing_field) list" where
  "sync_options = [(''ModelRatio'', ModelRatio), (''CompletionRatio'', CompletionRatio), (''CacheRatio'', CacheRatio),
     (''CreateCacheRatio'', CreateCacheRatio), (''ImageRatio'', ImageRatio), (''AudioRatio'', AudioRatio),
     (''AudioCompletionRatio'', AudioCompletionRatio), (''ModelPrice'', ModelPrice),
     (''billing_setting.billing_mode'', BillingMode), (''billing_setting.billing_expr'', BillingExpr)]"

definition parsedRatios :: "pricing_texts \<Rightarrow> pricing_field \<Rightarrow> json" where
  "parsedRatios texts f = parseJsonRecord (texts f)"

text \<open>A property of a parsed text: of \<open>null\<close> it throws.\<close>

definition record_get :: "json \<Rightarrow> jsstring \<Rightarrow> pricing_error + json option" where
  "record_get j name = (if j = JNull then Inl TypeError else Inr (map_of (spread_props j) name))"

fun any_defined :: "json list \<Rightarrow> jsstring \<Rightarrow> pricing_error + bool" where
  "any_defined [] name = Inr False"
| "any_defined (j # js) name =
     (case record_get j name of Inl e \<Rightarrow> Inl e | Inr (Some _) \<Rightarrow> Inr True | Inr None \<Rightarrow> any_defined js name)"

definition ratio_options :: "pricing_field list" where
  "ratio_options = [ModelRatio, CompletionRatio, CacheRatio, CreateCacheRatio, ImageRatio, AudioRatio, AudioCompletionRatio]"

definition getLocalBillingCategory :: "jsstring \<Rightarrow> (pricing_field \<Rightarrow> json) \<Rightarrow> pricing_error + billing_category option" where
  "getLocalBillingCategory model currentRatios =
     (case record_get (currentRatios ModelPrice) model of
        Inl e \<Rightarrow> Inl e
      | Inr (Some _) \<Rightarrow> Inr (Some PriceBilling)
      | Inr None \<Rightarrow>
          (case any_defined (map currentRatios ratio_options) model of
             Inl e \<Rightarrow> Inl e
           | Inr b \<Rightarrow> Inr (if b then Some RatioBilling else None)))"

definition delete_model :: "pricing_field list \<Rightarrow> jsstring \<Rightarrow> pricing_maps \<Rightarrow> pricing_maps" where
  "delete_model fs model maps = (\<lambda>f. if f \<in> set fs then obj_delete (maps f) model else maps f)"

definition sync_value :: "jsstring \<Rightarrow> json \<Rightarrow> json" where
  "sync_value ratioType value = (if ratioType \<in> set NUMERIC_SYNC_FIELDS then JNum (js_number (Some value)) else value)"

fun write_fields :: "jsstring \<Rightarrow> selection \<Rightarrow> pricing_maps \<Rightarrow> pricing_error + pricing_maps" where
  "write_fields model [] finalRatios = Inr finalRatios"
| "write_fields model ((ratioType, value) # ratios) finalRatios =
     (case map_of sync_options (optionKeyBySyncField ratioType) of
        None \<Rightarrow> Inl TypeError
      | Some f \<Rightarrow> write_fields model ratios
          (finalRatios(f := obj_assign (finalRatios f) [(model, sync_value ratioType value)])))"

definition sync_model :: "jsstring \<Rightarrow> selection \<Rightarrow> pricing_maps \<Rightarrow> pricing_error + pricing_maps" where
  "sync_model model ratios finalRatios =
     (let selectedTypes = map fst ratios;
          hasPrice = (''model_price'' \<in> set selectedTypes);
          hasRatio = list_ex (\<lambda>rt. rt \<in> set RATIO_SYNC_FIELDS) selectedTypes;
          m1 = (if hasPrice then delete_model ratio_options model finalRatios else finalRatios);
          m2 = (if hasRatio then delete_model [ModelPrice] model m1 else m1)
      in write_fields model ratios m2)"

fun sync_models :: "resolutions_map \<Rightarrow> pricing_maps \<Rightarrow> pricing_error + pricing_maps" where
  "sync_models [] finalRatios = Inr finalRatios"
| "sync_models ((model, ratios) # res) finalRatios =
     (case sync_model model ratios finalRatios of Inl e \<Rightarrow> Inl e | Inr m \<Rightarrow> sync_models res m)"

type_synonym option_update = "jsstring \<times> jsstring"

definition performSync :: "(pricing_field \<Rightarrow> json) \<Rightarrow> ratio_sync \<Rightarrow> pricing_error + option_update list" where
  "performSync currentRatios s =
     (case sync_models (rs_resolutions s) (\<lambda>f. spread_props (currentRatios f)) of
        Inl e \<Rightarrow> Inl e
      | Inr finalRatios \<Rightarrow> Inr (map (\<lambda>(key, f). (key, json_pretty (JObj (finalRatios f)))) sync_options))"

definition findSourceChannel :: "differences_map \<Rightarrow> jsstring \<Rightarrow> jsstring \<Rightarrow> json \<Rightarrow> jsstring" where
  "findSourceChannel differences model ratioType value =
     (case map_of differences model of
        None \<Rightarrow> ''Unknown''
      | Some modelDiffs \<Rightarrow>
          (case map_of modelDiffs ratioType of
             None \<Rightarrow> ''Unknown''
           | Some d \<Rightarrow> (case find (\<lambda>(_, v). v = value) (rd_upstreams d) of Some (n, _) \<Rightarrow> n | None \<Rightarrow> ''Unknown'')))"

definition newBillingCategory :: "selection \<Rightarrow> billing_category" where
  "newBillingCategory ratios =
     (if map_of ratios ''model_price'' \<noteq> None then PriceBilling
      else if list_ex (\<lambda>rt. rt \<in> set (map fst ratios)) RATIO_SYNC_FIELDS then RatioBilling
      else TieredBilling)"

text \<open>\<open>${value ?? '-'}\<close>.\<close>

definition shown_value :: "json option \<Rightarrow> jsstring" where
  "shown_value v = (case v of None \<Rightarrow> ''-'' | Some JNull \<Rightarrow> ''-'' | Some j \<Rightarrow> js_to_string j)"

definition ratio_desc :: "(jsstring \<Rightarrow> jsstring) \<Rightarrow> json option \<Rightarrow> json option \<Rightarrow> jsstring" where
  "ratio_desc t ratio completion =
     t ''Model ratio'' @ '': '' @ shown_value ratio @ [CHR 0x0A] @ t ''Completion ratio'' @ '': '' @ shown_value completion"

definition price_desc :: "(jsstring \<Rightarrow> jsstring) \<Rightarrow> json option \<Rightarrow> jsstring" where
  "price_desc t v = t ''Fixed price'' @ '': '' @ (case v of Some j \<Rightarrow> js_to_string j | None \<Rightarrow> ''undefined'')"

definition current_desc :: "(jsstring \<Rightarrow> jsstring) \<Rightarrow> billing_category \<Rightarrow> jsstring \<Rightarrow> (pricing_field \<Rightarrow> json) \<Rightarrow> pricing_error + jsstring" where
  "current_desc t localCat model currentRatios =
     (if localCat = PriceBilling
      then (case record_get (currentRatios ModelPrice) model of Inl e \<Rightarrow> Inl e | Inr v \<Rightarrow> Inr (price_desc t v))
      else (case record_get (currentRatios ModelRatio) model of
              Inl e \<Rightarrow> Inl e
            | Inr ratio \<Rightarrow> (case record_get (currentRatios CompletionRatio) model of
                              Inl e \<Rightarrow> Inl e | Inr completion \<Rightarrow> Inr (ratio_desc t ratio completion))))"

definition conflict_of :: "(jsstring \<Rightarrow> jsstring) \<Rightarrow> (pricing_field \<Rightarrow> json) \<Rightarrow> differences_map \<Rightarrow> jsstring \<times> selection \<Rightarrow>
    pricing_error + conflict_item list" where
  "conflict_of t currentRatios differences = (\<lambda>(model, ratios).
     (case getLocalBillingCategory model currentRatios of
        Inl e \<Rightarrow> Inl e
      | Inr None \<Rightarrow> Inr []
      | Inr (Some localCat) \<Rightarrow>
          (let newCat = newBillingCategory ratios
           in if newCat \<noteq> TieredBilling \<and> localCat \<noteq> newCat
              then (case current_desc t localCat model currentRatios of
                      Inl e \<Rightarrow> Inl e
                    | Inr currentDesc \<Rightarrow>
                        Inr [\<lparr>ci_channel = js_join '', '' (uniq (map (\<lambda>(rt, v). findSourceChannel differences model rt v) ratios)),
                              ci_model = model, ci_current = currentDesc,
                              ci_newVal = (if newCat = PriceBilling then price_desc t (map_of ratios ''model_price'')
                                else ratio_desc t (map_of ratios ''model_ratio'') (map_of ratios ''completion_ratio''))\<rparr>])
              else Inr [])))"

definition sync_conflicts :: "(jsstring \<Rightarrow> jsstring) \<Rightarrow> (pricing_field \<Rightarrow> json) \<Rightarrow> ratio_sync \<Rightarrow> pricing_error + conflict_item list" where
  "sync_conflicts t currentRatios s =
     (case all_results (map (conflict_of t currentRatios (rs_differences s)) (rs_resolutions s)) of
        Inl e \<Rightarrow> Inl e | Inr items \<Rightarrow> Inr (concat items))"

text \<open>Applying the selection asks first or starts the mutation with its updates.\<close>

definition handleApplySync :: "(jsstring \<Rightarrow> jsstring) \<Rightarrow> pricing_texts \<Rightarrow> ratio_sync \<Rightarrow> pricing_error + ratio_sync \<times> option_update list option" where
  "handleApplySync t modelRatios s =
     (case sync_conflicts t (parsedRatios modelRatios) s of
        Inl e \<Rightarrow> Inl e
      | Inr conflicts \<Rightarrow>
          if conflicts \<noteq> [] then Inr (s\<lparr>rs_conflictItems := conflicts, rs_conflictDialogOpen := True\<rparr>, None)
          else (case performSync (parsedRatios modelRatios) s of Inl e \<Rightarrow> Inl e | Inr updates \<Rightarrow> Inr (s, Some updates)))"

text \<open>The mutation sends one option after the other until a request fails; an answer without success does not stop
  it. The service keeps what it has accepted.\<close>

datatype option_reply = Accepted | Refused | RequestFailed

fun send_updates :: "(jsstring \<Rightarrow> option_reply) \<Rightarrow> option_update list \<Rightarrow> pricing_texts \<Rightarrow> bool \<times> pricing_texts" where
  "send_updates reply [] texts = (True, texts)"
| "send_updates reply ((key, value) # updates) texts =
     (case reply key of
        RequestFailed \<Rightarrow> (False, texts)
      | Refused \<Rightarrow> send_updates reply updates texts
      | Accepted \<Rightarrow> send_updates reply updates
          (case map_of sync_options key of Some f \<Rightarrow> texts(f := value) | None \<Rightarrow> texts))"

definition drop_difference :: "jsstring \<Rightarrow> jsstring \<Rightarrow> differences_map \<Rightarrow> differences_map" where
  "drop_difference model ratioType newDiffs =
     (case map_of newDiffs model of
        None \<Rightarrow> newDiffs
      | Some modelDiffs \<Rightarrow>
          if map_of modelDiffs ratioType = None then newDiffs
          else (let rest = obj_delete modelDiffs ratioType
                in if rest = [] then obj_delete newDiffs model else obj_set newDiffs model rest))"

definition drop_resolved :: "resolutions_map \<Rightarrow> differences_map \<Rightarrow> differences_map" where
  "drop_resolved resolutions =
     fold (\<lambda>(model, ratios). fold (\<lambda>ratioType. drop_difference model ratioType) (map fst ratios)) resolutions"

definition sync_onSuccess :: "ratio_sync \<Rightarrow> ratio_sync" where
  "sync_onSuccess s = s\<lparr>rs_differences := drop_resolved (rs_resolutions s) (rs_differences s), rs_resolutions := []\<rparr>"

text \<open>The mutation as a whole: the page afterwards and the texts the service has.\<close>

definition syncMutate :: "(jsstring \<Rightarrow> option_reply) \<Rightarrow> option_update list \<Rightarrow> ratio_sync \<Rightarrow> pricing_texts \<Rightarrow> ratio_sync \<times> pricing_texts" where
  "syncMutate reply updates s texts =
     (let (done, texts') = send_updates reply updates texts in (if done then sync_onSuccess s else s, texts'))"

definition handleConfirmConflict :: "(jsstring \<Rightarrow> option_reply) \<Rightarrow> pricing_texts \<Rightarrow> ratio_sync \<Rightarrow> pricing_texts \<Rightarrow>
    pricing_error + ratio_sync \<times> pricing_texts" where
  "handleConfirmConflict reply modelRatios s texts =
     (case performSync (parsedRatios modelRatios) s of
        Inl e \<Rightarrow> Inl e
      | Inr updates \<Rightarrow>
          (let (done, texts') = send_updates reply updates texts
           in Inr (if done then (sync_onSuccess s)\<lparr>rs_conflictDialogOpen := False\<rparr> else s, texts')))"

definition hasSelections :: "ratio_sync \<Rightarrow> bool" where
  "hasSelections s \<longleftrightarrow> rs_resolutions s \<noteq> []"

end
