(* ===== verification/RatioSyncProofs.thy ===== *)
theory RatioSyncProofs
  imports ModelPricingProofs RatioSync
begin

text \<open>
  The synchronisation of prices: what is selected is consistent in every state, writing the selection is an update
  of the table of prices, an interrupted synchronisation can be resumed, and what the page does not do.
\<close>

section \<open>Fields and options\<close>

text \<open>The name of each price field in the differences.\<close>

fun field_type :: "pricing_field \<Rightarrow> jsstring" where
  "field_type ModelRatio = ''model_ratio''"
| "field_type CompletionRatio = ''completion_ratio''"
| "field_type CacheRatio = ''cache_ratio''"
| "field_type CreateCacheRatio = ''create_cache_ratio''"
| "field_type ImageRatio = ''image_ratio''"
| "field_type AudioRatio = ''audio_ratio''"
| "field_type AudioCompletionRatio = ''audio_completion_ratio''"
| "field_type ModelPrice = ''model_price''"
| "field_type BillingMode = ''billing_mode''"
| "field_type BillingExpr = ''billing_expr''"

lemma field_type_inj: "field_type f = field_type g \<longleftrightarrow> f = g"
  by (cases f; cases g) simp_all

lemma sync_fields: "set SYNC_FIELD_ORDER = range field_type"
proof
  show "range field_type \<subseteq> set SYNC_FIELD_ORDER"
  proof
    fix x
    assume "x \<in> range field_type"
    then obtain f where "x = field_type f" by blast
    then show "x \<in> set SYNC_FIELD_ORDER" by (cases f) (simp_all add: SYNC_FIELD_ORDER_def RATIO_SYNC_FIELDS_def)
  qed
  have "SYNC_FIELD_ORDER = map field_type (ratio_options @ [ModelPrice, BillingMode, BillingExpr])"
    by (simp add: SYNC_FIELD_ORDER_def RATIO_SYNC_FIELDS_def ratio_options_def)
  then show "set SYNC_FIELD_ORDER \<subseteq> range field_type" by (metis image_mono list.set_map subset_UNIV)
qed

lemma field_of_type: "map_of sync_options (optionKeyBySyncField (field_type f)) = Some f"
  by (cases f; simp only:; code_simp)

lemma ratio_fields: "field_type f \<in> set RATIO_SYNC_FIELDS \<longleftrightarrow> f \<in> set ratio_options"
  by (cases f) (simp_all add: RATIO_SYNC_FIELDS_def ratio_options_def)

lemma category_of_field:
  "getBillingCategory (field_type f) =
     (if f = ModelPrice then PriceBilling else if f = BillingMode \<or> f = BillingExpr then TieredBilling else RatioBilling)"
  by (cases f) (simp_all add: getBillingCategory_def)

lemma option_texts: "map_of (map (\<lambda>(key, f). (key, g f)) sync_options) key = map_option g (map_of sync_options key)"
  by (simp add: map_of_map)

lemma options_distinct: "distinct (map fst sync_options)" "snd ` set sync_options = UNIV" "inj_on snd (set sync_options)"
proof -
  show "distinct (map fst sync_options)" by (simp add: sync_options_def)
  show "snd ` set sync_options = UNIV"
  proof -
    have "f \<in> snd ` set sync_options" for f by (cases f) (simp_all add: sync_options_def)
    then show ?thesis by blast
  qed
  show "inj_on snd (set sync_options)" by (auto simp: sync_options_def inj_on_def)
qed

section \<open>Writing one model\<close>

text \<open>What a selection puts into a field, and whether it removes the old value.\<close>

definition entry :: "selection \<Rightarrow> pricing_field \<Rightarrow> json option" where
  "entry sel f = map_option (sync_value (field_type f)) (map_of sel (field_type f))"

definition has_ratio :: "selection \<Rightarrow> bool" where
  "has_ratio sel \<longleftrightarrow> (\<exists>f \<in> set ratio_options. map_of sel (field_type f) \<noteq> None)"

definition has_price :: "selection \<Rightarrow> bool" where
  "has_price sel \<longleftrightarrow> map_of sel ''model_price'' \<noteq> None"

definition removed :: "selection \<Rightarrow> pricing_field \<Rightarrow> bool" where
  "removed sel f \<longleftrightarrow> has_price sel \<and> f \<in> set ratio_options \<or> has_ratio sel \<and> f = ModelPrice"

definition sync_one :: "jsstring \<Rightarrow> selection \<Rightarrow> pricing_maps \<Rightarrow> pricing_maps" where
  "sync_one model sel maps =
     (\<lambda>f. put model (entry sel f) (if removed sel f then obj_delete (maps f) model else maps f))"

text \<open>The prices of a model after the synchronisation.\<close>

definition synced_prices :: "selection \<Rightarrow> (pricing_field \<Rightarrow> json option) \<Rightarrow> pricing_field \<Rightarrow> json option" where
  "synced_prices sel old f =
     (case entry sel f of Some v \<Rightarrow> Some v | None \<Rightarrow> if removed sel f then None else old f)"

definition selection_wf :: "selection \<Rightarrow> bool" where
  "selection_wf sel \<longleftrightarrow> distinct (map fst sel) \<and>
     (\<forall>rt v. map_of sel rt = Some v \<longrightarrow> rt \<in> set SYNC_FIELD_ORDER \<and> json_wf (sync_value rt v))"

lemma put_None [simp]: "put model None kvs = kvs" by (simp add: put_def)

lemma write_fields_put:
  assumes "distinct (map fst sel)" "fst ` set sel \<subseteq> range field_type"
  shows "write_fields model sel maps = Inr (\<lambda>f. put model (entry sel f) (maps f))"
  using assms
proof (induction model sel maps rule: write_fields.induct)
  case (1 model maps)
  then show ?case by (simp add: entry_def)
next
  case (2 model rt v sel maps)
  then obtain g where g: "rt = field_type g" by auto
  let ?m = "maps(g := obj_assign (maps g) [(model, sync_value rt v)])"
  have none: "map_of sel rt = None" using 2(2) by (auto simp: map_of_eq_None_iff)
  have "write_fields model sel ?m = Inr (\<lambda>f. put model (entry sel f) (?m f))"
    by (rule "2.IH") (use 2 g field_of_type [of g] in auto)
  moreover have "put model (entry sel f) (?m f) = put model (entry ((rt, v) # sel) f) (maps f)" for f
    using none g by (cases "f = g") (auto simp: entry_def put_def field_type_inj)
  ultimately show ?case using g field_of_type [of g] by simp
qed

lemma has_ratio_keys:
  "list_ex (\<lambda>rt. rt \<in> set RATIO_SYNC_FIELDS) (map fst sel) \<longleftrightarrow> has_ratio sel"
  "list_ex (\<lambda>rt. rt \<in> set (map fst sel)) RATIO_SYNC_FIELDS \<longleftrightarrow> has_ratio sel"
proof -
  have "set RATIO_SYNC_FIELDS = field_type ` set ratio_options"
    by (simp add: RATIO_SYNC_FIELDS_def ratio_options_def)
  then show "list_ex (\<lambda>rt. rt \<in> set RATIO_SYNC_FIELDS) (map fst sel) \<longleftrightarrow> has_ratio sel"
      "list_ex (\<lambda>rt. rt \<in> set (map fst sel)) RATIO_SYNC_FIELDS \<longleftrightarrow> has_ratio sel"
    by (auto simp: has_ratio_def list_ex_iff map_of_eq_None_iff image_iff) (metis fst_conv)+
qed

lemma sync_model_one:
  assumes "selection_wf sel"
  shows "sync_model model sel maps = Inr (sync_one model sel maps)"
proof -
  have keys: "fst ` set sel \<subseteq> range field_type"
  proof
    fix rt
    assume "rt \<in> fst ` set sel"
    then obtain v where "map_of sel rt = Some v" by (metis map_of_eq_None_iff not_None_eq)
    with assms show "rt \<in> range field_type" by (auto simp: selection_wf_def sync_fields)
  qed
  have "''model_price'' \<in> set (map fst sel) \<longleftrightarrow> has_price sel"
    by (auto simp: has_price_def map_of_eq_None_iff)
  then show ?thesis
    using assms write_fields_put [OF _ keys]
    by (simp add: sync_model_def has_ratio_keys Let_def selection_wf_def sync_one_def removed_def delete_model_def fun_eq_iff)
       (auto simp: ratio_options_def)
qed

definition sync_all :: "resolutions_map \<Rightarrow> pricing_maps \<Rightarrow> pricing_maps" where
  "sync_all res = fold (\<lambda>(model, sel). sync_one model sel) res"

lemma sync_models_all:
  "list_all (\<lambda>(model, sel). selection_wf sel) res \<Longrightarrow> sync_models res maps = Inr (sync_all res maps)"
  by (induction res maps rule: sync_models.induct) (simp_all add: sync_model_one sync_all_def)

lemma entry_wf: "selection_wf sel \<Longrightarrow> entry sel f = Some v \<Longrightarrow> json_wf v"
  by (auto simp: entry_def selection_wf_def)

lemma sync_one_update:
  assumes "selection_wf sel" "model \<in> N"
  shows "pricing_update (sync_one model sel) N"
proof -
  let ?op = "\<lambda>f kvs. put model (entry sel f) (if removed sel f then obj_delete kvs model else kvs)"
  have wf: "json_wf (JObj (if removed sel f then obj_delete kvs model else kvs))" if "json_wf (JObj kvs)" for f kvs
    using that obj_delete_wf [of kvs model] by (cases "removed sel f") (simp_all del: json_wf.simps)
  have "pricing_update (\<lambda>maps f. ?op f (maps f)) N"
  proof (rule fieldwise_update [of ?op])
    fix f kvs
    assume k: "json_wf (JObj kvs)"
    show "json_wf (JObj (?op f kvs))" using wf [OF k] entry_wf [OF assms(1)] by (rule put_wf)
    show "filter (\<lambda>kv. fst kv \<notin> N) (?op f kvs) = filter (\<lambda>kv. fst kv \<notin> N) kvs"
      using put_untouched [OF wf [OF k, of f] assms(2), of "entry sel f"] by (cases "removed sel f") (simp_all add: obj_delete_untouched [OF assms(2)])
  qed
  then show ?thesis by (simp add: sync_one_def [abs_def])
qed

lemma sync_all_update:
  "list_all (\<lambda>(model, sel). selection_wf sel) res \<Longrightarrow> fst ` set res \<subseteq> N \<Longrightarrow> pricing_update (sync_all res) N"
proof (induction res)
  case Nil
  show ?case by unfold_locales (simp_all add: sync_all_def)
next
  case (Cons r res)
  then have "pricing_update (sync_all res \<circ> sync_one (fst r) (snd r)) N"
    by (intro update_comp sync_one_update) (auto simp: case_prod_unfold)
  then show ?case by (simp add: sync_all_def comp_def case_prod_unfold)
qed

lemma put_lookup: "json_wf (JObj kvs) \<Longrightarrow> map_of (put model v kvs) n = (if n = model \<and> v \<noteq> None then v else map_of kvs n)"
  by (auto simp: put_def map_of_obj_assign obj_wf_def split: option.split)

lemma sync_one_lookup:
  assumes "maps_wf maps"
  shows "map_of (sync_one model sel maps f) n = (if n = model then synced_prices sel (\<lambda>f. map_of (maps f) model) f else map_of (maps f) n)"
proof -
  have "json_wf (JObj (maps f))" using assms unfolding maps_wf_def by blast
  then show ?thesis using obj_delete_wf [of "maps f" model] put_lookup
    by (auto simp: sync_one_def synced_prices_def map_of_obj_delete simp del: json_wf.simps split: option.split)
qed

lemma sync_all_lookup:
  "maps_wf maps \<Longrightarrow> list_all (\<lambda>(model, sel). selection_wf sel) res \<Longrightarrow> distinct (map fst res) \<Longrightarrow>
   map_of (sync_all res maps f) n =
     (case map_of res n of None \<Rightarrow> map_of (maps f) n | Some sel \<Rightarrow> synced_prices sel (\<lambda>f. map_of (maps f) n) f)"
proof (induction res arbitrary: maps)
  case (Cons r res)
  obtain model sel where r: "r = (model, sel)" by (cases r)
  have wf: "maps_wf (sync_one model sel maps)"
    using sync_one_update [of sel model "{model}"] Cons.prems r by (simp add: pricing_update_def)
  have "map_of res model = None" using Cons.prems(3) r by (simp add: map_of_eq_None_iff)
  then show ?case
    using Cons.IH [OF wf] Cons.prems r sync_one_lookup [OF Cons.prems(1), of model sel]
    by (auto simp: sync_all_def split: option.split)
qed (simp add: sync_all_def)

section \<open>Sending\<close>

abbreviation all_updates :: "pricing_texts \<Rightarrow> option_update list" where
  "all_updates g \<equiv> map (\<lambda>(key, f). (key, g f)) sync_options"

lemma option_lookup: "(key, f) \<in> set sync_options \<Longrightarrow> map_of sync_options key = Some f"
  using options_distinct(1) by simp

lemma send_either:
  "set opts \<subseteq> set sync_options \<Longrightarrow> snd (send_updates reply (map (\<lambda>(key, f). (key, g f)) opts) texts) f \<in> {texts f, g f}"
proof (induction opts arbitrary: texts)
  case (Cons o' opts)
  obtain key h where o': "o' = (key, h)" by (cases o')
  have k: "map_of sync_options key = Some h" using Cons.prems o' by (intro option_lookup) simp
  show ?case
  proof (cases "reply key")
    case Accepted
    have "snd (send_updates reply (map (\<lambda>(key, f). (key, g f)) opts) (texts(h := g h))) f \<in> {(texts(h := g h)) f, g f}"
      by (rule Cons.IH) (use Cons.prems in simp)
    with Accepted o' k show ?thesis by (cases "f = h") simp_all
  qed (use Cons.IH [of texts] Cons.prems o' in auto)
qed simp

lemma send_done: "fst (send_updates reply updates texts) \<longleftrightarrow> list_all (\<lambda>(key, _). reply key \<noteq> RequestFailed) updates"
  by (induction reply updates texts rule: send_updates.induct) (auto split: option_reply.split)

lemma send_accepted:
  "set opts \<subseteq> set sync_options \<Longrightarrow>
   send_updates (\<lambda>_. Accepted) (map (\<lambda>(key, f). (key, g f)) opts) texts = (True, \<lambda>f. if f \<in> snd ` set opts then g f else texts f)"
proof (induction opts arbitrary: texts)
  case (Cons o' opts)
  obtain key h where o': "o' = (key, h)" by (cases o')
  have k: "map_of sync_options key = Some h" using Cons.prems o' by (intro option_lookup) simp
  have "send_updates (\<lambda>_. Accepted) (map (\<lambda>(key, f). (key, g f)) opts) (texts(h := g h)) =
      (True, \<lambda>f. if f \<in> snd ` set opts then g f else (texts(h := g h)) f)"
    by (rule Cons.IH) (use Cons.prems in simp)
  then show ?case using o' k by (auto simp del: fun_upd_apply) (simp add: fun_eq_iff)
qed simp

lemma send_all: "send_updates (\<lambda>_. Accepted) (all_updates g) texts = (True, g)"
  using send_accepted [of sync_options g texts] options_distinct(2) by (simp add: fun_eq_iff)

lemma send_refused: "(\<And>key. reply key = Refused) \<Longrightarrow> send_updates reply updates texts = (True, texts)"
  by (induction reply updates texts rule: send_updates.induct) auto

section \<open>Synchronising\<close>

definition resolutions_wf :: "resolutions_map \<Rightarrow> bool" where
  "resolutions_wf res \<longleftrightarrow> distinct (map fst res) \<and> list_all (\<lambda>(model, sel). selection_wf sel) res"

lemma parsed_wf: "(\<And>f. parsedRatios texts f = JObj (maps f)) \<Longrightarrow> maps_wf maps"
proof -
  assume p: "\<And>f. parsedRatios texts f = JObj (maps f)"
  have "json_wf (parseJsonRecord raw)" for raw
    using json_parse_wf [of "if raw = [] then ''{}'' else raw"]
    by (auto simp: parseJsonRecord_def obj_wf_def obj_order_def split: option.split)
  then show ?thesis unfolding maps_wf_def by (metis p parsedRatios_def)
qed

lemma parsed_written:
  assumes "maps_wf maps"
  shows "parsedRatios (write_maps maps) f = JObj (maps f)"
proof -
  have "json_wf (JObj (maps f))" using assms unfolding maps_wf_def by blast
  then show ?thesis using pretty_obj_nonempty [of "maps f"]
    by (simp add: parsedRatios_def parseJsonRecord_def write_maps_def pretty.decode_encode del: json_wf.simps)
qed

lemma perform_all:
  assumes "resolutions_wf (rs_resolutions s)" "\<And>f. parsedRatios texts f = JObj (maps f)"
  shows "performSync (parsedRatios texts) s = Inr (all_updates (write_maps (sync_all (rs_resolutions s) maps)))"
  using assms by (simp add: performSync_def resolutions_wf_def sync_models_all write_maps_def)

text \<open>The table of prices after writing a selection.\<close>

definition sync_table :: "resolutions_map \<Rightarrow> (jsstring \<Rightarrow> pricing_field \<Rightarrow> json option) \<Rightarrow> jsstring \<Rightarrow> pricing_field \<Rightarrow> json option" where
  "sync_table res table model = (case map_of res model of None \<Rightarrow> table model | Some sel \<Rightarrow> synced_prices sel (table model))"

lemma all_table:
  assumes "resolutions_wf res" "maps_wf maps"
  shows "price_table (write_maps (sync_all res maps)) = sync_table res (\<lambda>model f. map_of (maps f) model)"
proof -
  have "maps_wf (sync_all res maps)"
    using sync_all_update [of res UNIV] assms by (simp add: pricing_update_def resolutions_wf_def)
  then show ?thesis using assms sync_all_lookup [of maps res]
    by (simp add: fun_eq_iff price_table_written sync_table_def resolutions_wf_def split: option.split)
qed

lemma synced_prices_idem: "synced_prices sel (synced_prices sel old) = synced_prices sel old"
  by (auto simp: fun_eq_iff synced_prices_def split: option.split)

text \<open>Some fields hold the old values and some the new ones.\<close>

lemma resumed_table:
  assumes "\<And>f. maps1 f = maps f \<or> maps1 f = sync_all res maps f" "resolutions_wf res" "maps_wf maps"
  shows "maps_wf maps1" "price_table (write_maps (sync_all res maps1)) = price_table (write_maps (sync_all res maps))"
proof -
  have u: "pricing_update (sync_all res) UNIV" using assms(2) by (intro sync_all_update) (simp_all add: resolutions_wf_def)
  then have m: "maps_wf (sync_all res maps)" using assms(3) by (simp add: pricing_update_def)
  show wf: "maps_wf maps1" using assms(1,3) m unfolding maps_wf_def by metis
  have l: "map_of (sync_all res maps f) n = sync_table res (\<lambda>model f. map_of (maps f) model) n f" for f n
    using sync_all_lookup [of maps res f n] assms(2,3) by (simp add: resolutions_wf_def sync_table_def split: option.split)
  have "sync_table res (\<lambda>model f. map_of (maps1 f) model) n f = sync_table res (\<lambda>model f. map_of (maps f) model) n f" for n f
  proof (cases "maps1 f = maps f")
    case True
    then show ?thesis by (simp add: sync_table_def synced_prices_def split: option.split)
  next
    case False
    then have "map_of (maps1 f) n = sync_table res (\<lambda>model f. map_of (maps f) model) n f" using assms(1) l by metis
    then show ?thesis by (auto simp: sync_table_def synced_prices_def split: option.split)
  qed
  then show "price_table (write_maps (sync_all res maps1)) = price_table (write_maps (sync_all res maps))"
    using all_table [OF assms(2) wf] all_table [OF assms(2,3)] by (simp add: fun_eq_iff)
qed

end
