(* ===== verification/RatioSyncSession.thy ===== *)
theory RatioSyncSession
  imports RatioSyncProofs
begin

text \<open>
  Sessions of the page that synchronises prices: the states it can reach, the selections in them, and the properties
  of applying a selection.
\<close>

section \<open>Cells and selections\<close>

text \<open>Differences as the service reports them: known fields, and values that can be written.\<close>

definition differences_ok :: "differences_map \<Rightarrow> bool" where
  "differences_ok d \<longleftrightarrow> distinct (map fst d) \<and>
     (\<forall>model md. map_of d model = Some md \<longrightarrow> distinct (map fst md) \<and> fst ` set md \<subseteq> set SYNC_FIELD_ORDER \<and>
        (\<forall>rt src v. upstream_value md rt src = Some v \<longrightarrow> isSelectableUpstreamValue (Some v) \<longrightarrow> json_wf (sync_value rt v)))"

definition cell :: "model_differences \<Rightarrow> jsstring \<Rightarrow> json \<Rightarrow> jsstring \<Rightarrow> bool" where
  "cell md rt v src \<longleftrightarrow> src \<noteq> [] \<and> getPreferredSyncField md rt src = rt \<and> upstream_value md rt src = Some v \<and>
     isSelectableUpstreamValue (Some v)"

definition offered :: "differences_map \<Rightarrow> jsstring \<Rightarrow> jsstring \<Rightarrow> json \<Rightarrow> bool" where
  "offered d model rt v \<longleftrightarrow>
     (\<exists>md src. map_of d model = Some md \<and> upstream_value md rt src = Some v \<and> isSelectableUpstreamValue (Some v))"

definition consistent :: "selection \<Rightarrow> bool" where
  "consistent sel \<longleftrightarrow> \<not> (has_price sel \<and> has_ratio sel) \<and>
     (map_of sel ''billing_expr'' \<noteq> None \<longrightarrow> map_of sel ''billing_mode'' \<noteq> None)"

definition selection_ok :: "differences_map \<Rightarrow> jsstring \<Rightarrow> selection \<Rightarrow> bool" where
  "selection_ok d model sel \<longleftrightarrow> distinct (map fst sel) \<and> sel \<noteq> [] \<and> consistent sel \<and>
     (\<forall>rt v. map_of sel rt = Some v \<longrightarrow> rt \<in> set SYNC_FIELD_ORDER \<and>
        (offered d model rt v \<or> rt = ''billing_mode'' \<and> v = JStr ''tiered_expr''))"

definition sync_ok :: "ratio_sync \<Rightarrow> bool" where
  "sync_ok s \<longleftrightarrow> differences_ok (rs_differences s) \<and> distinct (map fst (rs_resolutions s)) \<and>
     (\<forall>model sel. map_of (rs_resolutions s) model = Some sel \<longrightarrow> selection_ok (rs_differences s) model sel)"

lemma row_cells_iff:
  "(rt, v) \<in> set (row_cells flt src md) \<longleftrightarrow> rt \<in> set (getOrderedRatioTypes md flt) \<and>
     getPreferredSyncField md rt src = rt \<and> upstream_value md rt src = Some v \<and> isSelectableUpstreamValue (Some v)"
  by (auto simp: row_cells_def List.map_filter_def Let_def isSelectableUpstreamValue_def split: if_splits)

lemma row_cell: "src \<noteq> [] \<Longrightarrow> (rt, v) \<in> set (row_cells flt src md) \<Longrightarrow> cell md rt v src"
  by (simp add: row_cells_iff cell_def)

lemma cell_field:
  assumes "differences_ok d" "map_of d model = Some md" "upstream_value md rt src = Some v"
  shows "rt \<in> set SYNC_FIELD_ORDER"
proof -
  have "rt \<in> fst ` set md" using assms(3) by (auto simp: upstream_value_def split: option.splits dest: map_of_SomeD intro: rev_image_eqI)
  then show ?thesis using assms(1,2) unfolding differences_ok_def by blast
qed

lemma obj_assign_distinct: "distinct (map fst kvs) \<Longrightarrow> distinct (map fst (obj_assign kvs [(k, v)]))"
  by (simp add: obj_assign_def distinct_obj_order distinct_obj_set)

lemma obj_assign_nonempty: "obj_assign kvs [(k, v)] \<noteq> []"
proof -
  have "fst ` set (obj_assign kvs [(k, v)]) = insert k (fst ` set kvs)" by (simp add: obj_assign_def fst_obj_set)
  then show ?thesis by auto
qed

lemma obj_delete_distinct: "distinct (map fst kvs) \<Longrightarrow> distinct (map fst (obj_delete kvs k))"
  by (simp add: obj_delete_def distinct_map_filter)

definition conflicting :: "jsstring \<Rightarrow> jsstring \<Rightarrow> bool" where
  "conflicting rt k \<longleftrightarrow> getBillingCategory rt \<noteq> TieredBilling \<and> getBillingCategory k \<noteq> TieredBilling \<and>
     getBillingCategory k \<noteq> getBillingCategory rt"

lemma clear_lookup:
  "map_of (clear_conflicting (getBillingCategory rt) sel) k = (if conflicting rt k then None else map_of sel k)"
  using map_of_filter_key [of "\<lambda>k. \<not> conflicting rt k" sel k]
  by (simp add: clear_conflicting_def conflicting_def case_prod_unfold)

lemma clear_distinct: "distinct (map fst sel) \<Longrightarrow> distinct (map fst (clear_conflicting c sel))"
  by (simp add: clear_conflicting_def distinct_map_filter)

text \<open>The mode that goes with the expression of an instance.\<close>

definition paired_mode :: "model_differences \<Rightarrow> jsstring \<Rightarrow> json" where
  "paired_mode md src = (let m = upstream_value md ''billing_mode'' src
     in if isSelectableUpstreamValue m then the m else JStr ''tiered_expr'')"

definition chosen :: "model_differences \<Rightarrow> jsstring \<Rightarrow> jsstring \<Rightarrow> json \<Rightarrow> selection \<Rightarrow> jsstring \<Rightarrow> json option" where
  "chosen md src rt v sel k =
     (if k = rt then Some v
      else if k = ''billing_mode'' \<and> rt = ''billing_expr'' then Some (paired_mode md src)
      else if conflicting rt k then None else map_of sel k)"

lemma pair_mode:
  assumes "cell md ''billing_mode'' v src"
  shows "pair_tiered md src ''billing_mode'' sel = obj_assign sel [(''billing_mode'', v)]"
proof -
  have "\<not> isSelectableUpstreamValue (upstream_value md ''billing_expr'' src)"
    using assms by (auto simp: cell_def getPreferredSyncField_def isSelectableUpstreamValue_def Let_def split: if_splits)
  then show ?thesis using assms by (simp add: pair_tiered_def cell_def Let_def)
qed

lemma pair_expr:
  "cell md ''billing_expr'' v src \<Longrightarrow> pair_tiered md src ''billing_expr'' sel =
     obj_assign (obj_assign sel [(''billing_mode'', paired_mode md src)]) [(''billing_expr'', v)]"
  by (simp add: pair_tiered_def cell_def paired_mode_def Let_def)

lemma pair_lookup:
  assumes "cell md rt v src" "getBillingCategory rt = TieredBilling" "distinct (map fst sel)" "map_of sel rt = Some v"
  shows "map_of (pair_tiered md src rt sel) k =
      (if k = ''billing_mode'' \<and> rt = ''billing_expr'' then Some (paired_mode md src) else map_of sel k)"
    and "distinct (map fst (pair_tiered md src rt sel))"
proof -
  consider (mode) "rt = ''billing_mode''" | (expr) "rt = ''billing_expr''"
    using assms(2) by (auto simp: getBillingCategory_def split: if_splits)
  then have "map_of (pair_tiered md src rt sel) k =
      (if k = ''billing_mode'' \<and> rt = ''billing_expr'' then Some (paired_mode md src) else map_of sel k) \<and>
      distinct (map fst (pair_tiered md src rt sel))"
  proof cases
    case mode
    with assms show ?thesis by (simp add: pair_mode map_of_obj_assign obj_assign_distinct)
  next
    case expr
    with assms show ?thesis by (simp add: pair_expr map_of_obj_assign obj_assign_distinct)
  qed
  then show "map_of (pair_tiered md src rt sel) k =
      (if k = ''billing_mode'' \<and> rt = ''billing_expr'' then Some (paired_mode md src) else map_of sel k)"
    "distinct (map fst (pair_tiered md src rt sel))" by blast+
qed

lemma select_lookup:
  assumes "map_of d model = Some md" "cell md rt v src" "distinct (map fst res)"
    and sel: "sel = (case map_of res model of Some sel \<Rightarrow> sel | None \<Rightarrow> [])" "distinct (map fst sel)"
  obtains sel' where "map_of (select_value d model rt v src res) = (map_of res)(model \<mapsto> sel')"
    "distinct (map fst (select_value d model rt v src res))" "distinct (map fst sel')" "map_of sel' = chosen md src rt v sel"
proof -
  define s1 where "s1 = obj_assign (clear_conflicting (getBillingCategory rt) sel) [(rt, v)]"
  let ?s2 = "if getBillingCategory rt = TieredBilling then pair_tiered md src rt s1 else s1"
  have d1: "distinct (map fst s1)" unfolding s1_def using clear_distinct [OF sel(2)] by (rule obj_assign_distinct)
  have m1: "map_of s1 k = (if k = rt then Some v else if conflicting rt k then None else map_of sel k)" for k
    by (simp add: s1_def map_of_obj_assign [OF clear_distinct [OF sel(2)]] clear_lookup)
  have v: "select_value d model rt v src res = obj_assign res [(model, ?s2)]"
    using assms(1,2) sel(1) by (simp add: select_value_def Let_def cell_def s1_def)
  have r: "map_of s1 rt = Some v" by (simp add: m1)
  have m2: "map_of ?s2 = chosen md src rt v sel"
  proof (cases "getBillingCategory rt = TieredBilling")
    case True
    then show ?thesis by (auto simp: fun_eq_iff chosen_def m1 pair_lookup(1) [OF assms(2) True d1 r])
  next
    case False
    then have "rt \<noteq> ''billing_expr''" by (auto simp: getBillingCategory_def)
    with False m1 show ?thesis by (simp add: fun_eq_iff chosen_def)
  qed
  have d2: "distinct (map fst ?s2)" using pair_lookup(2) [OF assms(2) _ d1 r] d1 by (simp split: if_split)
  have "map_of (select_value d model rt v src res) = (map_of res)(model \<mapsto> ?s2)"
    "distinct (map fst (select_value d model rt v src res))"
    unfolding v by (rule map_of_obj_assign [OF assms(3)], rule obj_assign_distinct [OF assms(3)])
  then show thesis using d2 m2 by (rule that)
qed

section \<open>The invariant\<close>

lemma chosen_consistent:
  assumes "map_of sel' = chosen md src rt v sel" "consistent sel" "rt \<in> set SYNC_FIELD_ORDER"
  shows "consistent sel'"
proof -
  obtain f where f: "rt = field_type f" using assms(3) by (auto simp: sync_fields)
  have r: "g \<in> set ratio_options \<Longrightarrow> getBillingCategory (field_type g) = RatioBilling" for g
    by (auto simp: category_of_field ratio_options_def)
  have c: "getBillingCategory ''model_price'' = PriceBilling" "getBillingCategory ''billing_mode'' = TieredBilling"
    "getBillingCategory ''billing_expr'' = TieredBilling" by (simp_all add: getBillingCategory_def)
  have n: "g \<in> set ratio_options \<Longrightarrow> field_type g \<noteq> ''billing_mode'' \<and> field_type g \<noteq> ''model_price'' \<and> field_type g \<noteq> ''billing_expr''" for g
    using r [of g] c by auto
  have "map_of sel' ''billing_expr'' \<noteq> None \<longrightarrow> map_of sel' ''billing_mode'' \<noteq> None"
    using assms(1,2) c by (auto simp: chosen_def consistent_def conflicting_def)
  moreover have "\<not> (has_price sel' \<and> has_ratio sel')"
  proof (cases "getBillingCategory rt")
    case PriceBilling
    then have "chosen md src rt v sel (field_type g) = None" if "g \<in> set ratio_options" for g
      using r [OF that] n [OF that] by (auto simp: chosen_def conflicting_def)
    then show ?thesis by (auto simp: has_ratio_def assms(1))
  next
    case RatioBilling
    then show ?thesis using c by (auto simp: has_price_def assms(1) chosen_def conflicting_def)
  next
    case TieredBilling
    then have "chosen md src rt v sel k = map_of sel k" if "getBillingCategory k \<noteq> TieredBilling" for k
      using that c by (auto simp: chosen_def conflicting_def)
    then show ?thesis using assms(2) r c by (auto simp: has_price_def has_ratio_def assms(1) consistent_def)
  qed
  ultimately show ?thesis by (simp add: consistent_def)
qed

lemma select_ok:
  assumes s: "sync_ok s" and md: "map_of (rs_differences s) model = Some md" and c: "cell md rt v src"
  shows "sync_ok (handleSelectValue model rt v src s)"
proof -
  let ?d = "rs_differences s" and ?res = "rs_resolutions s"
  define sel where "sel = (case map_of ?res model of Some sel \<Rightarrow> sel | None \<Rightarrow> [])"
  have d: "differences_ok ?d" "distinct (map fst ?res)" using s by (simp_all add: sync_ok_def)
  have "map_of ?res model = Some sel \<or> sel = []" by (simp add: sel_def split: option.split)
  then have ok: "sel = [] \<or> selection_ok ?d model sel" using s unfolding sync_ok_def by blast
  have "consistent []" by (simp add: consistent_def has_price_def)
  then have old: "distinct (map fst sel)" "consistent sel"
    "\<And>k w. map_of sel k = Some w \<Longrightarrow> k \<in> set SYNC_FIELD_ORDER \<and> (offered ?d model k w \<or> k = ''billing_mode'' \<and> w = JStr ''tiered_expr'')"
    using ok unfolding selection_ok_def by fastforce+
  obtain sel' where r: "map_of (select_value ?d model rt v src ?res) = (map_of ?res)(model \<mapsto> sel')"
      "distinct (map fst (select_value ?d model rt v src ?res))" "distinct (map fst sel')" "map_of sel' = chosen md src rt v sel"
    using select_lookup [OF md c d(2) sel_def old(1)] .
  have rt: "rt \<in> set SYNC_FIELD_ORDER" using cell_field [OF d(1) md] c unfolding cell_def by blast
  have "k \<in> set SYNC_FIELD_ORDER \<and> (offered ?d model k w \<or> k = ''billing_mode'' \<and> w = JStr ''tiered_expr'')"
    if "map_of sel' k = Some w" for k w
  proof (cases "map_of sel k = Some w")
    case False
    with that consider "k = rt" "w = v" | "k = ''billing_mode''" "w = paired_mode md src"
      by (auto simp: r(4) chosen_def split: if_splits)
    then show ?thesis
    proof cases
      case 1
      then show ?thesis using rt c md by (auto simp: offered_def cell_def)
    next
      case 2
      then show ?thesis using md
        by (auto simp: offered_def paired_mode_def Let_def isSelectableUpstreamValue_def SYNC_FIELD_ORDER_def split: if_splits)
    qed
  qed (rule old(3))
  moreover have "sel' \<noteq> []"
  proof -
    have "map_of sel' rt = Some v" by (simp add: r(4) chosen_def)
    then show ?thesis by auto
  qed
  ultimately have "selection_ok ?d model sel'" using chosen_consistent [OF r(4) old(2) rt] r(3) by (simp add: selection_ok_def)
  then show ?thesis using s r(1,2) by (auto simp: sync_ok_def handleSelectValue_def)
qed

lemma delete_lookup:
  assumes "distinct (map fst res)"
  shows "distinct (map fst (deleteResolutionField res model rt))"
    and "map_of (deleteResolutionField res model rt) m = Some sel' \<Longrightarrow>
      map_of res m = Some sel' \<or> (m = model \<and> sel' \<noteq> [] \<and> (\<exists>sel. map_of res m = Some sel \<and> (\<exists>P. sel' = filter (\<lambda>kv. P (fst kv)) sel \<and>
        (P ''billing_expr'' \<longrightarrow> P ''billing_mode''))))"
proof -
  define P where "P = (\<lambda>k. k \<noteq> rt \<and> (rt = ''billing_expr'' \<longrightarrow> k \<noteq> ''billing_mode'') \<and> (rt = ''billing_mode'' \<longrightarrow> k \<noteq> ''billing_expr''))"
  have e: "deleteResolutionField res model rt = (case map_of res model of None \<Rightarrow> res | Some sel \<Rightarrow>
      (let sel' = filter (\<lambda>kv. P (fst kv)) sel in if sel' = [] then obj_delete res model else obj_assign res [(model, sel')]))"
    by (simp add: deleteResolutionField_def P_def obj_delete_def Let_def conj_commute split: option.split)
  show "distinct (map fst (deleteResolutionField res model rt))"
    using assms unfolding e by (simp add: Let_def obj_delete_distinct obj_assign_distinct split: option.split)
  assume m: "map_of (deleteResolutionField res model rt) m = Some sel'"
  show "map_of res m = Some sel' \<or> (m = model \<and> sel' \<noteq> [] \<and> (\<exists>sel. map_of res m = Some sel \<and> (\<exists>P. sel' = filter (\<lambda>kv. P (fst kv)) sel \<and>
        (P ''billing_expr'' \<longrightarrow> P ''billing_mode''))))"
  proof (cases "map_of res model")
    case (Some sel)
    then have "map_of res m = Some sel' \<or> m = model \<and> sel' \<noteq> [] \<and> sel' = filter (\<lambda>kv. P (fst kv)) sel"
      using m unfolding e by (auto simp: Let_def map_of_obj_delete map_of_obj_assign [OF assms] simp del: map_of_eq_Some_iff split: if_splits)
    moreover have "P ''billing_expr'' \<longrightarrow> P ''billing_mode''" by (auto simp: P_def)
    ultimately show ?thesis using Some by blast
  next
    case None
    then have "deleteResolutionField res model rt = res" using e by simp
    then show ?thesis using m by simp
  qed
qed

lemma filter_ok:
  assumes "selection_ok d model sel" "filter (\<lambda>kv. P (fst kv)) sel \<noteq> []" "P ''billing_expr'' \<longrightarrow> P ''billing_mode''"
  shows "selection_ok d model (filter (\<lambda>kv. P (fst kv)) sel)"
proof -
  have l: "map_of (filter (\<lambda>kv. P (fst kv)) sel) k = (if P k then map_of sel k else None)" for k by (rule map_of_filter_key)
  have "consistent (filter (\<lambda>kv. P (fst kv)) sel)"
    using assms(1,3) by (auto simp: selection_ok_def consistent_def has_price_def has_ratio_def l split: if_splits)
  then show ?thesis using assms(1,2) by (auto simp: selection_ok_def l distinct_map_filter split: if_splits)
qed

lemma unselect_ok:
  assumes "sync_ok s"
  shows "sync_ok (handleUnselectValue model rt s)"
proof -
  let ?res = "rs_resolutions s"
  have d: "distinct (map fst ?res)" using assms by (simp add: sync_ok_def)
  have ok: "map_of ?res m = Some sel \<Longrightarrow> selection_ok (rs_differences s) m sel" for m sel
    using assms unfolding sync_ok_def by blast
  have "selection_ok (rs_differences s) m sel'" if "map_of (deleteResolutionField ?res model rt) m = Some sel'" for m sel'
    using delete_lookup(2) [OF d that] ok filter_ok by blast
  then show ?thesis using assms delete_lookup(1) [OF d] by (simp add: sync_ok_def handleUnselectValue_def)
qed

section \<open>Differences after a synchronisation\<close>

definition rest :: "jsstring set \<Rightarrow> model_differences \<Rightarrow> model_differences option" where
  "rest keys md = (if md \<noteq> [] \<and> fst ` set md \<subseteq> keys then None else Some (filter (\<lambda>kv. fst kv \<notin> keys) md))"

lemma drop_lookup:
  assumes "distinct (map fst d)"
  shows "map_of (drop_difference model rt d) = (map_of d)(model := Option.bind (map_of d model) (rest {rt}))"
    and "distinct (map fst (drop_difference model rt d))"
proof -
  have n: "obj_delete md rt = [] \<longleftrightarrow> fst ` set md \<subseteq> {rt}" for md :: model_differences
    by (auto simp: obj_delete_def filter_empty_conv)
  have q: "filter (\<lambda>kv. fst kv \<noteq> rt) md = obj_delete md rt" for md :: model_differences by (simp add: obj_delete_def)
  have k: "map_of md rt = None \<Longrightarrow> rest {rt} md = Some md" for md
    by (cases md) (force simp: rest_def map_of_eq_None_iff filter_id_conv)+
  show "map_of (drop_difference model rt d) = (map_of d)(model := Option.bind (map_of d model) (rest {rt}))"
  proof (cases "map_of d model")
    case (Some md)
    then show ?thesis
      using n [of md] k [of md]
      by (cases "map_of md rt") (auto simp: drop_difference_def Let_def rest_def q map_of_obj_delete map_of_obj_set fun_upd_idem
        simp del: map_of_eq_Some_iff)
  qed (simp add: drop_difference_def fun_upd_idem)
  show "distinct (map fst (drop_difference model rt d))"
    using assms by (simp add: drop_difference_def Let_def obj_delete_distinct distinct_obj_set split: option.split)
qed

lemma rest_rest: "Option.bind (rest A md) (rest B) = rest (A \<union> B) md"
  by (auto simp: rest_def filter_empty_conv intro: filter_cong)

lemma drop_model:
  "distinct (map fst d) \<Longrightarrow>
   map_of (fold (drop_difference model) keys d) = (map_of d)(model := Option.bind (map_of d model) (rest (set keys))) \<and>
   distinct (map fst (fold (drop_difference model) keys d))"
proof (induction keys arbitrary: d)
  case Nil
  have "Option.bind (map_of d model) (rest {}) = map_of d model" by (cases "map_of d model") (auto simp: rest_def)
  with Nil show ?case by (simp add: fun_upd_idem)
next
  case (Cons k keys)
  note l = drop_lookup [OF Cons.prems, of model k]
  have "Option.bind (Option.bind (map_of d model) (rest {k})) (rest (set keys)) = Option.bind (map_of d model) (rest (set (k # keys)))"
    by (simp add: rest_rest)
  with Cons.IH [OF l(2)] l(1) show ?case by (simp add: fun_eq_iff)
qed

text \<open>What is left of the differences: the fields that were not selected, and no model without any.\<close>

lemma drop_resolved_lookup:
  "distinct (map fst d) \<Longrightarrow> distinct (map fst res) \<Longrightarrow>
   map_of (drop_resolved res d) model =
     (case map_of res model of None \<Rightarrow> map_of d model | Some sel \<Rightarrow> Option.bind (map_of d model) (rest (fst ` set sel))) \<and>
   distinct (map fst (drop_resolved res d))"
proof (induction res arbitrary: d)
  case (Cons r res)
  obtain m sel where r: "r = (m, sel)" by (cases r)
  note l = drop_model [OF Cons.prems(1), of m "map fst sel"]
  have "map_of res m = None" using Cons.prems(2) r by (simp add: map_of_eq_None_iff)
  moreover have "drop_resolved (r # res) d = drop_resolved res (fold (drop_difference m) (map fst sel) d)"
    by (simp add: drop_resolved_def r)
  moreover have "map_of (fold (drop_difference m) (map fst sel) d) x =
      (if x = m then Option.bind (map_of d m) (rest (fst ` set sel)) else map_of d x)" for x using l by simp
  ultimately show ?case using Cons.IH [of "fold (drop_difference m) (map fst sel) d"] Cons.prems(2) l r
    by (cases "model = m") (simp_all split: option.split)
qed (simp add: drop_resolved_def)

lemma rest_ok:
  assumes "rest keys md = Some md'"
  shows "distinct (map fst md) \<Longrightarrow> distinct (map fst md')" "fst ` set md' \<subseteq> fst ` set md"
    "upstream_value md' rt src = Some v \<Longrightarrow> upstream_value md rt src = Some v"
proof -
  have m: "md' = filter (\<lambda>kv. fst kv \<notin> keys) md" using assms by (simp add: rest_def split: if_splits)
  show "distinct (map fst md) \<Longrightarrow> distinct (map fst md')" "fst ` set md' \<subseteq> fst ` set md"
    by (auto simp: m distinct_map_filter)
  show "upstream_value md' rt src = Some v \<Longrightarrow> upstream_value md rt src = Some v"
    using map_of_filter_key [of "\<lambda>k. k \<notin> keys" md rt] by (auto simp: m upstream_value_def split: if_splits option.splits)
qed

lemma success_ok:
  assumes "sync_ok s"
  shows "sync_ok (sync_onSuccess s)"
proof -
  let ?d = "rs_differences s" and ?res = "rs_resolutions s"
  have a: "differences_ok ?d" "distinct (map fst ?d)" "distinct (map fst ?res)"
    using assms by (simp_all add: sync_ok_def differences_ok_def)
  have "distinct (map fst md') \<and> fst ` set md' \<subseteq> set SYNC_FIELD_ORDER \<and>
      (\<forall>rt src v. upstream_value md' rt src = Some v \<longrightarrow> isSelectableUpstreamValue (Some v) \<longrightarrow> json_wf (sync_value rt v))"
    if "map_of (drop_resolved ?res ?d) model = Some md'" for model md'
  proof -
    have "map_of ?d model = Some md' \<or> (\<exists>keys. Option.bind (map_of ?d model) (rest keys) = Some md')"
      using that drop_resolved_lookup [OF a(2,3), of model] by (cases "map_of ?res model") auto
    then obtain md where md: "map_of ?d model = Some md" "md = md' \<or> (\<exists>keys. rest keys md = Some md')"
      by (cases "map_of ?d model") auto
    have p: "distinct (map fst md)" "fst ` set md \<subseteq> set SYNC_FIELD_ORDER"
      "\<And>rt src v. upstream_value md rt src = Some v \<Longrightarrow> isSelectableUpstreamValue (Some v) \<Longrightarrow> json_wf (sync_value rt v)"
      using a(1) md(1) unfolding differences_ok_def by blast+
    from md(2) show ?thesis
    proof
      assume "\<exists>keys. rest keys md = Some md'"
      then obtain keys where "rest keys md = Some md'" ..
      note q = rest_ok [OF this]
      have "distinct (map fst md')" by (rule q(1) [OF p(1)])
      moreover have "fst ` set md' \<subseteq> set SYNC_FIELD_ORDER" using q(2) p(2) by (rule order_trans)
      moreover have "json_wf (sync_value rt v)"
        if "upstream_value md' rt src = Some v" "isSelectableUpstreamValue (Some v)" for rt src v
        by (rule p(3) [OF q(3) [OF that(1)] that(2)])
      ultimately show ?thesis by blast
    qed (use p in blast)
  qed
  then have "differences_ok (drop_resolved ?res ?d)"
    using drop_resolved_lookup [OF a(2,3)] unfolding differences_ok_def by blast
  then show ?thesis by (simp add: sync_ok_def sync_onSuccess_def)
qed

section \<open>Sessions\<close>

text \<open>The actions of a session. A cell is selected in a row of the table and in the column of an instance with a
  name; every handler that only opens a dialog or edits an endpoint keeps differences and resolutions.\<close>

inductive sync_step :: "ratio_sync \<Rightarrow> ratio_sync \<Rightarrow> bool" where
  fetched: "differences_ok d \<Longrightarrow> sync_step s (fetch_onSuccess success d s)"
| select: "row \<in> set (sync_dataSource (rs_differences s)) \<Longrightarrow> src \<noteq> [] \<Longrightarrow> (rt, v) \<in> set (row_cells flt src (sr_ratioTypes row)) \<Longrightarrow>
    sync_step s (handleSelectValue (sr_model row) rt v src s)"
| unselect: "sync_step s (handleUnselectValue model rt s)"
| bulk_select: "set rows \<subseteq> set (sync_dataSource (rs_differences s)) \<Longrightarrow> src \<noteq> [] \<Longrightarrow> sync_step s (handleBulkSelect flt src rows s)"
| bulk_unselect: "sync_step s (handleBulkUnselect flt src rows s)"
| apply_sync: "handleApplySync t texts s = Inr (s', updates) \<Longrightarrow> sync_step s s'"
| mutate: "sync_step s (fst (syncMutate reply updates s texts))"
| confirm: "handleConfirmConflict reply modelRatios s texts = Inr (s', texts') \<Longrightarrow> sync_step s s'"
| open_channels: "sync_step s (handleOpenChannelDialog s)"
| confirm_channels: "sync_step s (fst (selector_handleConfirm channels ids s))"
| endpoints: "sync_step s (s\<lparr>rs_channelEndpoints := e\<rparr>)"

inductive sync_reachable :: "ratio_sync \<Rightarrow> bool" where
  start: "sync_reachable sync_initial"
| step: "sync_reachable s \<Longrightarrow> sync_step s s' \<Longrightarrow> sync_reachable s'"

lemma data_row: "distinct (map fst d) \<Longrightarrow> row \<in> set (sync_dataSource d) \<Longrightarrow> map_of d (sr_model row) = Some (sr_ratioTypes row)"
  by (auto simp: sync_dataSource_def)

lemma select_same_differences: "rs_differences (handleSelectValue model rt v src s) = rs_differences s"
  by (simp add: handleSelectValue_def)

lemma cells_ok:
  assumes "map_of (rs_differences s) model = Some md" "list_all (\<lambda>(rt, v). cell md rt v src) cells" "sync_ok s"
  shows "sync_ok (fold (\<lambda>(rt, v). handleSelectValue model rt v src) cells s) \<and>
    rs_differences (fold (\<lambda>(rt, v). handleSelectValue model rt v src) cells s) = rs_differences s"
  using assms
proof (induction cells arbitrary: s)
  case (Cons c cells)
  obtain rt v where c: "c = (rt, v)" by (cases c)
  have "sync_ok (handleSelectValue model rt v src s)" using Cons.prems c by (intro select_ok [of s model md]) simp_all
  then show ?case using Cons.IH [of "handleSelectValue model rt v src s"] Cons.prems c by (simp add: select_same_differences)
qed simp

lemma bulk_ok:
  assumes "set rows \<subseteq> set (sync_dataSource (rs_differences s))" "src \<noteq> []" "sync_ok s"
  shows "sync_ok (handleBulkSelect flt src rows s) \<and> rs_differences (handleBulkSelect flt src rows s) = rs_differences s"
  using assms
proof (induction rows arbitrary: s)
  case (Cons row rows)
  have m: "map_of (rs_differences s) (sr_model row) = Some (sr_ratioTypes row)"
    using Cons.prems by (intro data_row) (auto simp: sync_ok_def differences_ok_def)
  have "list_all (\<lambda>(rt, v). cell (sr_ratioTypes row) rt v src) (row_cells flt src (sr_ratioTypes row))"
    using row_cell [OF Cons.prems(2)] by (auto simp: list_all_iff)
  then have "sync_ok (bulk_row flt src row s) \<and> rs_differences (bulk_row flt src row s) = rs_differences s"
    unfolding bulk_row_def using m Cons.prems(3) by (intro cells_ok)
  then show ?case using Cons.IH [of "bulk_row flt src row s"] Cons.prems by (simp add: handleBulkSelect_def)
qed (simp add: handleBulkSelect_def)

lemma fold_ok: "(\<And>x s. sync_ok s \<Longrightarrow> sync_ok (f x s)) \<Longrightarrow> sync_ok s \<Longrightarrow> sync_ok (fold f xs s)"
  by (induction xs arbitrary: s) simp_all

lemma bulk_unselect_ok: "sync_ok s \<Longrightarrow> sync_ok (handleBulkUnselect flt src rows s)"
  unfolding handleBulkUnselect_def by (intro fold_ok) (simp_all add: unselect_ok)

lemma sync_step_ok: "sync_step s s' \<Longrightarrow> sync_ok s \<Longrightarrow> sync_ok s'"
proof (induction rule: sync_step.induct)
  case (select row s src rt v flt)
  then have "distinct (map fst (rs_differences s))" by (simp add: sync_ok_def differences_ok_def)
  with select show ?case by (intro select_ok [OF _ data_row]) (auto intro: row_cell)
next
  case (bulk_select rows s src flt)
  then show ?case using bulk_ok by blast
next
  case (mutate s reply updates texts)
  then show ?case by (simp add: syncMutate_def success_ok case_prod_unfold Let_def)
next
  case (confirm reply modelRatios s texts s' texts')
  then have "s' = (sync_onSuccess s)\<lparr>rs_conflictDialogOpen := False\<rparr> \<or> s' = s"
    by (auto simp: handleConfirmConflict_def Let_def case_prod_unfold split: sum.splits if_splits)
  with confirm success_ok [OF confirm(2)] show ?case by (auto simp: sync_ok_def)
next
  case (apply_sync t texts s s' updates)
  then have "rs_differences s' = rs_differences s \<and> rs_resolutions s' = rs_resolutions s"
    by (auto simp: handleApplySync_def split: sum.splits if_splits)
  with apply_sync show ?case by (simp add: sync_ok_def)
qed (simp_all add: unselect_ok bulk_unselect_ok, simp_all add: sync_ok_def fetch_onSuccess_def handleOpenChannelDialog_def selector_handleConfirm_def)

lemma sync_reachable_ok: "sync_reachable s \<Longrightarrow> sync_ok s"
proof (induction rule: sync_reachable.induct)
  case start
  show ?case by (simp add: sync_ok_def sync_initial_def differences_ok_def)
qed (rule sync_step_ok)

lemma ok_resolutions:
  assumes "sync_ok s"
  shows "resolutions_wf (rs_resolutions s)"
proof -
  have d: "differences_ok (rs_differences s)" "distinct (map fst (rs_resolutions s))" using assms by (simp_all add: sync_ok_def)
  have "selection_wf sel" if "(model, sel) \<in> set (rs_resolutions s)" for model sel
  proof -
    have ok: "selection_ok (rs_differences s) model sel" using assms that d(2) unfolding sync_ok_def by simp
    have "json_wf (sync_value rt v)" if v: "map_of sel rt = Some v" for rt v
    proof -
      consider "offered (rs_differences s) model rt v" | "rt = ''billing_mode''" "v = JStr ''tiered_expr''"
        using ok v unfolding selection_ok_def by blast
      then show ?thesis
      proof cases
        case 1
        then show ?thesis using d(1) unfolding offered_def differences_ok_def by blast
      next
        case 2
        then show ?thesis by (simp add: sync_value_def NUMERIC_SYNC_FIELDS_def RATIO_SYNC_FIELDS_def)
      qed
    qed
    then show ?thesis using ok unfolding selection_wf_def selection_ok_def by blast
  qed
  then show ?thesis using d(2) by (auto simp: resolutions_wf_def list_all_iff)
qed

lemma reachable_resolutions: "sync_reachable s \<Longrightarrow> resolutions_wf (rs_resolutions s)"
  by (rule ok_resolutions [OF sync_reachable_ok])

lemma resolved_gone:
  assumes "sync_ok s" "map_of (rs_resolutions s) model = Some sel" "map_of sel rt \<noteq> None"
    "map_of (rs_differences (sync_onSuccess s)) model = Some md"
  shows "map_of md rt = None"
proof -
  have "distinct (map fst (rs_differences s))" "distinct (map fst (rs_resolutions s))"
    using assms(1) by (simp_all add: sync_ok_def differences_ok_def)
  from drop_resolved_lookup [OF this, of model] assms(2,4)
  obtain md0 where "rest (fst ` set sel) md0 = Some md" by (cases "map_of (rs_differences s) model") (auto simp: sync_onSuccess_def)
  then have "md = filter (\<lambda>kv. fst kv \<notin> fst ` set sel) md0" by (simp add: rest_def split: if_splits)
  moreover have "rt \<in> fst ` set sel" using assms(3) by (simp add: map_of_eq_None_iff)
  ultimately show ?thesis using map_of_filter_key [of "\<lambda>k. k \<notin> fst ` set sel" md0 rt] by simp
qed

section \<open>Conflicts\<close>

definition local_ratio :: "pricing_maps \<Rightarrow> jsstring \<Rightarrow> bool" where
  "local_ratio maps model \<longleftrightarrow> (\<exists>f \<in> set ratio_options. map_of (maps f) model \<noteq> None)"

text \<open>Whether a selection switches a model between a price per request and ratios.\<close>

definition switches :: "pricing_maps \<Rightarrow> jsstring \<Rightarrow> selection \<Rightarrow> bool" where
  "switches maps model sel \<longleftrightarrow>
     has_price sel \<and> map_of (maps ModelPrice) model = None \<and> local_ratio maps model \<or>
     has_ratio sel \<and> map_of (maps ModelPrice) model \<noteq> None"

lemma record_get_obj: "record_get (JObj m) name = Inr (map_of m name)"
  by (simp add: record_get_def)

lemma any_defined_objs: "any_defined (map (\<lambda>f. JObj (maps f)) fs) name = Inr (\<exists>f \<in> set fs. map_of (maps f) name \<noteq> None)"
  by (induction fs) (auto simp: record_get_obj split: option.split)

lemma local_category:
  assumes "\<And>f. cur f = JObj (maps f)"
  shows "getLocalBillingCategory model cur = Inr (if map_of (maps ModelPrice) model \<noteq> None then Some PriceBilling
    else if local_ratio maps model then Some RatioBilling else None)"
proof -
  have "cur = (\<lambda>f. JObj (maps f))" using assms by blast
  then show ?thesis
    by (simp add: getLocalBillingCategory_def record_get_obj local_ratio_def any_defined_objs split: option.split)
qed

lemma new_category:
  "newBillingCategory sel = (if has_price sel then PriceBilling else if has_ratio sel then RatioBilling else TieredBilling)"
  unfolding newBillingCategory_def has_ratio_keys(2) has_price_def by (rule refl)

lemma conflict_single:
  assumes "\<And>f. cur f = JObj (maps f)" "consistent sel"
  obtains items where "conflict_of t cur d (model, sel) = Inr items" "map ci_model items = (if switches maps model sel then [model] else [])"
proof -
  have desc: "\<exists>text. current_desc t c model cur = Inr text" for c by (simp add: current_desc_def assms(1) record_get_obj)
  have "\<exists>items. conflict_of t cur d (model, sel) = Inr items \<and> map ci_model items = (if switches maps model sel then [model] else [])"
    using assms(2) desc [of PriceBilling] desc [of RatioBilling]
    by (auto simp: conflict_of_def local_category [OF assms(1)] new_category switches_def consistent_def Let_def)
  then show thesis using that by blast
qed

lemma conflict_items:
  assumes "\<And>f. cur f = JObj (maps f)" "list_all (\<lambda>(model, sel). consistent sel) res"
  shows "\<exists>items. all_results (map (conflict_of t cur d) res) = Inr items \<and>
    map ci_model (concat items) = map fst (filter (\<lambda>(model, sel). switches maps model sel) res)"
  using assms(2)
proof (induction res)
  case (Cons r res)
  obtain model sel where r: "r = (model, sel)" by (cases r)
  obtain i where i: "conflict_of t cur d (model, sel) = Inr i" "map ci_model i = (if switches maps model sel then [model] else [])"
    by (rule conflict_single [OF assms(1), of sel]) (use Cons.prems r in simp_all)
  obtain items where "all_results (map (conflict_of t cur d) res) = Inr items"
      "map ci_model (concat items) = map fst (filter (\<lambda>(model, sel). switches maps model sel) res)" using Cons by auto
  with i r show ?case by simp
qed simp

section \<open>Instances\<close>

definition price_difference :: "jsstring \<Rightarrow> json \<Rightarrow> differences_map" where
  "price_difference model v = [(model, [(''model_price'', \<lparr>rd_current = JNull, rd_upstreams = [(''up'', v)], rd_confidence = []\<rparr>)])]"

definition price_selected :: "jsstring \<Rightarrow> json \<Rightarrow> ratio_sync" where
  "price_selected model v = handleSelectValue model ''model_price'' v ''up'' (fetch_onSuccess True (price_difference model v) sync_initial)"

lemma price_difference_ok:
  assumes "v \<noteq> JNull" "v \<noteq> JStr ''same''" "json_wf (JNum (js_number (Some v)))"
  shows "differences_ok (price_difference model v)"
  using assms
  by (auto simp: differences_ok_def price_difference_def upstream_value_def SYNC_FIELD_ORDER_def sync_value_def
      NUMERIC_SYNC_FIELDS_def split: if_splits)

lemma price_selected_reachable:
  assumes "v \<noteq> JNull" "v \<noteq> JStr ''same''" "json_wf (JNum (js_number (Some v)))"
  shows "sync_reachable (price_selected model v)"
proof -
  let ?s = "fetch_onSuccess True (price_difference model v) sync_initial"
  let ?row = "\<lparr>sr_model = model, sr_ratioTypes = snd (hd (price_difference model v)), sr_billingConflict = False\<rparr>"
  have "sync_reachable ?s" using start price_difference_ok [OF assms] by (blast intro: step fetched)
  moreover have "?row \<in> set (sync_dataSource (rs_differences ?s))"
    by (simp add: fetch_onSuccess_def sync_dataSource_def price_difference_def RATIO_SYNC_FIELDS_def)
  moreover have "(''model_price'', v) \<in> set (row_cells [] ''up'' (sr_ratioTypes ?row))"
    using assms(1,2) by (simp add: row_cells_iff price_difference_def getOrderedRatioTypes_def SYNC_FIELD_ORDER_def
        getPreferredSyncField_def upstream_value_def isSelectableUpstreamValue_def Let_def)
  ultimately show ?thesis unfolding price_selected_def
    using select [of ?row ?s "''up''" "''model_price''" v "[]"] by (auto intro: step)
qed

lemma price_selected_fields:
  "rs_resolutions (price_selected model v) = [(model, [(''model_price'', v)])]"
  "rs_differences (price_selected model v) = price_difference model v"
proof -
  have 1: "obj_assign [] [(k, w)] = [(k, w)]" for k :: jsstring and w :: 'a
    by (simp add: obj_assign_def obj_order_def)
  show "rs_resolutions (price_selected model v) = [(model, [(''model_price'', v)])]"
    by (simp add: price_selected_def handleSelectValue_def fetch_onSuccess_def sync_initial_def select_value_def price_difference_def
        getPreferredSyncField_def upstream_value_def getBillingCategory_def clear_conflicting_def Let_def 1)
  show "rs_differences (price_selected model v) = price_difference model v"
    by (simp add: price_selected_def handleSelectValue_def fetch_onSuccess_def)
qed

lemma sample_parsed: "parsedRatios (write_maps sample_maps) f = JObj (sample_maps f)"
  by (rule parsed_written [OF sample_wf])

section \<open>Properties\<close>

text \<open>
  C18: Whatever is clicked, the selection of a model is consistent: it never has a price per request together with
  a ratio, it has a mode whenever it has an expression, and every selected value is one that an instance offers
  for that field, except the mode \<open>tiered_expr\<close> that the page adds to an expression. The service
  reports differences of known price fields, with numbers for the numeric ones (\<open>differences_ok\<close>), and the instances have names.
\<close>

theorem selections_consistent:
  assumes "sync_reachable s" "map_of (rs_resolutions s) model = Some sel"
  shows "\<not> (has_price sel \<and> has_ratio sel) \<and>
    (map_of sel ''billing_expr'' \<noteq> None \<longrightarrow> map_of sel ''billing_mode'' \<noteq> None) \<and>
    (\<forall>rt v. map_of sel rt = Some v \<longrightarrow> offered (rs_differences s) model rt v \<or> rt = ''billing_mode'' \<and> v = JStr ''tiered_expr'')"
proof -
  have "selection_ok (rs_differences s) model sel" using sync_reachable_ok [OF assms(1)] assms(2) unfolding sync_ok_def by blast
  then show ?thesis unfolding selection_ok_def consistent_def by blast
qed

theorem selections_consistent_witness:
  "sync_reachable (price_selected ''b'' (JNum (JDec 3 0))) \<and> offered (price_difference ''b'' (JNum (JDec 3 0))) ''b'' ''model_price'' (JNum (JDec 3 0))"
proof -
  have r: "sync_reachable (price_selected ''b'' (JNum (JDec 3 0)))" by (rule price_selected_reachable) simp_all
  moreover have "map_of (rs_resolutions (price_selected ''b'' (JNum (JDec 3 0)))) ''b'' = Some [(''model_price'', JNum (JDec 3 0))]"
    by (simp add: price_selected_fields)
  from selections_consistent [OF r this] have "offered (price_difference ''b'' (JNum (JDec 3 0))) ''b'' ''model_price'' (JNum (JDec 3 0))"
    by (auto simp: price_selected_fields dest!: spec [of _ "''model_price''"])
  ultimately show ?thesis ..
qed

text \<open>
  C5: Applying a selection is an update of the table of prices. When the ten texts are JSON objects and the
  service accepts what it is sent, the new texts give every selected model the selected values, without its
  ratios when a price per request is selected and without its price when a ratio is selected, keep all its
  other values and all other models, and the rows of the other models stay the same and in the same order.
\<close>

theorem sync_refines_update:
  assumes "sync_reachable s" "\<forall>f. parsedRatios texts f = JObj (maps f)"
  shows "\<exists>updates texts'. performSync (parsedRatios texts) s = Inr updates \<and>
    syncMutate (\<lambda>_. Accepted) updates s texts = (sync_onSuccess s, texts') \<and>
    price_table texts' = sync_table (rs_resolutions s) (\<lambda>model f. map_of (maps f) model) \<and>
    (\<forall>rows rows'. snapshots_of maps = Inr rows \<longrightarrow> buildModelSnapshots texts' = Inr rows' \<longrightarrow>
       filter (\<lambda>r. map_of (rs_resolutions s) (sn_name r) = None) rows' = filter (\<lambda>r. map_of (rs_resolutions s) (sn_name r) = None) rows)"
proof -
  let ?res = "rs_resolutions s"
  have res: "resolutions_wf ?res" by (rule reachable_resolutions [OF assms(1)])
  have wf: "maps_wf maps" using parsed_wf [of texts maps] assms(2) by blast
  let ?m = "sync_all ?res maps"
  have u: "pricing_update (sync_all ?res) (fst ` set ?res)" using res by (intro sync_all_update) (simp_all add: resolutions_wf_def)
  have none: "map_of ?res n = None \<longleftrightarrow> n \<notin> fst ` set ?res" for n by (simp add: map_of_eq_None_iff)
  have "filter (\<lambda>r. map_of ?res (sn_name r) = None) rows' = filter (\<lambda>r. map_of ?res (sn_name r) = None) rows"
    if rows: "snapshots_of maps = Inr rows" and built: "buildModelSnapshots (write_maps ?m) = Inr rows'" for rows rows'
  proof -
    have "snapshots_of ?m = Inr rows'" using built pricing_update.update_wf [OF u wf] by (simp add: build_written)
    then have ok: "\<not> isl (snapshot_of ?m n)" if "n \<in> set (model_names ?m)" for n using that by (simp add: snapshots_of_rows)
    obtain rows'' where "buildModelSnapshots (write_maps ?m) = Inr rows''"
        "filter (\<lambda>r. sn_name r \<notin> fst ` set ?res) rows'' = filter (\<lambda>r. sn_name r \<notin> fst ` set ?res) rows"
      using pricing_update.rows_kept [OF u wf rows] ok by blast
    with built show ?thesis by (simp add: none)
  qed
  moreover have "syncMutate (\<lambda>_. Accepted) (all_updates (write_maps ?m)) s texts = (sync_onSuccess s, write_maps ?m)"
    by (simp only: syncMutate_def send_all Let_def prod.case if_True)
  moreover have "performSync (parsedRatios texts) s = Inr (all_updates (write_maps ?m))" using res assms(2) by (intro perform_all) simp_all
  ultimately show ?thesis using all_table [OF res wf] by blast
qed

theorem sync_refines_update_witness:
  "\<exists>updates texts'. performSync (parsedRatios (write_maps sample_maps)) (price_selected ''b'' (JNum (JDec 3 0))) = Inr updates \<and>
    price_table texts' ''b'' ModelPrice = Some (JNum (JDec 3 0)) \<and> price_table texts' ''b'' ModelRatio = None \<and>
    price_table texts' ''a'' ModelPrice = Some (JNum (JDec 1 0)) \<and>
    snd (syncMutate (\<lambda>_. Accepted) updates (price_selected ''b'' (JNum (JDec 3 0))) (write_maps sample_maps)) = texts'"
proof -
  let ?s = "price_selected ''b'' (JNum (JDec 3 0))"
  have r: "sync_reachable ?s" by (rule price_selected_reachable) simp_all
  obtain updates texts' where u: "performSync (parsedRatios (write_maps sample_maps)) ?s = Inr updates"
      "syncMutate (\<lambda>_. Accepted) updates ?s (write_maps sample_maps) = (sync_onSuccess ?s, texts')"
      "price_table texts' = sync_table (rs_resolutions ?s) (\<lambda>model f. map_of (sample_maps f) model)"
    using sync_refines_update [OF r, of "write_maps sample_maps" sample_maps] sample_parsed by blast
  then have "price_table texts' ''b'' ModelPrice = Some (JNum (JDec 3 0))" "price_table texts' ''b'' ModelRatio = None"
      "price_table texts' ''a'' ModelPrice = Some (JNum (JDec 1 0))"
    by (simp_all add: price_selected_fields sync_table_def synced_prices_def entry_def removed_def has_price_def ratio_options_def
        sync_value_def NUMERIC_SYNC_FIELDS_def sample_maps_def)
  with u show ?thesis by auto
qed

text \<open>
  C24: An interrupted synchronisation can be resumed. When a request fails, the page keeps its selection and the
  service has some of the new texts; applying the same selection again, to whatever mixture of old and new texts
  is there, leads to the table of prices of an uninterrupted synchronisation.
\<close>

theorem interrupted_sync_resumes:
  assumes "sync_reachable s" "\<forall>f. parsedRatios texts f = JObj (maps f)" "performSync (parsedRatios texts) s = Inr updates"
    "syncMutate reply updates s texts = (s1, texts1)" "\<exists>key \<in> fst ` set updates. reply key = RequestFailed"
  shows "s1 = s \<and> (\<exists>updates1. performSync (parsedRatios texts1) s1 = Inr updates1 \<and>
    price_table (snd (syncMutate (\<lambda>_. Accepted) updates1 s1 texts1)) = price_table (snd (syncMutate (\<lambda>_. Accepted) updates s texts)))"
proof -
  let ?res = "rs_resolutions s" and ?m = "sync_all (rs_resolutions s) maps"
  have res: "resolutions_wf ?res" by (rule reachable_resolutions [OF assms(1)])
  have wf: "maps_wf maps" using parsed_wf [of texts maps] assms(2) by blast
  have m: "maps_wf ?m" using sync_all_update [of ?res UNIV] res wf by (simp add: pricing_update_def resolutions_wf_def)
  have upd: "updates = all_updates (write_maps ?m)" using perform_all [OF res, of texts maps] assms(2,3) by simp
  have "\<not> fst (send_updates reply updates texts)" using assms(5) by (auto simp: send_done list_all_iff)
  then have s1: "s1 = s" "texts1 = snd (send_updates reply updates texts)"
    using assms(4) by (simp_all add: syncMutate_def Let_def case_prod_unfold)
  have "\<exists>kvs. (kvs = maps f \<or> kvs = ?m f) \<and> parsedRatios texts1 f = JObj kvs" for f
  proof -
    have "texts1 f = texts f \<or> texts1 f = write_maps ?m f"
      using send_either [of sync_options reply "write_maps ?m" texts f] by (simp add: s1(2) upd)
    then have "parsedRatios texts1 f = JObj (maps f) \<or> parsedRatios texts1 f = JObj (?m f)"
      using assms(2) parsed_written [OF m, of f] by (auto simp: parsedRatios_def)
    then show ?thesis by blast
  qed
  then obtain maps1 where maps1: "\<And>f. maps1 f = maps f \<or> maps1 f = ?m f" "\<And>f. parsedRatios texts1 f = JObj (maps1 f)" by metis
  have "performSync (parsedRatios texts1) s = Inr (all_updates (write_maps (sync_all ?res maps1)))"
    by (rule perform_all [OF res maps1(2)])
  moreover have "snd (syncMutate (\<lambda>_. Accepted) (all_updates g) s t) = g" for g t
    by (simp only: syncMutate_def send_all Let_def prod.case snd_conv)
  ultimately show ?thesis using resumed_table(2) [OF maps1(1) res wf] by (simp add: s1(1) upd)
qed

definition fail_at_price :: "jsstring \<Rightarrow> option_reply" where
  "fail_at_price key = (if key = ''ModelPrice'' then RequestFailed else Accepted)"

theorem interrupted_sync_resumes_witness:
  "\<exists>updates texts1 updates1. performSync (parsedRatios (write_maps sample_maps)) (price_selected ''b'' (JNum (JDec 3 0))) = Inr updates \<and>
    syncMutate fail_at_price updates (price_selected ''b'' (JNum (JDec 3 0))) (write_maps sample_maps) =
      (price_selected ''b'' (JNum (JDec 3 0)), texts1) \<and>
    performSync (parsedRatios texts1) (price_selected ''b'' (JNum (JDec 3 0))) = Inr updates1"
proof -
  let ?s = "price_selected ''b'' (JNum (JDec 3 0))" and ?t = "write_maps sample_maps"
  have r: "sync_reachable ?s" by (rule price_selected_reachable) simp_all
  have p: "\<forall>f. parsedRatios ?t f = JObj (sample_maps f)" using sample_parsed by blast
  have u: "performSync (parsedRatios ?t) ?s = Inr (all_updates (write_maps (sync_all (rs_resolutions ?s) sample_maps)))" (is "_ = Inr ?u")
    by (rule perform_all [OF reachable_resolutions [OF r] sample_parsed])
  obtain s1 texts1 where m: "syncMutate fail_at_price ?u ?s ?t = (s1, texts1)" by force
  have "\<exists>key \<in> fst ` set ?u. fail_at_price key = RequestFailed" by (simp add: sync_options_def fail_at_price_def)
  from interrupted_sync_resumes [OF r p u m this] u m show ?thesis by blast
qed

text \<open>
  The page asks exactly when a model would be switched: applying a selection opens the dialog with one entry
  for every selected model that goes from ratios to a price per request or back, in the order of the selection,
  and without such a model it starts the synchronisation at once.
\<close>

theorem conflicts_exact:
  assumes "sync_reachable s" "\<forall>f. parsedRatios texts f = JObj (maps f)"
  shows "\<exists>items updates. map ci_model items = map fst (filter (\<lambda>(model, sel). switches maps model sel) (rs_resolutions s)) \<and>
    performSync (parsedRatios texts) s = Inr updates \<and>
    handleApplySync t texts s =
      Inr (if items = [] then (s, Some updates) else (s\<lparr>rs_conflictItems := items, rs_conflictDialogOpen := True\<rparr>, None))"
proof -
  have "list_all (\<lambda>(model, sel). consistent sel) (rs_resolutions s)"
    using sync_reachable_ok [OF assms(1)] by (auto simp: list_all_iff sync_ok_def selection_ok_def)
  then obtain items where "all_results (map (conflict_of t (parsedRatios texts) (rs_differences s)) (rs_resolutions s)) = Inr items"
      "map ci_model (concat items) = map fst (filter (\<lambda>(model, sel). switches maps model sel) (rs_resolutions s))"
    using conflict_items [of "parsedRatios texts" maps] assms(2) by blast
  moreover obtain updates where "performSync (parsedRatios texts) s = Inr updates"
    using perform_all [OF reachable_resolutions [OF assms(1)], of texts maps] assms(2) by blast
  ultimately show ?thesis
    by (intro exI [of _ "concat items"] exI [of _ updates]) (simp add: handleApplySync_def sync_conflicts_def)
qed

theorem conflicts_exact_witness:
  "\<exists>items. map ci_model items = [''b''] \<and>
    handleApplySync (\<lambda>x. x) (write_maps sample_maps) (price_selected ''b'' (JNum (JDec 3 0))) =
      Inr ((price_selected ''b'' (JNum (JDec 3 0)))\<lparr>rs_conflictItems := items, rs_conflictDialogOpen := True\<rparr>, None)"
proof -
  have "sync_reachable (price_selected ''b'' (JNum (JDec 3 0)))" by (rule price_selected_reachable) simp_all
  moreover have "switches sample_maps ''b'' [(''model_price'', JNum (JDec 3 0))]"
    by (simp add: switches_def has_price_def local_ratio_def ratio_options_def sample_maps_def)
  ultimately show ?thesis
    using conflicts_exact [of "price_selected ''b'' (JNum (JDec 3 0))" "write_maps sample_maps" sample_maps "\<lambda>x. x"] sample_parsed
    by (fastforce simp: price_selected_fields)
qed

text \<open>
  Selecting a price per request or ratios for a model that is billed by an expression has no effect on how it
  is billed: the synchronisation is reported as done and the selected differences are gone from the page, but
  the model keeps its mode \<open>tiered_expr\<close> and its expression, and the price table still shows it as tiered.
\<close>

theorem tiered_model_stays:
  assumes "sync_reachable s" "\<forall>f. parsedRatios texts f = JObj (maps f)" "map_of (rs_resolutions s) model = Some sel"
    "map_of sel ''billing_mode'' = None" "map_of (maps BillingMode) model = Some (JStr ''tiered_expr'')"
    "performSync (parsedRatios texts) s = Inr updates" "syncMutate (\<lambda>_. Accepted) updates s texts = (s', texts')"
  shows "price_table texts' model BillingMode = Some (JStr ''tiered_expr'') \<and>
    price_table texts' model BillingExpr = map_of (maps BillingExpr) model \<and>
    (\<forall>rows r. buildModelSnapshots texts' = Inr rows \<longrightarrow> r \<in> set rows \<longrightarrow> sn_name r = model \<longrightarrow> sn_billingMode r = ''tiered_expr'') \<and>
    (\<forall>md rt. map_of (rs_differences s') model = Some md \<longrightarrow> map_of sel rt \<noteq> None \<longrightarrow> map_of md rt = None)"
proof -
  let ?m = "sync_all (rs_resolutions s) maps"
  have res: "resolutions_wf (rs_resolutions s)" by (rule reachable_resolutions [OF assms(1)])
  have wf: "maps_wf maps" using parsed_wf [of texts maps] assms(2) by blast
  have m: "maps_wf ?m" using sync_all_update [of "rs_resolutions s" UNIV] res wf by (simp add: pricing_update_def resolutions_wf_def)
  have "updates = all_updates (write_maps ?m)" using perform_all [OF res, of texts maps] assms(2,6) by simp
  then have t: "texts' = write_maps ?m" "s' = sync_onSuccess s"
    using assms(7) by (simp_all only: syncMutate_def send_all Let_def prod.case if_True prod.inject)
  have "map_of sel ''billing_expr'' = None"
    using sync_reachable_ok [OF assms(1)] assms(3,4) unfolding sync_ok_def selection_ok_def consistent_def by blast
  then have b: "price_table texts' model BillingMode = Some (JStr ''tiered_expr'')"
      "price_table texts' model BillingExpr = map_of (maps BillingExpr) model"
    using all_table [OF res wf] assms(3-5) by (simp_all add: t sync_table_def synced_prices_def entry_def removed_def ratio_options_def)
  have "sn_billingMode r = ''tiered_expr''"
    if built: "buildModelSnapshots texts' = Inr rows" and r: "r \<in> set rows" "sn_name r = model" for rows r
  proof -
    have s: "snapshots_of ?m = Inr rows" using built m by (simp add: t build_written)
    then obtain n where n: "n \<in> set (model_names ?m)" "r = row_at ?m n" "\<not> isl (snapshot_of ?m n)"
      using r(1) by (auto simp: snapshots_of_rows)
    then have "n = model" using r(2) row_at_name [of ?m n] by simp
    moreover have "map_of (?m BillingMode) model = Some (JStr ''tiered_expr'')" using b(1) price_table_written [OF m] t by simp
    ultimately show ?thesis using n by (auto simp: row_at_def snapshot_of_def Let_def split: sum.splits)
  qed
  moreover have "map_of md rt = None" if "map_of (rs_differences s') model = Some md" "map_of sel rt \<noteq> None" for md rt
    using resolved_gone [OF sync_reachable_ok [OF assms(1)] assms(3) that(2)] that(1) by (simp add: t(2))
  ultimately show ?thesis using b by blast
qed

definition tiered_maps :: pricing_maps where
  "tiered_maps f = (if f = BillingMode then [(''b'', JStr ''tiered_expr'')] else if f = BillingExpr then [(''b'', JStr ''p * 1'')] else [])"

theorem tiered_model_stays_witness:
  "\<exists>updates. performSync (parsedRatios (write_maps tiered_maps)) (price_selected ''b'' (JNum (JDec 3 0))) = Inr updates \<and>
    price_table (snd (syncMutate (\<lambda>_. Accepted) updates (price_selected ''b'' (JNum (JDec 3 0))) (write_maps tiered_maps))) ''b'' BillingMode =
      Some (JStr ''tiered_expr'')"
proof -
  let ?s = "price_selected ''b'' (JNum (JDec 3 0))" and ?t = "write_maps tiered_maps"
  have wf: "maps_wf tiered_maps" by (simp add: maps_wf_def tiered_maps_def obj_wf_def no_index_order is_array_index_def is_digit_def)
  have r: "sync_reachable ?s" by (rule price_selected_reachable) simp_all
  have p: "\<forall>f. parsedRatios ?t f = JObj (tiered_maps f)" using parsed_written [OF wf] by blast
  have sel: "map_of (rs_resolutions ?s) ''b'' = Some [(''model_price'', JNum (JDec 3 0))]"
    "map_of [(''model_price'', JNum (JDec 3 0))] ''billing_mode'' = None" "map_of (tiered_maps BillingMode) ''b'' = Some (JStr ''tiered_expr'')"
    by (simp_all add: price_selected_fields tiered_maps_def)
  obtain updates where u: "performSync (parsedRatios ?t) ?s = Inr updates"
    using perform_all [OF reachable_resolutions [OF r], of ?t tiered_maps] p by blast
  obtain s' t' where "syncMutate (\<lambda>_. Accepted) updates ?s ?t = (s', t')" by force
  with tiered_model_stays [OF r p sel u this] u show ?thesis by auto
qed

text \<open>
  A refusal of the service is taken for success: when every request is answered without success, no text of
  the service changes, yet the page drops the selection and the selected differences as after a synchronisation.
\<close>

theorem refusal_reported_as_success:
  assumes "sync_reachable s" "\<And>key. reply key = Refused" "map_of (rs_resolutions s) model = Some sel" "map_of sel rt \<noteq> None"
    "syncMutate reply updates s texts = (s', texts')"
  shows "texts' = texts \<and> rs_resolutions s' = [] \<and>
    (\<forall>md. map_of (rs_differences s') model = Some md \<longrightarrow> map_of md rt = None)"
proof -
  have "send_updates reply updates texts = (True, texts)" by (rule send_refused [OF assms(2)])
  then have s': "s' = sync_onSuccess s" "texts' = texts" using assms(5) by (simp_all add: syncMutate_def)
  then show ?thesis using resolved_gone [OF sync_reachable_ok [OF assms(1)] assms(3,4)] by (auto simp: sync_onSuccess_def)
qed

theorem refusal_reported_as_success_witness:
  "rs_differences (price_selected ''b'' (JNum (JDec 3 0))) \<noteq> [] \<and>
   rs_resolutions (fst (syncMutate (\<lambda>_. Refused) [(''ModelPrice'', ''{}'')] (price_selected ''b'' (JNum (JDec 3 0))) (write_maps sample_maps))) = [] \<and>
   snd (syncMutate (\<lambda>_. Refused) [(''ModelPrice'', ''{}'')] (price_selected ''b'' (JNum (JDec 3 0))) (write_maps sample_maps)) = write_maps sample_maps"
proof -
  let ?s = "price_selected ''b'' (JNum (JDec 3 0))"
  have r: "sync_reachable ?s" by (rule price_selected_reachable) simp_all
  have sel: "map_of (rs_resolutions ?s) ''b'' = Some [(''model_price'', JNum (JDec 3 0))]" by (simp add: price_selected_fields)
  obtain s' t' where m: "syncMutate (\<lambda>_. Refused) [(''ModelPrice'', ''{}'')] ?s (write_maps sample_maps) = (s', t')" by force
  show ?thesis using refusal_reported_as_success [OF r refl sel _ m, of "''model_price''"] m
    by (simp add: price_selected_fields price_difference_def)
qed

text \<open>
  A custom endpoint cannot be entered: from a row without the field for it, no sequence of choices in the
  list of endpoint types makes the field appear; choosing \<open>custom\<close> shows and uses the default endpoint instead.
\<close>

theorem custom_endpoint_unreachable:
  assumes "snd (endpoint_cell e i) = None" "set choices \<subseteq> set ENDPOINT_OPTIONS"
  shows "snd (endpoint_cell (fold (endpoint_handleTypeChange i) choices e) i) = None \<and>
    endpoint_cell (endpoint_handleTypeChange i ''custom'' (fold (endpoint_handleTypeChange i) choices e)) i = (DEFAULT_ENDPOINT, None)"
proof
  have c: "endpoint_cell (endpoint_handleTypeChange i ''custom'' e) i = (DEFAULT_ENDPOINT, None)" for e
    by (simp add: endpoint_cell_def endpoint_handleTypeChange_def updateEndpoint_def current_endpoint_def getEndpointType_def
        ENDPOINT_OPTIONS_def DEFAULT_ENDPOINT_def)
  have o': "snd (endpoint_cell (endpoint_handleTypeChange i x e) i) = None" if "x \<in> set ENDPOINT_OPTIONS" for x e
  proof (cases "x = ''custom''")
    case False
    with that show ?thesis
      by (auto simp: endpoint_cell_def endpoint_handleTypeChange_def updateEndpoint_def current_endpoint_def getEndpointType_def
          ENDPOINT_OPTIONS_def OPENROUTER_ENDPOINT_def)
  qed (use c in simp)
  from assms show "snd (endpoint_cell (fold (endpoint_handleTypeChange i) choices e) i) = None"
    by (induction choices arbitrary: e) (simp_all add: o')
  show "endpoint_cell (endpoint_handleTypeChange i ''custom'' (fold (endpoint_handleTypeChange i) choices e)) i = (DEFAULT_ENDPOINT, None)"
    by (rule c)
qed

theorem custom_endpoint_unreachable_witness:
  "snd (endpoint_cell (fold (endpoint_handleTypeChange 7) [''openrouter'', ''custom''] (\<lambda>_. None)) 7) = None"
proof -
  have "snd (endpoint_cell (\<lambda>_. None) 7) = None" "set [''openrouter'', ''custom''] \<subseteq> set ENDPOINT_OPTIONS" by code_simp+
  from custom_endpoint_unreachable [OF this] show ?thesis ..
qed

end
