(* ===== verification/Spec2Isabelle.thy ===== *)
theory Spec2Isabelle
  imports StatusCodeRules StatusCodeRiskGuard ModelMapping ChannelUtils RequestRuleProofs TierProofs PlaygroundSession
    PricingPanel ParamOverrideSession ChannelFormProofs ChannelEffects TieredEditorSession RatioSyncSession
begin

text \<open>
  \<^bold>\<open>The console of the API gateway\<close>

  The gateway forwards requests to AI providers. Its administrators and users work with the web console
  in \<open>src/web/default/src\<close>, written in TypeScript and React. The console is where the configuration of the
  gateway is made: which status codes disable or redirect a channel, which models a channel offers under
  which names, and what a model costs, as ratios, as a price per request or as an expression with
  tiers and request rules. It also has a playground in which a user chats with a model. All of these
  are texts that the console parses, shows, edits and prints again, or a conversation that it assembles
  from a stream of events and keeps in the storage of the browser. This development models that logic
  and proves that what is printed reads back, that an edit changes exactly what it is about, and that the
  state the user sees is the state that is stored.

  \<^bold>\<open>Theories\<close>

  \<^item> \<open>Prelude\<close>, \<open>JsNumber\<close>, \<open>Json\<close>, \<open>JsonPretty\<close>, \<open>JsValue\<close>, \<open>JsRegex\<close>: what the sources use of JavaScript.
    Strings are lists of bytes with \<open>trim\<close>, \<open>split\<close>, \<open>join\<close> and \<open>replaceAll\<close>; numbers are canonical decimals with the
    printing and reading of \<open>Number\<close>; \<open>JSON.parse\<close> and \<open>JSON.stringify\<close> (plain and indented) with the
    property order of objects; truthiness, property access and spread; backtracking regular
    expressions with captures. The locales \<open>normal_form\<close>, \<open>codec\<close> and \<open>grouping\<close> of \<open>Prelude\<close> are the contracts the
    components share; both printers of JSON are interpretations of \<open>codec\<close>.
  \<^item> \<open>StatusCodeRules\<close> (\<open>lib/http-status-code-rules.ts\<close>): parsing, merging and printing of rules such as
    \<open>401,500-599\<close>; the merged list is the normal form of a set of codes (an interpretation of
    \<open>normal_form\<close>).
  \<^item> \<open>StatusCodeRiskGuard\<close> (\<open>channels/lib/status-code-risk-guard.ts\<close>) and \<open>ModelMapping\<close>
    (\<open>channels/lib/model-mapping-validation.ts\<close>): the checks a channel passes before it is saved.
  \<^item> \<open>ChannelData\<close>, \<open>ChannelUtils\<close> (\<open>channels/types.ts\<close>, \<open>constants.ts\<close>, \<open>lib/channel-utils.ts\<close>): the records of channels,
    labels, key handling, balances and the table that groups channels by tag (an interpretation of
    \<open>grouping\<close>).
  \<^item> \<open>RequestRules\<close>, \<open>RequestRuleProofs\<close> (\<open>pricing/lib/billing-expr.ts\<close>): request rules as conditions with
    multipliers, their expression syntax and the split of a billing expression into base and rules.
  \<^item> \<open>BillingTiers\<close>, \<open>TierExpr\<close>, \<open>TierProofs\<close> (\<open>pricing/lib/billing-expr.ts\<close>, \<open>pricing/lib/tier-expr.ts\<close>): tiers as the pricing
    page reads them and as the visual editor writes and reads them.
  \<^item> \<open>PricingFormat\<close> (\<open>system-settings/models/pricing-format.ts\<close>, \<open>utils/json-parser.ts\<close>), \<open>ModelPricing\<close>, \<open>ModelPricingProofs\<close>
    (\<open>model-pricing-snapshots.ts\<close>, \<open>model-ratio-visual-editor.tsx\<close>), \<open>PricingPanel\<close> (\<open>model-pricing-core.ts\<close>,
    \<open>model-pricing-sheet.tsx\<close>): the prices of all models as ten JSON texts, the table read from them, deleting and
    saving, and the panel that edits one model. Deleting and saving are interpretations of the
    locale \<open>pricing_update\<close>; the edits of the panel are the relation \<open>panel_edit\<close>.
  \<^item> \<open>PlaygroundMessages\<close>, \<open>PlaygroundStorage\<close>, \<open>PlaygroundChat\<close>, \<open>PlaygroundProofs\<close>, \<open>PlaygroundSession\<close>
    (\<open>playground/lib\<close>, \<open>playground/hooks\<close>, \<open>playground/index.tsx\<close>): messages and think tags, the three texts in the storage
    (interpretations of the locale \<open>persisted\<close>), the handlers of the stream and of the page on one state, and
    sessions as the step relation \<open>pg_step\<close>.
  \<^item> \<open>ParamOverride\<close>, \<open>ParamOverrideEditor\<close>, \<open>ParamOverrideProofs\<close>, \<open>ParamOverrideSession\<close>
    (\<open>channels/components/dialogs/param-override-editor-dialog.tsx\<close>): the rules that rewrite the requests of a channel, their
    JSON text, the structured values of some modes, the templates, and the dialog with all its handlers as the
    step relation \<open>ov_action\<close>. The identifiers of rules and conditions are an interpretation of the locale \<open>id_supply\<close>.
  \<^item> \<open>ChannelForm\<close>, \<open>ChannelDrawer\<close>, \<open>ChannelFormProofs\<close>, \<open>ChannelEffects\<close> (\<open>channels/lib/channel-form.ts\<close>, \<open>lib/channel-form-errors.ts\<close>,
    \<open>components/drawers/channel-mutate-drawer.tsx\<close>, \<open>hooks/use-channel-mutate-form.ts\<close>): the form of a channel with its schema, the payloads
    that create and update a channel and the texts of its settings; the drawer with its handlers, the guards of a
    submission, and its four effects. A rendering (\<open>drawer_commit\<close>) runs the effects whose dependency list has
    changed since the rendering before; \<open>drawer_reachable\<close> are the states at rest.
  \<^item> \<open>TieredEditor\<close>, \<open>TieredEditorProofs\<close>, \<open>TieredEditorSession\<close> (\<open>system-settings/models/tiered-pricing-editor.tsx\<close>): the editor of
    tiers and rules with its number fields, templates, both modes and the effects that keep its two texts in the panel; a
    rendering is \<open>te_commit\<close>.
  \<^item> \<open>RatioSync\<close>, \<open>RatioSyncProofs\<close>, \<open>RatioSyncSession\<close> (\<open>system-settings/models/upstream-ratio-sync.tsx\<close> with \<open>-helpers\<close>, \<open>-table\<close>,
    \<open>-columns\<close>, \<open>channel-selector-dialog.tsx\<close>, \<open>conflict-confirm-dialog.tsx\<close>): the differences to other instances, the selection of values,
    the conflicts and the update of the ten price texts, which keeps the contract of \<open>pricing_update\<close> for every
    selection that can be made (\<open>sync_all_update\<close>); sessions
    of the page are the relation \<open>sync_reachable\<close>.

  The parts meet in a few places: the price table splits the expression of a model with \<open>RequestRules\<close>, the
  panel formats numbers with \<open>PricingFormat\<close>, the tiers of \<open>TierExpr\<close> are printed by the editor and read by the
  pricing page through \<open>BillingTiers\<close>, the tiered editor splits and combines its text with \<open>RequestRules\<close> and prints tiers with \<open>TierExpr\<close>, the
  synchronisation writes the texts the price table reads, the drawer submits through the guards of \<open>StatusCodeRiskGuard\<close> and
  \<open>ModelMapping\<close>, and the playground saves every change through \<open>PlaygroundStorage\<close>.

  \<^bold>\<open>What is shown\<close>

  \<^item> Playground: a streamed answer equals the answer of one response with the same text, whatever the chunks,
    every end of the stream settles it, errors are final, keys stay distinct, and in every
    reachable state a reload restores the session.
  \<^item> Billing expressions: rules, combined expressions and visual tiers read back as they were written, on the
    inputs the editors produce, and the pricing page shows the tiers of the editor.
  \<^item> Prices: deleting and saving update the table read back from the texts for exactly the chosen
    models; the panel saves what it shows; entered prices survive saving and opening; the table
    of drafts marks exactly the changed models.
  \<^item> Tiered editor: from any state its effects settle; what it saved it opens; edits in the visual mode stay and reach
    the panel; looking at the expression changes nothing, for tiers and rules that can be read.
  \<^item> Synchronisation of prices: selections stay consistent, applying one is the update of the price table for the
    selected models, the dialog asks exactly for the models that are switched, and an interrupted
    synchronisation can be resumed.
  \<^item> Channels: the meaning, normal form and bounds of status code rules, the exactness of the guards and of
    the mapping checks, the totals and the partition of the table by tag; a submission has passed every guard, the
    settings it writes are exact, a saved form reopens, the effects of the drawer settle and correct an edit as stated, and
    the warnings are compared with the questions of the submission.
  \<^item> Parameter overrides: in every reachable state of the dialog the rules are typed, their identifiers differ and
    one is selected; what is saved reopens as the same rules; a drop moves exactly one rule; the
    structured errors read back.
  \<^item> Where the code does not do what it means to, a theorem states what it does: guarded conditions that
    are not read back, an escape that throws, a cut close tag, a stream without end marker, a request
    price that outlives a change of the mode, edits of prune rules that are lost, a text value that
    becomes a number, a \<open>null\<close> that throws; expressions the tiered editor loses, prices it writes over those of another
    model, templates without their price, rules stored twice; a form that keeps the key of the channel just created; a
    synchronisation that leaves a tiered model as it was, takes a refusal for success or offers a
    custom endpoint that cannot be entered.

  \<^bold>\<open>Bounds\<close>

  \<open>json_parse\<close> gives the parser a fuel of twice the length of the text plus two; \<open>json_fuel_irrelevant\<close> shows
  that any fuel from twice the length plus one gives the same result, so \<open>None\<close> always is a syntax error. The
  matcher of regular expressions has its own measure. Loops of the sources with a moving position, such as the
  search for think tags, are functions with a termination proof. The renderings of the two components with effects
  are iterated by a number: five renderings settle the tiered editor (\<open>editor_settles\<close>) and three the drawer
  (\<open>effects_settle\<close>), from every state, and no later rendering changes anything.

  \<^bold>\<open>Abstractions\<close>

  Numbers are exact decimals and, in the pricing settings, exact rationals: rounding of binary floating point is
  not computed. Where the sources remove its traces (\<open>snapFloatDrift\<close>), the results are shown for every value within
  the drift they tolerate (\<open>drifted\<close>). React is modelled by its rule for effects: they see the values of their rendering, run in the
  order of the source, and run when a value they watch has changed. Where a theorem needs the service, it
  stores what it accepts and returns what was sent; this is a premise or an argument. Strings are bytes of UTF-8, so lengths and indices agree with the sources on ASCII
  text. Collation (\<open>localeCompare\<close>), fresh identifiers (\<open>nanoid\<close>), the clock in the
  identifiers of rules, translation (\<open>t\<close>), time, the quota of the
  storage and the responses of the service are parameters or inputs.

  \<^bold>\<open>Not modelled\<close>

  The view React renders, routing, styles and translations; the queries and mutations that only pass
  responses on; the tables and forms of users, keys, logs, wallet, subscriptions and dashboard; the labels and
  placeholders of the dialogs and the dialogs of a channel other than the override editor; revealing and
  refreshing a key and fetching models in the drawer; the cost estimate, which hands the expression to a
  generated JavaScript function, and the prompt for a language model in the tiered editor; the previous
  console in \<open>web/classic\<close>; and the service itself, which is written in Go.
\<close>

end
